(* ===== verification/Prelude.thy ===== *)
theory Prelude
  imports Main "HOL-Library.Word"
begin

text \<open>
  What the components share: names of the machine types, the little-endian
  reading of byte strings, the splitting of a byte string into blocks, and the
  lemmas on lists and words that carry the component proofs.

  \<open>u8\<close>, \<open>u16\<close>, \<open>u32\<close> and \<open>u64\<close> are the C types \<open>uint8_t\<close> to \<open>uint64_t\<close>;
  \<open>size_t\<close> and \<open>unsigned long\<close> are 32 bits wide on the ESP32. A C buffer is a
  list of bytes, and the length of an object in memory is a \<open>nat\<close>.
\<close>

unbundle bit_operations_syntax

type_synonym u8 = "8 word"
type_synonym u16 = "16 word"
type_synonym u32 = "32 word"
type_synonym u64 = "64 word"
type_synonym bytes = "u8 list"

named_theorems length_simps "lengths of the byte strings the operations produce"
named_theorems unat_simps "readings of words as natural numbers"
named_theorems frame_simps "fields an operation leaves alone"

subsection \<open>Words read as natural numbers\<close>

lemma unat_less_2p: "unat (x :: 'a::len word) < 2 ^ LENGTH('a)"
  by (rule unsigned_less)

lemma unat_u8_less [simp]: "unat (x :: u8) < 256"
  using unat_less_2p [of x] by simp

lemma unat_u32_less [simp]: "unat (x :: u32) < 4294967296"
  using unat_less_2p [of x] by simp

lemma unat_u64_less [simp]: "unat (x :: u64) < 18446744073709551616"
  using unat_less_2p [of x] by simp

lemma unat_ucast_up:
  "LENGTH('a::len) \<le> LENGTH('b::len) \<Longrightarrow> unat (ucast (x :: 'a word) :: 'b word) = unat x"
  by (simp add: unsigned_ucast_eq take_bit_nat_eq_self_iff less_le_trans [OF unat_less_2p])

lemma unat_ucast_mod:
  "unat (ucast (x :: 'a::len word) :: 'b::len word) = unat x mod 2 ^ LENGTH('b)"
  by (simp add: unsigned_ucast_eq take_bit_eq_mod)

lemma unat_push_bit:
  "unat (push_bit n (x :: 'a::len word)) = unat x * 2 ^ n mod 2 ^ LENGTH('a)"
  unfolding unsigned_push_bit_eq by (simp only: push_bit_eq_mult take_bit_eq_mod)

lemma unat_drop_bit: "unat (drop_bit n (x :: 'a::len word)) = unat x div 2 ^ n"
  unfolding unat_drop_bit_eq by (simp only: drop_bit_eq_div)

lemma unat_or: "unat (x OR y) = unat x OR unat (y :: 'a::len word)"
  by (simp add: unsigned_or_eq)

lemma unat_and: "unat (x AND y) = unat x AND unat (y :: 'a::len word)"
  by (simp add: unsigned_and_eq)

lemma unat_add: "unat (x + y) = (unat x + unat y) mod 2 ^ LENGTH('a)" for x y :: "'a::len word"
  by (simp add: unat_word_ariths)

lemma unat_mult: "unat (x * y) = (unat x * unat y) mod 2 ^ LENGTH('a)" for x y :: "'a::len word"
  by (simp add: unat_word_ariths)

lemma unat_add_small:
  "unat x + unat y < 2 ^ LENGTH('a) \<Longrightarrow> unat (x + y) = unat x + unat y" for x y :: "'a::len word"
  by (simp add: unat_add)

lemma unat_mult_small:
  "unat x * unat y < 2 ^ LENGTH('a) \<Longrightarrow> unat (x * y) = unat x * unat y" for x y :: "'a::len word"
  by (simp add: unat_mult)

lemma nat_and_mask: "n AND (2 ^ k - 1) = n mod 2 ^ k" for n :: nat
  by (simp add: take_bit_eq_mod [symmetric] take_bit_eq_mask mask_eq_exp_minus_1)

lemma nat_or_add: "x < 2 ^ n \<Longrightarrow> x OR (y * 2 ^ n) = x + y * 2 ^ n" for x y :: nat
proof -
  assume "x < 2 ^ n"
  then have "take_bit n x = x" by (simp add: take_bit_nat_eq_self)
  then have "\<not> bit x i \<or> \<not> bit (push_bit n y) i" for i
    by (metis bit_push_bit_iff bit_take_bit_iff leD)
  then show ?thesis
    by (simp add: disjunctive_add push_bit_eq_mult [symmetric])
qed

lemma word_xor_eq_0: "x XOR y = 0 \<longleftrightarrow> x = y" for x y :: "'a::len word"
  by (metis xor.assoc xor.left_neutral xor_self_eq)

lemma word_or_eq_0: "x OR y = 0 \<longleftrightarrow> x = 0 \<and> y = 0" for x y :: "'a::len word"
  by (auto simp: bit_eq_iff bit_simps)

text \<open>An unsigned addition wrapped exactly if the result is below an operand.\<close>

lemma mod_add_less_iff:
  fixes m c M :: nat
  assumes "m < M" "c < M"
  shows "(m + c) mod M < c \<longleftrightarrow> M \<le> m + c"
proof (cases "M \<le> m + c")
  case True
  then have "(m + c) mod M = m + c - M"
    using assms by (simp add: mod_if)
  with True assms show ?thesis by simp
qed simp

lemma div_add_carry:
  fixes n c M :: nat
  assumes "c < M"
  shows "(n + c) div M = n div M + (if M \<le> n mod M + c then 1 else 0)"
proof -
  have "(n + c) div M = n div M + (n mod M + c) div M"
    using div_add1_eq [of n c M] assms by simp
  moreover have "(n mod M + c) div M = (if M \<le> n mod M + c then 1 else 0)"
  proof (cases "M \<le> n mod M + c")
    case True
    have "n mod M < M" using assms by simp
    with True assms have "n mod M + c - M < M" by linarith
    moreover have "(n mod M + c) div M = Suc ((n mod M + c - M) div M)"
      using True assms by (intro le_div_geq) simp_all
    ultimately show ?thesis using True by simp
  next
    case False
    then show ?thesis by simp
  qed
  ultimately show ?thesis by simp
qed

subsection \<open>Byte strings read as little-endian numbers\<close>

fun le_val :: "bytes \<Rightarrow> nat" where
  "le_val [] = 0"
| "le_val (b # bs) = unat b + 256 * le_val bs"

fun le_bytes :: "nat \<Rightarrow> nat \<Rightarrow> bytes" where
  "le_bytes 0 n = []"
| "le_bytes (Suc k) n = word_of_nat n # le_bytes k (n div 256)"

lemma le_val_bound: "le_val bs < 256 ^ length bs"
proof (induction bs)
  case (Cons b bs)
  then have "le_val bs + 1 \<le> 256 ^ length bs" by simp
  then have "256 * (le_val bs + 1) \<le> 256 * 256 ^ length bs" by (rule mult_le_mono2)
  moreover have "unat b < 256" by simp
  ultimately show ?case by (simp del: unat_u8_less)
qed simp

lemma le_val_append: "le_val (xs @ ys) = le_val xs + 256 ^ length xs * le_val ys"
  by (induction xs) (simp_all add: algebra_simps)

lemma le_val_replicate_0 [simp]: "le_val (replicate n 0) = 0"
  by (induction n) auto

lemma length_le_bytes [simp, length_simps]: "length (le_bytes k n) = k"
  by (induction k arbitrary: n) auto

lemma le_val_le_bytes: "le_val (le_bytes k n) = n mod 256 ^ k"
proof (induction k arbitrary: n)
  case (Suc k)
  have "n mod (256 * 256 ^ k) = 256 * (n div 256 mod 256 ^ k) + n mod 256"
    by (simp add: mod_mult2_eq)
  then show ?case by (simp add: Suc unat_of_nat)
qed simp

lemma le_bytes_le_val [simp]: "le_bytes (length bs) (le_val bs) = bs"
proof (induction bs)
  case (Cons b bs)
  have "word_of_nat 256 * word_of_nat (le_val bs) = (0 :: u8)"
    by (simp only: word_unat_eq_iff unat_mult unat_of_nat) simp
  then have "word_of_nat (unat b + 256 * le_val bs) = b"
    by simp
  with Cons show ?case by simp
qed simp

lemma le_val_inj: "length xs = length ys \<Longrightarrow> le_val xs = le_val ys \<Longrightarrow> xs = ys"
  by (metis le_bytes_le_val)

lemma le_val_drop: "le_val (drop k bs) = le_val bs div 256 ^ k"
proof (induction k arbitrary: bs)
  case (Suc k)
  then show ?case
    by (cases bs) (simp_all add: div_mult2_eq)
qed simp

lemma le_val_take: "le_val (take k bs) = le_val bs mod 256 ^ k"
proof (induction k arbitrary: bs)
  case (Suc k)
  show ?case
  proof (cases bs)
    case (Cons b bs')
    have "le_val bs mod 256 ^ Suc k = 256 * (le_val bs div 256 mod 256 ^ k) + le_val bs mod 256"
      by (simp add: mod_mult2_eq)
    with Cons Suc show ?thesis by simp
  qed simp
qed simp

lemma le_bytes_mod: "le_bytes k (n mod 256 ^ k) = le_bytes k n"
  by (rule le_val_inj) (simp_all add: le_val_le_bytes)

text \<open>\<open>memcpy\<close> of \<open>xs\<close> to offset \<open>off\<close> of a buffer that has the room.\<close>

definition buf_write :: "bytes \<Rightarrow> nat \<Rightarrow> bytes \<Rightarrow> bytes" where
  "buf_write buf off xs = take off buf @ xs @ drop (off + length xs) buf"

lemma length_buf_write [simp, length_simps]:
  "off + length xs \<le> length buf \<Longrightarrow> length (buf_write buf off xs) = length buf"
  by (simp add: buf_write_def)

lemma take_buf_write [simp]:
  "off + length xs \<le> length buf \<Longrightarrow> take (off + length xs) (buf_write buf off xs) = take off buf @ xs"
  by (simp add: buf_write_def)

text \<open>Zeroing the tail of a buffer byte by byte.\<close>

lemma zeroed_from:
  "k \<le> length b \<Longrightarrow> fold (\<lambda>i b. b[i := 0]) [k..<length b] b = take k b @ replicate (length b - k) 0"
proof (induction "length b - k" arbitrary: k b)
  case (Suc n)
  then have "fold (\<lambda>i b. b[i := 0]) [Suc k..<length (b[k := 0])] (b[k := 0]) =
      take (Suc k) (b[k := 0]) @ replicate (length b - Suc k) 0"
    using Suc.hyps(1) [of "b[k := 0]" "Suc k"] by simp
  moreover have "take (Suc k) (b[k := 0]) = take k b @ [0]"
    using Suc by (simp add: take_Suc_conv_app_nth)
  moreover have "length b - k = Suc (length b - Suc k)" "k < length b" using Suc by simp_all
  ultimately show ?case by (simp add: upt_conv_Cons)
qed simp

subsection \<open>Blocks\<close>

text \<open>\<open>blocks n xs\<close> cuts \<open>xs\<close> into blocks of \<open>n\<close> bytes, the last one possibly shorter.\<close>

function blocks :: "nat \<Rightarrow> 'a list \<Rightarrow> 'a list list" where
  "blocks n xs = (if n = 0 \<or> xs = [] then [] else take n xs # blocks n (drop n xs))"
  by pat_completeness auto
termination
  by (relation "measure (\<lambda>(n, xs). length xs)") auto

declare blocks.simps [simp del]

lemma blocks_Nil [simp]: "blocks n [] = []"
  by (simp add: blocks.simps)

lemma blocks_append_full: "length xs = n \<Longrightarrow> 0 < n \<Longrightarrow> blocks n (xs @ ys) = xs # blocks n ys"
  by (subst blocks.simps) auto

lemma length_append_mod:
  "length xs mod n = 0 \<Longrightarrow> length ys mod n = 0 \<Longrightarrow> length (xs @ ys) mod n = 0"
  by (simp add: mod_eq_0_iff_dvd)

lemma blocks_append: "length xs mod n = 0 \<Longrightarrow> 0 < n \<Longrightarrow> blocks n (xs @ ys) = blocks n xs @ blocks n ys"
proof (induction n xs rule: blocks.induct)
  case (1 n xs)
  show ?case
  proof (cases "xs = []")
    case False
    with 1 have n: "n \<le> length xs" by (metis length_0_conv mod_less not_le)
    have d: "blocks n (drop n xs @ ys) = blocks n (drop n xs) @ blocks n ys"
      using 1 False n by (intro "1.IH") (simp_all add: le_mod_geq)
    have "blocks n (xs @ ys) = take n xs # blocks n (drop n xs @ ys)"
      using 1 False n by (subst blocks.simps) simp
    moreover have "blocks n xs = take n xs # blocks n (drop n xs)"
      using 1 False by (subst blocks.simps) simp
    ultimately show ?thesis using d by simp
  qed simp
qed

lemma blocks_short: "xs \<noteq> [] \<Longrightarrow> length xs \<le> n \<Longrightarrow> blocks n xs = [xs]"
  by (cases xs) (auto simp: blocks.simps)

lemma concat_blocks: "0 < n \<Longrightarrow> concat (blocks n xs) = xs"
proof (induction n xs rule: blocks.induct)
  case (1 n xs)
  then show ?case by (subst blocks.simps) auto
qed

subsection \<open>Bytewise exclusive or\<close>

definition xor_bytes :: "bytes \<Rightarrow> bytes \<Rightarrow> bytes" where
  "xor_bytes xs ys = map2 (XOR) xs ys"

lemma length_xor_bytes [simp, length_simps]:
  "length (xor_bytes xs ys) = min (length xs) (length ys)"
  by (simp add: xor_bytes_def)

lemma nth_xor_bytes [simp]:
  "i < length xs \<Longrightarrow> i < length ys \<Longrightarrow> xor_bytes xs ys ! i = xs ! i XOR ys ! i"
  by (simp add: xor_bytes_def)

lemma xor_bytes_twice: "length xs \<le> length ys \<Longrightarrow> xor_bytes (xor_bytes xs ys) ys = xs"
  by (rule nth_equalityI) (auto simp: xor.assoc)

subsection \<open>Interface: absorbing a message in pieces\<close>

text \<open>
  The hash and the one-time authenticator are used the same way: start from a
  key, absorb the message in as many pieces as the caller likes, finish. What the
  callers rely on is one law: the result is a digest of the concatenated pieces.
\<close>

locale absorbing =
  fixes start :: "'k \<Rightarrow> 's"
    and absorb :: "'s \<Rightarrow> bytes \<Rightarrow> 's"
    and finish :: "'s \<Rightarrow> bytes"
    and usable :: "'k \<Rightarrow> bool"
    and digest :: "'k \<Rightarrow> bytes \<Rightarrow> bytes"
  assumes absorbed:
    "usable k \<Longrightarrow> finish (foldl absorb (start k) parts) = digest k (concat parts)"
begin

lemma absorb_none: "usable k \<Longrightarrow> finish (start k) = digest k []"
  using absorbed [of k "[]"] by simp

lemma absorb_one: "usable k \<Longrightarrow> finish (absorb (start k) a) = digest k a"
  using absorbed [of k "[a]"] by simp

lemma absorb_two: "usable k \<Longrightarrow> finish (absorb (absorb (start k) a) b) = digest k (a @ b)"
  using absorbed [of k "[a, b]"] by simp

lemma absorb_six:
  "usable k \<Longrightarrow>
   finish (absorb (absorb (absorb (absorb (absorb (absorb (start k) a) b) c) d) e) f) =
   digest k (a @ b @ c @ d @ e @ f)"
  using absorbed [of k "[a, b, c, d, e, f]"] by simp

lemma pieces_irrelevant:
  "usable k \<Longrightarrow> concat parts = concat parts' \<Longrightarrow>
   finish (foldl absorb (start k) parts) = finish (foldl absorb (start k) parts')"
  by (simp add: absorbed)

end

end
