(* ===== verification/Crypto_Util.thy ===== *)
theory Crypto_Util
  imports Prelude
begin

text \<open>
  \<open>crypto.h\<close> and \<open>crypto.c\<close>: the endian macros, the wiping of a buffer and the
  comparison of two buffers without an early exit. The lemmas tie each macro to
  the little-endian value of the bytes it reads or writes, and show that the
  comparison decides equality.
\<close>

unbundle bit_operations_syntax

subsection \<open>Endian macros\<close>

definition U8TO32_LITTLE :: "bytes \<Rightarrow> u32" where
  "U8TO32_LITTLE p =
     ucast (p ! 0) OR
     push_bit 8 (ucast (p ! 1)) OR
     push_bit 16 (ucast (p ! 2)) OR
     push_bit 24 (ucast (p ! 3))"

definition U8TO64_LITTLE :: "bytes \<Rightarrow> u64" where
  "U8TO64_LITTLE p =
     ucast (p ! 0) OR
     push_bit 8 (ucast (p ! 1)) OR
     push_bit 16 (ucast (p ! 2)) OR
     push_bit 24 (ucast (p ! 3)) OR
     push_bit 32 (ucast (p ! 4)) OR
     push_bit 40 (ucast (p ! 5)) OR
     push_bit 48 (ucast (p ! 6)) OR
     push_bit 56 (ucast (p ! 7))"

text \<open>The writing macros give the bytes they store, in the order of the buffer.\<close>

definition U8V :: "'a::len word \<Rightarrow> u8" where
  "U8V v = ucast v AND 0xFF"

definition U16TO8_BIG :: "u16 \<Rightarrow> bytes" where
  "U16TO8_BIG v = [U8V (drop_bit 8 v), U8V v]"

definition U32TO8_LITTLE :: "u32 \<Rightarrow> bytes" where
  "U32TO8_LITTLE v = [U8V v, U8V (drop_bit 8 v), U8V (drop_bit 16 v), U8V (drop_bit 24 v)]"

definition U32TO8_BIG :: "u32 \<Rightarrow> bytes" where
  "U32TO8_BIG v = [U8V (drop_bit 24 v), U8V (drop_bit 16 v), U8V (drop_bit 8 v), U8V v]"

definition U64TO8_LITTLE :: "u64 \<Rightarrow> bytes" where
  "U64TO8_LITTLE v =
     [U8V v, U8V (drop_bit 8 v), U8V (drop_bit 16 v), U8V (drop_bit 24 v),
      U8V (drop_bit 32 v), U8V (drop_bit 40 v), U8V (drop_bit 48 v), U8V (drop_bit 56 v)]"

definition U64TO8_BIG :: "u64 \<Rightarrow> bytes" where
  "U64TO8_BIG v =
     [U8V (drop_bit 56 v), U8V (drop_bit 48 v), U8V (drop_bit 40 v), U8V (drop_bit 32 v),
      U8V (drop_bit 24 v), U8V (drop_bit 16 v), U8V (drop_bit 8 v), U8V v]"

lemma U8V_eq: "U8V v = ucast v"
proof -
  have "(0xFF :: u8) = - 1" by simp
  then show ?thesis by (simp only: U8V_def and.right_neutral)
qed

lemma unat_U8V: "unat (U8V v) = unat v mod 256"
  by (simp add: U8V_eq unat_ucast_mod)

lemma length_writers [simp, length_simps]:
  "length (U16TO8_BIG x) = 2" "length (U32TO8_LITTLE y) = 4" "length (U32TO8_BIG y) = 4"
  "length (U64TO8_LITTLE z) = 8" "length (U64TO8_BIG z) = 8"
  by (simp_all add: U16TO8_BIG_def U32TO8_LITTLE_def U32TO8_BIG_def U64TO8_LITTLE_def
      U64TO8_BIG_def)

lemma U64TO8_BIG_eq: "U64TO8_BIG v = rev (U64TO8_LITTLE v)"
  by (simp add: U64TO8_BIG_def U64TO8_LITTLE_def)

lemma U32TO8_BIG_eq: "U32TO8_BIG v = rev (U32TO8_LITTLE v)"
  by (simp add: U32TO8_BIG_def U32TO8_LITTLE_def)

lemma U8V_drop_bit: "U8V (drop_bit n v) = word_of_nat (unat v div 2 ^ n)"
  by (simp add: word_unat_eq_iff unat_U8V unat_drop_bit unat_of_nat)

lemma U8V_0: "U8V v = word_of_nat (unat v)"
  by (simp add: U8V_eq)

lemma le_bytes_unfold:
  "le_bytes 4 n = map (\<lambda>k. word_of_nat (n div 2 ^ k)) [0, 8, 16, 24]"
  "le_bytes 8 n = map (\<lambda>k. word_of_nat (n div 2 ^ k)) [0, 8, 16, 24, 32, 40, 48, 56]"
proof -
  have four: "(4 :: nat) = Suc (Suc (Suc (Suc 0)))"
    and eight: "(8 :: nat) = Suc (Suc (Suc (Suc (Suc (Suc (Suc (Suc 0)))))))" by simp_all
  show "le_bytes 4 n = map (\<lambda>k. word_of_nat (n div 2 ^ k)) [0, 8, 16, 24]"
    by (subst four) (simp add: div_mult2_eq [symmetric])
  show "le_bytes 8 n = map (\<lambda>k. word_of_nat (n div 2 ^ k)) [0, 8, 16, 24, 32, 40, 48, 56]"
    by (subst eight) (simp add: div_mult2_eq [symmetric])
qed

lemma U32TO8_LITTLE_le_bytes: "U32TO8_LITTLE v = le_bytes 4 (unat v)"
  by (simp only: U32TO8_LITTLE_def le_bytes_unfold U8V_drop_bit list.map)
    (simp only: U8V_0 power_0 div_by_1)

lemma U64TO8_LITTLE_le_bytes: "U64TO8_LITTLE v = le_bytes 8 (unat v)"
  by (simp only: U64TO8_LITTLE_def le_bytes_unfold U8V_drop_bit list.map)
    (simp only: U8V_0 power_0 div_by_1)

text \<open>
  Reading bytes: pulling the shifts together gives a Horner scheme, in which the
  two sides of each OR have no bit in common.
\<close>

primrec le_word :: "bytes \<Rightarrow> 'a::len word" where
  "le_word [] = 0"
| "le_word (b # bs) = ucast b OR push_bit 8 (le_word bs)"

lemma unat_or_push_byte:
  assumes "8 \<le> LENGTH('a::len)" and "unat (x :: 'a word) * 256 < 2 ^ LENGTH('a)"
  shows "unat (ucast (b :: u8) OR push_bit 8 x) = unat b + 256 * unat x"
proof -
  have "unat (push_bit 8 x) = unat x * 2 ^ 8"
    using assms(2) by (simp only: unat_push_bit) simp
  moreover have "unat (ucast b :: 'a word) = unat b"
    using assms(1) by (simp add: unat_ucast_up)
  moreover have "unat b OR (unat x * 2 ^ 8) = unat b + unat x * 2 ^ 8"
    by (rule nat_or_add) simp
  ultimately show ?thesis by (simp add: unat_or)
qed

lemma unat_le_word: "8 * length bs \<le> LENGTH('a::len) \<Longrightarrow> unat (le_word bs :: 'a word) = le_val bs"
proof (induction bs)
  case (Cons b bs)
  then have IH: "unat (le_word bs :: 'a word) = le_val bs" by simp
  have "le_val bs * 256 < 256 ^ length bs * 256" using le_val_bound [of bs] by simp
  also have "\<dots> = 2 ^ (8 * length (b # bs))"
    by (simp add: power_add power_mult)
  also have "\<dots> \<le> 2 ^ LENGTH('a)" using Cons.prems by (intro power_increasing) simp_all
  finally show ?case
    using Cons.prems IH by (simp add: unat_or_push_byte)
qed simp

lemma push_bit_or: "push_bit n (x OR y) = push_bit n x OR push_bit n (y :: 'a::len word)"
  by (rule bit_eqI) (auto simp: bit_simps)

lemma U8TO32_LITTLE_le_word: "U8TO32_LITTLE p = le_word [p ! 0, p ! 1, p ! 2, p ! 3]"
  unfolding U8TO32_LITTLE_def le_word.simps
  by (simp only: push_bit_or push_bit_push_bit push_bit_of_0 or.right_neutral arith_simps)

lemma U8TO64_LITTLE_le_word:
  "U8TO64_LITTLE p = le_word [p ! 0, p ! 1, p ! 2, p ! 3, p ! 4, p ! 5, p ! 6, p ! 7]"
  unfolding U8TO64_LITTLE_def le_word.simps
  by (simp only: push_bit_or push_bit_push_bit push_bit_of_0 or.right_neutral arith_simps)

lemma take_4: "4 \<le> length p \<Longrightarrow> take 4 p = [p ! 0, p ! 1, p ! 2, p ! 3]"
  by (rule nth_equalityI) (auto simp: nth_Cons' less_Suc_eq eval_nat_numeral)

lemma take_8:
  "8 \<le> length p \<Longrightarrow> take 8 p = [p ! 0, p ! 1, p ! 2, p ! 3, p ! 4, p ! 5, p ! 6, p ! 7]"
  by (rule nth_equalityI) (auto simp: nth_Cons' less_Suc_eq eval_nat_numeral)

lemma unat_U8TO32_LITTLE: "4 \<le> length p \<Longrightarrow> unat (U8TO32_LITTLE p) = le_val (take 4 p)"
  by (simp add: U8TO32_LITTLE_le_word unat_le_word take_4 del: le_val.simps le_word.simps)

lemma unat_U8TO64_LITTLE: "8 \<le> length p \<Longrightarrow> unat (U8TO64_LITTLE p) = le_val (take 8 p)"
  by (simp add: U8TO64_LITTLE_le_word unat_le_word take_8 del: le_val.simps le_word.simps)

lemma U8TO32_LITTLE_of_U32TO8: "U8TO32_LITTLE (U32TO8_LITTLE v @ xs) = v"
  by (simp add: word_unat_eq_iff unat_U8TO32_LITTLE U32TO8_LITTLE_le_bytes le_val_le_bytes)

lemma U8TO64_LITTLE_of_U64TO8: "U8TO64_LITTLE (U64TO8_LITTLE v @ xs) = v"
  by (simp add: word_unat_eq_iff unat_U8TO64_LITTLE U64TO8_LITTLE_le_bytes le_val_le_bytes)

lemma U32TO8_LITTLE_of_U8TO32: "length p = 4 \<Longrightarrow> U32TO8_LITTLE (U8TO32_LITTLE p) = p"
  by (metis U32TO8_LITTLE_le_bytes le_bytes_le_val order_refl take_all unat_U8TO32_LITTLE)

subsection \<open>Wiping and comparing\<close>

text \<open>\<open>crypto_zero\<close> stores \<open>len\<close> zero bytes: what the buffer holds afterwards.\<close>

fun crypto_zero :: "bytes \<Rightarrow> nat \<Rightarrow> bytes" where
  "crypto_zero p 0 = p"
| "crypto_zero [] (Suc len) = []"
| "crypto_zero (_ # p) (Suc len) = 0 # crypto_zero p len"

text \<open>
  The loop of \<open>crypto_equal\<close>: \<open>neq\<close> collects the differing bits, and the two
  pointers move on together.
\<close>

fun crypto_equal_loop :: "u8 \<Rightarrow> bytes \<Rightarrow> bytes \<Rightarrow> nat \<Rightarrow> u8" where
  "crypto_equal_loop neq a b 0 = neq"
| "crypto_equal_loop neq a b (Suc len) =
     crypto_equal_loop (neq OR (hd a XOR hd b)) (tl a) (tl b) len"

definition crypto_equal :: "bytes \<Rightarrow> bytes \<Rightarrow> nat \<Rightarrow> bool" where
  "crypto_equal a b len = (if crypto_equal_loop 0 a b len \<noteq> 0 then False else True)"

lemma crypto_zero_eq: "len \<le> length p \<Longrightarrow> crypto_zero p len = replicate len 0 @ drop len p"
  by (induction p len rule: crypto_zero.induct) auto

lemma crypto_equal_loop_zero:
  "len \<le> length a \<Longrightarrow> len \<le> length b \<Longrightarrow>
   crypto_equal_loop neq a b len = 0 \<longleftrightarrow> neq = 0 \<and> take len a = take len b"
proof (induction neq a b len rule: crypto_equal_loop.induct)
  case (2 neq a b len)
  then obtain x xs y ys where "a = x # xs" "b = y # ys"
    by (cases a; cases b) auto
  with 2 show ?case
    by (auto simp: word_xor_eq_0 word_or_eq_0)
qed simp

text \<open>
  The comparison is exact: for buffers that hold at least the compared length it
  answers whether the compared parts are equal.
\<close>

lemma crypto_equal_iff:
  "len \<le> length a \<Longrightarrow> len \<le> length b \<Longrightarrow> crypto_equal a b len \<longleftrightarrow> take len a = take len b"
  by (simp add: crypto_equal_def crypto_equal_loop_zero)

end
