(* ===== verification/Blake2s.thy ===== *)
theory Blake2s
  imports Crypto_Util
begin

text \<open>
  \<open>crypto/refc/blake2s.c\<close>: the streaming BLAKE2s of RFC 7693. The context is the
  record of the C struct; \<open>size_t\<close> fields are natural numbers (the code keeps them
  at most 64 and 32). The specification \<open>blake2s_spec\<close> hashes a whole message by
  cutting it into blocks, with the running offset as a natural number. The main
  lemma says that initialising, feeding the data in any number of pieces and
  finalising gives the specification of the concatenated pieces, and that the
  two 32-bit counter words with their carry count the bytes.
\<close>

unbundle bit_operations_syntax

subsection \<open>The code\<close>

record blake2s_ctx =
  ctx_b :: bytes
  ctx_h :: "u32 list"
  ctx_t :: "u32 list"
  ctx_c :: nat
  ctx_outlen :: nat

definition ROTR32 :: "u32 \<Rightarrow> nat \<Rightarrow> u32" where
  "ROTR32 x y = drop_bit y x XOR push_bit (32 - y) x"

definition B2S_G :: "nat \<Rightarrow> nat \<Rightarrow> nat \<Rightarrow> nat \<Rightarrow> u32 \<Rightarrow> u32 \<Rightarrow> u32 list \<Rightarrow> u32 list" where
  "B2S_G a b c d x y v =
     (let v = v[a := v ! a + v ! b + x];
          v = v[d := ROTR32 (v ! d XOR v ! a) 16];
          v = v[c := v ! c + v ! d];
          v = v[b := ROTR32 (v ! b XOR v ! c) 12];
          v = v[a := v ! a + v ! b + y];
          v = v[d := ROTR32 (v ! d XOR v ! a) 8];
          v = v[c := v ! c + v ! d];
          v = v[b := ROTR32 (v ! b XOR v ! c) 7]
      in v)"

definition blake2s_iv :: "u32 list" where
  "blake2s_iv =
     [0x6A09E667, 0xBB67AE85, 0x3C6EF372, 0xA54FF53A,
      0x510E527F, 0x9B05688C, 0x1F83D9AB, 0x5BE0CD19]"

definition blake2s_sigma :: "nat list list" where
  "blake2s_sigma =
    [[ 0, 1, 2, 3, 4, 5, 6, 7, 8, 9, 10, 11, 12, 13, 14, 15 ],
     [ 14, 10, 4, 8, 9, 15, 13, 6, 1, 12, 0, 2, 11, 7, 5, 3 ],
     [ 11, 8, 12, 0, 5, 2, 15, 13, 10, 14, 3, 6, 7, 1, 9, 4 ],
     [ 7, 9, 3, 1, 13, 12, 11, 14, 2, 6, 5, 10, 4, 0, 15, 8 ],
     [ 9, 0, 5, 7, 2, 4, 10, 15, 14, 1, 11, 12, 6, 8, 3, 13 ],
     [ 2, 12, 6, 10, 0, 11, 8, 3, 4, 13, 7, 5, 15, 14, 1, 9 ],
     [ 12, 5, 1, 15, 14, 13, 4, 10, 0, 7, 6, 3, 9, 2, 8, 11 ],
     [ 13, 11, 7, 14, 12, 1, 3, 9, 5, 0, 15, 4, 8, 6, 2, 10 ],
     [ 6, 15, 14, 9, 11, 3, 0, 8, 12, 2, 13, 7, 1, 4, 10, 5 ],
     [ 10, 2, 8, 4, 7, 6, 1, 5, 15, 11, 9, 14, 3, 12, 13, 0 ]]"

definition blake2s_round :: "u32 list \<Rightarrow> nat list \<Rightarrow> u32 list \<Rightarrow> u32 list" where
  "blake2s_round m s v =
     (let v = B2S_G 0 4  8 12 (m ! (s !  0)) (m ! (s !  1)) v;
          v = B2S_G 1 5  9 13 (m ! (s !  2)) (m ! (s !  3)) v;
          v = B2S_G 2 6 10 14 (m ! (s !  4)) (m ! (s !  5)) v;
          v = B2S_G 3 7 11 15 (m ! (s !  6)) (m ! (s !  7)) v;
          v = B2S_G 0 5 10 15 (m ! (s !  8)) (m ! (s !  9)) v;
          v = B2S_G 1 6 11 12 (m ! (s ! 10)) (m ! (s ! 11)) v;
          v = B2S_G 2 7  8 13 (m ! (s ! 12)) (m ! (s ! 13)) v;
          v = B2S_G 3 4  9 14 (m ! (s ! 14)) (m ! (s ! 15)) v
      in v)"

definition blake2s_compress :: "blake2s_ctx \<Rightarrow> bool \<Rightarrow> blake2s_ctx" where
  "blake2s_compress ctx last_block =
     (let v = ctx_h ctx @ blake2s_iv;
          v = v[12 := v ! 12 XOR ctx_t ctx ! 0];
          v = v[13 := v ! 13 XOR ctx_t ctx ! 1];
          v = (if last_block then v[14 := NOT (v ! 14)] else v);
          m = map (\<lambda>i. U8TO32_LITTLE (drop (4 * i) (ctx_b ctx))) [0..<16];
          v = fold (\<lambda>i. blake2s_round m (blake2s_sigma ! i)) [0..<10] v
      in ctx\<lparr>ctx_h := map (\<lambda>i. ctx_h ctx ! i XOR (v ! i XOR v ! (i + 8))) [0..<8]\<rparr>)"

text \<open>Adding the bytes of the buffer to the two-word counter, with the carry.\<close>

definition blake2s_count :: "blake2s_ctx \<Rightarrow> blake2s_ctx" where
  "blake2s_count ctx =
     (let t0 = ctx_t ctx ! 0 + of_nat (ctx_c ctx);
          t1 = (if t0 < of_nat (ctx_c ctx) then ctx_t ctx ! 1 + 1 else ctx_t ctx ! 1)
      in ctx\<lparr>ctx_t := [t0, t1]\<rparr>)"

definition blake2s_update_byte :: "blake2s_ctx \<Rightarrow> u8 \<Rightarrow> blake2s_ctx" where
  "blake2s_update_byte ctx x =
     (let ctx = (if ctx_c ctx = 64 then (blake2s_compress (blake2s_count ctx) False)\<lparr>ctx_c := 0\<rparr>
                 else ctx)
      in ctx\<lparr>ctx_b := (ctx_b ctx)[ctx_c ctx := x], ctx_c := Suc (ctx_c ctx)\<rparr>)"

fun blake2s_update :: "blake2s_ctx \<Rightarrow> bytes \<Rightarrow> blake2s_ctx" where
  "blake2s_update ctx [] = ctx"
| "blake2s_update ctx (x # xs) = blake2s_update (blake2s_update_byte ctx x) xs"

text \<open>
  \<open>blake2s_init\<close> gets the uninitialised context as an argument; the first component
  of the result is the returned error code.
\<close>

definition blake2s_init :: "blake2s_ctx \<Rightarrow> nat \<Rightarrow> bytes \<Rightarrow> int \<times> blake2s_ctx" where
  "blake2s_init ctx outlen key =
     (let keylen = length key in
      if outlen = 0 \<or> outlen > 32 \<or> keylen > 32 then (- 1, ctx)
      else
        let h = blake2s_iv;
            h = h[0 := h ! 0 XOR (0x01010000 XOR push_bit 8 (of_nat keylen) XOR of_nat outlen)];
            ctx = ctx\<lparr>ctx_h := h, ctx_t := [0, 0], ctx_c := 0, ctx_outlen := outlen,
                      ctx_b := fold (\<lambda>i b. b[i := 0]) [keylen..<64] (ctx_b ctx)\<rparr>;
            ctx = (if keylen > 0 then (blake2s_update ctx key)\<lparr>ctx_c := 64\<rparr> else ctx)
        in (0, ctx))"

function blake2s_fill :: "blake2s_ctx \<Rightarrow> blake2s_ctx" where
  "blake2s_fill ctx =
     (if ctx_c ctx < 64
      then blake2s_fill (ctx\<lparr>ctx_b := (ctx_b ctx)[ctx_c ctx := 0], ctx_c := Suc (ctx_c ctx)\<rparr>)
      else ctx)"
  by pat_completeness auto
termination
  by (relation "measure (\<lambda>ctx. 64 - ctx_c ctx)") auto

declare blake2s_fill.simps [simp del]

definition blake2s_final :: "blake2s_ctx \<Rightarrow> bytes \<times> blake2s_ctx" where
  "blake2s_final ctx =
     (let ctx = blake2s_compress (blake2s_fill (blake2s_count ctx)) True
      in (map (\<lambda>i. ucast (drop_bit (8 * (i mod 4)) (ctx_h ctx ! (i div 4)) AND 0xFF))
            [0..<ctx_outlen ctx],
          ctx))"

text \<open>The all-in-one call: error code and digest. The local context starts uninitialised.\<close>

definition blake2s :: "blake2s_ctx \<Rightarrow> nat \<Rightarrow> bytes \<Rightarrow> bytes \<Rightarrow> int \<times> bytes" where
  "blake2s ctx outlen key input =
     (case blake2s_init ctx outlen key of (err, ctx) \<Rightarrow>
        if err \<noteq> 0 then (- 1, [])
        else (0, fst (blake2s_final (blake2s_update ctx input))))"

subsection \<open>Lengths and well-formed contexts\<close>

definition ctx_wf :: "blake2s_ctx \<Rightarrow> bool" where
  "ctx_wf ctx \<longleftrightarrow> length (ctx_b ctx) = 64 \<and> length (ctx_h ctx) = 8 \<and> length (ctx_t ctx) = 2 \<and>
     ctx_c ctx \<le> 64 \<and> 0 < ctx_outlen ctx \<and> ctx_outlen ctx \<le> 32"

lemma length_blake2s_iv [simp, length_simps]: "length blake2s_iv = 8"
  by (simp add: blake2s_iv_def)

lemma length_zeroed [simp, length_simps]: "length (fold (\<lambda>i b. b[i := 0]) is b) = length b"
  by (induction "is" arbitrary: b) auto

lemma compress_frame [frame_simps, simp]:
  "ctx_b (blake2s_compress ctx l) = ctx_b ctx"
  "ctx_t (blake2s_compress ctx l) = ctx_t ctx"
  "ctx_c (blake2s_compress ctx l) = ctx_c ctx"
  "ctx_outlen (blake2s_compress ctx l) = ctx_outlen ctx"
  "length (ctx_h (blake2s_compress ctx l)) = 8"
  by (simp_all add: blake2s_compress_def Let_def)

lemma compress_cong:
  "ctx_h ctx = ctx_h ctx' \<Longrightarrow> ctx_b ctx = ctx_b ctx' \<Longrightarrow> ctx_t ctx = ctx_t ctx' \<Longrightarrow>
   ctx_h (blake2s_compress ctx l) = ctx_h (blake2s_compress ctx' l)"
  by (simp add: blake2s_compress_def Let_def)

lemma count_frame [frame_simps, simp]:
  "ctx_b (blake2s_count ctx) = ctx_b ctx"
  "ctx_h (blake2s_count ctx) = ctx_h ctx"
  "ctx_c (blake2s_count ctx) = ctx_c ctx"
  "ctx_outlen (blake2s_count ctx) = ctx_outlen ctx"
  "length (ctx_t (blake2s_count ctx)) = 2"
  by (simp_all add: blake2s_count_def Let_def)

lemma fill_frame [frame_simps, simp]:
  "ctx_h (blake2s_fill ctx) = ctx_h ctx \<and> ctx_t (blake2s_fill ctx) = ctx_t ctx \<and>
   ctx_outlen (blake2s_fill ctx) = ctx_outlen ctx"
proof (induction ctx rule: blake2s_fill.induct)
  case (1 ctx)
  then show ?case by (subst (1 2 3) blake2s_fill.simps) auto
qed

lemma fill_b:
  "length (ctx_b ctx) = 64 \<Longrightarrow> ctx_c ctx \<le> 64 \<Longrightarrow>
   ctx_b (blake2s_fill ctx) = take (ctx_c ctx) (ctx_b ctx) @ replicate (64 - ctx_c ctx) 0"
proof (induction ctx rule: blake2s_fill.induct)
  case (1 ctx)
  show ?case
  proof (cases "ctx_c ctx < 64")
    case True
    then have "64 - ctx_c ctx = Suc (64 - Suc (ctx_c ctx))" by simp
    with True 1 show ?thesis
      by (subst blake2s_fill.simps) (simp add: take_Suc_conv_app_nth)
  next
    case False
    with 1 show ?thesis by (subst blake2s_fill.simps) simp
  qed
qed

lemma update_byte_wf: "ctx_wf ctx \<Longrightarrow> ctx_wf (blake2s_update_byte ctx x)"
  by (auto simp: ctx_wf_def blake2s_update_byte_def Let_def)

lemma update_wf: "ctx_wf ctx \<Longrightarrow> ctx_wf (blake2s_update ctx xs)"
  by (induction ctx xs rule: blake2s_update.induct) (auto intro: update_byte_wf)

lemma update_append: "blake2s_update ctx (xs @ ys) = blake2s_update (blake2s_update ctx xs) ys"
  by (induction ctx xs rule: blake2s_update.induct) auto

lemma update_foldl: "blake2s_update ctx (concat parts) = foldl blake2s_update ctx parts"
  by (induction parts arbitrary: ctx) (auto simp: update_append)

subsection \<open>The byte counter\<close>

text \<open>\<open>counts t n\<close>: the two counter words hold \<open>n\<close>, the number of bytes compressed.\<close>

definition counter_words :: "nat \<Rightarrow> u32 list" where
  "counter_words n = [of_nat n, of_nat (n div 2 ^ 32)]"

lemma count_counter:
  assumes "ctx_t ctx = counter_words n" and "ctx_c ctx \<le> 64"
  shows "ctx_t (blake2s_count ctx) = counter_words (n + ctx_c ctx)"
proof -
  let ?c = "ctx_c ctx"
  have t0: "of_nat n + of_nat ?c = (of_nat (n + ?c) :: u32)" by simp
  have wrap: "n mod 2 ^ 32 < 2 ^ 32" "?c < 2 ^ 32" using assms(2) by simp_all
  have "unat (of_nat (n + ?c) :: u32) = (n mod 2 ^ 32 + ?c) mod 2 ^ 32"
    by (simp add: unat_of_nat mod_add_left_eq del: of_nat_add)
  moreover have "unat (of_nat ?c :: u32) = ?c"
    using wrap(2) by (simp add: unat_of_nat)
  ultimately have less: "(of_nat (n + ?c) :: u32) < of_nat ?c \<longleftrightarrow> 2 ^ 32 \<le> n mod 2 ^ 32 + ?c"
    unfolding word_less_nat_alt by (simp only: mod_add_less_iff [OF wrap])
  have "(n + ?c) div 2 ^ 32 = n div 2 ^ 32 + (if 2 ^ 32 \<le> n mod 2 ^ 32 + ?c then 1 else 0)"
    by (rule div_add_carry) (rule wrap(2))
  then have t1: "(of_nat ((n + ?c) div 2 ^ 32) :: u32) =
      (if 2 ^ 32 \<le> n mod 2 ^ 32 + ?c then of_nat (n div 2 ^ 32) + 1 else of_nat (n div 2 ^ 32))"
    by simp
  show ?thesis
    unfolding blake2s_count_def Let_def assms(1) counter_words_def nth_Cons_0 One_nat_def
      nth_Cons_Suc t0 less t1
    by simp
qed

subsection \<open>The specification and the refinement\<close>

text \<open>
  \<open>b2s_F h blk n l\<close> is the compression of one block at offset \<open>n\<close>;
  \<open>b2s_chain h n data\<close> compresses all of \<open>data\<close>, the last block padded with
  zeros and flagged; \<open>blake2s_spec\<close> is the keyed hash of a whole message, where a
  key is a first block of its own.
\<close>

definition b2s_F :: "u32 list \<Rightarrow> bytes \<Rightarrow> nat \<Rightarrow> bool \<Rightarrow> u32 list" where
  "b2s_F h blk n l =
     ctx_h (blake2s_compress \<lparr>ctx_b = blk, ctx_h = h, ctx_t = counter_words n,
                              ctx_c = 0, ctx_outlen = 0\<rparr> l)"

definition zero_pad :: "nat \<Rightarrow> bytes \<Rightarrow> bytes" where
  "zero_pad n xs = xs @ replicate (n - length xs) 0"

function b2s_chain :: "u32 list \<Rightarrow> nat \<Rightarrow> bytes \<Rightarrow> u32 list" where
  "b2s_chain h n data =
     (if length data \<le> 64 then b2s_F h (zero_pad 64 data) (n + length data) True
      else b2s_chain (b2s_F h (take 64 data) (n + 64) False) (n + 64) (drop 64 data))"
  by pat_completeness auto
termination
  by (relation "measure (\<lambda>(h, n, data). length data)") auto

declare b2s_chain.simps [simp del]

definition b2s_param :: "nat \<Rightarrow> nat \<Rightarrow> u32 list" where
  "b2s_param keylen outlen =
     blake2s_iv[0 := blake2s_iv ! 0 XOR
       (0x01010000 XOR push_bit 8 (of_nat keylen) XOR of_nat outlen)]"

definition b2s_key_block :: "bytes \<Rightarrow> bytes" where
  "b2s_key_block key = (if key = [] then [] else zero_pad 64 key)"

definition blake2s_spec :: "nat \<Rightarrow> bytes \<Rightarrow> bytes \<Rightarrow> bytes" where
  "blake2s_spec outlen key msg =
     take outlen (concat (map U32TO8_LITTLE
       (b2s_chain (b2s_param (length key) outlen) 0 (b2s_key_block key @ msg))))"

lemma length_b2s_F [simp, length_simps]: "length (b2s_F h blk n l) = 8"
  by (simp add: b2s_F_def)

lemma length_b2s_chain [simp, length_simps]: "length (b2s_chain h n data) = 8"
proof (induction h n data rule: b2s_chain.induct)
  case (1 h n data)
  then show ?case by (subst b2s_chain.simps) simp
qed

text \<open>The digest loop of \<open>blake2s_final\<close> stores the chained words in little-endian order.\<close>

lemma nth_word_bytes:
  "i < 4 * length hs \<Longrightarrow>
   concat (map U32TO8_LITTLE hs) ! i = ucast (drop_bit (8 * (i mod 4)) (hs ! (i div 4)) AND 0xFF)"
proof (induction hs arbitrary: i)
  case (Cons h hs)
  have low: "ucast (x AND 0xFF) = U8V x" for x :: u32
    by (simp add: word_unat_eq_iff unat_U8V unat_ucast_mod unat_and nat_and_mask [of _ 8, simplified])
  show ?case
  proof (cases "i < 4")
    case True
    then consider "i = 0" | "i = 1" | "i = 2" | "i = 3" by linarith
    then show ?thesis by cases (simp_all add: U32TO8_LITTLE_def low)
  next
    case False
    then have "i div 4 = Suc ((i - 4) div 4)" "i mod 4 = (i - 4) mod 4"
      by (simp_all add: le_div_geq le_mod_geq)
    with False Cons.IH [of "i - 4"] Cons.prems show ?thesis
      by (simp add: nth_append)
  qed
qed simp

lemma length_word_bytes [simp, length_simps]:
  "length (concat (map U32TO8_LITTLE hs)) = 4 * length hs"
  by (induction hs) auto

lemma digest_bytes:
  "length hs = 8 \<Longrightarrow> n \<le> 32 \<Longrightarrow>
   map (\<lambda>i. ucast (drop_bit (8 * (i mod 4)) (hs ! (i div 4)) AND 0xFF)) [0..<n] =
   take n (concat (map U32TO8_LITTLE hs))"
  by (rule nth_equalityI) (auto simp: nth_word_bytes)

lemma final_chain:
  assumes "ctx_wf ctx" and "ctx_t ctx = counter_words n"
  shows "fst (blake2s_final ctx) = take (ctx_outlen ctx) (concat (map U32TO8_LITTLE
           (b2s_chain (ctx_h ctx) n (take (ctx_c ctx) (ctx_b ctx)))))"
proof -
  let ?ctx = "blake2s_fill (blake2s_count ctx)"
  have "ctx_h (blake2s_compress ?ctx True) =
      b2s_F (ctx_h ctx) (zero_pad 64 (take (ctx_c ctx) (ctx_b ctx))) (n + ctx_c ctx) True"
    unfolding b2s_F_def using assms
    by (intro compress_cong) (auto simp: ctx_wf_def fill_b zero_pad_def count_counter)
  also have "\<dots> = b2s_chain (ctx_h ctx) n (take (ctx_c ctx) (ctx_b ctx))"
    using assms(1) by (subst b2s_chain.simps) (simp add: ctx_wf_def)
  finally show ?thesis
    using assms(1) by (simp add: blake2s_final_def Let_def digest_bytes ctx_wf_def)
qed

lemma update_byte_chain:
  assumes "ctx_wf ctx" and "ctx_t ctx = counter_words n"
  obtains n' where "ctx_t (blake2s_update_byte ctx x) = counter_words n'"
    and "b2s_chain (ctx_h (blake2s_update_byte ctx x)) n'
           (take (ctx_c (blake2s_update_byte ctx x)) (ctx_b (blake2s_update_byte ctx x)) @ xs) =
         b2s_chain (ctx_h ctx) n (take (ctx_c ctx) (ctx_b ctx) @ x # xs)"
proof (cases "ctx_c ctx = 64")
  case True
  let ?ctx = "blake2s_count ctx"
  have t: "ctx_t ?ctx = counter_words (n + 64)"
    using assms True by (simp add: count_counter)
  have F: "ctx_h (blake2s_compress ?ctx False) = b2s_F (ctx_h ctx) (ctx_b ctx) (n + 64) False"
    unfolding b2s_F_def using t by (intro compress_cong) simp_all
  have b: "length (ctx_b ctx) = 64" using assms(1) by (simp add: ctx_wf_def)
  then have "take (Suc 0) ((ctx_b ctx)[0 := x]) = [x]"
    by (cases "ctx_b ctx") auto
  moreover have "b2s_chain (ctx_h ctx) n (ctx_b ctx @ x # xs) =
      b2s_chain (b2s_F (ctx_h ctx) (ctx_b ctx) (n + 64) False) (n + 64) (x # xs)"
    by (subst b2s_chain.simps) (simp add: b)
  ultimately show ?thesis
    using t F b by (intro that [of "n + 64"]) (simp_all add: blake2s_update_byte_def Let_def True)
next
  case False
  then have "take (Suc (ctx_c ctx)) ((ctx_b ctx)[ctx_c ctx := x]) = take (ctx_c ctx) (ctx_b ctx) @ [x]"
    using assms(1) by (simp add: ctx_wf_def take_Suc_conv_app_nth)
  with False assms show ?thesis
    by (intro that [of n]) (simp_all add: blake2s_update_byte_def Let_def)
qed

lemma update_final_chain:
  assumes "ctx_wf ctx" and "ctx_t ctx = counter_words n"
  shows "fst (blake2s_final (blake2s_update ctx xs)) =
         take (ctx_outlen ctx) (concat (map U32TO8_LITTLE
           (b2s_chain (ctx_h ctx) n (take (ctx_c ctx) (ctx_b ctx) @ xs))))"
  using assms
proof (induction xs arbitrary: ctx n)
  case Nil
  then show ?case by (simp add: final_chain)
next
  case (Cons x xs)
  obtain n' where n': "ctx_t (blake2s_update_byte ctx x) = counter_words n'"
    "b2s_chain (ctx_h (blake2s_update_byte ctx x)) n'
       (take (ctx_c (blake2s_update_byte ctx x)) (ctx_b (blake2s_update_byte ctx x)) @ xs) =
     b2s_chain (ctx_h ctx) n (take (ctx_c ctx) (ctx_b ctx) @ x # xs)"
    using update_byte_chain [OF Cons.prems] by blast
  have "ctx_outlen (blake2s_update_byte ctx x) = ctx_outlen ctx"
    by (simp add: blake2s_update_byte_def Let_def)
  with Cons.IH [OF update_byte_wf [OF Cons.prems(1)] n'(1)] n'(2) show ?case by simp
qed

subsection \<open>Initialisation\<close>

lemma update_into_buffer:
  "ctx_c ctx + length xs \<le> 64 \<Longrightarrow> length (ctx_b ctx) = 64 \<Longrightarrow>
   blake2s_update ctx xs =
     ctx\<lparr>ctx_b := take (ctx_c ctx) (ctx_b ctx) @ xs @ drop (ctx_c ctx + length xs) (ctx_b ctx),
         ctx_c := ctx_c ctx + length xs\<rparr>"
proof (induction ctx xs rule: blake2s_update.induct)
  case (2 ctx x xs)
  then have "blake2s_update_byte ctx x =
      ctx\<lparr>ctx_b := (ctx_b ctx)[ctx_c ctx := x], ctx_c := Suc (ctx_c ctx)\<rparr>"
    by (simp add: blake2s_update_byte_def Let_def)
  with 2 show ?case by (simp add: take_Suc_conv_app_nth)
qed simp

definition blake2s_usable :: "blake2s_ctx \<times> nat \<times> bytes \<Rightarrow> bool" where
  "blake2s_usable = (\<lambda>(ctx, outlen, key).
     length (ctx_b ctx) = 64 \<and> 0 < outlen \<and> outlen \<le> 32 \<and> length key \<le> 32)"

lemma init_ok:
  assumes "blake2s_usable (ctx, outlen, key)"
  obtains ctx' where "blake2s_init ctx outlen key = (0, ctx')" "ctx_wf ctx'"
    "ctx_t ctx' = counter_words 0" "ctx_h ctx' = b2s_param (length key) outlen"
    "take (ctx_c ctx') (ctx_b ctx') = b2s_key_block key" "ctx_outlen ctx' = outlen"
proof -
  let ?b = "take (length key) (ctx_b ctx) @ replicate (64 - length key) 0"
  have z: "fold (\<lambda>i b. b[i := 0]) [length key..<64] (ctx_b ctx) = ?b"
    using assms zeroed_from [of "length key" "ctx_b ctx"] by (simp add: blake2s_usable_def)
  let ?ctx = "ctx\<lparr>ctx_h := b2s_param (length key) outlen, ctx_t := [0, 0], ctx_c := 0,
                  ctx_outlen := outlen, ctx_b := ?b\<rparr>"
  have "length (ctx_b ?ctx) = 64" using assms by (simp add: blake2s_usable_def)
  then have u: "blake2s_update ?ctx key = ?ctx\<lparr>ctx_b := key @ drop (length key) ?b, ctx_c := length key\<rparr>"
    using assms update_into_buffer [of ?ctx key] by (simp add: blake2s_usable_def)
  have "blake2s_init ctx outlen key =
      (0, if key = [] then ?ctx else (blake2s_update ?ctx key)\<lparr>ctx_c := 64\<rparr>)"
    using assms by (simp add: blake2s_init_def Let_def z b2s_param_def blake2s_usable_def)
  with u assms show ?thesis
    by (intro that)
      (auto simp: ctx_wf_def blake2s_usable_def counter_words_def b2s_param_def
        b2s_key_block_def zero_pad_def)
qed

definition blake2s_start :: "blake2s_ctx \<times> nat \<times> bytes \<Rightarrow> blake2s_ctx" where
  "blake2s_start = (\<lambda>(ctx, outlen, key). snd (blake2s_init ctx outlen key))"

lemma init_update_final:
  assumes "blake2s_usable k"
  shows "fst (blake2s_final (foldl blake2s_update (blake2s_start k) parts)) =
         (case k of (_, outlen, key) \<Rightarrow> blake2s_spec outlen key (concat parts))"
proof -
  obtain ctx outlen key where k: "k = (ctx, outlen, key)" by (cases k)
  obtain ctx' where ctx': "blake2s_init ctx outlen key = (0, ctx')" "ctx_wf ctx'"
    "ctx_t ctx' = counter_words 0" "ctx_h ctx' = b2s_param (length key) outlen"
    "take (ctx_c ctx') (ctx_b ctx') = b2s_key_block key" "ctx_outlen ctx' = outlen"
    using init_ok assms k by metis
  then show ?thesis
    by (simp add: k blake2s_start_def update_foldl [symmetric] update_final_chain blake2s_spec_def)
qed

interpretation b2s: absorbing blake2s_start blake2s_update "\<lambda>ctx. fst (blake2s_final ctx)"
  blake2s_usable "\<lambda>(ctx, outlen, key) msg. blake2s_spec outlen key msg"
  by unfold_locales (simp add: init_update_final split: prod.splits)

lemma length_blake2s_spec [simp, length_simps]: "outlen \<le> 32 \<Longrightarrow> length (blake2s_spec outlen key msg) = outlen"
  by (simp add: blake2s_spec_def)

lemma blake2s_all_in_one:
  "length (ctx_b ctx) = 64 \<Longrightarrow> 0 < outlen \<Longrightarrow> outlen \<le> 32 \<Longrightarrow> length key \<le> 32 \<Longrightarrow>
   blake2s ctx outlen key input = (0, blake2s_spec outlen key input)"
proof -
  assume "length (ctx_b ctx) = 64" "0 < outlen" "outlen \<le> 32" "length key \<le> 32"
  then have u: "blake2s_usable (ctx, outlen, key)" by (simp add: blake2s_usable_def)
  obtain ctx' where "blake2s_init ctx outlen key = (0, ctx')" using init_ok [OF u] by blast
  with b2s.absorb_one [OF u, of input] show ?thesis
    by (simp add: blake2s_def blake2s_start_def)
qed

lemma blake2s_illegal:
  "outlen = 0 \<or> 32 < outlen \<or> 32 < length key \<Longrightarrow>
   blake2s_init ctx outlen key = (- 1, ctx) \<and> blake2s ctx outlen key input = (- 1, [])"
  by (auto simp: blake2s_def blake2s_init_def Let_def)



end
