(* ===== verification/Chacha20.thy ===== *)
theory Chacha20
  imports Crypto_Util
begin

text \<open>
  \<open>crypto/refc/chacha20.c\<close>: the ChaCha20 block function, the stream cipher with its
  64-bit nonce, and HChaCha20. The context is its array of sixteen words. The
  lemmas show that the cipher is the exclusive or with the key stream made of the
  block function at consecutive counters, so that applying it twice from the same
  context gives the input back.
\<close>

unbundle bit_operations_syntax

subsection \<open>The code\<close>

record chacha20_ctx =
  cc_state :: "u32 list"

definition CHACHA20_CONSTANT_1 :: u32 where "CHACHA20_CONSTANT_1 = 0x61707865"
definition CHACHA20_CONSTANT_2 :: u32 where "CHACHA20_CONSTANT_2 = 0x3320646e"
definition CHACHA20_CONSTANT_3 :: u32 where "CHACHA20_CONSTANT_3 = 0x79622d32"
definition CHACHA20_CONSTANT_4 :: u32 where "CHACHA20_CONSTANT_4 = 0x6b206574"

definition ROTL32 :: "u32 \<Rightarrow> nat \<Rightarrow> u32" where
  "ROTL32 v n = push_bit n v OR drop_bit (32 - n) v"

definition QUARTERROUND :: "nat \<Rightarrow> nat \<Rightarrow> nat \<Rightarrow> nat \<Rightarrow> u32 list \<Rightarrow> u32 list" where
  "QUARTERROUND a b c d s =
     (let s = s[a := s ! a + s ! b]; s = s[d := s ! d XOR s ! a]; s = s[d := ROTL32 (s ! d) 16];
          s = s[c := s ! c + s ! d]; s = s[b := s ! b XOR s ! c]; s = s[b := ROTL32 (s ! b) 12];
          s = s[a := s ! a + s ! b]; s = s[d := s ! d XOR s ! a]; s = s[d := ROTL32 (s ! d) 8];
          s = s[c := s ! c + s ! d]; s = s[b := s ! b XOR s ! c]; s = s[b := ROTL32 (s ! b) 7]
      in s)"

definition INNER_BLOCK :: "u32 list \<Rightarrow> u32 list" where
  "INNER_BLOCK block =
     (let block = QUARTERROUND 0 4  8 12 block;
          block = QUARTERROUND 1 5  9 13 block;
          block = QUARTERROUND 2 6 10 14 block;
          block = QUARTERROUND 3 7 11 15 block;
          block = QUARTERROUND 0 5 10 15 block;
          block = QUARTERROUND 1 6 11 12 block;
          block = QUARTERROUND 2 7  8 13 block;
          block = QUARTERROUND 3 4  9 14 block
      in block)"

definition TWENTY_ROUNDS :: "u32 list \<Rightarrow> u32 list" where
  "TWENTY_ROUNDS x = (INNER_BLOCK ^^ 10) x"

definition chacha20_block :: "chacha20_ctx \<Rightarrow> bytes" where
  "chacha20_block ctx =
     (let working_state = TWENTY_ROUNDS (map (\<lambda>i. cc_state ctx ! i) [0..<16])
      in concat (map (\<lambda>i. U32TO8_LITTLE (working_state ! i + cc_state ctx ! i)) [0..<16]))"

text \<open>One pass of the loop of \<open>chacha20\<close>: the key stream block, then the counter.\<close>

definition chacha20_next :: "chacha20_ctx \<Rightarrow> chacha20_ctx" where
  "chacha20_next ctx = ctx\<lparr>cc_state := (cc_state ctx)[12 := cc_state ctx ! 12 + 1]\<rparr>"

text \<open>
  The loop over the input; \<open>len\<close> is the length of \<open>input\<close>. The output pointer may equal
  the input pointer: every byte is read before it is written, at the same index.
\<close>

function chacha20_loop :: "chacha20_ctx \<Rightarrow> bytes \<Rightarrow> chacha20_ctx \<times> bytes" where
  "chacha20_loop ctx input =
     (let output = chacha20_block ctx; ctx = chacha20_next ctx in
      if length input \<le> 64 then (ctx, map (\<lambda>i. input ! i XOR output ! i) [0..<length input])
      else (case chacha20_loop ctx (drop 64 input) of (ctx', rest) \<Rightarrow>
              (ctx', map (\<lambda>i. input ! i XOR output ! i) [0..<64] @ rest)))"
  by pat_completeness auto
termination
  by (relation "measure (\<lambda>(ctx, input). length input)") auto

declare chacha20_loop.simps [simp del]

definition chacha20 :: "chacha20_ctx \<Rightarrow> bytes \<Rightarrow> chacha20_ctx \<times> bytes" where
  "chacha20 ctx input = (if length input \<noteq> 0 then chacha20_loop ctx input else (ctx, []))"

definition chacha20_init :: "bytes \<Rightarrow> u64 \<Rightarrow> chacha20_ctx" where
  "chacha20_init key nonce =
     \<lparr>cc_state =
       [CHACHA20_CONSTANT_1, CHACHA20_CONSTANT_2, CHACHA20_CONSTANT_3, CHACHA20_CONSTANT_4,
        U8TO32_LITTLE (drop 0 key), U8TO32_LITTLE (drop 4 key), U8TO32_LITTLE (drop 8 key),
        U8TO32_LITTLE (drop 12 key), U8TO32_LITTLE (drop 16 key), U8TO32_LITTLE (drop 20 key),
        U8TO32_LITTLE (drop 24 key), U8TO32_LITTLE (drop 28 key),
        0, 0, ucast (nonce AND 0xFFFFFFFF), ucast (drop_bit 32 nonce)]\<rparr>"

definition hchacha20 :: "bytes \<Rightarrow> bytes \<Rightarrow> bytes" where
  "hchacha20 nonce key =
     (let state =
       [CHACHA20_CONSTANT_1, CHACHA20_CONSTANT_2, CHACHA20_CONSTANT_3, CHACHA20_CONSTANT_4,
        U8TO32_LITTLE (drop 0 key), U8TO32_LITTLE (drop 4 key), U8TO32_LITTLE (drop 8 key),
        U8TO32_LITTLE (drop 12 key), U8TO32_LITTLE (drop 16 key), U8TO32_LITTLE (drop 20 key),
        U8TO32_LITTLE (drop 24 key), U8TO32_LITTLE (drop 28 key),
        U8TO32_LITTLE (drop 0 nonce), U8TO32_LITTLE (drop 4 nonce), U8TO32_LITTLE (drop 8 nonce),
        U8TO32_LITTLE (drop 12 nonce)];
          state = TWENTY_ROUNDS state
      in U32TO8_LITTLE (state ! 0) @ U32TO8_LITTLE (state ! 1) @ U32TO8_LITTLE (state ! 2) @
         U32TO8_LITTLE (state ! 3) @ U32TO8_LITTLE (state ! 12) @ U32TO8_LITTLE (state ! 13) @
         U32TO8_LITTLE (state ! 14) @ U32TO8_LITTLE (state ! 15))"

subsection \<open>Lengths\<close>

lemma length_QUARTERROUND [simp, length_simps]: "length (QUARTERROUND a b c d s) = length s"
  by (simp add: QUARTERROUND_def Let_def)

lemma length_INNER_BLOCK [simp, length_simps]: "length (INNER_BLOCK s) = length s"
  by (simp add: INNER_BLOCK_def Let_def)

lemma length_TWENTY_ROUNDS [simp, length_simps]: "length (TWENTY_ROUNDS s) = length s"
proof -
  have "length ((INNER_BLOCK ^^ n) s) = length s" for n by (induction n) auto
  then show ?thesis by (simp add: TWENTY_ROUNDS_def)
qed

lemma length_chacha20_block [simp, length_simps]: "length (chacha20_block ctx) = 64"
  by (simp add: chacha20_block_def Let_def length_concat comp_def sum_list_triv)

lemma length_hchacha20 [simp, length_simps]: "length (hchacha20 nonce key) = 32"
  by (simp add: hchacha20_def Let_def)

lemma length_chacha20_init [simp, length_simps]: "length (cc_state (chacha20_init key nonce)) = 16"
  by (simp add: chacha20_init_def)

subsection \<open>The key stream\<close>

text \<open>\<open>keystream ctx n\<close>: the first \<open>n\<close> bytes of the blocks at counters \<open>c\<close>, \<open>c + 1\<close>, ...\<close>

fun keystream_blocks :: "chacha20_ctx \<Rightarrow> nat \<Rightarrow> bytes" where
  "keystream_blocks ctx 0 = []"
| "keystream_blocks ctx (Suc n) = chacha20_block ctx @ keystream_blocks (chacha20_next ctx) n"

definition keystream :: "chacha20_ctx \<Rightarrow> nat \<Rightarrow> bytes" where
  "keystream ctx n = take n (keystream_blocks ctx ((n + 63) div 64))"

lemma length_keystream_blocks [simp, length_simps]: "length (keystream_blocks ctx n) = 64 * n"
  by (induction ctx n rule: keystream_blocks.induct) auto

lemma length_keystream [simp, length_simps]: "length (keystream ctx n) = n"
  by (simp add: keystream_def)

lemma keystream_0 [simp]: "keystream ctx 0 = []"
  by (simp add: keystream_def)

lemma keystream_short: "0 < n \<Longrightarrow> n \<le> 64 \<Longrightarrow> keystream ctx n = take n (chacha20_block ctx)"
proof -
  assume "0 < n" "n \<le> 64"
  then have "(n + 63) div 64 = Suc 0" by (simp add: div_nat_eqI)
  with \<open>n \<le> 64\<close> show ?thesis by (simp add: keystream_def)
qed

lemma keystream_long:
  "64 < n \<Longrightarrow> keystream ctx n = chacha20_block ctx @ keystream (chacha20_next ctx) (n - 64)"
proof -
  assume "64 < n"
  then have "(n + 63) div 64 = Suc ((n - 64 + 63) div 64)"
    by (simp add: le_div_geq)
  with \<open>64 < n\<close> show ?thesis by (simp add: keystream_def)
qed

lemma map_upt_xor:
  "n = length input \<Longrightarrow> n \<le> length ks \<Longrightarrow>
   map (\<lambda>i. input ! i XOR ks ! i) [0..<n] = xor_bytes input (take n ks)"
  by (rule nth_equalityI) auto

lemma chacha20_loop_keystream:
  "input \<noteq> [] \<Longrightarrow> snd (chacha20_loop ctx input) = xor_bytes input (keystream ctx (length input))"
proof (induction ctx input rule: chacha20_loop.induct)
  case (1 ctx input)
  show ?case
  proof (cases "length input \<le> 64")
    case True
    with 1 show ?thesis
      by (subst chacha20_loop.simps) (simp add: map_upt_xor keystream_short Let_def)
  next
    case False
    have "map (\<lambda>i. input ! i XOR chacha20_block ctx ! i) [0..<64] =
        xor_bytes (take 64 input) (chacha20_block ctx)"
      using False by (intro nth_equalityI) auto
    moreover have "xor_bytes (take 64 input @ drop 64 input) (ks @ ks') =
        xor_bytes (take 64 input) ks @ xor_bytes (drop 64 input) ks'"
      if "length ks = 64" for ks ks'
      using that False unfolding xor_bytes_def by (subst zip_append) auto
    moreover obtain ctx' rest where rest: "chacha20_loop (chacha20_next ctx) (drop 64 input) = (ctx', rest)"
      by fastforce
    moreover have "rest = xor_bytes (drop 64 input) (keystream (chacha20_next ctx) (length input - 64))"
      using "1.IH" [OF refl refl] False rest by simp
    ultimately show ?thesis
      using False by (subst chacha20_loop.simps) (simp add: Let_def keystream_long)
  qed
qed

lemma chacha20_keystream: "snd (chacha20 ctx input) = xor_bytes input (keystream ctx (length input))"
  by (simp add: chacha20_def chacha20_loop_keystream) (simp add: xor_bytes_def)

lemma length_chacha20 [simp, length_simps]: "length (snd (chacha20 ctx input)) = length input"
  by (simp add: chacha20_keystream)

lemma chacha20_involution: "snd (chacha20 ctx (snd (chacha20 ctx input))) = input"
  by (simp add: chacha20_keystream xor_bytes_twice)

text \<open>After a short non-empty input the context stands at the next counter.\<close>

lemma chacha20_ctx_short:
  "input \<noteq> [] \<Longrightarrow> length input \<le> 64 \<Longrightarrow> fst (chacha20 ctx input) = chacha20_next ctx"
  by (simp add: chacha20_def chacha20_loop.simps Let_def)

text \<open>
  The stream cipher: from any context, \<open>chacha20\<close> combines the input with the key stream
  of the block function at consecutive counters, byte by byte and also for a last
  partial block, and a second application from the same context restores the input.
\<close>

theorem chacha20_stream:
  "snd (chacha20 ctx input) = xor_bytes input (keystream ctx (length input)) \<and>
   snd (chacha20 ctx (snd (chacha20 ctx input))) = input"
  by (simp add: chacha20_involution) (simp add: chacha20_keystream)

end
