(* ===== verification/Poly1305.thy ===== *)
theory Poly1305
  imports Crypto_Util
begin

text \<open>
  \<open>crypto/refc/poly1305-donna.c\<close> and \<open>poly1305-donna-32.h\<close>: the one-time
  authenticator with five limbs of 26 bits in 32-bit words and 64-bit products
  (\<open>unsigned long\<close> and \<open>size_t\<close> are 32 bits wide on the ESP32).
  \<open>poly1305_spec\<close> is the definition of RFC 7539: evaluate the polynomial of the
  blocks at the clamped key modulo \<open>2^130 - 5\<close>, add the pad modulo \<open>2^128\<close>. The
  lemmas show that no word operation overflows on a reachable state, that one
  block step multiplies modulo the prime, that the final reduction is exact, and
  that the pieces in which the message arrives do not matter.
\<close>

unbundle bit_operations_syntax

subsection \<open>The code\<close>

type_synonym limbs = "u32 \<times> u32 \<times> u32 \<times> u32 \<times> u32"

record poly1305_state =
  st_r :: limbs
  st_h :: limbs
  st_pad :: "u32 \<times> u32 \<times> u32 \<times> u32"
  st_leftover :: nat
  st_buffer :: bytes
  st_final :: u8

definition U8TO32 :: "bytes \<Rightarrow> u32" where
  "U8TO32 p =
     ucast (p ! 0 AND 0xff) OR
     push_bit 8 (ucast (p ! 1 AND 0xff)) OR
     push_bit 16 (ucast (p ! 2 AND 0xff)) OR
     push_bit 24 (ucast (p ! 3 AND 0xff))"

definition U32TO8 :: "u32 \<Rightarrow> bytes" where
  "U32TO8 v =
     [ucast (v AND 0xff), ucast (drop_bit 8 v AND 0xff), ucast (drop_bit 16 v AND 0xff),
      ucast (drop_bit 24 v AND 0xff)]"

text \<open>\<open>poly1305_init\<close> leaves the buffer as it was.\<close>

definition poly1305_init :: "poly1305_state \<Rightarrow> bytes \<Rightarrow> poly1305_state" where
  "poly1305_init st key =
     st\<lparr>st_r := (U8TO32 (drop 0 key) AND 0x3ffffff,
                 drop_bit 2 (U8TO32 (drop 3 key)) AND 0x3ffff03,
                 drop_bit 4 (U8TO32 (drop 6 key)) AND 0x3ffc0ff,
                 drop_bit 6 (U8TO32 (drop 9 key)) AND 0x3f03fff,
                 drop_bit 8 (U8TO32 (drop 12 key)) AND 0x00fffff),
        st_h := (0, 0, 0, 0, 0),
        st_pad := (U8TO32 (drop 16 key), U8TO32 (drop 20 key), U8TO32 (drop 24 key),
                   U8TO32 (drop 28 key)),
        st_leftover := 0,
        st_final := 0\<rparr>"

text \<open>
  The body of the loop of \<open>poly1305_blocks\<close> on one block of 16 bytes, in the three
  groups of statements of the source: \<open>h += m[i]\<close>, \<open>h *= r\<close> with the products kept in
  64 bits (the \<open>s\<close> of the source is five times \<open>r\<close>), and the partial reduction.
\<close>

definition poly_add_block :: "u32 \<Rightarrow> bytes \<Rightarrow> limbs \<Rightarrow> limbs" where
  "poly_add_block hibit m = (\<lambda>(h0, h1, h2, h3, h4).
     (h0 + (U8TO32 (drop 0 m) AND 0x3ffffff),
      h1 + (drop_bit 2 (U8TO32 (drop 3 m)) AND 0x3ffffff),
      h2 + (drop_bit 4 (U8TO32 (drop 6 m)) AND 0x3ffffff),
      h3 + (drop_bit 6 (U8TO32 (drop 9 m)) AND 0x3ffffff),
      h4 + (drop_bit 8 (U8TO32 (drop 12 m)) OR hibit)))"

definition poly_mul_r :: "limbs \<Rightarrow> limbs \<Rightarrow> u64 \<times> u64 \<times> u64 \<times> u64 \<times> u64" where
  "poly_mul_r = (\<lambda>(r0, r1, r2, r3, r4) (h0, h1, h2, h3, h4).
     (ucast h0 * ucast r0 + ucast h1 * ucast (r4 * 5) + ucast h2 * ucast (r3 * 5) +
        ucast h3 * ucast (r2 * 5) + ucast h4 * ucast (r1 * 5),
      ucast h0 * ucast r1 + ucast h1 * ucast r0 + ucast h2 * ucast (r4 * 5) +
        ucast h3 * ucast (r3 * 5) + ucast h4 * ucast (r2 * 5),
      ucast h0 * ucast r2 + ucast h1 * ucast r1 + ucast h2 * ucast r0 +
        ucast h3 * ucast (r4 * 5) + ucast h4 * ucast (r3 * 5),
      ucast h0 * ucast r3 + ucast h1 * ucast r2 + ucast h2 * ucast r1 +
        ucast h3 * ucast r0 + ucast h4 * ucast (r4 * 5),
      ucast h0 * ucast r4 + ucast h1 * ucast r3 + ucast h2 * ucast r2 +
        ucast h3 * ucast r1 + ucast h4 * ucast r0))"

definition poly_carry :: "u64 \<times> u64 \<times> u64 \<times> u64 \<times> u64 \<Rightarrow> limbs" where
  "poly_carry = (\<lambda>(d0, d1, d2, d3, d4).
     let c = ucast (drop_bit 26 d0) :: u32; h0 = ucast d0 AND 0x3ffffff;
         d1 = d1 + ucast c; c = ucast (drop_bit 26 d1) :: u32; h1 = ucast d1 AND 0x3ffffff;
         d2 = d2 + ucast c; c = ucast (drop_bit 26 d2) :: u32; h2 = ucast d2 AND 0x3ffffff;
         d3 = d3 + ucast c; c = ucast (drop_bit 26 d3) :: u32; h3 = ucast d3 AND 0x3ffffff;
         d4 = d4 + ucast c; c = ucast (drop_bit 26 d4) :: u32; h4 = ucast d4 AND 0x3ffffff;
         h0 = h0 + c * 5; c = drop_bit 26 h0; h0 = h0 AND 0x3ffffff;
         h1 = h1 + c
     in (h0, h1, h2, h3, h4))"

definition poly1305_step :: "u32 \<Rightarrow> limbs \<Rightarrow> bytes \<Rightarrow> limbs \<Rightarrow> limbs" where
  "poly1305_step hibit r m h = poly_carry (poly_mul_r r (poly_add_block hibit m h))"

function poly1305_blocks_loop :: "u32 \<Rightarrow> limbs \<Rightarrow> bytes \<Rightarrow> limbs \<Rightarrow> limbs" where
  "poly1305_blocks_loop hibit r m h =
     (if length m \<ge> 16 then poly1305_blocks_loop hibit r (drop 16 m) (poly1305_step hibit r m h)
      else h)"
  by pat_completeness auto
termination
  by (relation "measure (\<lambda>(hibit, r, m, h). length m)") auto

declare poly1305_blocks_loop.simps [simp del]

definition poly1305_blocks :: "poly1305_state \<Rightarrow> bytes \<Rightarrow> poly1305_state" where
  "poly1305_blocks st m =
     (let hibit = (if st_final st \<noteq> 0 then 0 else push_bit 24 1)
      in st\<lparr>st_h := poly1305_blocks_loop hibit (st_r st) m (st_h st)\<rparr>)"

text \<open>
  \<open>poly1305_update\<close>: fill the leftover block, process the whole blocks, keep the
  rest. \<open>bytes & ~15\<close> is \<open>length m\<close> rounded down to a multiple of 16.
\<close>

definition poly1305_update_full :: "poly1305_state \<Rightarrow> bytes \<Rightarrow> poly1305_state" where
  "poly1305_update_full st m =
     (let want = length m div 16 * 16;
          st = (if length m \<ge> 16 then poly1305_blocks st (take want m) else st);
          m = (if length m \<ge> 16 then drop want m else m)
      in if length m \<noteq> 0
         then st\<lparr>st_buffer := buf_write (st_buffer st) (st_leftover st) m,
                 st_leftover := st_leftover st + length m\<rparr>
         else st)"

definition poly1305_update :: "poly1305_state \<Rightarrow> bytes \<Rightarrow> poly1305_state" where
  "poly1305_update st m =
     (if st_leftover st \<noteq> 0 then
        let want = 16 - st_leftover st;
            want = (if want > length m then length m else want);
            st = st\<lparr>st_buffer := buf_write (st_buffer st) (st_leftover st) (take want m),
                    st_leftover := st_leftover st + want\<rparr>;
            m = drop want m
        in if st_leftover st < 16 then st
           else poly1305_update_full ((poly1305_blocks st (st_buffer st))\<lparr>st_leftover := 0\<rparr>) m
      else poly1305_update_full st m)"

text \<open>
  The arithmetic of \<open>poly1305_finish\<close> after the last block, in the groups of the
  source: carry fully, choose \<open>h\<close> or \<open>h - p\<close> by a mask, pack to four words, add the pad.
\<close>

definition poly_full_carry :: "limbs \<Rightarrow> limbs" where
  "poly_full_carry = (\<lambda>(h0, h1, h2, h3, h4).
     let c = drop_bit 26 h1; h1 = h1 AND 0x3ffffff;
         h2 = h2 + c; c = drop_bit 26 h2; h2 = h2 AND 0x3ffffff;
         h3 = h3 + c; c = drop_bit 26 h3; h3 = h3 AND 0x3ffffff;
         h4 = h4 + c; c = drop_bit 26 h4; h4 = h4 AND 0x3ffffff;
         h0 = h0 + c * 5; c = drop_bit 26 h0; h0 = h0 AND 0x3ffffff;
         h1 = h1 + c
     in (h0, h1, h2, h3, h4))"

definition poly_select :: "limbs \<Rightarrow> limbs" where
  "poly_select = (\<lambda>(h0, h1, h2, h3, h4).
     let g0 = h0 + 5; c = drop_bit 26 g0; g0 = g0 AND 0x3ffffff;
         g1 = h1 + c; c = drop_bit 26 g1; g1 = g1 AND 0x3ffffff;
         g2 = h2 + c; c = drop_bit 26 g2; g2 = g2 AND 0x3ffffff;
         g3 = h3 + c; c = drop_bit 26 g3; g3 = g3 AND 0x3ffffff;
         g4 = h4 + c - push_bit 26 1;
         mask = drop_bit 31 g4 - 1;
         g0 = g0 AND mask; g1 = g1 AND mask; g2 = g2 AND mask; g3 = g3 AND mask; g4 = g4 AND mask;
         mask = NOT mask;
         h0 = (h0 AND mask) OR g0; h1 = (h1 AND mask) OR g1; h2 = (h2 AND mask) OR g2;
         h3 = (h3 AND mask) OR g3; h4 = (h4 AND mask) OR g4
     in (h0, h1, h2, h3, h4))"

definition poly_pack :: "limbs \<Rightarrow> u32 \<times> u32 \<times> u32 \<times> u32" where
  "poly_pack = (\<lambda>(h0, h1, h2, h3, h4).
     ((h0 OR push_bit 26 h1) AND 0xffffffff,
      (drop_bit 6 h1 OR push_bit 20 h2) AND 0xffffffff,
      (drop_bit 12 h2 OR push_bit 14 h3) AND 0xffffffff,
      (drop_bit 18 h3 OR push_bit 8 h4) AND 0xffffffff))"

definition poly_pad :: "u32 \<times> u32 \<times> u32 \<times> u32 \<Rightarrow> u32 \<times> u32 \<times> u32 \<times> u32 \<Rightarrow> bytes" where
  "poly_pad = (\<lambda>(h0, h1, h2, h3) (pad0, pad1, pad2, pad3).
     let f = ucast h0 + ucast pad0 :: u64; h0 = ucast f :: u32;
         f = ucast h1 + ucast pad1 + drop_bit 32 f; h1 = ucast f;
         f = ucast h2 + ucast pad2 + drop_bit 32 f; h2 = ucast f;
         f = ucast h3 + ucast pad3 + drop_bit 32 f; h3 = ucast f
     in U32TO8 h0 @ U32TO8 h1 @ U32TO8 h2 @ U32TO8 h3)"

definition poly1305_emit :: "limbs \<Rightarrow> u32 \<times> u32 \<times> u32 \<times> u32 \<Rightarrow> bytes" where
  "poly1305_emit h pad = poly_pad (poly_pack (poly_select (poly_full_carry h))) pad"

definition poly1305_finish :: "poly1305_state \<Rightarrow> bytes \<times> poly1305_state" where
  "poly1305_finish st =
     (let st = (if st_leftover st \<noteq> 0 then
                  let buffer = (st_buffer st)[st_leftover st := 1];
                      buffer = fold (\<lambda>i b. b[i := 0]) [Suc (st_leftover st)..<16] buffer;
                      st = st\<lparr>st_buffer := buffer, st_final := 1\<rparr>
                  in poly1305_blocks st (st_buffer st)
                else st)
      in (poly1305_emit (st_h st) (st_pad st),
          st\<lparr>st_h := (0, 0, 0, 0, 0), st_r := (0, 0, 0, 0, 0), st_pad := (0, 0, 0, 0)\<rparr>))"

subsection \<open>Specification\<close>

definition poly_p :: nat where "poly_p = 2 ^ 130 - 5"

definition poly_clamp :: "bytes \<Rightarrow> nat" where
  "poly_clamp r = le_val r AND 0x0ffffffc0ffffffc0ffffffc0fffffff"

definition poly_block :: "bytes \<Rightarrow> nat" where
  "poly_block blk = le_val blk + 256 ^ length blk"

definition poly_acc :: "nat \<Rightarrow> nat \<Rightarrow> bytes list \<Rightarrow> nat" where
  "poly_acc r = foldl (\<lambda>a blk. (a + poly_block blk) * r mod poly_p)"

definition poly1305_spec :: "bytes \<Rightarrow> bytes \<Rightarrow> bytes" where
  "poly1305_spec key msg =
     le_bytes 16 (poly_acc (poly_clamp (take 16 key)) 0 (blocks 16 msg) + le_val (take 16 (drop 16 key)))"

subsection \<open>Limbs and words\<close>

definition limbs_val :: "limbs \<Rightarrow> nat" where
  "limbs_val = (\<lambda>(h0, h1, h2, h3, h4).
     unat h0 + 2 ^ 26 * unat h1 + 2 ^ 52 * unat h2 + 2 ^ 78 * unat h3 + 2 ^ 104 * unat h4)"

lemma U8TO32_eq: "U8TO32 p = U8TO32_LITTLE p"
proof -
  have "(255 :: u8) = - 1" by simp
  then have "x AND 255 = x" for x :: u8 by (simp only: and.right_neutral)
  then show ?thesis by (simp add: U8TO32_def U8TO32_LITTLE_def)
qed

lemma U32TO8_eq: "U32TO8 v = U32TO8_LITTLE v"
proof -
  have "ucast (x AND 255) = U8V x" for x :: u32
    by (simp add: word_unat_eq_iff unat_U8V unat_ucast_mod unat_and nat_and_mask [of _ 8, simplified])
  then show ?thesis by (simp add: U32TO8_def U32TO8_LITTLE_def)
qed

lemma unat_U8TO32_drop:
  "k + 4 \<le> length m \<Longrightarrow> unat (U8TO32 (drop k m)) = le_val m div 256 ^ k mod 2 ^ 32"
  by (simp add: U8TO32_eq unat_U8TO32_LITTLE le_val_take le_val_drop)

lemma unat_and_26: "unat (x AND 0x3ffffff) = unat x mod 2 ^ 26" for x :: u32
  using nat_and_mask [of "unat x" 26] by (simp add: unat_and)

lemma dot5:
  fixes h0 h1 h2 h3 h4 r0 r1 r2 r3 r4 :: u32
  assumes "unat h0 \<le> A0" "unat h1 \<le> A1" "unat h2 \<le> A2" "unat h3 \<le> A3" "unat h4 \<le> A4"
    and "unat r0 \<le> B0" "unat r1 \<le> B1" "unat r2 \<le> B2" "unat r3 \<le> B3" "unat r4 \<le> B4"
    and "A0 * B0 + A1 * B1 + A2 * B2 + A3 * B3 + A4 * B4 < 2 ^ 64"
  shows "unat (ucast h0 * ucast r0 + ucast h1 * ucast r1 + ucast h2 * ucast r2 +
               ucast h3 * ucast r3 + ucast h4 * ucast r4 :: u64) =
         unat h0 * unat r0 + unat h1 * unat r1 + unat h2 * unat r2 + unat h3 * unat r3 + unat h4 * unat r4
    \<and> unat h0 * unat r0 + unat h1 * unat r1 + unat h2 * unat r2 + unat h3 * unat r3 + unat h4 * unat r4
      \<le> A0 * B0 + A1 * B1 + A2 * B2 + A3 * B3 + A4 * B4"
proof -
  have m: "unat (ucast a * ucast b :: u64) = unat a * unat b" for a b :: u32
  proof -
    have "unat a * unat b < 2 ^ 32 * 2 ^ 32" by (rule mult_strict_mono) simp_all
    then show ?thesis by (simp add: unat_mult unat_ucast_up)
  qed
  have le: "unat h0 * unat r0 \<le> A0 * B0" "unat h1 * unat r1 \<le> A1 * B1" "unat h2 * unat r2 \<le> A2 * B2"
    "unat h3 * unat r3 \<le> A3 * B3" "unat h4 * unat r4 \<le> A4 * B4"
    using assms by (simp_all add: mult_le_mono)
  then show ?thesis
    using assms(11) by (simp add: unat_add m)
qed

text \<open>One carry out of a 64-bit column.\<close>

lemma column_carry:
  fixes d :: u64
  assumes "unat d < 2 ^ 58"
  shows "unat (ucast (drop_bit 26 d) :: u32) = unat d div 2 ^ 26"
    and "unat (ucast d AND 0x3ffffff :: u32) = unat d mod 2 ^ 26"
proof -
  have "unat d div 2 ^ 26 < 2 ^ 32" using assms by (simp add: less_mult_imp_div_less)
  then show "unat (ucast (drop_bit 26 d) :: u32) = unat d div 2 ^ 26"
    by (simp add: unat_ucast_mod unat_drop_bit)
  have "unat d mod 2 ^ 32 mod 2 ^ 26 = unat d mod 2 ^ 26" by (rule mod_mod_cancel) simp
  then show "unat (ucast d AND 0x3ffffff :: u32) = unat d mod 2 ^ 26"
    by (simp add: unat_and_26 unat_ucast_mod)
qed

definition poly_bounded :: "limbs \<Rightarrow> bool" where
  "poly_bounded = (\<lambda>(h0, h1, h2, h3, h4). unat h0 < 2 ^ 26 \<and> unat h1 < 2 ^ 26 + 2 ^ 6 \<and>
     unat h2 < 2 ^ 26 \<and> unat h3 < 2 ^ 26 \<and> unat h4 < 2 ^ 26)"

text \<open>The carries of a radix \<open>B\<close> number, the last one folded in at the bottom times five.\<close>

lemma carry_chain:
  fixes B :: nat
  assumes "d0 = B * c0 + k0" "d1 + c0 = B * c1 + k1" "d2 + c1 = B * c2 + k2" "d3 + c2 = B * c3 + k3"
    "d4 + c3 = B * c4 + k4" "k0 + c4 * 5 = B * g + f"
  shows "f + B * (k1 + g) + B ^ 2 * k2 + B ^ 3 * k3 + B ^ 4 * k4 + B ^ 5 * c4 =
    d0 + B * d1 + B ^ 2 * d2 + B ^ 3 * d3 + B ^ 4 * d4 + 5 * c4"
proof -
  have e: "int d0 = int (B * c0 + k0)" "int d1 = int (B * c1 + k1) - int c0"
    "int d2 = int (B * c2 + k2) - int c1" "int d3 = int (B * c3 + k3) - int c2"
    "int d4 = int (B * c4 + k4) - int c3" "int f = int (k0 + c4 * 5) - int (B * g)"
    using assms by linarith+
  have "int (f + B * (k1 + g) + B ^ 2 * k2 + B ^ 3 * k3 + B ^ 4 * k4 + B ^ 5 * c4) =
    int (d0 + B * d1 + B ^ 2 * d2 + B ^ 3 * d3 + B ^ 4 * d4 + 5 * c4)"
    unfolding of_nat_add of_nat_mult e by (simp add: algebra_simps eval_nat_numeral)
  then show ?thesis by (simp only: of_nat_eq_iff)
qed

lemma carry_chain_26:
  fixes d0 :: nat
  assumes "d0 = 2 ^ 26 * c0 + k0" "d1 + c0 = 2 ^ 26 * c1 + k1" "d2 + c1 = 2 ^ 26 * c2 + k2"
    "d3 + c2 = 2 ^ 26 * c3 + k3" "d4 + c3 = 2 ^ 26 * c4 + k4" "k0 + c4 * 5 = 2 ^ 26 * g + f"
  shows "f + 2 ^ 26 * (k1 + g) + 2 ^ 52 * k2 + 2 ^ 78 * k3 + 2 ^ 104 * k4 + (2 ^ 130 - 5) * c4 =
    d0 + 2 ^ 26 * d1 + 2 ^ 52 * d2 + 2 ^ 78 * d3 + 2 ^ 104 * d4"
proof -
  have "f + 2 ^ 26 * (k1 + g) + 2 ^ 52 * k2 + 2 ^ 78 * k3 + 2 ^ 104 * k4 + 2 ^ 130 * c4 =
    d0 + 2 ^ 26 * d1 + 2 ^ 52 * d2 + 2 ^ 78 * d3 + 2 ^ 104 * d4 + 5 * c4"
    using carry_chain [OF assms] by (simp only: power_mult [symmetric] mult_numeral_left semiring_norm)
  moreover have "(2 ^ 130 - 5) * c4 + 5 * c4 = 2 ^ 130 * c4"
    by (simp only: distrib_right [symmetric]) simp
  ultimately show ?thesis by linarith
qed

lemma poly_carry_correct:
  assumes "unat d0 < 2 ^ 57" "unat d1 < 2 ^ 57" "unat d2 < 2 ^ 57" "unat d3 < 2 ^ 57" "unat d4 < 2 ^ 55"
  shows "poly_bounded (poly_carry (d0, d1, d2, d3, d4)) \<and>
    (\<exists>c. limbs_val (poly_carry (d0, d1, d2, d3, d4)) + (2 ^ 130 - 5) * c =
      unat d0 + 2 ^ 26 * unat d1 + 2 ^ 52 * unat d2 + 2 ^ 78 * unat d3 + 2 ^ 104 * unat d4)"
proof -
  define c0 :: u32 where "c0 = ucast (drop_bit 26 d0)"
  define e1 where "e1 = d1 + ucast c0"
  define c1 :: u32 where "c1 = ucast (drop_bit 26 e1)"
  define e2 where "e2 = d2 + ucast c1"
  define c2 :: u32 where "c2 = ucast (drop_bit 26 e2)"
  define e3 where "e3 = d3 + ucast c2"
  define c3 :: u32 where "c3 = ucast (drop_bit 26 e3)"
  define e4 where "e4 = d4 + ucast c3"
  define c4 :: u32 where "c4 = ucast (drop_bit 26 e4)"
  define k0 :: u32 where "k0 = ucast d0 AND 0x3ffffff"
  define k1 :: u32 where "k1 = ucast e1 AND 0x3ffffff"
  define k2 :: u32 where "k2 = ucast e2 AND 0x3ffffff"
  define k3 :: u32 where "k3 = ucast e3 AND 0x3ffffff"
  define k4 :: u32 where "k4 = ucast e4 AND 0x3ffffff"
  define f0 where "f0 = k0 + c4 * 5"
  note defs = c0_def e1_def c1_def e2_def c2_def e3_def c3_def e4_def c4_def k0_def k1_def k2_def
    k3_def k4_def f0_def
  have res: "poly_carry (d0, d1, d2, d3, d4) = (f0 AND 0x3ffffff, k1 + drop_bit 26 f0, k2, k3, k4)"
    by (simp add: poly_carry_def Let_def defs)
  have add: "unat (d + ucast (c :: u32)) = unat d + unat c" if "unat d < 2 ^ 57" for d :: u64 and c
  proof -
    have "unat d + unat c < 2 ^ 57 + 2 ^ 32" using that by (intro add_strict_mono) simp_all
    also have "\<dots> < (2 :: nat) ^ 64" by simp
    finally have "unat d + unat c < 2 ^ 64" .
    then show ?thesis by (subst unat_add_small) (simp_all add: unat_ucast_up)
  qed
  have c0: "unat c0 = unat d0 div 2 ^ 26" "unat k0 = unat d0 mod 2 ^ 26"
    using column_carry [of d0] assms(1) by (simp_all add: c0_def k0_def)
  have e1: "unat e1 = unat d1 + unat c0" "unat e1 < 2 ^ 58"
    using assms(2) unat_u32_less [of c0] by (simp_all add: e1_def add del: unat_u32_less)
  have c1: "unat c1 = unat e1 div 2 ^ 26" "unat k1 = unat e1 mod 2 ^ 26"
    using column_carry [OF e1(2)] by (simp_all add: c1_def k1_def)
  have e2: "unat e2 = unat d2 + unat c1" "unat e2 < 2 ^ 58"
    using assms(3) unat_u32_less [of c1] by (simp_all add: e2_def add del: unat_u32_less)
  have c2: "unat c2 = unat e2 div 2 ^ 26" "unat k2 = unat e2 mod 2 ^ 26"
    using column_carry [OF e2(2)] by (simp_all add: c2_def k2_def)
  have e3: "unat e3 = unat d3 + unat c2" "unat e3 < 2 ^ 58"
    using assms(4) unat_u32_less [of c2] by (simp_all add: e3_def add del: unat_u32_less)
  have c3: "unat c3 = unat e3 div 2 ^ 26" "unat k3 = unat e3 mod 2 ^ 26"
    using column_carry [OF e3(2)] by (simp_all add: c3_def k3_def)
  have e4: "unat e4 = unat d4 + unat c3" "unat e4 < 2 ^ 55 + 2 ^ 32"
    using assms(5) unat_u32_less [of c3] by (simp_all add: e4_def add del: unat_u32_less)
  have c4: "unat c4 = unat e4 div 2 ^ 26" "unat k4 = unat e4 mod 2 ^ 26"
    using column_carry [of e4] e4(2) by (simp_all add: c4_def k4_def)
  have c4_less: "unat c4 \<le> 2 ^ 29 + 2 ^ 6"
    using c4(1) e4(2) div_le_mono [of "unat e4" "2 ^ 55 + 2 ^ 32" "2 ^ 26"] by simp
  have k: "unat k0 < 2 ^ 26" "unat k1 < 2 ^ 26" "unat k2 < 2 ^ 26" "unat k3 < 2 ^ 26" "unat k4 < 2 ^ 26"
    unfolding c0(2) c1(2) c2(2) c3(2) c4(2) by simp_all
  have c45: "unat (c4 * 5) = unat c4 * 5"
    using c4_less by (subst unat_mult_small) simp_all
  have f0: "unat f0 = unat k0 + unat c4 * 5"
    using c4_less k(1) by (simp add: f0_def unat_add_small c45)
  have f0_less: "unat f0 < 2 ^ 32" by simp
  have fc: "unat (drop_bit 26 f0) = unat f0 div 2 ^ 26" by (simp only: unat_drop_bit)
  then have fc_less: "unat (drop_bit 26 f0) < 2 ^ 6"
    using f0_less by (simp add: less_mult_imp_div_less)
  have h1: "unat (k1 + drop_bit 26 f0) = unat k1 + unat f0 div 2 ^ 26"
    using k(2) fc_less fc by (subst unat_add_small) simp_all
  have h0: "unat (f0 AND 0x3ffffff) = unat f0 mod 2 ^ 26" by (simp only: unat_and_26)
  have "poly_bounded (poly_carry (d0, d1, d2, d3, d4))"
    using k fc fc_less h1 h0 by (simp add: res poly_bounded_def)
  moreover have "limbs_val (poly_carry (d0, d1, d2, d3, d4)) + (2 ^ 130 - 5) * unat c4 =
      unat d0 + 2 ^ 26 * unat d1 + 2 ^ 52 * unat d2 + 2 ^ 78 * unat d3 + 2 ^ 104 * unat d4"
    unfolding limbs_val_def res prod.case h0 h1
    by (rule carry_chain_26 [of _ "unat c0" "unat k0" _ "unat c1" _ _ "unat c2" _ _ "unat c3"])
      (simp_all only: e1(1) [symmetric] e2(1) [symmetric] e3(1) [symmetric] e4(1) [symmetric]
        f0 [symmetric], simp_all only: c0 c1 c2 c3 c4 mult_div_mod_eq)
  ultimately show ?thesis by blast
qed

lemma unat_slice:
  assumes "k + 4 \<le> length m" "e = 8 * k + s" "s \<le> 32"
  shows "unat (drop_bit s (U8TO32 (drop k m))) = le_val m div 2 ^ e mod 2 ^ (32 - s)"
proof -
  have "(256 :: nat) ^ k = 2 ^ (8 * k)" by (simp add: power_mult)
  moreover have "x mod 2 ^ 32 div 2 ^ s = x div 2 ^ s mod 2 ^ (32 - s)" for x :: nat
    using drop_bit_take_bit [of s 32 x] by (simp only: drop_bit_eq_div take_bit_eq_mod)
  ultimately show ?thesis using assms
    by (simp only: unat_drop_bit unat_U8TO32_drop power_add div_mult2_eq)
qed

lemma slice_26:
  assumes "k + 4 \<le> length m" "e = 8 * k + s" "s \<le> 6"
  shows "unat (drop_bit s (U8TO32 (drop k m)) AND 0x3ffffff) = le_val m div 2 ^ e mod 2 ^ 26"
proof -
  have "x mod 2 ^ (32 - s) mod 2 ^ 26 = x mod 2 ^ 26" for x :: nat
    using assms(3) by (intro mod_mod_cancel le_imp_power_dvd) simp
  then show ?thesis using assms by (simp only: unat_and_26 unat_slice [OF assms(1,2)] le_trans)
qed

lemma limbs_of_nat:
  fixes n :: nat
  shows "n mod 2 ^ 26 + 2 ^ 26 * (n div 2 ^ 26 mod 2 ^ 26) + 2 ^ 52 * (n div 2 ^ 52 mod 2 ^ 26) +
    2 ^ 78 * (n div 2 ^ 78 mod 2 ^ 26) + 2 ^ 104 * (n div 2 ^ 104) = n"
proof -
  have *: "2 ^ e * (n div 2 ^ e) = 2 ^ e * (n div 2 ^ e mod 2 ^ 26) + 2 ^ (e + 26) * (n div 2 ^ (e + 26))"
    for e
    by (simp only: power_add div_mult2_eq mult.assoc distrib_left [symmetric] mod_mult_div_eq)
  show ?thesis
    using mod_mult_div_eq [of n "2 ^ 26"] * [of 26] * [of 52] * [of 78]
    unfolding add_numeral_special arith_simps by linarith
qed

lemma poly_add_block_correct:
  assumes h: "poly_bounded (h0, h1, h2, h3, h4)" and m: "16 \<le> length m"
    and hi: "hibit = 0 \<or> hibit = 0x1000000"
    and r: "poly_add_block hibit m (h0, h1, h2, h3, h4) = (g0, g1, g2, g3, g4)"
  shows "unat g0 \<le> 2 ^ 27" "unat g1 \<le> 2 ^ 27 + 2 ^ 6" "unat g2 \<le> 2 ^ 27" "unat g3 \<le> 2 ^ 27"
    "unat g4 \<le> 2 ^ 26 + 2 ^ 25"
    "limbs_val (g0, g1, g2, g3, g4) =
     limbs_val (h0, h1, h2, h3, h4) + le_val (take 16 m) + 2 ^ 104 * unat hibit"
proof -
  let ?n = "le_val (take 16 m)"
  have slice: "drop_bit s (U8TO32 (drop k m)) = drop_bit s (U8TO32 (drop k (take 16 m)))"
    if "k \<le> 12" for k s
  proof -
    have "U8TO32 (drop k m) = U8TO32 (drop k (take 16 m))"
      using that m by (simp add: U8TO32_def)
    then show ?thesis by simp
  qed
  have n: "?n < 2 ^ 128" using le_val_bound [of "take 16 m"] m by (simp add: min_absorb2)
  have s0: "unat (U8TO32 (drop 0 m) AND 0x3ffffff) = ?n mod 2 ^ 26"
    using slice [of 0 0] slice_26 [of 0 "take 16 m" 0 0] m by simp
  have s1: "unat (drop_bit 2 (U8TO32 (drop 3 m)) AND 0x3ffffff) = ?n div 2 ^ 26 mod 2 ^ 26"
    unfolding slice [of 3, simplified] by (rule slice_26) (use m in simp_all)
  have s2: "unat (drop_bit 4 (U8TO32 (drop 6 m)) AND 0x3ffffff) = ?n div 2 ^ 52 mod 2 ^ 26"
    unfolding slice [of 6, simplified] by (rule slice_26) (use m in simp_all)
  have s3: "unat (drop_bit 6 (U8TO32 (drop 9 m)) AND 0x3ffffff) = ?n div 2 ^ 78 mod 2 ^ 26"
    unfolding slice [of 9, simplified] by (rule slice_26) (use m in simp_all)
  have n4: "?n div 2 ^ 104 < 2 ^ 24" using n by (simp add: less_mult_imp_div_less)
  have s4': "unat (drop_bit 8 (U8TO32 (drop 12 m))) = ?n div 2 ^ 104"
    unfolding slice [of 12, simplified] using n4 m by (subst unat_slice [of _ _ 104]) simp_all
  have s4: "unat (drop_bit 8 (U8TO32 (drop 12 m)) OR hibit) = ?n div 2 ^ 104 + unat hibit"
    using hi nat_or_add [OF n4, of 1] by (auto simp: unat_or s4')
  have b: "unat h0 < 2 ^ 26" "unat h1 < 2 ^ 26 + 2 ^ 6" "unat h2 < 2 ^ 26" "unat h3 < 2 ^ 26"
    "unat h4 < 2 ^ 26"
    using h by (simp_all add: poly_bounded_def)
  have lt: "x mod 2 ^ 26 < 67108864" for x :: nat by simp
  have hb: "unat hibit \<le> 2 ^ 24" using hi by auto
  have g0: "unat g0 = unat h0 + ?n mod 2 ^ 26"
    using r b(1) lt [of ?n] by (auto simp: poly_add_block_def s0 [simplified] unat_add_small)
  have g1: "unat g1 = unat h1 + ?n div 2 ^ 26 mod 2 ^ 26"
    using r b(2) lt [of "?n div 2 ^ 26"] by (auto simp: poly_add_block_def s1 [simplified] unat_add_small)
  have g2: "unat g2 = unat h2 + ?n div 2 ^ 52 mod 2 ^ 26"
    using r b(3) lt [of "?n div 2 ^ 52"] by (auto simp: poly_add_block_def s2 [simplified] unat_add_small)
  have g3: "unat g3 = unat h3 + ?n div 2 ^ 78 mod 2 ^ 26"
    using r b(4) lt [of "?n div 2 ^ 78"] by (auto simp: poly_add_block_def s3 [simplified] unat_add_small)
  have g4: "unat g4 = unat h4 + (?n div 2 ^ 104 + unat hibit)"
    using r b(5) n4 hb by (auto simp: poly_add_block_def s4 [simplified] unat_add_small)
  show "unat g0 \<le> 2 ^ 27" using g0 b(1) lt [of ?n] by simp
  show "unat g1 \<le> 2 ^ 27 + 2 ^ 6" using g1 b(2) lt [of "?n div 2 ^ 26"] by simp
  show "unat g2 \<le> 2 ^ 27" using g2 b(3) lt [of "?n div 2 ^ 52"] by simp
  show "unat g3 \<le> 2 ^ 27" using g3 b(4) lt [of "?n div 2 ^ 78"] by simp
  show "unat g4 \<le> 2 ^ 26 + 2 ^ 25" using g4 b(5) n4 hb by simp
  show "limbs_val (g0, g1, g2, g3, g4) =
     limbs_val (h0, h1, h2, h3, h4) + ?n + 2 ^ 104 * unat hibit"
    using limbs_of_nat [of ?n] unfolding limbs_val_def prod.case g0 g1 g2 g3 g4 distrib_left
    by linarith
qed

definition poly_clamped :: "limbs \<Rightarrow> bool" where
  "poly_clamped = (\<lambda>(r0, r1, r2, r3, r4). unat r0 < 2 ^ 26 \<and> unat r1 < 2 ^ 26 \<and> unat r2 < 2 ^ 26 \<and>
     unat r3 < 2 ^ 26 \<and> unat r4 < 2 ^ 20)"

lemma school_product:
  fixes B :: nat
  shows "(h0 + B * h1 + B ^ 2 * h2 + B ^ 3 * h3 + B ^ 4 * h4) * (r0 + B * r1 + B ^ 2 * r2 + B ^ 3 * r3 + B ^ 4 * r4)
    + 5 * (h1 * r4 + h2 * r3 + h3 * r2 + h4 * r1 + B * (h2 * r4 + h3 * r3 + h4 * r2) +
        B ^ 2 * (h3 * r4 + h4 * r3) + B ^ 3 * (h4 * r4)) =
    (h0 * r0 + h1 * (5 * r4) + h2 * (5 * r3) + h3 * (5 * r2) + h4 * (5 * r1)) +
    B * (h0 * r1 + h1 * r0 + h2 * (5 * r4) + h3 * (5 * r3) + h4 * (5 * r2)) +
    B ^ 2 * (h0 * r2 + h1 * r1 + h2 * r0 + h3 * (5 * r4) + h4 * (5 * r3)) +
    B ^ 3 * (h0 * r3 + h1 * r2 + h2 * r1 + h3 * r0 + h4 * (5 * r4)) +
    B ^ 4 * (h0 * r4 + h1 * r3 + h2 * r2 + h3 * r1 + h4 * r0) +
    B ^ 5 * (h1 * r4 + h2 * r3 + h3 * r2 + h4 * r1 + B * (h2 * r4 + h3 * r3 + h4 * r2) +
        B ^ 2 * (h3 * r4 + h4 * r3) + B ^ 3 * (h4 * r4))"
  by (simp add: algebra_simps eval_nat_numeral)

lemma poly_mul_r_correct:
  assumes r: "poly_clamped (r0, r1, r2, r3, r4)"
    and h: "unat h0 \<le> 2 ^ 27" "unat h1 \<le> 2 ^ 27 + 2 ^ 6" "unat h2 \<le> 2 ^ 27" "unat h3 \<le> 2 ^ 27"
      "unat h4 \<le> 2 ^ 26 + 2 ^ 25"
    and d: "poly_mul_r (r0, r1, r2, r3, r4) (h0, h1, h2, h3, h4) = (d0, d1, d2, d3, d4)"
  shows "unat d0 < 2 ^ 57" "unat d1 < 2 ^ 57" "unat d2 < 2 ^ 57" "unat d3 < 2 ^ 57" "unat d4 < 2 ^ 55"
    and "\<exists>e. limbs_val (h0, h1, h2, h3, h4) * limbs_val (r0, r1, r2, r3, r4) =
      unat d0 + 2 ^ 26 * unat d1 + 2 ^ 52 * unat d2 + 2 ^ 78 * unat d3 + 2 ^ 104 * unat d4 +
      (2 ^ 130 - 5) * e"
proof -
  have rb: "unat r0 \<le> 2 ^ 26" "unat r1 \<le> 2 ^ 26" "unat r2 \<le> 2 ^ 26" "unat r3 \<le> 2 ^ 26" "unat r4 \<le> 2 ^ 20"
    using r by (simp_all add: poly_clamped_def)
  have s: "unat (x * 5) = 5 * unat x" if "unat x \<le> 2 ^ 26" for x :: u32
    using that by (subst unat_mult_small) simp_all
  have sv: "unat (r1 * 5) = 5 * unat r1" "unat (r2 * 5) = 5 * unat r2" "unat (r3 * 5) = 5 * unat r3"
    "unat (r4 * 5) = 5 * unat r4"
    using s [OF rb(2)] s [OF rb(3)] s [OF rb(4)] s [of r4] rb(5) by simp_all
  have sb: "unat (r1 * 5) \<le> 5 * 2 ^ 26" "unat (r2 * 5) \<le> 5 * 2 ^ 26" "unat (r3 * 5) \<le> 5 * 2 ^ 26"
    "unat (r4 * 5) \<le> 5 * 2 ^ 20"
    using rb by (simp_all add: sv)
  have d0: "d0 = ucast h0 * ucast r0 + ucast h1 * ucast (r4 * 5) + ucast h2 * ucast (r3 * 5) +
        ucast h3 * ucast (r2 * 5) + ucast h4 * ucast (r1 * 5)"
    and d1: "d1 = ucast h0 * ucast r1 + ucast h1 * ucast r0 + ucast h2 * ucast (r4 * 5) +
        ucast h3 * ucast (r3 * 5) + ucast h4 * ucast (r2 * 5)"
    and d2: "d2 = ucast h0 * ucast r2 + ucast h1 * ucast r1 + ucast h2 * ucast r0 +
        ucast h3 * ucast (r4 * 5) + ucast h4 * ucast (r3 * 5)"
    and d3: "d3 = ucast h0 * ucast r3 + ucast h1 * ucast r2 + ucast h2 * ucast r1 +
        ucast h3 * ucast r0 + ucast h4 * ucast (r4 * 5)"
    and d4: "d4 = ucast h0 * ucast r4 + ucast h1 * ucast r3 + ucast h2 * ucast r2 +
        ucast h3 * ucast r1 + ucast h4 * ucast r0"
    using d by (auto simp: poly_mul_r_def)
  note v0 = dot5 [OF h rb(1) sb(4) sb(3) sb(2) sb(1), folded d0]
  note v1 = dot5 [OF h rb(2) rb(1) sb(4) sb(3) sb(2), folded d1]
  note v2 = dot5 [OF h rb(3) rb(2) rb(1) sb(4) sb(3), folded d2]
  note v3 = dot5 [OF h rb(4) rb(3) rb(2) rb(1) sb(4), folded d3]
  note v4 = dot5 [OF h rb(5) rb(4) rb(3) rb(2) rb(1), folded d4]
  show "unat d0 < 2 ^ 57" "unat d1 < 2 ^ 57" "unat d2 < 2 ^ 57" "unat d3 < 2 ^ 57" "unat d4 < 2 ^ 55"
    using v0 v1 v2 v3 v4 by simp_all
  define e where "e = unat h1 * unat r4 + unat h2 * unat r3 + unat h3 * unat r2 + unat h4 * unat r1 +
    2 ^ 26 * (unat h2 * unat r4 + unat h3 * unat r3 + unat h4 * unat r2) +
    (2 ^ 26) ^ 2 * (unat h3 * unat r4 + unat h4 * unat r3) + (2 ^ 26) ^ 3 * (unat h4 * unat r4)"
  have "limbs_val (h0, h1, h2, h3, h4) * limbs_val (r0, r1, r2, r3, r4) + 5 * e =
      unat d0 + 2 ^ 26 * unat d1 + 2 ^ 52 * unat d2 + 2 ^ 78 * unat d3 + 2 ^ 104 * unat d4 + 2 ^ 130 * e"
    using school_product [of "unat h0" "2 ^ 26" "unat h1" "unat h2" "unat h3" "unat h4" "unat r0" "unat r1"
        "unat r2" "unat r3" "unat r4", folded e_def] v0 v1 v2 v3 v4
    by (simp only: limbs_val_def prod.case sv) simp
  moreover have "(2 ^ 130 - 5) * e + 5 * e = 2 ^ 130 * e"
    by (simp only: distrib_right [symmetric]) simp
  ultimately have "limbs_val (h0, h1, h2, h3, h4) * limbs_val (r0, r1, r2, r3, r4) =
      unat d0 + 2 ^ 26 * unat d1 + 2 ^ 52 * unat d2 + 2 ^ 78 * unat d3 + 2 ^ 104 * unat d4 +
      (2 ^ 130 - 5) * e"
    by linarith
  then show "\<exists>e. limbs_val (h0, h1, h2, h3, h4) * limbs_val (r0, r1, r2, r3, r4) =
      unat d0 + 2 ^ 26 * unat d1 + 2 ^ 52 * unat d2 + 2 ^ 78 * unat d3 + 2 ^ 104 * unat d4 +
      (2 ^ 130 - 5) * e" by blast
qed

lemma step_correct:
  assumes r: "poly_clamped r" and h: "poly_bounded h" and m: "16 \<le> length m"
    and hi: "hibit = 0 \<or> hibit = 0x1000000"
  shows "poly_bounded (poly1305_step hibit r m h)"
    and "limbs_val (poly1305_step hibit r m h) mod poly_p =
      (limbs_val h + le_val (take 16 m) + 2 ^ 104 * unat hibit) * limbs_val r mod poly_p"
proof -
  obtain r0 r1 r2 r3 r4 where re: "r = (r0, r1, r2, r3, r4)" by (cases r)
  obtain h0 h1 h2 h3 h4 where he: "h = (h0, h1, h2, h3, h4)" by (cases h)
  obtain g0 g1 g2 g3 g4 where g: "poly_add_block hibit m (h0, h1, h2, h3, h4) = (g0, g1, g2, g3, g4)"
    by (cases "poly_add_block hibit m (h0, h1, h2, h3, h4)")
  obtain d0 d1 d2 d3 d4 where d: "poly_mul_r (r0, r1, r2, r3, r4) (g0, g1, g2, g3, g4) = (d0, d1, d2, d3, d4)"
    by (cases "poly_mul_r (r0, r1, r2, r3, r4) (g0, g1, g2, g3, g4)")
  note add = poly_add_block_correct [OF h [unfolded he] m hi g]
  note mul = poly_mul_r_correct [OF r [unfolded re] add(1-5) d]
  note carry = poly_carry_correct [OF mul(1-5)]
  have s: "poly1305_step hibit r m h = poly_carry (d0, d1, d2, d3, d4)"
    by (simp only: poly1305_step_def re he g d)
  show "poly_bounded (poly1305_step hibit r m h)" using carry s by simp
  obtain c where c: "limbs_val (poly_carry (d0, d1, d2, d3, d4)) + poly_p * c =
      unat d0 + 2 ^ 26 * unat d1 + 2 ^ 52 * unat d2 + 2 ^ 78 * unat d3 + 2 ^ 104 * unat d4"
    using carry unfolding poly_p_def by blast
  obtain e where e: "limbs_val (g0, g1, g2, g3, g4) * limbs_val (r0, r1, r2, r3, r4) =
      unat d0 + 2 ^ 26 * unat d1 + 2 ^ 52 * unat d2 + 2 ^ 78 * unat d3 + 2 ^ 104 * unat d4 + poly_p * e"
    using mul(6) unfolding poly_p_def by blast
  have "limbs_val (g0, g1, g2, g3, g4) * limbs_val r mod poly_p =
      (limbs_val (poly_carry (d0, d1, d2, d3, d4)) + poly_p * (c + e)) mod poly_p"
    unfolding re e c [symmetric] by (simp add: distrib_left add.assoc)
  then show "limbs_val (poly1305_step hibit r m h) mod poly_p =
      (limbs_val h + le_val (take 16 m) + 2 ^ 104 * unat hibit) * limbs_val r mod poly_p"
    unfolding s unfolding he add(6) [symmetric] by simp
qed

lemma poly_acc_mod: "poly_acc k (a mod poly_p) bs mod poly_p = poly_acc k a bs mod poly_p"
proof (cases bs)
  case (Cons b bs')
  have "(a mod poly_p + poly_block b) * k mod poly_p = (a + poly_block b) * k mod poly_p"
    by (metis mod_add_left_eq mod_mult_left_eq)
  with Cons show ?thesis by (simp add: poly_acc_def)
qed (simp add: poly_acc_def)

lemma blocks_loop_short: "length m < 16 \<Longrightarrow> poly1305_blocks_loop hibit r m h = h"
  by (subst poly1305_blocks_loop.simps) simp

lemma blocks_loop_long:
  "16 \<le> length m \<Longrightarrow> poly1305_blocks_loop hibit r m h =
   poly1305_blocks_loop hibit r (drop 16 m) (poly1305_step hibit r m h)"
  by (subst poly1305_blocks_loop.simps) simp

lemma blocks_loop_correct:
  "poly_clamped r \<Longrightarrow> poly_bounded h \<Longrightarrow> length m mod 16 = 0 \<Longrightarrow> hibit = 0x1000000 \<Longrightarrow>
   poly_bounded (poly1305_blocks_loop hibit r m h) \<and>
   limbs_val (poly1305_blocks_loop hibit r m h) mod poly_p =
   poly_acc (limbs_val r) (limbs_val h) (blocks 16 m) mod poly_p"
proof (induction hibit r m h rule: poly1305_blocks_loop.induct)
  case (1 hibit r m h)
  show ?case
  proof (cases "16 \<le> length m")
    case False
    with 1 have "m = []" by (cases m) auto
    with 1 show ?thesis by (simp add: blocks_loop_short poly_acc_def)
  next
    case True
    let ?h = "poly1305_step hibit r m h"
    have s: "poly_bounded ?h" "limbs_val ?h mod poly_p =
        (limbs_val h + le_val (take 16 m) + 2 ^ 104 * unat hibit) * limbs_val r mod poly_p"
      using step_correct [OF "1.prems"(1,2) True] "1.prems"(4) by blast+
    have hb: "2 ^ 104 * unat hibit = 256 ^ 16" by (simp add: "1.prems"(4))
    have m16: "length (drop 16 m) mod 16 = 0"
      using "1.prems"(3) True by (simp add: le_mod_geq)
    note IH = "1.IH" [OF True "1.prems"(1) s(1) m16 "1.prems"(4)]
    have b: "blocks 16 m = take 16 m # blocks 16 (drop 16 m)"
      using True by (subst blocks.simps) auto
    have "poly_acc (limbs_val r) (limbs_val h) (blocks 16 m) =
        poly_acc (limbs_val r) (limbs_val ?h mod poly_p) (blocks 16 (drop 16 m))"
      using True unfolding s(2) hb b
      by (simp only: poly_acc_def poly_block_def foldl_Cons length_take min_absorb2 add.assoc)
    with IH show ?thesis
      unfolding blocks_loop_long [OF True] by (simp only: poly_acc_mod)
  qed
qed

lemma bit_low_high:
  fixes a b :: nat
  assumes "a < 2 ^ n"
  shows "bit (a + 2 ^ n * b) i \<longleftrightarrow> (if i < n then bit a i else bit b (i - n))"
proof -
  have "a + 2 ^ n * b = a OR push_bit n b"
    using nat_or_add [OF assms, of b] by (simp add: push_bit_eq_mult mult.commute)
  moreover have "bit a j \<Longrightarrow> j < n" for j
    using assms by (metis bit_take_bit_iff take_bit_nat_eq_self)
  ultimately show ?thesis by (auto simp: bit_simps)
qed

lemma and_low_high:
  fixes a c :: nat
  assumes "a < 2 ^ n" "c < 2 ^ n"
  shows "(a + 2 ^ n * b) AND (c + 2 ^ n * d) = (a AND c) + 2 ^ n * (b AND d)"
proof -
  have "take_bit n (a AND c) = a AND c"
    using assms by (simp add: take_bit_nat_eq_self)
  then have "a AND c < 2 ^ n" by (simp only: take_bit_nat_eq_self_iff)
  then show ?thesis
    using assms by (intro bit_eqI) (simp add: bit_low_high bit_simps)
qed

lemma slice_and:
  assumes "k + 4 \<le> length m" "e = 8 * k + s" "s \<le> 6" "c < 0x4000000"
  shows "unat (drop_bit s (U8TO32 (drop k m)) AND word_of_nat c) = (le_val m div 2 ^ e mod 2 ^ 26) AND c"
proof -
  have c: "c AND 67108863 = c" using assms(4) nat_and_mask [of c 26] by simp
  have "unat (word_of_nat c :: u32) = c" using assms(4) by (simp add: unat_of_nat)
  then have "unat (drop_bit s (U8TO32 (drop k m)) AND word_of_nat c) =
      unat (drop_bit s (U8TO32 (drop k m))) AND (67108863 AND c)"
    using c by (simp only: unat_and and.commute)
  also have "\<dots> = (unat (drop_bit s (U8TO32 (drop k m))) AND 67108863) AND c"
    by (simp only: and.assoc)
  also have "unat (drop_bit s (U8TO32 (drop k m))) AND 67108863 = le_val m div 2 ^ e mod 2 ^ 26"
    using slice_26 [OF assms(1-3)] by (simp add: unat_and)
  finally show ?thesis .
qed

lemma and_limbs:
  fixes n c0 c1 c2 c3 c4 :: nat
  assumes "n < 2 ^ 128" "c0 < 2 ^ 26" "c1 < 2 ^ 26" "c2 < 2 ^ 26" "c3 < 2 ^ 26"
  shows "n AND (c0 + 2 ^ 26 * c1 + 2 ^ 52 * c2 + 2 ^ 78 * c3 + 2 ^ 104 * c4) =
    (n mod 2 ^ 26 AND c0) + 2 ^ 26 * (n div 2 ^ 26 mod 2 ^ 26 AND c1) +
    2 ^ 52 * (n div 2 ^ 52 mod 2 ^ 26 AND c2) + 2 ^ 78 * (n div 2 ^ 78 mod 2 ^ 26 AND c3) +
    2 ^ 104 * (n div 2 ^ 104 AND c4)"
proof -
  have "n = n mod 2 ^ 26 + 2 ^ 26 * (n div 2 ^ 26)" by simp
  have *: "n div 2 ^ e AND (c + 2 ^ 26 * d) = (n div 2 ^ e mod 2 ^ 26 AND c) + 2 ^ 26 * (n div 2 ^ (e + 26) AND d)"
    if "c < 2 ^ 26" for c d e
    using and_low_high [of "n div 2 ^ e mod 2 ^ 26" 26 c "n div 2 ^ (e + 26)" d] that
    by (simp only: power_add div_mult2_eq mod_mult_div_eq) simp
  have 0: "n AND (c0 + 2 ^ 26 * d) = (n mod 2 ^ 26 AND c0) + 2 ^ 26 * (n div 2 ^ 26 AND d)" for d
    using * [OF assms(2), of 0 d] by simp
  have 1: "n div 2 ^ 26 AND (c1 + 2 ^ 26 * d) = (n div 2 ^ 26 mod 2 ^ 26 AND c1) + 2 ^ 26 * (n div 2 ^ 52 AND d)" for d
    using * [OF assms(3), of 26 d] by simp
  have 2: "n div 2 ^ 52 AND (c2 + 2 ^ 26 * d) = (n div 2 ^ 52 mod 2 ^ 26 AND c2) + 2 ^ 26 * (n div 2 ^ 78 AND d)" for d
    using * [OF assms(4), of 52 d] by simp
  have 3: "n div 2 ^ 78 AND (c3 + 2 ^ 26 * d) = (n div 2 ^ 78 mod 2 ^ 26 AND c3) + 2 ^ 26 * (n div 2 ^ 104 AND d)" for d
    using * [OF assms(5), of 78 d] by simp
  have "c0 + 2 ^ 26 * c1 + 2 ^ 52 * c2 + 2 ^ 78 * c3 + 2 ^ 104 * c4 =
      c0 + 2 ^ 26 * (c1 + 2 ^ 26 * (c2 + 2 ^ 26 * (c3 + 2 ^ 26 * c4)))"
    by simp
  then show ?thesis by (simp only: 0 1 2 3) simp
qed

lemma init_limbs:
  assumes "32 \<le> length key"
  shows "limbs_val (st_r (poly1305_init st key)) = poly_clamp (take 16 key)"
    and "poly_clamped (st_r (poly1305_init st key))"
proof -
  let ?m = "take 16 key" and ?n = "le_val (take 16 key)"
  have n: "?n < 2 ^ 128" using le_val_bound [of "take 16 key"] assms by (simp add: min_absorb2)
  then have n4: "?n div 2 ^ 104 < 2 ^ 26" by (simp add: less_mult_imp_div_less)
  have slice: "U8TO32 (drop k key) = U8TO32 (drop k ?m)" if "k \<le> 12" for k
    using that assms by (simp add: U8TO32_def)
  have s0: "unat (U8TO32 (drop 0 ?m) AND 0x3ffffff) = ?n mod 2 ^ 26 AND 0x3ffffff"
    using slice_and [of 0 ?m 0 0 "0x3ffffff"] assms by simp
  have s1: "unat (drop_bit 2 (U8TO32 (drop 3 ?m)) AND 0x3ffff03) = ?n div 2 ^ 26 mod 2 ^ 26 AND 0x3ffff03"
    using slice_and [of 3 ?m 26 2 "0x3ffff03"] assms by simp
  have s2: "unat (drop_bit 4 (U8TO32 (drop 6 ?m)) AND 0x3ffc0ff) = ?n div 2 ^ 52 mod 2 ^ 26 AND 0x3ffc0ff"
    using slice_and [of 6 ?m 52 4 "0x3ffc0ff"] assms by simp
  have s3: "unat (drop_bit 6 (U8TO32 (drop 9 ?m)) AND 0x3f03fff) = ?n div 2 ^ 78 mod 2 ^ 26 AND 0x3f03fff"
    using slice_and [of 9 ?m 78 6 "0x3f03fff"] assms by simp
  have s4: "unat (drop_bit 8 (U8TO32 (drop 12 ?m)) AND 0x00fffff) = ?n div 2 ^ 104 AND 0xfffff"
    using unat_slice [of 12 ?m 104 8] n assms by (simp add: unat_and less_mult_imp_div_less)
  have r: "st_r (poly1305_init st key) =
      (U8TO32 (drop 0 ?m) AND 0x3ffffff, drop_bit 2 (U8TO32 (drop 3 ?m)) AND 0x3ffff03,
       drop_bit 4 (U8TO32 (drop 6 ?m)) AND 0x3ffc0ff, drop_bit 6 (U8TO32 (drop 9 ?m)) AND 0x3f03fff,
       drop_bit 8 (U8TO32 (drop 12 ?m)) AND 0x00fffff)"
    using slice [of 0] slice [of 3] slice [of 6] slice [of 9] slice [of 12]
    by (simp add: poly1305_init_def)
  have "limbs_val (st_r (poly1305_init st key)) =
      ?n AND (0x3ffffff + 2 ^ 26 * 0x3ffff03 + 2 ^ 52 * 0x3ffc0ff + 2 ^ 78 * 0x3f03fff + 2 ^ 104 * 0xfffff)"
    unfolding r limbs_val_def prod.case s0 s1 s2 s3 s4
    using n by (intro and_limbs [symmetric]) simp_all
  then show "limbs_val (st_r (poly1305_init st key)) = poly_clamp ?m"
    by (simp add: poly_clamp_def)
  have "x AND c < m" if "c < m" for x c m :: nat
    using AND_upper2'' [of "int c" "int m" "int x"] that by (simp flip: of_nat_and_eq)
  then show "poly_clamped (st_r (poly1305_init st key))"
    unfolding r poly_clamped_def prod.case s0 s1 s2 s3 s4 by simp
qed

definition poly_reduced :: "limbs \<Rightarrow> bool" where
  "poly_reduced = (\<lambda>(h0, h1, h2, h3, h4). unat h0 < 2 ^ 26 \<and> unat h1 < 2 ^ 26 \<and>
     unat h2 < 2 ^ 26 \<and> unat h3 < 2 ^ 26 \<and> unat h4 < 2 ^ 26)"

lemma limb_carry:
  fixes x :: u32
  shows "unat x = 2 ^ 26 * unat (drop_bit 26 x) + unat (x AND 0x3ffffff)"
    and "unat (x AND 0x3ffffff) < 2 ^ 26"
  by (simp_all only: unat_drop_bit unat_and_26 mult_div_mod_eq) simp

lemma full_carry_correct:
  assumes "poly_bounded h"
  shows "poly_reduced (poly_full_carry h)"
    and "limbs_val (poly_full_carry h) mod poly_p = limbs_val h mod poly_p"
proof -
  obtain h0 h1 h2 h3 h4 where h: "h = (h0, h1, h2, h3, h4)" by (cases h)
  define c1 where "c1 = drop_bit 26 h1"
  define k1 where "k1 = h1 AND 0x3ffffff"
  define e2 where "e2 = h2 + c1"
  define c2 where "c2 = drop_bit 26 e2"
  define k2 where "k2 = e2 AND 0x3ffffff"
  define e3 where "e3 = h3 + c2"
  define c3 where "c3 = drop_bit 26 e3"
  define k3 where "k3 = e3 AND 0x3ffffff"
  define e4 where "e4 = h4 + c3"
  define c4 where "c4 = drop_bit 26 e4"
  define k4 where "k4 = e4 AND 0x3ffffff"
  define e0 where "e0 = h0 + c4 * 5"
  define c0 where "c0 = drop_bit 26 e0"
  define k0 where "k0 = e0 AND 0x3ffffff"
  note defs = c1_def k1_def e2_def c2_def k2_def e3_def c3_def k3_def e4_def c4_def k4_def e0_def
    c0_def k0_def
  have res: "poly_full_carry h = (k0, k1 + c0, k2, k3, k4)"
    by (simp add: h poly_full_carry_def Let_def defs)
  have b: "unat h0 < 2 ^ 26" "unat h1 < 2 ^ 26 + 2 ^ 6" "unat h2 < 2 ^ 26" "unat h3 < 2 ^ 26"
    "unat h4 < 2 ^ 26"
    using assms by (simp_all add: h poly_bounded_def)
  note l1 = limb_carry [of h1, folded c1_def k1_def]
  have e2: "unat e2 = unat h2 + unat c1" using b l1 by (simp add: e2_def unat_add_small)
  note l2 = limb_carry [of e2, folded c2_def k2_def]
  have e3: "unat e3 = unat h3 + unat c2" using b l1 e2 l2 by (simp add: e3_def unat_add_small)
  note l3 = limb_carry [of e3, folded c3_def k3_def]
  have e4: "unat e4 = unat h4 + unat c3" using b l1 e2 l2 e3 l3 by (simp add: e4_def unat_add_small)
  note l4 = limb_carry [of e4, folded c4_def k4_def]
  have "unat c4 \<le> 1" using b l1 e2 l2 e3 l3 e4 l4 by simp
  then have c45: "unat (c4 * 5) = unat c4 * 5" by (subst unat_mult_small) simp_all
  then have e0: "unat e0 = unat h0 + unat c4 * 5"
    using b \<open>unat c4 \<le> 1\<close> by (simp add: e0_def unat_add_small)
  note l0 = limb_carry [of e0, folded c0_def k0_def]
  have "unat c0 \<le> 1" using b e0 l0 \<open>unat c4 \<le> 1\<close> by simp
  then have k1: "unat (k1 + c0) = unat k1 + unat c0" using l1 by (simp add: unat_add_small)
  have "unat k1 + unat c0 < 2 ^ 26"
  proof (cases "unat c0 = 0")
    case False
    then have "1 \<le> unat c4" using b e0 l0 by simp
    then have "1 \<le> unat c3" using b e4 l4 by simp
    then have "1 \<le> unat c2" using b e3 l3 by simp
    then have "1 \<le> unat c1" using b e2 l2 by simp
    then show ?thesis using b l1 \<open>unat c0 \<le> 1\<close> by simp
  qed (use l1 in simp)
  then show "poly_reduced (poly_full_carry h)" using l0 l2 l3 l4 by (simp add: res poly_reduced_def k1)
  have "limbs_val (poly_full_carry h) + poly_p * unat c4 = limbs_val h"
    unfolding res unfolding h limbs_val_def prod.case k1 poly_p_def
    by (rule carry_chain_26 [of _ 0 "unat h0" _ "unat c1" _ _ "unat c2" _ _ "unat c3"])
      (use l0 l1 l2 l3 l4 e0 e2 e3 e4 in simp_all)
  then show "limbs_val (poly_full_carry h) mod poly_p = limbs_val h mod poly_p"
    by (metis mod_mult_self2)
qed

lemma select_correct:
  assumes "poly_reduced h"
  shows "poly_reduced (poly_select h)" and "limbs_val (poly_select h) = limbs_val h mod poly_p"
proof -
  obtain h0 h1 h2 h3 h4 where h: "h = (h0, h1, h2, h3, h4)" by (cases h)
  define g0 where "g0 = h0 + 5"
  define c0 where "c0 = drop_bit 26 g0"
  define k0 where "k0 = g0 AND 0x3ffffff"
  define g1 where "g1 = h1 + c0"
  define c1 where "c1 = drop_bit 26 g1"
  define k1 where "k1 = g1 AND 0x3ffffff"
  define g2 where "g2 = h2 + c1"
  define c2 where "c2 = drop_bit 26 g2"
  define k2 where "k2 = g2 AND 0x3ffffff"
  define g3 where "g3 = h3 + c2"
  define c3 where "c3 = drop_bit 26 g3"
  define k3 where "k3 = g3 AND 0x3ffffff"
  define g4 where "g4 = h4 + c3 - 0x4000000"
  define mask where "mask = drop_bit 31 g4 - 1"
  note defs = g0_def c0_def k0_def g1_def c1_def k1_def g2_def c2_def k2_def g3_def c3_def k3_def
    g4_def mask_def
  have res: "poly_select h = ((h0 AND NOT mask) OR (k0 AND mask), (h1 AND NOT mask) OR (k1 AND mask),
      (h2 AND NOT mask) OR (k2 AND mask), (h3 AND NOT mask) OR (k3 AND mask),
      (h4 AND NOT mask) OR (g4 AND mask))"
    by (simp add: h poly_select_def Let_def defs)
  have b: "unat h0 < 2 ^ 26" "unat h1 < 2 ^ 26" "unat h2 < 2 ^ 26" "unat h3 < 2 ^ 26" "unat h4 < 2 ^ 26"
    using assms by (simp_all add: h poly_reduced_def)
  have g0: "unat g0 = unat h0 + 5" using b by (simp add: g0_def unat_add_small)
  note l0 = limb_carry [of g0, folded c0_def k0_def]
  have g1: "unat g1 = unat h1 + unat c0" using b g0 l0 by (simp add: g1_def unat_add_small)
  note l1 = limb_carry [of g1, folded c1_def k1_def]
  have g2: "unat g2 = unat h2 + unat c1" using b g0 l0 g1 l1 by (simp add: g2_def unat_add_small)
  note l2 = limb_carry [of g2, folded c2_def k2_def]
  have g3: "unat g3 = unat h3 + unat c2" using b g0 l0 g1 l1 g2 l2 by (simp add: g3_def unat_add_small)
  note l3 = limb_carry [of g3, folded c3_def k3_def]
  have c3: "unat c3 \<le> 1" using b g0 l0 g1 l1 g2 l2 g3 l3 by simp
  have chain: "unat k0 + 2 ^ 26 * unat k1 + 2 ^ 52 * unat k2 + 2 ^ 78 * unat k3 +
      2 ^ 104 * (unat h4 + unat c3) = limbs_val h + 5"
    using g0 l0(1) g1 l1(1) g2 l2(1) g3 l3(1) by (simp add: h limbs_val_def)
  have k_less: "unat k0 + 2 ^ 26 * unat k1 + 2 ^ 52 * unat k2 + 2 ^ 78 * unat k3 < 2 ^ 104"
    using l0(2) l1(2) l2(2) l3(2) by simp
  show "poly_reduced (poly_select h)" "limbs_val (poly_select h) = limbs_val h mod poly_p"
  proof -
    consider "unat h4 + unat c3 < 2 ^ 26" | "unat h4 + unat c3 = 2 ^ 26"
      using b c3 by linarith
    then have "poly_reduced (poly_select h) \<and> limbs_val (poly_select h) = limbs_val h mod poly_p"
    proof cases
      case 1
      have "unat g4 = unat h4 + unat c3 + (2 ^ 32 - 2 ^ 26)"
        using 1 by (simp add: g4_def unat_sub_if' unat_add_small)
      then have "unat (drop_bit 31 g4) = 1"
        using 1 by (simp add: unat_drop_bit div_nat_eqI)
      then have "drop_bit 31 g4 = 1" by (simp add: word_unat_eq_iff)
      then have "mask = 0" by (simp add: mask_def)
      then have "poly_select h = h" unfolding res unfolding h by simp
      moreover have "limbs_val h < poly_p" using chain k_less 1 by (simp add: poly_p_def)
      ultimately show ?thesis using assms by simp
    next
      case 2
      then have "g4 = 0" by (simp add: word_unat_eq_iff g4_def unat_sub_if' unat_add_small)
      then have "mask = - 1" by (simp add: mask_def)
      then have s: "poly_select h = (k0, k1, k2, k3, 0)" using \<open>g4 = 0\<close> by (simp add: res)
      have "limbs_val (poly_select h) + poly_p = limbs_val h"
        using chain 2 by (simp add: s limbs_val_def poly_p_def)
      moreover have "limbs_val (poly_select h) < poly_p"
        using k_less by (simp add: s limbs_val_def poly_p_def)
      ultimately have "limbs_val (poly_select h) = limbs_val h mod poly_p"
        by (metis mod_add_self2 mod_less)
      moreover have "poly_reduced (poly_select h)"
        using l0(2) l1(2) l2(2) l3(2) by (simp add: s poly_reduced_def)
      ultimately show ?thesis by simp
    qed
    then show "poly_reduced (poly_select h)" "limbs_val (poly_select h) = limbs_val h mod poly_p" by auto
  qed
qed

lemma pack_word:
  fixes x y :: u32
  assumes "unat x < 2 ^ 26" "s + t = 26"
  shows "unat ((drop_bit s x OR push_bit t y) AND 0xffffffff) =
    unat x div 2 ^ s + 2 ^ t * (unat y mod 2 ^ (s + 6))"
proof -
  have "(0xffffffff :: u32) = - 1" by simp
  then have "(z AND 0xffffffff) = z" for z :: u32 by (simp only: and.right_neutral)
  moreover have "unat x < 2 ^ t * 2 ^ s" using assms by (simp add: power_add [symmetric] add.commute)
  then have "unat x div 2 ^ s < 2 ^ t" by (rule less_mult_imp_div_less)
  moreover have "s + 6 + t = 32" using assms(2) by simp
  then have "2 ^ 32 = (2 :: nat) ^ (s + 6) * 2 ^ t" by (simp only: power_add [symmetric])
  then have "unat y * 2 ^ t mod 2 ^ 32 = unat y mod 2 ^ (s + 6) * 2 ^ t"
    by (simp only: mult_mod_left)
  then have "unat (push_bit t y) = unat y mod 2 ^ (s + 6) * 2 ^ t"
    by (simp add: unat_push_bit)
  ultimately show ?thesis
    by (simp only: unat_or unat_drop_bit nat_or_add) simp
qed

lemma pack_correct:
  assumes "poly_reduced h" and "poly_pack h = (w0, w1, w2, w3)"
  shows "unat w0 + 2 ^ 32 * unat w1 + 2 ^ 64 * unat w2 + 2 ^ 96 * unat w3 = limbs_val h mod 2 ^ 128"
proof -
  obtain h0 h1 h2 h3 h4 where h: "h = (h0, h1, h2, h3, h4)" by (cases h)
  have b: "unat h0 < 2 ^ 26" "unat h1 < 2 ^ 26" "unat h2 < 2 ^ 26" "unat h3 < 2 ^ 26" "unat h4 < 2 ^ 26"
    using assms by (simp_all add: h poly_reduced_def)
  have w: "w0 = (h0 OR push_bit 26 h1) AND 0xffffffff" "w1 = (drop_bit 6 h1 OR push_bit 20 h2) AND 0xffffffff"
    "w2 = (drop_bit 12 h2 OR push_bit 14 h3) AND 0xffffffff"
    "w3 = (drop_bit 18 h3 OR push_bit 8 h4) AND 0xffffffff"
    using assms(2) by (auto simp: h poly_pack_def)
  have "unat w0 = unat h0 + 2 ^ 26 * (unat h1 mod 2 ^ 6)"
    using pack_word [OF b(1), of 0 26 h1] by (simp add: w(1))
  moreover have "unat w1 = unat h1 div 2 ^ 6 + 2 ^ 20 * (unat h2 mod 2 ^ 12)"
    unfolding w(2) using pack_word [OF b(2), of 6 20 h2] by simp
  moreover have "unat w2 = unat h2 div 2 ^ 12 + 2 ^ 14 * (unat h3 mod 2 ^ 18)"
    unfolding w(3) using pack_word [OF b(3), of 12 14 h3] by simp
  moreover have "unat w3 = unat h3 div 2 ^ 18 + 2 ^ 8 * (unat h4 mod 2 ^ 24)"
    unfolding w(4) using pack_word [OF b(4), of 18 8 h4] by simp
  moreover have "2 ^ e * unat x = 2 ^ e * (unat x mod 2 ^ k) + 2 ^ (e + k) * (unat x div 2 ^ k)"
    for e k and x :: u32
    by (simp only: power_add mult.assoc distrib_left [symmetric] mod_mult_div_eq)
  note this [of 26 h1 6] this [of 52 h2 12] this [of 78 h3 18] this [of 104 h4 24]
  ultimately have "unat w0 + 2 ^ 32 * unat w1 + 2 ^ 64 * unat w2 + 2 ^ 96 * unat w3 +
      2 ^ 128 * (unat h4 div 2 ^ 24) = limbs_val h"
    unfolding h limbs_val_def prod.case
    by (simp only: distrib_left mult.assoc [symmetric] power_add [symmetric] arith_simps)
  moreover have "unat w0 + 2 ^ 32 * unat w1 + 2 ^ 64 * unat w2 + 2 ^ 96 * unat w3 < 2 ^ 128"
    using unat_u32_less [of w0] unat_u32_less [of w1] unat_u32_less [of w2] unat_u32_less [of w3]
    by (simp del: unat_u32_less)
  ultimately show ?thesis by (metis mod_less mod_mult_self2)
qed

lemma pad_correct:
  "poly_pad (h0, h1, h2, h3) (pad0, pad1, pad2, pad3) =
   le_bytes 16 (unat h0 + 2 ^ 32 * unat h1 + 2 ^ 64 * unat h2 + 2 ^ 96 * unat h3 +
     (unat pad0 + 2 ^ 32 * unat pad1 + 2 ^ 64 * unat pad2 + 2 ^ 96 * unat pad3))"
proof -
  define f0 :: u64 where "f0 = ucast h0 + ucast pad0"
  define f1 :: u64 where "f1 = ucast h1 + ucast pad1 + drop_bit 32 f0"
  define f2 :: u64 where "f2 = ucast h2 + ucast pad2 + drop_bit 32 f1"
  define f3 :: u64 where "f3 = ucast h3 + ucast pad3 + drop_bit 32 f2"
  have res: "poly_pad (h0, h1, h2, h3) (pad0, pad1, pad2, pad3) =
      U32TO8 (ucast f0) @ U32TO8 (ucast f1) @ U32TO8 (ucast f2) @ U32TO8 (ucast f3)"
    by (simp add: poly_pad_def Let_def f0_def f1_def f2_def f3_def)
  have sum: "unat (ucast a + ucast b + c :: u64) = unat a + unat b + unat c" if "unat c < 2 ^ 33"
    for a b :: u32 and c :: u64
  proof -
    have "unat a < 2 ^ 32" "unat b < 2 ^ 32" by simp_all
    with that show ?thesis
      by (simp add: unat_add unat_ucast_up del: unat_u32_less)
  qed
  have carry: "unat (drop_bit 32 f :: u64) < 2 ^ 33" for f :: u64
    using unat_u64_less [of f] by (simp add: unat_drop_bit less_mult_imp_div_less del: unat_u64_less)
  have v: "unat f0 = unat h0 + unat pad0" "unat f1 = unat h1 + unat pad1 + unat f0 div 2 ^ 32"
    "unat f2 = unat h2 + unat pad2 + unat f1 div 2 ^ 32" "unat f3 = unat h3 + unat pad3 + unat f2 div 2 ^ 32"
    using sum [of 0 h0 pad0] sum [OF carry, of h1 pad1 f0] sum [OF carry, of h2 pad2 f1]
      sum [OF carry, of h3 pad3 f2]
    by (simp_all add: f0_def f1_def f2_def f3_def unat_drop_bit)
  have u: "unat (ucast f :: u32) + 2 ^ 32 * (unat f div 2 ^ 32) = unat f" for f :: u64
    by (simp add: unat_ucast_mod)
  let ?bs = "U32TO8 (ucast f0) @ U32TO8 (ucast f1) @ U32TO8 (ucast f2) @ U32TO8 (ucast f3)"
  let ?n = "unat h0 + 2 ^ 32 * unat h1 + 2 ^ 64 * unat h2 + 2 ^ 96 * unat h3 +
     (unat pad0 + 2 ^ 32 * unat pad1 + 2 ^ 64 * unat pad2 + 2 ^ 96 * unat pad3)"
  have le4: "le_val (le_bytes 4 (unat x)) = unat x" for x :: u32
    by (simp add: le_val_le_bytes)
  have "le_val ?bs = unat (ucast f0 :: u32) + 2 ^ 32 * unat (ucast f1 :: u32) +
      2 ^ 64 * unat (ucast f2 :: u32) + 2 ^ 96 * unat (ucast f3 :: u32)"
    unfolding U32TO8_eq U32TO8_LITTLE_le_bytes le_val_append length_append length_le_bytes le4 by simp
  then have "le_val ?bs + 2 ^ 128 * (unat f3 div 2 ^ 32) = ?n"
    using u [of f0] u [of f1] u [of f2] u [of f3] v by simp
  then have "le_val ?bs mod 2 ^ 128 = ?n mod 2 ^ 128" by (metis mod_mult_self2)
  then have "le_val ?bs mod 256 ^ length ?bs = ?n mod 256 ^ 16"
    by (simp add: U32TO8_eq)
  then have "le_val ?bs = le_val (le_bytes 16 ?n)"
    using le_val_bound [of ?bs] by (simp add: le_val_le_bytes)
  then show ?thesis unfolding res by (intro le_val_inj) (simp_all add: U32TO8_eq)
qed

lemma emit_correct:
  assumes "poly_bounded h"
  shows "poly1305_emit h (pad0, pad1, pad2, pad3) =
    le_bytes 16 (limbs_val h mod poly_p + (unat pad0 + 2 ^ 32 * unat pad1 + 2 ^ 64 * unat pad2 + 2 ^ 96 * unat pad3))"
proof -
  let ?s = "poly_select (poly_full_carry h)"
  let ?p = "unat pad0 + 2 ^ 32 * unat pad1 + 2 ^ 64 * unat pad2 + 2 ^ 96 * unat pad3"
  obtain w0 w1 w2 w3 where w: "poly_pack ?s = (w0, w1, w2, w3)" by (cases "poly_pack ?s")
  note full = full_carry_correct [OF assms]
  note sel = select_correct [OF full(1)]
  have "poly1305_emit h (pad0, pad1, pad2, pad3) = le_bytes 16 (limbs_val ?s mod 2 ^ 128 + ?p)"
    by (simp only: poly1305_emit_def w pad_correct pack_correct [OF sel(1) w])
  also have "\<dots> = le_bytes 16 ((limbs_val ?s mod 256 ^ 16 + ?p) mod 256 ^ 16)"
    by (simp only: le_bytes_mod) simp
  also have "\<dots> = le_bytes 16 (limbs_val ?s + ?p)"
    by (simp only: mod_add_left_eq le_bytes_mod)
  finally show ?thesis by (simp only: sel(2) full(2))
qed

subsection \<open>Streaming\<close>

text \<open>
  The invariant: \<open>msg\<close> has been absorbed, its whole blocks are in the accumulator and
  the rest is in the buffer.
\<close>

definition poly_inv :: "limbs \<Rightarrow> u32 \<times> u32 \<times> u32 \<times> u32 \<Rightarrow> bytes \<Rightarrow> poly1305_state \<Rightarrow> bool" where
  "poly_inv r pad msg st \<longleftrightarrow>
     st_r st = r \<and> st_pad st = pad \<and> st_final st = 0 \<and> poly_bounded (st_h st) \<and>
     length (st_buffer st) = 16 \<and> st_leftover st < 16 \<and>
     (\<exists>full. length full mod 16 = 0 \<and> msg = full @ take (st_leftover st) (st_buffer st) \<and>
       limbs_val (st_h st) mod poly_p = poly_acc (limbs_val r) 0 (blocks 16 full) mod poly_p)"

lemma poly_invI:
  "st_r st = r \<Longrightarrow> st_pad st = pad \<Longrightarrow> st_final st = 0 \<Longrightarrow> poly_bounded (st_h st) \<Longrightarrow>
   length (st_buffer st) = 16 \<Longrightarrow> st_leftover st < 16 \<Longrightarrow> length full mod 16 = 0 \<Longrightarrow>
   msg = full @ take (st_leftover st) (st_buffer st) \<Longrightarrow>
   limbs_val (st_h st) mod poly_p = poly_acc (limbs_val r) 0 (blocks 16 full) mod poly_p \<Longrightarrow>
   poly_inv r pad msg st"
  unfolding poly_inv_def by (intro conjI exI [of _ full])

lemma blocks_correct:
  assumes "poly_clamped r" "poly_bounded (st_h st)" "length m mod 16 = 0" "length full mod 16 = 0"
    "limbs_val (st_h st) mod poly_p = poly_acc (limbs_val r) 0 (blocks 16 full) mod poly_p"
  defines "h \<equiv> poly1305_blocks_loop 0x1000000 r m (st_h st)"
  shows "poly_bounded h"
    and "limbs_val h mod poly_p = poly_acc (limbs_val r) 0 (blocks 16 (full @ m)) mod poly_p"
proof -
  note l = blocks_loop_correct [OF assms(1-3), of "0x1000000", folded h_def, simplified]
  show "poly_bounded h" using l by simp
  have "poly_acc (limbs_val r) 0 (blocks 16 (full @ m)) =
      poly_acc (limbs_val r) (poly_acc (limbs_val r) 0 (blocks 16 full)) (blocks 16 m)"
    using assms(4) by (simp add: blocks_append poly_acc_def)
  then show "limbs_val h mod poly_p = poly_acc (limbs_val r) 0 (blocks 16 (full @ m)) mod poly_p"
    using l assms(5) by (metis poly_acc_mod)
qed

lemma blocks_not_final:
  "st_final st = 0 \<Longrightarrow>
   poly1305_blocks st m = st\<lparr>st_h := poly1305_blocks_loop 0x1000000 (st_r st) m (st_h st)\<rparr>"
  by (simp add: poly1305_blocks_def)

lemma poly_invD:
  assumes "poly_inv r pad msg st"
  shows "st_r st = r" "st_pad st = pad" "st_final st = 0" "poly_bounded (st_h st)"
    "length (st_buffer st) = 16" "st_leftover st < 16"
    "\<exists>full. length full mod 16 = 0 \<and> msg = full @ take (st_leftover st) (st_buffer st) \<and>
       limbs_val (st_h st) mod poly_p = poly_acc (limbs_val r) 0 (blocks 16 full) mod poly_p"
  using assms unfolding poly_inv_def by (simp_all only: simp_thms)

lemma update_full_inv:
  assumes r: "poly_clamped r" and inv: "poly_inv r pad msg st" and l: "st_leftover st = 0"
  shows "poly_inv r pad (msg @ m) (poly1305_update_full st m)"
proof -
  let ?k = "length m div 16 * 16"
  let ?h = "poly1305_blocks_loop 0x1000000 r (take ?k m) (st_h st)"
  note st = poly_invD [OF inv]
  have msg: "length msg mod 16 = 0"
    "limbs_val (st_h st) mod poly_p = poly_acc (limbs_val r) 0 (blocks 16 msg) mod poly_p"
    using st(7) l by auto
  have k: "length (take ?k m) mod 16 = 0" by (simp add: min_absorb2 div_times_less_eq_dividend)
  note h = blocks_correct [OF r st(4) k msg]
  have rest: "length m - ?k < 16" by (simp add: minus_div_mult_eq_mod)
  have full: "length (msg @ take ?k m) mod 16 = 0" using msg(1) k by (rule length_append_mod)
  have upd: "poly1305_update_full st m = (if drop ?k m = [] then st\<lparr>st_h := ?h\<rparr> else
      st\<lparr>st_h := ?h, st_buffer := buf_write (st_buffer st) 0 (drop ?k m), st_leftover := length m - ?k\<rparr>)"
  proof (cases "16 \<le> length m")
    case True
    then show ?thesis
      using l by (simp add: poly1305_update_full_def blocks_not_final st(1,3) Let_def)
  next
    case False
    then show ?thesis using l by (simp add: poly1305_update_full_def Let_def blocks_loop_short)
  qed
  show ?thesis
  proof (cases "drop ?k m = []")
    case True
    then have "m = take ?k m" by simp
    then have "poly_inv r pad (msg @ m) (st\<lparr>st_h := ?h\<rparr>)"
      using st(1-6) h full l by (intro poly_invI [where full = "msg @ take ?k m"]) simp_all
    with True show ?thesis unfolding upd by simp
  next
    case False
    have "poly_inv r pad (msg @ m)
      (st\<lparr>st_h := ?h, st_buffer := buf_write (st_buffer st) 0 (drop ?k m), st_leftover := length m - ?k\<rparr>)"
      using st(1-6) h full rest
      by (intro poly_invI [where full = "msg @ take ?k m"]) (simp_all add: buf_write_def)
    with False show ?thesis unfolding upd by simp
  qed
qed

lemma update_inv:
  assumes r: "poly_clamped r" and inv: "poly_inv r pad msg st"
  shows "poly_inv r pad (msg @ m) (poly1305_update st m)"
proof (cases "st_leftover st = 0")
  case True
  then show ?thesis using update_full_inv [OF r inv True] by (simp add: poly1305_update_def)
next
  case False
  let ?l = "st_leftover st"
  let ?b = "buf_write (st_buffer st) ?l (take (16 - ?l) m)"
  note st = poly_invD [OF inv]
  obtain full where full: "length full mod 16 = 0" "msg = full @ take ?l (st_buffer st)"
    "limbs_val (st_h st) mod poly_p = poly_acc (limbs_val r) 0 (blocks 16 full) mod poly_p"
    using st(7) by (elim exE conjE) (rule that)
  have lb: "length ?b = 16" using st(5,6) by simp
  show ?thesis
  proof (cases "?l + length m < 16")
    case True
    then have "take (?l + length m) ?b = take ?l (st_buffer st) @ m"
      using st(5,6) take_buf_write [of ?l m "st_buffer st"] by simp
    moreover have "poly1305_update st m = st\<lparr>st_buffer := ?b, st_leftover := ?l + length m\<rparr>"
      using False True by (auto simp: poly1305_update_def Let_def)
    ultimately show ?thesis
      using True full st(1-6) lb by (simp add: poly_invI [where full = full])
  next
    case big: False
    let ?h = "poly1305_blocks_loop 0x1000000 r ?b (st_h st)"
    let ?st = "st\<lparr>st_buffer := ?b, st_h := ?h, st_leftover := 0\<rparr>"
    have lb16: "length ?b mod 16 = 0" using lb by presburger
    note h = blocks_correct [OF r st(4) lb16 full(1,3)]
    have b: "?b = take ?l (st_buffer st) @ take (16 - ?l) m"
      using big st(5,6) by (simp add: buf_write_def)
    have "poly1305_update st m = poly1305_update_full ?st (drop (16 - ?l) m)"
      using False big st(6) by (simp add: poly1305_update_def blocks_not_final st(1,3) Let_def)
    moreover have "poly_inv r pad (full @ ?b) ?st"
      using h st(1-3) lb length_append_mod [OF full(1) lb16]
      by (intro poly_invI [where full = "full @ ?b"]) simp_all
    then have "poly_inv r pad ((full @ ?b) @ drop (16 - ?l) m)
        (poly1305_update_full ?st (drop (16 - ?l) m))"
      using r by (intro update_full_inv) simp_all
    moreover have "(full @ ?b) @ drop (16 - ?l) m = msg @ m" using full(2) b by simp
    ultimately show ?thesis by simp
  qed
qed

lemma foldl_update_inv:
  "poly_clamped r \<Longrightarrow> poly_inv r pad msg st \<Longrightarrow>
   poly_inv r pad (msg @ concat parts) (foldl poly1305_update st parts)"
proof (induction parts arbitrary: msg st)
  case (Cons m parts)
  then have "poly_inv r pad ((msg @ m) @ concat parts) (foldl poly1305_update (poly1305_update st m) parts)"
    by (intro Cons.IH update_inv)
  then show ?case by simp
qed simp

lemma finish_buffer:
  assumes "length b = 16" "l < 16"
  shows "fold (\<lambda>i b. b[i := 0]) [Suc l..<16] (b[l := 1]) = take l b @ 1 # replicate (15 - l) (0 :: u8)"
proof -
  have "take (Suc l) (b[l := 1]) = take l b @ [1]" using assms by (simp add: take_Suc_conv_app_nth)
  then show ?thesis using zeroed_from [of "Suc l" "b[l := 1]"] assms by simp
qed

lemma poly_acc_less: "poly_acc k 0 bs mod poly_p = poly_acc k 0 bs"
  by (cases bs rule: rev_cases) (simp_all add: poly_acc_def)

lemma final_block:
  assumes r: "poly_clamped r" and h: "poly_bounded h" and b: "length rest < 16"
  shows "poly_bounded (poly1305_blocks_loop 0 r (rest @ 1 # replicate (15 - length rest) 0) h)"
    and "limbs_val (poly1305_blocks_loop 0 r (rest @ 1 # replicate (15 - length rest) 0) h) mod poly_p =
      (limbs_val h + poly_block rest) * limbs_val r mod poly_p"
proof -
  let ?b = "rest @ 1 # replicate (15 - length rest) 0"
  have l16: "16 \<le> length ?b" "length (drop 16 ?b) < 16" "take 16 ?b = ?b" using b by simp_all
  have v: "le_val ?b = poly_block rest" by (simp add: le_val_append poly_block_def)
  have loop: "poly1305_blocks_loop 0 r ?b h = poly1305_step 0 r ?b h"
    by (simp only: blocks_loop_long [OF l16(1)] blocks_loop_short [OF l16(2)])
  show "poly_bounded (poly1305_blocks_loop 0 r ?b h)"
    unfolding loop using step_correct(1) [OF r h l16(1)] by blast
  show "limbs_val (poly1305_blocks_loop 0 r ?b h) mod poly_p = (limbs_val h + poly_block rest) * limbs_val r mod poly_p"
    using step_correct(2) [OF r h l16(1), of 0] unfolding loop l16(3) v by simp
qed

lemma finish_inv:
  assumes r: "poly_clamped r" and inv: "poly_inv r (pad0, pad1, pad2, pad3) msg st"
  shows "fst (poly1305_finish st) =
    le_bytes 16 (poly_acc (limbs_val r) 0 (blocks 16 msg) +
      (unat pad0 + 2 ^ 32 * unat pad1 + 2 ^ 64 * unat pad2 + 2 ^ 96 * unat pad3))"
proof -
  let ?l = "st_leftover st"
  note st = poly_invD [OF inv]
  obtain full where full: "length full mod 16 = 0" "msg = full @ take ?l (st_buffer st)"
    "limbs_val (st_h st) mod poly_p = poly_acc (limbs_val r) 0 (blocks 16 full) mod poly_p"
    using st(7) by (elim exE conjE) (rule that)
  show ?thesis
  proof (cases "?l = 0")
    case True
    then show ?thesis
      using full by (simp add: poly1305_finish_def Let_def emit_correct [OF st(4)] st(2) poly_acc_less)
  next
    case False
    let ?rest = "take ?l (st_buffer st)"
    let ?h = "poly1305_blocks_loop 0 r (?rest @ 1 # replicate (15 - length ?rest) 0) (st_h st)"
    have len: "length ?rest = ?l" "length ?rest < 16" using st(5,6) by simp_all
    have nonempty: "?rest \<noteq> []" using False len(1) by auto
    note fb = final_block [OF r st(4) len(2)]
    have "fst (poly1305_finish st) = poly1305_emit ?h (pad0, pad1, pad2, pad3)"
      using False finish_buffer [OF st(5,6)]
      by (simp add: poly1305_finish_def poly1305_blocks_def Let_def st(1,2) len(1) del: length_take)
    also have "\<dots> = le_bytes 16 (limbs_val ?h mod poly_p +
      (unat pad0 + 2 ^ 32 * unat pad1 + 2 ^ 64 * unat pad2 + 2 ^ 96 * unat pad3))"
      by (rule emit_correct [OF fb(1)])
    also have "limbs_val ?h mod poly_p =
        (limbs_val (st_h st) mod poly_p + poly_block ?rest) * limbs_val r mod poly_p"
      unfolding fb(2) by (metis mod_add_left_eq mod_mult_left_eq)
    also have "\<dots> = poly_acc (limbs_val r) 0 (blocks 16 full @ [?rest])"
      unfolding full(3) poly_acc_less by (simp add: poly_acc_def)
    also have "blocks 16 full @ [?rest] = blocks 16 msg"
      using nonempty len blocks_append [OF full(1), of ?rest] by (subst full(2)) (simp add: blocks_short [of ?rest])
    finally show ?thesis .
  qed
qed

lemma pad_value:
  assumes "32 \<le> length key"
  shows "unat (U8TO32 (drop 16 key)) + 2 ^ 32 * unat (U8TO32 (drop 20 key)) +
      2 ^ 64 * unat (U8TO32 (drop 24 key)) + 2 ^ 96 * unat (U8TO32 (drop 28 key)) =
    le_val (take 16 (drop 16 key))"
proof -
  let ?d = "drop 16 key"
  have u: "unat (U8TO32 (drop (16 + k) key)) = le_val (take 4 (drop k ?d))" if "k \<le> 12" for k
    using that assms by (simp add: U8TO32_eq unat_U8TO32_LITTLE add.commute)
  have "take 16 ?d = take 4 ?d @ take 4 (drop 4 ?d) @ take 4 (drop 8 ?d) @ take 4 (drop 12 ?d)"
    using take_add [of 4 12 ?d] take_add [of 4 8 "drop 4 ?d"] take_add [of 4 4 "drop 8 ?d"]
    by simp
  then show ?thesis
    using assms u [of 0] u [of 4] u [of 8] u [of 12] by (simp add: le_val_append min_absorb2)
qed

lemma init_inv:
  assumes "length (st_buffer st) = 16" "length key = 32"
  shows "poly_inv (st_r (poly1305_init st key)) (st_pad (poly1305_init st key)) [] (poly1305_init st key)"
  using assms by (intro poly_invI [where full = "[]"])
    (simp_all add: poly1305_init_def poly_bounded_def limbs_val_def poly_acc_def)

definition poly1305_usable :: "poly1305_state \<times> bytes \<Rightarrow> bool" where
  "poly1305_usable = (\<lambda>(st, key). length (st_buffer st) = 16 \<and> length key = 32)"

lemma init_update_finish:
  assumes "poly1305_usable k"
  shows "fst (poly1305_finish (foldl poly1305_update (case k of (st, key) \<Rightarrow> poly1305_init st key) parts)) =
    (case k of (st, key) \<Rightarrow> poly1305_spec key (concat parts))"
proof -
  obtain st key where k: "k = (st, key)" by (cases k)
  with assms have len: "length (st_buffer st) = 16" "length key = 32" by (simp_all add: poly1305_usable_def)
  let ?i = "poly1305_init st key"
  have "poly_clamped (st_r ?i)" "limbs_val (st_r ?i) = poly_clamp (take 16 key)"
    using len init_limbs [of key st] by simp_all
  moreover have pad: "st_pad ?i = (U8TO32 (drop 16 key), U8TO32 (drop 20 key), U8TO32 (drop 24 key), U8TO32 (drop 28 key))"
    by (simp add: poly1305_init_def)
  ultimately have "fst (poly1305_finish (foldl poly1305_update ?i parts)) =
      le_bytes 16 (poly_acc (poly_clamp (take 16 key)) 0 (blocks 16 (concat parts)) +
        le_val (take 16 (drop 16 key)))"
    using finish_inv [OF _ foldl_update_inv [OF _ init_inv [OF len, unfolded pad]]] pad_value [of key] len by simp
  then show ?thesis by (simp add: k poly1305_spec_def)
qed

interpretation p1305: absorbing "\<lambda>(st, key). poly1305_init st key" poly1305_update
  "\<lambda>st. fst (poly1305_finish st)" poly1305_usable "\<lambda>(st, key) msg. poly1305_spec key msg"
  by unfold_locales (simp add: init_update_finish split: prod.splits)

lemma length_poly1305_spec [simp, length_simps]: "length (poly1305_spec key msg) = 16"
  by (simp add: poly1305_spec_def)

text \<open>
  C2. Streaming Poly1305: for a 32-byte key, initialising, feeding the message in any
  pieces and finishing gives the tag of RFC 7539, evaluated over the natural numbers
  modulo \<open>2^130 - 5\<close>: the 26-bit limbs never overflow their 32-bit words, the partial
  reductions, the final constant-time subtraction and the packing are exact.
\<close>

theorem poly1305_streaming:
  assumes "length (st_buffer st) = 16" and "length key = 32"
  shows "fst (poly1305_finish (foldl poly1305_update (poly1305_init st key) parts)) =
    poly1305_spec key (concat parts)"
  using assms p1305.absorbed [of "(st, key)" parts] by (simp add: poly1305_usable_def)

theorem poly1305_streaming_witness:
  "length (fst (poly1305_finish (foldl poly1305_update
     (poly1305_init \<lparr>st_r = (0, 0, 0, 0, 0), st_h = (1, 2, 3, 4, 5), st_pad = (0, 0, 0, 0), st_leftover = 3,
        st_buffer = replicate 16 9, st_final = 1\<rparr> (replicate 32 7)) [[1, 2], replicate 20 3]))) = 16"
  by (subst poly1305_streaming) simp_all

end
