(* ===== verification/Aead.thy ===== *)
theory Aead
  imports Chacha20 Poly1305
begin

text \<open>
  \<open>crypto/refc/chacha20poly1305.c\<close>: the two authenticated encryptions. The specification
  is the construction of RFC 7539, section 2.8: key stream from counter 1, and the
  Poly1305 tag of padded data, padded ciphertext and their lengths under the one-time
  key of block 0. The lemmas show that the code computes it, that decryption accepts
  exactly a ciphertext that carries its tag, and the round trip.
\<close>

unbundle bit_operations_syntax

subsection \<open>The code\<close>

text \<open>
  What the local \<open>poly1305_state\<close> holds before its initialisation: an arbitrary value
  with a buffer of 16 bytes. \<open>poly1305_streaming\<close> shows that nothing depends on it.
\<close>

definition poly1305_local :: poly1305_state where
  "poly1305_local = \<lparr>st_r = (0, 0, 0, 0, 0), st_h = (0, 0, 0, 0, 0), st_pad = (0, 0, 0, 0),
     st_leftover = 0, st_buffer = replicate 16 0, st_final = 0\<rparr>"

definition generate_poly1305_key ::
  "poly1305_state \<Rightarrow> bytes \<Rightarrow> u64 \<Rightarrow> poly1305_state \<times> chacha20_ctx" where
  "generate_poly1305_key poly1305_state key nonce =
     (let block = replicate 32 0;
          chacha20_state = chacha20_init key nonce
      in case chacha20 chacha20_state block of (chacha20_state, block) \<Rightarrow>
           (poly1305_init poly1305_state block, chacha20_state))"

text \<open>
  The padding up to the next multiple of 16: the length is rounded up in a 32-bit
  \<open>size_t\<close>, and the zeros come from a constant array of 64 bytes.
\<close>

definition padding16 :: "nat \<Rightarrow> bytes" where
  "padding16 len =
     (let padded_len = (of_nat len + 15 :: u32) AND 0xFFFFFFF0
      in take (unat (padded_len - of_nat len)) (replicate 64 0))"

text \<open>The six calls of \<open>poly1305_update\<close> that both directions make, and the tag.\<close>

definition aead_tag :: "poly1305_state \<Rightarrow> bytes \<Rightarrow> bytes \<Rightarrow> bytes" where
  "aead_tag poly1305_state ad ciphertext =
     (let st = poly1305_update poly1305_state ad;
          st = poly1305_update st (padding16 (length ad));
          st = poly1305_update st ciphertext;
          st = poly1305_update st (padding16 (length ciphertext));
          st = poly1305_update st (U64TO8_LITTLE (of_nat (length ad)));
          st = poly1305_update st (U64TO8_LITTLE (of_nat (length ciphertext)))
      in fst (poly1305_finish st))"

definition chacha20poly1305_encrypt :: "bytes \<Rightarrow> bytes \<Rightarrow> u64 \<Rightarrow> bytes \<Rightarrow> bytes" where
  "chacha20poly1305_encrypt src ad nonce key =
     (case generate_poly1305_key poly1305_local key nonce of (poly1305_state, chacha20_state) \<Rightarrow>
      let dst = snd (chacha20 chacha20_state src)
      in dst @ aead_tag poly1305_state ad dst)"

text \<open>\<open>None\<close> is the result \<open>false\<close>: the output buffer is not written.\<close>

definition chacha20poly1305_decrypt :: "bytes \<Rightarrow> bytes \<Rightarrow> u64 \<Rightarrow> bytes \<Rightarrow> bytes option" where
  "chacha20poly1305_decrypt src ad nonce key =
     (if length src \<ge> 16 then
        let dst_len = length src - 16 in
        case generate_poly1305_key poly1305_local key nonce of (poly1305_state, chacha20_state) \<Rightarrow>
        let mac = aead_tag poly1305_state ad (take dst_len src)
        in if crypto_equal mac (drop dst_len src) 16
           then Some (snd (chacha20 chacha20_state (take dst_len src)))
           else None
      else None)"

definition xchacha20poly1305_encrypt :: "bytes \<Rightarrow> bytes \<Rightarrow> bytes \<Rightarrow> bytes \<Rightarrow> bytes" where
  "xchacha20poly1305_encrypt src ad nonce key =
     (let new_nonce = U8TO64_LITTLE (drop 16 nonce);
          subkey = hchacha20 nonce key
      in chacha20poly1305_encrypt src ad new_nonce subkey)"

definition xchacha20poly1305_decrypt :: "bytes \<Rightarrow> bytes \<Rightarrow> bytes \<Rightarrow> bytes \<Rightarrow> bytes option" where
  "xchacha20poly1305_decrypt src ad nonce key =
     (let new_nonce = U8TO64_LITTLE (drop 16 nonce);
          subkey = hchacha20 nonce key
      in chacha20poly1305_decrypt src ad new_nonce subkey)"

subsection \<open>Specification\<close>

definition pad16 :: "bytes \<Rightarrow> bytes" where
  "pad16 xs = xs @ replicate ((16 - length xs mod 16) mod 16) 0"

definition aead_key :: "bytes \<Rightarrow> u64 \<Rightarrow> bytes" where
  "aead_key key nonce = take 32 (chacha20_block (chacha20_init key nonce))"

definition aead_mac_data :: "bytes \<Rightarrow> bytes \<Rightarrow> bytes" where
  "aead_mac_data ad ct = pad16 ad @ pad16 ct @ le_bytes 8 (length ad) @ le_bytes 8 (length ct)"

definition aead_cipher :: "bytes \<Rightarrow> u64 \<Rightarrow> bytes \<Rightarrow> bytes" where
  "aead_cipher key nonce m =
     xor_bytes m (keystream (chacha20_next (chacha20_init key nonce)) (length m))"

definition aead_mac :: "bytes \<Rightarrow> u64 \<Rightarrow> bytes \<Rightarrow> bytes \<Rightarrow> bytes" where
  "aead_mac key nonce ad ct = poly1305_spec (aead_key key nonce) (aead_mac_data ad ct)"


lemma unat_round_down: "unat (x AND 0xFFFFFFF0) = unat x div 16 * 16" for x :: u32
proof -
  have "(0xFFFFFFF0 :: u32) = NOT (mask 4)" by (simp add: mask_eq_exp_minus_1)
  moreover have "x AND NOT (mask 4) = push_bit 4 (drop_bit 4 x)"
    by (rule bit_eqI) (auto simp: bit_simps)
  moreover have "unat x div 16 * 16 < 4294967296"
    by (rule le_less_trans [OF div_times_less_eq_dividend]) simp
  ultimately show ?thesis by (simp add: unat_push_bit unat_drop_bit)
qed

lemma round_up_16: "(n + 15) div 16 * 16 = n + (16 - n mod 16) mod 16" for n :: nat
proof -
  define q r where "q = n div 16" and "r = n mod 16"
  have n: "n = 16 * q + r" and r: "r < 16" by (simp_all add: q_def r_def)
  show ?thesis
  proof (cases "r = 0")
    case False
    then have "(n + 15) div 16 = Suc q" using n r by (intro div_nat_eqI) simp_all
    then show ?thesis using n r False by simp
  qed (simp add: n)
qed

lemma padding16_eq:
  assumes "len + 16 \<le> 2 ^ 32"
  shows "padding16 len = replicate ((16 - len mod 16) mod 16) 0"
proof -
  have l: "unat (of_nat len + 15 :: u32) = len + 15" "unat (of_nat len :: u32) = len"
    using assms by (simp_all add: unat_add unat_of_nat)
  have "unat ((of_nat len + 15 :: u32) AND 0xFFFFFFF0) = len + (16 - len mod 16) mod 16"
    by (simp only: unat_round_down l round_up_16)
  then have "unat (((of_nat len + 15 :: u32) AND 0xFFFFFFF0) - of_nat len) = (16 - len mod 16) mod 16"
    by (simp add: unat_sub_if' l)
  moreover have "(16 - len mod 16) mod 16 \<le> 64"
    by (rule le_trans [OF less_imp_le [OF mod_less_divisor]]) simp_all
  ultimately show ?thesis by (simp add: padding16_def Let_def min_absorb2)
qed

lemma pad16_eq: "length xs + 16 \<le> 2 ^ 32 \<Longrightarrow> xs @ padding16 (length xs) = pad16 xs"
  by (simp add: padding16_eq pad16_def)

subsection \<open>The code computes the construction\<close>

definition aead_fits :: "bytes \<Rightarrow> bool" where
  "aead_fits xs \<longleftrightarrow> length xs + 16 \<le> 2 ^ 32"

lemma generate_key_eq:
  "generate_poly1305_key st key nonce =
   (poly1305_init st (aead_key key nonce), chacha20_next (chacha20_init key nonce))"
proof -
  have z: "xor_bytes (replicate 32 0) ks = take 32 ks" if "length ks \<ge> 32" for ks
    using that by (intro nth_equalityI) auto
  have "snd (chacha20 (chacha20_init key nonce) (replicate 32 0)) = aead_key key nonce"
    by (simp add: chacha20_keystream keystream_short z aead_key_def)
  moreover have "fst (chacha20 (chacha20_init key nonce) (replicate 32 0)) =
      chacha20_next (chacha20_init key nonce)"
    by (rule chacha20_ctx_short) simp_all
  ultimately show ?thesis
    unfolding generate_poly1305_key_def Let_def by (simp split: prod.splits) (metis fst_conv snd_conv)
qed

lemma aead_tag_eq:
  assumes "aead_fits ad" "aead_fits ct" "length k = 32"
  shows "aead_tag (poly1305_init poly1305_local k) ad ct = poly1305_spec k (aead_mac_data ad ct)"
proof -
  have l: "U64TO8_LITTLE (of_nat n) = le_bytes 8 n" for n
    using le_bytes_mod [of 8 n] by (simp add: U64TO8_LITTLE_le_bytes unat_of_nat)
  have u: "poly1305_usable (poly1305_local, k)"
    using assms by (simp add: poly1305_usable_def poly1305_local_def)
  then have "aead_tag (poly1305_init poly1305_local k) ad ct =
      poly1305_spec k (ad @ padding16 (length ad) @ ct @ padding16 (length ct) @
        U64TO8_LITTLE (of_nat (length ad)) @ U64TO8_LITTLE (of_nat (length ct)))"
    using p1305.absorb_six [OF u] by (simp add: aead_tag_def Let_def)
  moreover have "ad @ padding16 (length ad) @ ct @ padding16 (length ct) @ xs = pad16 ad @ pad16 ct @ xs"
    for xs
    using assms by (simp add: pad16_eq [symmetric] aead_fits_def)
  ultimately show ?thesis by (simp add: aead_mac_data_def l)
qed

lemma length_aead_key [simp, length_simps]: "length (aead_key key nonce) = 32"
  by (simp add: aead_key_def)

lemma length_aead_cipher [simp, length_simps]: "length (aead_cipher key nonce m) = length m"
  by (simp add: aead_cipher_def)

lemma length_aead_mac [simp, length_simps]: "length (aead_mac key nonce ad ct) = 16"
  by (simp add: aead_mac_def)

lemma aead_cipher_twice: "aead_cipher key nonce (aead_cipher key nonce m) = m"
  by (simp add: aead_cipher_def xor_bytes_twice)

lemma encrypt_eq:
  "aead_fits ad \<Longrightarrow> aead_fits m \<Longrightarrow> chacha20poly1305_encrypt m ad nonce key =
   aead_cipher key nonce m @ aead_mac key nonce ad (aead_cipher key nonce m)"
  by (simp add: chacha20poly1305_encrypt_def generate_key_eq Let_def chacha20_keystream
      aead_cipher_def [symmetric] aead_tag_eq aead_mac_def aead_fits_def)

lemma decrypt_eq:
  assumes "aead_fits ad" "aead_fits c"
  shows "chacha20poly1305_decrypt c ad nonce key =
   (let n = length c - 16 in
    if 16 \<le> length c \<and> drop n c = aead_mac key nonce ad (take n c)
    then Some (aead_cipher key nonce (take n c)) else None)"
proof -
  have "aead_fits (take n c)" for n using assms(2) by (simp add: aead_fits_def)
  moreover have "crypto_equal mac (drop (length c - 16) c) 16 \<longleftrightarrow> drop (length c - 16) c = mac"
    if "length mac = 16" "16 \<le> length c" for mac
    using that by (auto simp: crypto_equal_iff)
  ultimately show ?thesis
    using assms by (simp add: chacha20poly1305_decrypt_def generate_key_eq Let_def chacha20_keystream
        aead_tag_eq aead_mac_def [symmetric] crypto_equal_iff) (simp add: aead_cipher_def)
qed

lemma length_finish [simp, length_simps]: "length (fst (poly1305_finish st)) = 16"
proof -
  have "length (poly_pad h pad) = 16" for h pad
    by (cases h; cases pad) (simp add: poly_pad_def U32TO8_def Let_def)
  then show ?thesis by (simp add: poly1305_finish_def poly1305_emit_def Let_def)
qed

lemma length_encrypt [simp, length_simps]:
  "length (chacha20poly1305_encrypt m ad nonce key) = length m + 16"
  "length (xchacha20poly1305_encrypt m ad xnonce key) = length m + 16"
proof -
  show *: "length (chacha20poly1305_encrypt m ad nonce key) = length m + 16" for nonce key
    by (simp add: chacha20poly1305_encrypt_def generate_key_eq aead_tag_def Let_def)
  show "length (xchacha20poly1305_encrypt m ad xnonce key) = length m + 16"
    by (simp add: xchacha20poly1305_encrypt_def * Let_def)
qed

lemma decrypt_encrypt:
  "aead_fits ad \<Longrightarrow> length m + 32 \<le> 2 ^ 32 \<Longrightarrow>
   chacha20poly1305_decrypt (chacha20poly1305_encrypt m ad nonce key) ad nonce key = Some m"
  using length_encrypt(1) [of m ad nonce key]
  by (simp add: decrypt_eq encrypt_eq aead_fits_def aead_cipher_twice)

lemma decrypt_length:
  "chacha20poly1305_decrypt c ad nonce key = Some m \<Longrightarrow> length c = length m + 16"
  by (auto simp: chacha20poly1305_decrypt_def Let_def split: prod.splits if_splits)

subsection \<open>Interface: an authenticated cipher\<close>

text \<open>
  What the protocol relies on, for both constructions: opening what was sealed under
  the same key, nonce and data gives the plaintext, a sealed message is the tag longer,
  and whatever opens is exactly a sealed message, so that nothing else is accepted.
\<close>

locale aead =
  fixes seal :: "'k \<Rightarrow> 'n \<Rightarrow> bytes \<Rightarrow> bytes \<Rightarrow> bytes"
    and unseal :: "'k \<Rightarrow> 'n \<Rightarrow> bytes \<Rightarrow> bytes \<Rightarrow> bytes option"
    and fits :: "bytes \<Rightarrow> bool"
  assumes unseal_seal: "fits ad \<Longrightarrow> fits (seal k n ad m) \<Longrightarrow> unseal k n ad (seal k n ad m) = Some m"
    and seal_unseal: "fits ad \<Longrightarrow> fits c \<Longrightarrow> unseal k n ad c = Some m \<Longrightarrow> c = seal k n ad m"
    and length_seal: "length (seal k n ad m) = length m + 16"
begin

lemma unseal_iff:
  "fits ad \<Longrightarrow> fits c \<Longrightarrow> unseal k n ad c = Some m \<longleftrightarrow> c = seal k n ad m"
  using unseal_seal seal_unseal by metis

lemma unseal_short: "fits ad \<Longrightarrow> fits c \<Longrightarrow> length c < 16 \<Longrightarrow> unseal k n ad c = None"
  using seal_unseal length_seal by (metis not_add_less2 option.exhaust)

lemma unseal_altered:
  "fits ad \<Longrightarrow> fits c \<Longrightarrow> (\<And>m. c \<noteq> seal k n ad m) \<Longrightarrow> unseal k n ad c = None"
  using seal_unseal by (metis option.exhaust)

end

lemma encrypt_decrypt:
  assumes "aead_fits ad" "aead_fits c" "chacha20poly1305_decrypt c ad nonce key = Some m"
  shows "c = chacha20poly1305_encrypt m ad nonce key"
proof -
  let ?n = "length c - 16"
  have d: "16 \<le> length c" "drop ?n c = aead_mac key nonce ad (take ?n c)"
    "m = aead_cipher key nonce (take ?n c)"
    using assms(3) unfolding decrypt_eq [OF assms(1,2)] Let_def by (auto split: if_splits)
  have fit: "aead_fits m" using assms(2) d(1,3) by (simp add: aead_fits_def)
  have "chacha20poly1305_encrypt m ad nonce key = take ?n c @ aead_mac key nonce ad (take ?n c)"
    using encrypt_eq [OF assms(1) fit, of nonce key] unfolding d(3) by (simp only: aead_cipher_twice)
  then show ?thesis unfolding d(2) [symmetric] by simp
qed

interpretation wg_aead: aead "\<lambda>key nonce ad m. chacha20poly1305_encrypt m ad nonce key"
  "\<lambda>key nonce ad c. chacha20poly1305_decrypt c ad nonce key" aead_fits
proof unfold_locales
  fix ad k n m c
  show "aead_fits ad \<Longrightarrow> aead_fits (chacha20poly1305_encrypt m ad n k) \<Longrightarrow>
      chacha20poly1305_decrypt (chacha20poly1305_encrypt m ad n k) ad n k = Some m"
    by (intro decrypt_encrypt) (simp_all add: aead_fits_def)
  show "aead_fits ad \<Longrightarrow> aead_fits c \<Longrightarrow> chacha20poly1305_decrypt c ad n k = Some m \<Longrightarrow>
      c = chacha20poly1305_encrypt m ad n k"
    by (rule encrypt_decrypt)
qed simp

interpretation wg_xaead: aead "\<lambda>key nonce ad m. xchacha20poly1305_encrypt m ad nonce key"
  "\<lambda>key nonce ad c. xchacha20poly1305_decrypt c ad nonce key" aead_fits
  by unfold_locales
    (simp_all add: xchacha20poly1305_encrypt_def xchacha20poly1305_decrypt_def Let_def
      wg_aead.unseal_seal wg_aead.seal_unseal)

subsection \<open>Properties\<close>

text \<open>
  C3. ChaCha20-Poly1305 encryption is the construction of RFC 7539, section 2.8: the
  ciphertext is the plaintext under the key stream from block counter 1, and the tag
  appended to it is Poly1305, under the first 32 bytes of block 0, of the padded
  additional data, the padded ciphertext and the two 64-bit lengths.
\<close>

theorem chacha20poly1305_encrypt_rfc:
  assumes "length ad + 16 \<le> 2 ^ 32" and "length m + 16 \<le> 2 ^ 32"
  shows "chacha20poly1305_encrypt m ad nonce key =
    (let ks = keystream (chacha20_next (chacha20_init key nonce)) (length m);
         ct = xor_bytes m ks;
         otk = take 32 (chacha20_block (chacha20_init key nonce))
     in ct @ poly1305_spec otk (pad16 ad @ pad16 ct @ le_bytes 8 (length ad) @ le_bytes 8 (length ct)))"
  using encrypt_eq [of ad m] assms
  by (simp add: aead_fits_def aead_cipher_def aead_mac_def aead_key_def aead_mac_data_def Let_def)

theorem chacha20poly1305_encrypt_rfc_witness:
  "take 2 (chacha20poly1305_encrypt [1, 2] [3] 0 (replicate 32 0)) =
   xor_bytes [1, 2] (keystream (chacha20_next (chacha20_init (replicate 32 0) 0)) 2)"
  using chacha20poly1305_encrypt_rfc [of "[3]" "[1, 2]" 0 "replicate 32 0"]
  by (simp add: Let_def numeral_2_eq_2 [symmetric])

text \<open>
  C4. Decryption accepts exactly the encryptions: under a given key, nonce and additional
  data, \<open>chacha20poly1305_decrypt\<close> answers \<open>m\<close> for an input if and only if the input is the
  encryption of \<open>m\<close>. So it round trips, it rejects what is shorter than the tag, and any
  change of ciphertext, tag or data that does not give another valid tag is refused.
\<close>

theorem chacha20poly1305_decrypt_iff:
  assumes "length ad + 16 \<le> 2 ^ 32" and "length c + 16 \<le> 2 ^ 32"
  shows "chacha20poly1305_decrypt c ad nonce key = Some m \<longleftrightarrow> c = chacha20poly1305_encrypt m ad nonce key"
  using assms by (intro wg_aead.unseal_iff) (simp_all add: aead_fits_def)

theorem chacha20poly1305_decrypt_iff_witness:
  "chacha20poly1305_decrypt (chacha20poly1305_encrypt [1, 2, 3] [4] 5 (replicate 32 6)) [4] 5
     (replicate 32 6) = Some [1, 2, 3]"
  by (subst chacha20poly1305_decrypt_iff) simp_all

text \<open>
  The extended-nonce construction, used for cookies: decryption under a 24-byte nonce
  accepts exactly the encryptions under that nonce.
\<close>

theorem xchacha20poly1305_decrypt_iff:
  assumes "length ad + 16 \<le> 2 ^ 32" and "length c + 16 \<le> 2 ^ 32"
  shows "xchacha20poly1305_decrypt c ad nonce key = Some m \<longleftrightarrow> c = xchacha20poly1305_encrypt m ad nonce key"
  using assms by (intro wg_xaead.unseal_iff) (simp_all add: aead_fits_def)

theorem xchacha20poly1305_decrypt_iff_witness:
  "xchacha20poly1305_decrypt (xchacha20poly1305_encrypt [1, 2, 3] [4] (replicate 24 5) (replicate 32 6)) [4]
     (replicate 24 5) (replicate 32 6) = Some [1, 2, 3]"
  by (subst xchacha20poly1305_decrypt_iff) simp_all

end
