(* ===== verification/Base64.thy ===== *)
theory Base64
  imports Prelude
begin

text \<open>
  \<open>wireguard_base64_encode\<close> and \<open>wireguard_base64_decode\<close> of \<open>wireguard.c\<close>, which read
  and print the keys. C strings are lists of characters that end at the first NUL.
  The lemmas show the round trip and how many bytes a decoding writes.
\<close>

unbundle bit_operations_syntax

subsection \<open>The code\<close>

definition base64_lookup :: string where
  "base64_lookup = ''ABCDEFGHIJKLMNOPQRSTUVWXYZabcdefghijklmnopqrstuvwxyz0123456789+/''"

fun strchr :: "string \<Rightarrow> char \<Rightarrow> nat option" where
  "strchr [] c = None"
| "strchr (x # xs) c = (if x = c then Some 0 else map_option Suc (strchr xs c))"

definition strlen :: "string \<Rightarrow> nat" where
  "strlen str = length (takeWhile (\<lambda>c. c \<noteq> CHR 0x00) str)"

text \<open>
  The loop of the decoder over the characters. The result is \<open>(result, char_count, out)\<close>
  at the end of the loop or at a \<open>break\<close>; \<open>out\<close> holds what has been written, so that
  \<open>len\<close> of the source is its length. \<open>byte_count\<close> is an \<open>int\<close> that starts at 3.
\<close>

fun b64_decode_loop ::
  "nat \<Rightarrow> u32 \<Rightarrow> nat \<Rightarrow> int \<Rightarrow> bytes \<Rightarrow> string \<Rightarrow> bool \<times> nat \<times> bytes" where
  "b64_decode_loop outlen accum char_count byte_count out [] = (True, char_count, out)"
| "b64_decode_loop outlen accum char_count byte_count out (c # cs) =
     (if c = CHR ''='' \<and> byte_count - 1 < 0 then (False, char_count, out)
      else if c \<noteq> CHR ''='' \<and> byte_count \<noteq> 3 then (False, char_count, out)
      else
        case (if c = CHR ''='' then Some 0
              else map_option (\<lambda>i. of_nat i AND 0x3F) (strchr base64_lookup c)) of
          None \<Rightarrow> (False, char_count, out)
        | Some bits \<Rightarrow>
            let byte_count = (if c = CHR ''='' then byte_count - 1 else byte_count);
                accum = push_bit 6 accum OR bits;
                char_count = char_count + 1
            in if char_count = 4 then
                 if int (length out) + byte_count > int outlen then (False, char_count, out)
                 else
                   let out = out @ [ucast (drop_bit 16 accum AND 0xFF)];
                       out = (if byte_count > 1 then out @ [ucast (drop_bit 8 accum AND 0xFF)] else out);
                       out = (if byte_count > 2 then out @ [ucast (accum AND 0xFF)] else out)
                   in b64_decode_loop outlen 0 0 byte_count out cs
               else b64_decode_loop outlen accum char_count byte_count out cs)"

text \<open>
  The result, and what was written to \<open>out\<close>; its length is what \<open>*outlen\<close> is set to. A NULL
  string (\<open>None\<close>) is refused.
\<close>

definition wireguard_base64_decode :: "string option \<Rightarrow> nat \<Rightarrow> bool \<times> bytes" where
  "wireguard_base64_decode str outlen =
     (case str of
        None \<Rightarrow> (False, [])
      | Some str \<Rightarrow>
          (case b64_decode_loop outlen 0 0 3 [] (take (strlen str) str) of (result, char_count, out) \<Rightarrow>
             (if char_count \<noteq> 0 then False else result, out)))"

text \<open>The loop of the encoder; \<open>lim\<close> is \<open>len - padding\<close> and \<open>write_offset\<close> the length of \<open>out\<close>.\<close>

definition next_byte :: "bytes \<Rightarrow> u8 \<times> bytes" where
  "next_byte xs = (case xs of [] \<Rightarrow> (0, []) | x # xs \<Rightarrow> (x, xs))"

definition b64_char :: "u32 \<Rightarrow> char" where
  "b64_char x = base64_lookup ! unat (x AND 0x3F)"

function b64_encode_loop :: "nat \<Rightarrow> bytes \<Rightarrow> string \<Rightarrow> string" where
  "b64_encode_loop lim xs out =
     (if xs = [] then out
      else
        case next_byte xs of (byte1, xs) \<Rightarrow>
        case next_byte xs of (byte2, xs) \<Rightarrow>
        case next_byte xs of (byte3, xs) \<Rightarrow>
        let tmp = push_bit 16 (ucast byte1) OR push_bit 8 (ucast byte2) OR ucast byte3 :: u32;
            out = out @ [b64_char (drop_bit 18 tmp)];
            out = out @ [b64_char (drop_bit 12 tmp)];
            out = out @ [if length out < lim then b64_char (drop_bit 6 tmp) else CHR ''=''];
            out = out @ [if length out < lim then b64_char tmp else CHR ''='']
        in b64_encode_loop lim xs out)"
  by pat_completeness auto
termination
  by (relation "measure (\<lambda>(lim, xs, out). length xs)")
    (auto simp: next_byte_def split: list.splits)

declare b64_encode_loop.simps [simp del]

text \<open>The string with its NUL, or \<open>None\<close> when \<open>outlen\<close> is too small.\<close>

definition wireguard_base64_encode :: "bytes \<Rightarrow> nat \<Rightarrow> string option" where
  "wireguard_base64_encode xs outlen =
     (let len = 4 * ((length xs + 2) div 3);
          padding = 3 - length xs mod 3;
          padding = (if padding > 2 then 0 else padding)
      in if outlen > len then Some (b64_encode_loop (len - padding) xs [] @ [CHR 0x00]) else None)"

subsection \<open>One block\<close>

lemma strchr_lookup_all: "list_all (\<lambda>i. strchr base64_lookup (base64_lookup ! i) = Some i \<and>
    base64_lookup ! i \<noteq> CHR ''='' \<and> base64_lookup ! i \<noteq> CHR 0x00) [0..<64]"
  by code_simp

lemma strchr_lookup:
  "i < 64 \<Longrightarrow> strchr base64_lookup (base64_lookup ! i) = Some i \<and>
   base64_lookup ! i \<noteq> CHR ''='' \<and> base64_lookup ! i \<noteq> CHR 0x00"
  using strchr_lookup_all by (simp add: list_all_iff)

lemma unat_and_3F: "unat (x AND 0x3F) = unat x mod 64" for x :: u32
  using nat_and_mask [of "unat x" 6] by (simp add: unat_and)

lemma b64_char_props:
  "strchr base64_lookup (b64_char x) = Some (unat (x AND 0x3F))"
  "b64_char x \<noteq> CHR ''=''" "b64_char x \<noteq> CHR 0x00"
proof -
  have "unat (x AND 0x3F) < 64" by (simp add: unat_and_3F)
  then show "strchr base64_lookup (b64_char x) = Some (unat (x AND 0x3F))"
    "b64_char x \<noteq> CHR ''=''" "b64_char x \<noteq> CHR 0x00"
    using strchr_lookup unfolding b64_char_def by blast+
qed

text \<open>Four sextets put together again.\<close>

definition sextets :: "u32 \<Rightarrow> u32" where
  "sextets tmp = push_bit 6 (push_bit 6 (push_bit 6 (drop_bit 18 tmp AND 0x3F) OR (drop_bit 12 tmp AND 0x3F))
     OR (drop_bit 6 tmp AND 0x3F)) OR (tmp AND 0x3F)"

lemma unat_push_sextet:
  "unat a < 2 ^ 26 \<Longrightarrow> unat b < 64 \<Longrightarrow> unat (push_bit 6 a OR b) = 64 * unat a + unat b" for a b :: u32
proof -
  assume "unat a < 2 ^ 26" "unat b < 64"
  moreover have "unat b OR (unat a * 2 ^ 6) = unat b + unat a * 2 ^ 6"
    by (rule nat_or_add) (use \<open>unat b < 64\<close> in simp)
  ultimately show ?thesis by (simp add: unat_or unat_push_bit or.commute)
qed

lemma sextets_eq: "unat tmp < 2 ^ 24 \<Longrightarrow> sextets tmp = tmp"
proof -
  assume less: "unat tmp < 2 ^ 24"
  let ?n = "unat tmp"
  let ?a = "drop_bit 18 tmp AND 0x3F :: u32"
  let ?b = "push_bit 6 ?a OR (drop_bit 12 tmp AND 0x3F)"
  let ?c = "push_bit 6 ?b OR (drop_bit 6 tmp AND 0x3F)"
  have a: "unat ?a = ?n div 2 ^ 18" using less by (simp add: unat_and_3F unat_drop_bit less_mult_imp_div_less)
  have b: "unat ?b = 64 * unat ?a + ?n div 2 ^ 12 mod 64"
    using a less by (subst unat_push_sextet) (simp_all add: unat_and_3F unat_drop_bit less_mult_imp_div_less)
  have "unat ?a < 64" by (simp add: unat_and_3F)
  then have b': "unat ?b < 2 ^ 12" using b by simp
  have c: "unat ?c = 64 * unat ?b + ?n div 2 ^ 6 mod 64"
    using b' by (subst unat_push_sextet) (simp_all add: unat_and_3F unat_drop_bit)
  have c': "unat ?c < 2 ^ 18" using b' c by simp
  have "unat (sextets tmp) = 64 * unat ?c + ?n mod 64"
    unfolding sextets_def using c' by (subst unat_push_sextet) (simp_all add: unat_and_3F)
  moreover have "?n div 2 ^ 12 = 64 * (?n div 2 ^ 18) + ?n div 2 ^ 12 mod 64"
    "?n div 2 ^ 6 = 64 * (?n div 2 ^ 12) + ?n div 2 ^ 6 mod 64" "?n = 64 * (?n div 2 ^ 6) + ?n mod 64"
    using div_mult2_eq [of ?n "2 ^ 12" 64] div_mult2_eq [of ?n "2 ^ 6" 64] by simp_all
  ultimately have "unat (sextets tmp) = ?n" using a b c by simp
  then show ?thesis by (simp add: word_unat_eq_iff)
qed

definition block24 :: "u8 \<Rightarrow> u8 \<Rightarrow> u8 \<Rightarrow> u32" where
  "block24 b1 b2 b3 = push_bit 16 (ucast b1) OR push_bit 8 (ucast b2) OR ucast b3"

lemma unat_block24: "unat (block24 b1 b2 b3) = 65536 * unat b1 + 256 * unat b2 + unat b3"
proof -
  have eq: "block24 b1 b2 b3 = (ucast b3 OR push_bit 8 (ucast b2)) OR push_bit 16 (ucast b1)"
    by (simp add: block24_def or.commute or.left_commute)
  have "unat (push_bit 8 (ucast b2) :: u32) = unat b2 * 2 ^ 8"
    "unat (push_bit 16 (ucast b1) :: u32) = unat b1 * 2 ^ 16"
    using unat_u8_less [of b1] unat_u8_less [of b2]
    by (simp_all add: unat_push_bit unat_ucast_up del: unat_u8_less)
  moreover have "unat b3 OR (unat b2 * 2 ^ 8) = unat b3 + unat b2 * 2 ^ 8"
    by (rule nat_or_add) simp
  moreover have "(unat b3 + unat b2 * 2 ^ 8) OR (unat b1 * 2 ^ 16) = unat b3 + unat b2 * 2 ^ 8 + unat b1 * 2 ^ 16"
    using unat_u8_less [of b3] unat_u8_less [of b2] by (intro nat_or_add) (simp del: unat_u8_less)
  ultimately show ?thesis
    by (simp add: eq unat_or unat_ucast_up)
qed

lemma block24_less: "unat (block24 b1 b2 b3) < 2 ^ 24"
  using unat_u8_less [of b1] unat_u8_less [of b2] unat_u8_less [of b3]
  by (simp add: unat_block24 del: unat_u8_less)

lemma block24_bytes:
  "ucast (drop_bit 16 (block24 b1 b2 b3) AND 0xFF) = b1"
  "ucast (drop_bit 8 (block24 b1 b2 b3) AND 0xFF) = b2"
  "ucast (block24 b1 b2 b3 AND 0xFF) = b3"
proof -
  have m: "unat (x AND 0xFF) = unat x mod 256" for x :: u32
    using nat_and_mask [of "unat x" 8] by (simp add: unat_and)
  have u: "unat (ucast (x AND 0xFF) :: u8) = unat x mod 256" for x :: u32
    by (simp add: unat_ucast_mod m)
  have 1: "unat (block24 b1 b2 b3) div 2 ^ 16 = unat b1" "unat (block24 b1 b2 b3) div 2 ^ 8 = 256 * unat b1 + unat b2"
    using unat_u8_less [of b3] unat_u8_less [of b2]
    by (auto simp: unat_block24 intro!: div_nat_eqI simp del: unat_u8_less)
  have "unat (block24 b1 b2 b3) = unat b3 + 256 * (256 * unat b1 + unat b2)" by (simp add: unat_block24)
  then have 2: "unat (block24 b1 b2 b3) mod 256 = unat b3" by (simp only: mod_mult_self2) simp
  show "ucast (drop_bit 16 (block24 b1 b2 b3) AND 0xFF) = b1"
    "ucast (drop_bit 8 (block24 b1 b2 b3) AND 0xFF) = b2" "ucast (block24 b1 b2 b3 AND 0xFF) = b3"
    using 2 by (simp_all only: word_unat_eq_iff u unat_drop_bit 1) simp_all
qed

lemma decode_char:
  "byte_count = 3 \<Longrightarrow> char_count < 3 \<Longrightarrow>
   b64_decode_loop outlen accum char_count byte_count out (b64_char x # cs) =
   b64_decode_loop outlen (push_bit 6 accum OR (x AND 0x3F)) (Suc char_count) byte_count out cs"
  by (simp add: b64_char_props and.assoc)

lemma decode_pad:
  "byte_count > 0 \<Longrightarrow> char_count < 3 \<Longrightarrow>
   b64_decode_loop outlen accum char_count byte_count out (CHR ''='' # cs) =
   b64_decode_loop outlen (push_bit 6 accum) (Suc char_count) (byte_count - 1) out cs"
  by simp

lemma decode_block:
  fixes b1 b2 b3 :: u8
  defines "t \<equiv> block24 b1 b2 b3"
  shows "length out + 3 \<le> outlen \<Longrightarrow>
    b64_decode_loop outlen 0 0 3 out
      (b64_char (drop_bit 18 t) # b64_char (drop_bit 12 t) # b64_char (drop_bit 6 t) # b64_char t # cs) =
    b64_decode_loop outlen 0 0 3 (out @ [b1, b2, b3]) cs"
proof -
  assume room: "length out + 3 \<le> outlen"
  have s: "push_bit 6 (push_bit 6 (push_bit 6 (drop_bit 18 t AND 0x3F) OR (drop_bit 12 t AND 0x3F))
     OR (drop_bit 6 t AND 0x3F)) OR (t AND 0x3F) = t"
    using sextets_eq [OF block24_less, of b1 b2 b3] by (simp only: sextets_def t_def)
  show ?thesis
    using room s block24_bytes [of b1 b2 b3]
    by (simp add: decode_char b64_char_props and.assoc Let_def t_def del: b64_decode_loop.simps(2)) 
      (simp add: b64_char_props and.assoc Let_def t_def)
qed

subsection \<open>Whole strings\<close>

text \<open>The encoding as a function of the bytes, block by block.\<close>

fun b64_text :: "bytes \<Rightarrow> string" where
  "b64_text [] = []"
| "b64_text [b1] =
     (let t = block24 b1 0 0 in [b64_char (drop_bit 18 t), b64_char (drop_bit 12 t), CHR ''='', CHR ''=''])"
| "b64_text [b1, b2] =
     (let t = block24 b1 b2 0
      in [b64_char (drop_bit 18 t), b64_char (drop_bit 12 t), b64_char (drop_bit 6 t), CHR ''=''])"
| "b64_text (b1 # b2 # b3 # xs) =
     (let t = block24 b1 b2 b3
      in [b64_char (drop_bit 18 t), b64_char (drop_bit 12 t), b64_char (drop_bit 6 t), b64_char t] @ b64_text xs)"

definition b64_len :: "nat \<Rightarrow> nat" where
  "b64_len n = 4 * ((n + 2) div 3)"

lemma b64_len_simps:
  "b64_len 0 = 0" "b64_len (Suc 0) = 4" "b64_len (Suc (Suc 0)) = 4"
  "b64_len (Suc (Suc (Suc n))) = 4 + b64_len n"
proof -
  have "(Suc (Suc (Suc n)) + 2) div 3 = Suc ((n + 2) div 3)" by presburger
  then show "b64_len (Suc (Suc (Suc n))) = 4 + b64_len n" by (simp only: b64_len_def mult_Suc_right)
qed (simp_all add: b64_len_def)

lemma length_b64_text: "length (b64_text xs) = b64_len (length xs)"
  by (induction xs rule: b64_text.induct) (simp_all add: b64_len_simps Let_def)

definition b64_lim :: "nat \<Rightarrow> nat" where
  "b64_lim n = b64_len n - (if 3 - n mod 3 > 2 then 0 else 3 - n mod 3)"

lemma b64_lim_small: "b64_lim (Suc 0) = 2" "b64_lim (Suc (Suc 0)) = 3"
  by (simp_all add: b64_lim_def b64_len_def)

lemma b64_lim_step: "b64_lim (Suc (Suc (Suc n))) = 4 + b64_lim n"
proof -
  have "(if 3 - n mod 3 > 2 then 0 else 3 - n mod 3) \<le> b64_len n"
  proof (cases "n mod 3 = 0")
    case False
    then have "0 < n" by (cases n) simp_all
    then have "4 \<le> b64_len n" unfolding b64_len_def by presburger
    then show ?thesis by simp
  qed simp
  moreover note b64_len_simps(4) [of n]
  moreover have "Suc (Suc (Suc n)) mod 3 = n mod 3" by presburger
  ultimately show ?thesis by (simp add: b64_lim_def)
qed

lemma encode_loop_text:
  "b64_encode_loop (length out + b64_lim (length xs)) xs out = out @ b64_text xs"
proof (induction xs arbitrary: out rule: b64_text.induct)
  case 1
  then show ?case by (simp add: b64_encode_loop.simps)
next
  case (2 b1)
  then show ?case
    by (simp add: b64_encode_loop.simps [of _ "[b1]"] b64_encode_loop.simps [of _ "[]"] next_byte_def
        Let_def block24_def b64_lim_small)
next
  case (3 b1 b2)
  then show ?case
    by (simp add: b64_encode_loop.simps [of _ "[b1, b2]"] b64_encode_loop.simps [of _ "[]"] next_byte_def
        Let_def block24_def b64_lim_small)
next
  case (4 b1 b2 b3 xs)
  let ?t = "block24 b1 b2 b3"
  let ?o = "out @ [b64_char (drop_bit 18 ?t), b64_char (drop_bit 12 ?t), b64_char (drop_bit 6 ?t), b64_char ?t]"
  have l: "length out + b64_lim (length (b1 # b2 # b3 # xs)) = length ?o + b64_lim (length xs)"
    by (simp add: b64_lim_step)
  have "b64_encode_loop (length ?o + b64_lim (length xs)) (b1 # b2 # b3 # xs) out =
      b64_encode_loop (length ?o + b64_lim (length xs)) xs ?o"
    by (subst b64_encode_loop.simps) (simp add: next_byte_def Let_def block24_def)
  with 4 [OF refl, of ?o] show ?case unfolding l by (simp add: Let_def)
qed

lemma encode_text:
  "wireguard_base64_encode xs outlen =
   (if outlen > b64_len (length xs) then Some (b64_text xs @ [CHR 0x00]) else None)"
  using encode_loop_text [of "[]" xs]
  by (simp add: wireguard_base64_encode_def Let_def b64_len_def b64_lim_def)

lemma decode_text:
  "length out + length xs \<le> outlen \<Longrightarrow>
   b64_decode_loop outlen 0 0 3 out (b64_text xs) = (True, 0, out @ xs)"
proof (induction xs arbitrary: out rule: b64_text.induct)
  case (2 b1)
  let ?t = "block24 b1 0 0"
  have "drop_bit 6 ?t AND 0x3F = 0" "?t AND 0x3F = 0"
    by (simp_all add: word_unat_eq_iff unat_and_3F unat_drop_bit unat_block24)
  with 2 sextets_eq [OF block24_less, of b1 0 0] show ?case
    using 2 block24_bytes [of b1 0 0] 
    by (simp add: Let_def b64_char_props and.assoc sextets_def)
next
  case (3 b1 b2)
  let ?t = "block24 b1 b2 0"
  have "?t AND 0x3F = 0"
    by (simp_all add: word_unat_eq_iff unat_and_3F unat_drop_bit unat_block24)
  with 3 sextets_eq [OF block24_less, of b1 b2 0] show ?case
    using 3 block24_bytes [of b1 b2 0] 
    by (simp add: Let_def b64_char_props and.assoc sextets_def)
next
  case (4 b1 b2 b3 xs)
  then show ?case using decode_block [of out outlen b1 b2 b3 "b64_text xs"]
    by (simp add: Let_def del: b64_decode_loop.simps)
qed simp

text \<open>
  What the loop keeps: either only whole blocks of three bytes have been written and the
  padding seen so far is in the current block, or a padded block has been written and
  no further block can be completed.
\<close>

definition b64_inv :: "nat \<Rightarrow> nat \<Rightarrow> int \<Rightarrow> bytes \<Rightarrow> bool" where
  "b64_inv outlen char_count byte_count out \<longleftrightarrow>
     char_count < 4 \<and> 0 \<le> byte_count \<and> byte_count \<le> 3 \<and>
     (3 dvd length out \<and> length out \<le> outlen \<and> 3 \<le> int char_count + byte_count \<or>
      int char_count + byte_count \<le> 2 \<and>
      (length out \<le> outlen \<or> length out = Suc outlen \<and> 3 dvd outlen))"

lemma b64_inv_out:
  "b64_inv outlen char_count byte_count out \<Longrightarrow>
   length out \<le> outlen \<or> length out = Suc outlen \<and> 3 dvd outlen"
  by (auto simp: b64_inv_def)

lemma decode_written:
  "b64_inv outlen char_count byte_count out \<Longrightarrow>
   b64_decode_loop outlen accum char_count byte_count out cs = (result, cc, out') \<Longrightarrow>
   length out' \<le> outlen \<or> length out' = Suc outlen \<and> 3 dvd outlen"
proof (induction cs arbitrary: accum char_count byte_count out)
  case Nil
  then show ?case using b64_inv_out by auto
next
  case (Cons c cs)
  let ?bc = "if c = CHR ''='' then byte_count - 1 else byte_count"
  let ?bits = "if c = CHR ''='' then Some (0 :: u32) else map_option (\<lambda>i. of_nat i AND 0x3F) (strchr base64_lookup c)"
  show ?case
  proof (cases "(c = CHR ''='' \<and> byte_count - 1 < 0) \<or> (c \<noteq> CHR ''='' \<and> byte_count \<noteq> 3) \<or> ?bits = None")
    case True
    then have "out' = out" using Cons.prems(2) by (auto split: if_splits)
    then show ?thesis using b64_inv_out [OF Cons.prems(1)] by simp
  next
    case ok: False
    then obtain bits where bits: "?bits = Some bits" by blast
    let ?acc = "push_bit 6 accum OR bits"
    let ?out = "out @ ucast (drop_bit 16 ?acc AND 0xFF) #
        (if 1 < ?bc then [ucast (drop_bit 8 ?acc AND 0xFF)] else []) @
        (if 2 < ?bc then [ucast (?acc AND 0xFF)] else [])"
    have step: "b64_decode_loop outlen accum char_count byte_count out (c # cs) =
        (if Suc char_count = 4 then
           if int (length out) + ?bc > int outlen then (False, Suc char_count, out)
           else b64_decode_loop outlen 0 0 ?bc ?out cs
         else b64_decode_loop outlen ?acc (Suc char_count) ?bc out cs)"
      using ok bits by (auto simp: Let_def)
    consider "Suc char_count \<noteq> 4" | "Suc char_count = 4" "int (length out) + ?bc > int outlen"
      | "Suc char_count = 4" "int (length out) + ?bc \<le> int outlen" by linarith
    then show ?thesis
    proof cases
      case 1
      then have "b64_inv outlen (Suc char_count) ?bc out"
        using ok Cons.prems(1) by (auto simp: b64_inv_def split: if_splits)
      then show ?thesis using Cons.IH Cons.prems(2) 1 unfolding step by simp
    next
      case 2
      then have "out' = out" using Cons.prems(2) unfolding step by simp
      then show ?thesis using b64_inv_out [OF Cons.prems(1)] by simp
    next
      case 3
      then have inv: "3 dvd length out" "length out \<le> outlen" "0 \<le> ?bc" "?bc \<le> 3"
        using ok Cons.prems(1) by (auto simp: b64_inv_def split: if_splits)
      then consider "?bc = 3" | "?bc = 2" | "?bc = 1" | "?bc = 0" by linarith
      then have "b64_inv outlen 0 ?bc ?out"
      proof cases
        case 1
        have "3 dvd Suc (Suc (Suc (length out)))" using inv(1) by presburger
        with 1 inv 3 show ?thesis by (simp add: b64_inv_def)
      next
        case 4
        then have "length out = outlen \<or> length out < outlen" using inv(2) by linarith
        with 4 inv 3 show ?thesis by (auto simp: b64_inv_def)
      qed (use inv 3 in \<open>auto simp: b64_inv_def\<close>)
      then show ?thesis using Cons.IH Cons.prems(2) 3 unfolding step by simp
    qed
  qed
qed

lemma decode_encode:
  assumes "4 * ((length xs + 2) div 3) < n" and "length xs \<le> m"
  shows "\<exists>str. wireguard_base64_encode xs n = Some str \<and>
    wireguard_base64_decode (Some str) m = (True, xs)"
proof -
  have "list_all (\<lambda>c. c \<noteq> CHR 0x00) (b64_text xs)"
    by (induction xs rule: b64_text.induct) (simp_all add: Let_def b64_char_props)
  then have "takeWhile (\<lambda>c. c \<noteq> CHR 0x00) (b64_text xs @ [CHR 0x00]) = b64_text xs"
    by (subst takeWhile_append2) (simp_all add: list_all_iff)
  then have "take (strlen (b64_text xs @ [CHR 0x00])) (b64_text xs @ [CHR 0x00]) = b64_text xs"
    by (simp add: strlen_def)
  then show ?thesis
    using assms decode_text [of "[]" xs m]
    by (simp add: encode_text b64_len_def wireguard_base64_decode_def)
qed

subsection \<open>Properties\<close>

text \<open>
  Base64 round trip: whatever the bytes, encoding them into a large enough buffer and
  decoding the string into a buffer with room for them succeeds and gives them back.
\<close>

theorem base64_roundtrip:
  assumes "4 * ((length xs + 2) div 3) < n" and "length xs \<le> m"
  shows "\<exists>str. wireguard_base64_encode xs n = Some str \<and>
    wireguard_base64_decode (Some str) m = (True, xs)"
  using assms by (rule decode_encode)

theorem base64_roundtrip_witness:
  "\<exists>str. wireguard_base64_encode [1, 2, 250, 9] 9 = Some str \<and>
    wireguard_base64_decode (Some str) 4 = (True, [1, 2, 250, 9])"
  by (rule base64_roundtrip) simp_all

text \<open>
  What the decoder writes stays inside the output buffer, whatever the string, unless
  the buffer length is a multiple of three: then a block of one character and three
  padding characters is not checked against the room and writes one byte too many. The
  buffers of 32 bytes that hold keys are safe.
\<close>

theorem base64_decode_bound:
  "length (snd (wireguard_base64_decode str outlen)) \<le> (if outlen mod 3 = 0 then outlen + 1 else outlen) \<and>
   snd (wireguard_base64_decode (Some ''AAAAA==='') 3) = [0, 0, 0, 0]"
proof
  have "b64_inv outlen 0 3 []" by (simp add: b64_inv_def)
  note w = decode_written [OF this, where accum = 0]
  show "length (snd (wireguard_base64_decode str outlen)) \<le> (if outlen mod 3 = 0 then outlen + 1 else outlen)"
  proof (cases str)
    case None
    then show ?thesis by (simp add: wireguard_base64_decode_def)
  next
    case (Some s)
    obtain r cc out where d: "b64_decode_loop outlen 0 0 3 [] (take (strlen s) s) = (r, cc, out)"
      by (cases "b64_decode_loop outlen 0 0 3 [] (take (strlen s) s)")
    then have "snd (wireguard_base64_decode str outlen) = out"
      by (simp add: wireguard_base64_decode_def Some)
    with w [OF d] show ?thesis by (auto simp: dvd_eq_mod_eq_0)
  qed
  show "snd (wireguard_base64_decode (Some ''AAAAA==='') 3) = [0, 0, 0, 0]"
    by code_simp
qed

end
