(* ===== verification/Wg_Types.thy ===== *)
theory Wg_Types
  imports Crypto_Util
begin

text \<open>
  The data of \<open>wireguard.h\<close>: key pair, handshake, peer and device, and the four wire
  messages with their packed little-endian layout. A pointer to a peer is its index in
  the peers array of the device. Arrays of bytes are lists of the declared length; an
  address of the IP stack is opaque. The lemmas show that the layouts have the sizes the
  length checks use, and that reading a message back gives what was written.
\<close>

subsection \<open>Constants\<close>

definition WIREGUARD_TAI64N_LEN :: nat where "WIREGUARD_TAI64N_LEN = 12"
definition WIREGUARD_AUTHTAG_LEN :: nat where "WIREGUARD_AUTHTAG_LEN = 16"
definition WIREGUARD_HASH_LEN :: nat where "WIREGUARD_HASH_LEN = 32"
definition WIREGUARD_PUBLIC_KEY_LEN :: nat where "WIREGUARD_PUBLIC_KEY_LEN = 32"
definition WIREGUARD_PRIVATE_KEY_LEN :: nat where "WIREGUARD_PRIVATE_KEY_LEN = 32"
definition WIREGUARD_SESSION_KEY_LEN :: nat where "WIREGUARD_SESSION_KEY_LEN = 32"
definition WIREGUARD_COOKIE_LEN :: nat where "WIREGUARD_COOKIE_LEN = 16"
definition COOKIE_SECRET_MAX_AGE :: u32 where "COOKIE_SECRET_MAX_AGE = 2 * 60"
definition COOKIE_NONCE_LEN :: nat where "COOKIE_NONCE_LEN = 24"
definition REKEY_AFTER_MESSAGES :: u64 where "REKEY_AFTER_MESSAGES = push_bit 60 1"
definition REJECT_AFTER_MESSAGES :: u64 where "REJECT_AFTER_MESSAGES = 0xFFFFFFFFFFFFFFFF - push_bit 13 1"
definition REKEY_AFTER_TIME :: int where "REKEY_AFTER_TIME = 120"
definition REJECT_AFTER_TIME :: int where "REJECT_AFTER_TIME = 180"
definition REKEY_TIMEOUT :: int where "REKEY_TIMEOUT = 5"
definition KEEPALIVE_TIMEOUT :: int where "KEEPALIVE_TIMEOUT = 10"
definition WIREGUARD_MAX_PEERS :: nat where "WIREGUARD_MAX_PEERS = 1"
definition WIREGUARD_MAX_SRC_IPS :: nat where "WIREGUARD_MAX_SRC_IPS = 2"
definition MAX_INITIATIONS_PER_SECOND :: nat where "MAX_INITIATIONS_PER_SECOND = 2"

lemmas wg_lengths =
  WIREGUARD_TAI64N_LEN_def WIREGUARD_AUTHTAG_LEN_def WIREGUARD_HASH_LEN_def
  WIREGUARD_PUBLIC_KEY_LEN_def WIREGUARD_PRIVATE_KEY_LEN_def WIREGUARD_SESSION_KEY_LEN_def
  WIREGUARD_COOKIE_LEN_def COOKIE_NONCE_LEN_def

definition zeros :: "nat \<Rightarrow> bytes" where
  "zeros n = replicate n 0"

lemma length_zeros [simp, length_simps]: "length (zeros n) = n"
  by (simp add: zeros_def)

subsection \<open>State\<close>

record wireguard_keypair =
  kp_valid :: bool
  kp_initiator :: bool
  kp_keypair_millis :: u32
  kp_sending_key :: bytes
  kp_sending_valid :: bool
  kp_sending_counter :: u64
  kp_receiving_key :: bytes
  kp_receiving_valid :: bool
  kp_last_tx :: u32
  kp_last_rx :: u32
  kp_replay_bitmap :: u32
  kp_replay_counter :: u64
  kp_local_index :: u32
  kp_remote_index :: u32

record wireguard_handshake =
  hs_valid :: bool
  hs_initiator :: bool
  hs_local_index :: u32
  hs_remote_index :: u32
  hs_ephemeral_private :: bytes
  hs_remote_ephemeral :: bytes
  hs_hash :: bytes
  hs_chaining_key :: bytes

text \<open>The object representation of an \<open>ip_addr_t\<close> of the IP stack.\<close>

type_synonym ip_addr_t = bytes

record wireguard_allowed_ip =
  ai_valid :: bool
  ai_ip :: ip_addr_t
  ai_mask :: ip_addr_t

record wireguard_peer =
  pr_valid :: bool
  pr_active :: bool
  pr_connect_ip :: ip_addr_t
  pr_connect_port :: u16
  pr_ip :: ip_addr_t
  pr_port :: u16
  pr_keepalive_interval :: u16
  pr_allowed_source_ips :: "wireguard_allowed_ip list"
  pr_public_key :: bytes
  pr_preshared_key :: bytes
  pr_public_key_dh :: bytes
  pr_curr_keypair :: wireguard_keypair
  pr_prev_keypair :: wireguard_keypair
  pr_next_keypair :: wireguard_keypair
  pr_greatest_timestamp :: bytes
  pr_handshake :: wireguard_handshake
  pr_cookie_millis :: u32
  pr_cookie :: bytes
  pr_handshake_mac1_valid :: bool
  pr_handshake_mac1 :: bytes
  pr_label_cookie_key :: bytes
  pr_label_mac1_key :: bytes
  pr_last_initiation_rx :: u32
  pr_last_initiation_tx :: u32
  pr_last_tx :: u32
  pr_last_rx :: u32
  pr_rx_bytes :: u64
  pr_tx_bytes :: u64
  pr_send_handshake :: bool

text \<open>
  The three pointers \<open>netif\<close>, \<open>udp_pcb\<close> and \<open>underlying_netif\<close> belong to the IP stack
  and are not part of the model.
\<close>

record wireguard_device =
  dv_public_key :: bytes
  dv_private_key :: bytes
  dv_cookie_secret :: bytes
  dv_cookie_secret_millis :: u32
  dv_label_cookie_key :: bytes
  dv_label_mac1_key :: bytes
  dv_peers :: "wireguard_peer list"
  dv_valid :: bool

text \<open>Objects all of whose bytes are zero.\<close>

definition zero_keypair :: wireguard_keypair where
  "zero_keypair = \<lparr>kp_valid = False, kp_initiator = False, kp_keypair_millis = 0,
     kp_sending_key = zeros 32, kp_sending_valid = False, kp_sending_counter = 0,
     kp_receiving_key = zeros 32, kp_receiving_valid = False, kp_last_tx = 0, kp_last_rx = 0,
     kp_replay_bitmap = 0, kp_replay_counter = 0, kp_local_index = 0, kp_remote_index = 0\<rparr>"

definition zero_handshake :: wireguard_handshake where
  "zero_handshake = \<lparr>hs_valid = False, hs_initiator = False, hs_local_index = 0,
     hs_remote_index = 0, hs_ephemeral_private = zeros 32, hs_remote_ephemeral = zeros 32,
     hs_hash = zeros 32, hs_chaining_key = zeros 32\<rparr>"

text \<open>\<open>ip0\<close> is the zeroed address object, whose size the IP stack fixes.\<close>

definition zero_peer :: "ip_addr_t \<Rightarrow> wireguard_peer" where
  "zero_peer ip0 = \<lparr>pr_valid = False, pr_active = False, pr_connect_ip = ip0, pr_connect_port = 0,
     pr_ip = ip0, pr_port = 0, pr_keepalive_interval = 0,
     pr_allowed_source_ips =
       replicate WIREGUARD_MAX_SRC_IPS \<lparr>ai_valid = False, ai_ip = ip0, ai_mask = ip0\<rparr>,
     pr_public_key = zeros 32, pr_preshared_key = zeros 32, pr_public_key_dh = zeros 32,
     pr_curr_keypair = zero_keypair, pr_prev_keypair = zero_keypair,
     pr_next_keypair = zero_keypair, pr_greatest_timestamp = zeros 12,
     pr_handshake = zero_handshake, pr_cookie_millis = 0, pr_cookie = zeros 16,
     pr_handshake_mac1_valid = False, pr_handshake_mac1 = zeros 16,
     pr_label_cookie_key = zeros 32, pr_label_mac1_key = zeros 32, pr_last_initiation_rx = 0,
     pr_last_initiation_tx = 0, pr_last_tx = 0, pr_last_rx = 0, pr_rx_bytes = 0, pr_tx_bytes = 0,
     pr_send_handshake = False\<rparr>"

definition zero_device :: "ip_addr_t \<Rightarrow> wireguard_device" where
  "zero_device ip0 = \<lparr>dv_public_key = zeros 32, dv_private_key = zeros 32,
     dv_cookie_secret = zeros 32, dv_cookie_secret_millis = 0, dv_label_cookie_key = zeros 32,
     dv_label_mac1_key = zeros 32, dv_peers = replicate WIREGUARD_MAX_PEERS (zero_peer ip0),
     dv_valid = False\<rparr>"

text \<open>Reading and writing the peer a pointer designates.\<close>

abbreviation peer_at :: "wireguard_device \<Rightarrow> nat \<Rightarrow> wireguard_peer" where
  "peer_at dev i \<equiv> dv_peers dev ! i"

definition set_peer :: "wireguard_device \<Rightarrow> nat \<Rightarrow> wireguard_peer \<Rightarrow> wireguard_device" where
  "set_peer dev i p = dev\<lparr>dv_peers := (dv_peers dev)[i := p]\<rparr>"

lemma set_peer_frame [simp, frame_simps]:
  "dv_public_key (set_peer dev i p) = dv_public_key dev"
  "dv_private_key (set_peer dev i p) = dv_private_key dev"
  "dv_cookie_secret (set_peer dev i p) = dv_cookie_secret dev"
  "dv_cookie_secret_millis (set_peer dev i p) = dv_cookie_secret_millis dev"
  "dv_label_cookie_key (set_peer dev i p) = dv_label_cookie_key dev"
  "dv_label_mac1_key (set_peer dev i p) = dv_label_mac1_key dev"
  "dv_valid (set_peer dev i p) = dv_valid dev"
  "length (dv_peers (set_peer dev i p)) = length (dv_peers dev)"
  by (simp_all add: set_peer_def)

lemma peer_at_set_peer [simp]: "i < length (dv_peers dev) \<Longrightarrow> peer_at (set_peer dev i p) i = p"
  by (simp add: set_peer_def)

lemma peer_at_set_peer_other [simp]: "i \<noteq> j \<Longrightarrow> peer_at (set_peer dev i p) j = peer_at dev j"
  by (simp add: set_peer_def)

lemma set_peer_twice [simp]: "set_peer (set_peer dev i p) i q = set_peer dev i q"
  by (simp add: set_peer_def)

subsection \<open>Messages\<close>

definition MESSAGE_INVALID :: u8 where "MESSAGE_INVALID = 0"
definition MESSAGE_HANDSHAKE_INITIATION :: u8 where "MESSAGE_HANDSHAKE_INITIATION = 1"
definition MESSAGE_HANDSHAKE_RESPONSE :: u8 where "MESSAGE_HANDSHAKE_RESPONSE = 2"
definition MESSAGE_COOKIE_REPLY :: u8 where "MESSAGE_COOKIE_REPLY = 3"
definition MESSAGE_TRANSPORT_DATA :: u8 where "MESSAGE_TRANSPORT_DATA = 4"

lemmas message_types = MESSAGE_INVALID_def MESSAGE_HANDSHAKE_INITIATION_def
  MESSAGE_HANDSHAKE_RESPONSE_def MESSAGE_COOKIE_REPLY_def MESSAGE_TRANSPORT_DATA_def

record message_handshake_initiation =
  mi_type :: u8
  mi_reserved :: bytes
  mi_sender :: u32
  mi_ephemeral :: bytes
  mi_enc_static :: bytes
  mi_enc_timestamp :: bytes
  mi_mac1 :: bytes
  mi_mac2 :: bytes

record message_handshake_response =
  mr_type :: u8
  mr_reserved :: bytes
  mr_sender :: u32
  mr_receiver :: u32
  mr_ephemeral :: bytes
  mr_enc_empty :: bytes
  mr_mac1 :: bytes
  mr_mac2 :: bytes

record message_cookie_reply =
  mc_type :: u8
  mc_reserved :: bytes
  mc_receiver :: u32
  mc_nonce :: bytes
  mc_enc_cookie :: bytes

record message_transport_data =
  mt_type :: u8
  mt_reserved :: bytes
  mt_receiver :: u32
  mt_counter :: bytes
  mt_enc_packet :: bytes

text \<open>
  The structs are packed and the ESP32 is little-endian, so a message in memory is the
  concatenation of its fields. \<open>initiation_bytes\<close> and the like are the bytes a struct
  occupies, \<open>initiation_of\<close> and the like the struct that a cast of a buffer sees.
\<close>

definition initiation_bytes :: "message_handshake_initiation \<Rightarrow> bytes" where
  "initiation_bytes m = [mi_type m] @ mi_reserved m @ U32TO8_LITTLE (mi_sender m) @ mi_ephemeral m @
     mi_enc_static m @ mi_enc_timestamp m @ mi_mac1 m @ mi_mac2 m"

definition response_bytes :: "message_handshake_response \<Rightarrow> bytes" where
  "response_bytes m = [mr_type m] @ mr_reserved m @ U32TO8_LITTLE (mr_sender m) @
     U32TO8_LITTLE (mr_receiver m) @ mr_ephemeral m @ mr_enc_empty m @ mr_mac1 m @ mr_mac2 m"

definition cookie_reply_bytes :: "message_cookie_reply \<Rightarrow> bytes" where
  "cookie_reply_bytes m = [mc_type m] @ mc_reserved m @ U32TO8_LITTLE (mc_receiver m) @ mc_nonce m @
     mc_enc_cookie m"

definition transport_bytes :: "message_transport_data \<Rightarrow> bytes" where
  "transport_bytes m = [mt_type m] @ mt_reserved m @ U32TO8_LITTLE (mt_receiver m) @ mt_counter m @
     mt_enc_packet m"

definition slice :: "nat \<Rightarrow> nat \<Rightarrow> bytes \<Rightarrow> bytes" where
  "slice off len xs = take len (drop off xs)"

definition initiation_of :: "bytes \<Rightarrow> message_handshake_initiation" where
  "initiation_of d = \<lparr>mi_type = d ! 0, mi_reserved = slice 1 3 d, mi_sender = U8TO32_LITTLE (drop 4 d),
     mi_ephemeral = slice 8 32 d, mi_enc_static = slice 40 48 d, mi_enc_timestamp = slice 88 28 d,
     mi_mac1 = slice 116 16 d, mi_mac2 = slice 132 16 d\<rparr>"

definition response_of :: "bytes \<Rightarrow> message_handshake_response" where
  "response_of d = \<lparr>mr_type = d ! 0, mr_reserved = slice 1 3 d, mr_sender = U8TO32_LITTLE (drop 4 d),
     mr_receiver = U8TO32_LITTLE (drop 8 d), mr_ephemeral = slice 12 32 d, mr_enc_empty = slice 44 16 d,
     mr_mac1 = slice 60 16 d, mr_mac2 = slice 76 16 d\<rparr>"

definition cookie_reply_of :: "bytes \<Rightarrow> message_cookie_reply" where
  "cookie_reply_of d = \<lparr>mc_type = d ! 0, mc_reserved = slice 1 3 d, mc_receiver = U8TO32_LITTLE (drop 4 d),
     mc_nonce = slice 8 24 d, mc_enc_cookie = slice 32 32 d\<rparr>"

definition transport_of :: "bytes \<Rightarrow> message_transport_data" where
  "transport_of d = \<lparr>mt_type = d ! 0, mt_reserved = slice 1 3 d, mt_receiver = U8TO32_LITTLE (drop 4 d),
     mt_counter = slice 8 8 d, mt_enc_packet = drop 16 d\<rparr>"

text \<open>\<open>sizeof\<close> of the structs.\<close>

definition sizeof_initiation :: nat where "sizeof_initiation = 148"
definition sizeof_response :: nat where "sizeof_response = 92"
definition sizeof_cookie_reply :: nat where "sizeof_cookie_reply = 64"
definition sizeof_transport :: nat where "sizeof_transport = 16"

lemmas sizeofs = sizeof_initiation_def sizeof_response_def sizeof_cookie_reply_def sizeof_transport_def

definition initiation_wf :: "message_handshake_initiation \<Rightarrow> bool" where
  "initiation_wf m \<longleftrightarrow> length (mi_reserved m) = 3 \<and> length (mi_ephemeral m) = 32 \<and>
     length (mi_enc_static m) = 48 \<and> length (mi_enc_timestamp m) = 28 \<and> length (mi_mac1 m) = 16 \<and>
     length (mi_mac2 m) = 16"

definition response_wf :: "message_handshake_response \<Rightarrow> bool" where
  "response_wf m \<longleftrightarrow> length (mr_reserved m) = 3 \<and> length (mr_ephemeral m) = 32 \<and>
     length (mr_enc_empty m) = 16 \<and> length (mr_mac1 m) = 16 \<and> length (mr_mac2 m) = 16"

definition cookie_reply_wf :: "message_cookie_reply \<Rightarrow> bool" where
  "cookie_reply_wf m \<longleftrightarrow> length (mc_reserved m) = 3 \<and> length (mc_nonce m) = 24 \<and>
     length (mc_enc_cookie m) = 32"

definition transport_wf :: "message_transport_data \<Rightarrow> bool" where
  "transport_wf m \<longleftrightarrow> length (mt_reserved m) = 3 \<and> length (mt_counter m) = 8"

lemma length_initiation_bytes [length_simps]: "initiation_wf m \<Longrightarrow> length (initiation_bytes m) = sizeof_initiation"
  by (simp add: initiation_wf_def initiation_bytes_def sizeofs)

lemma length_response_bytes [length_simps]: "response_wf m \<Longrightarrow> length (response_bytes m) = sizeof_response"
  by (simp add: response_wf_def response_bytes_def sizeofs)

lemma length_cookie_reply_bytes [length_simps]:
  "cookie_reply_wf m \<Longrightarrow> length (cookie_reply_bytes m) = sizeof_cookie_reply"
  by (simp add: cookie_reply_wf_def cookie_reply_bytes_def sizeofs)

lemma length_transport_bytes [length_simps]:
  "transport_wf m \<Longrightarrow> length (transport_bytes m) = sizeof_transport + length (mt_enc_packet m)"
  by (simp add: transport_wf_def transport_bytes_def sizeofs)

lemma initiation_of_bytes: "initiation_wf m \<Longrightarrow> initiation_of (initiation_bytes m) = m"
  by (cases m) (simp add: initiation_wf_def initiation_bytes_def initiation_of_def slice_def
      U8TO32_LITTLE_of_U32TO8)

lemma response_of_bytes: "response_wf m \<Longrightarrow> response_of (response_bytes m) = m"
  by (cases m) (simp add: response_wf_def response_bytes_def response_of_def slice_def
      U8TO32_LITTLE_of_U32TO8)

lemma cookie_reply_of_bytes: "cookie_reply_wf m \<Longrightarrow> cookie_reply_of (cookie_reply_bytes m) = m"
  by (cases m) (simp add: cookie_reply_wf_def cookie_reply_bytes_def cookie_reply_of_def slice_def
      U8TO32_LITTLE_of_U32TO8)

lemma transport_of_bytes: "transport_wf m \<Longrightarrow> transport_of (transport_bytes m) = m"
  by (cases m) (simp add: transport_wf_def transport_bytes_def transport_of_def slice_def
      U8TO32_LITTLE_of_U32TO8)

end
