(* ===== verification/Wg_Platform.thy ===== *)
theory Wg_Platform
  imports Wg_Types
begin

text \<open>
  \<open>wireguard-platform.c\<close> and the world a handler runs in. The clock of the IP stack, the
  time of day, the random generator, the success of an allocation and of a send are not
  under the control of the program: they are fields of \<open>world\<close>, arbitrary streams of which
  the handlers take the next value. What the program does to the outside is the list of
  events. The clock does not move during one handler.
\<close>

subsection \<open>The world\<close>

datatype err_t = ERR_OK | ERR_MEM | ERR_ARG | ERR_CONN | ERR_RTE | ERR_LWIP int

datatype event =
    Udp_sent ip_addr_t u16 bytes
  | Ip_input bytes
  | Link_up
  | Link_down
  | Timer_set
  | Timer_cleared
  | Udp_bound u16
  | Udp_removed

record world =
  w_now :: u32
  w_tv_sec :: nat
  w_tv_usec :: nat
  w_entropy :: "nat \<Rightarrow> u8"
  w_drawn :: nat
  w_alloc :: "nat \<Rightarrow> bool"
  w_allocs :: nat
  w_send :: "nat \<Rightarrow> err_t"
  w_sends :: nat
  w_take :: "nat \<Rightarrow> err_t"
  w_takes :: nat
  w_bind :: err_t
  w_events :: "event list"

definition emit :: "event \<Rightarrow> world \<Rightarrow> world" where
  "emit e w = w\<lparr>w_events := w_events w @ [e]\<rparr>"

text \<open>The allocator of the IP stack answers the next of its answers.\<close>

definition take_alloc :: "world \<Rightarrow> bool \<times> world" where
  "take_alloc w = (w_alloc w (w_allocs w), w\<lparr>w_allocs := Suc (w_allocs w)\<rparr>)"

text \<open>\<open>pbuf_take\<close>: the copy of a message into a fresh buffer.\<close>

definition pbuf_take :: "world \<Rightarrow> err_t \<times> world" where
  "pbuf_take w = (w_take w (w_takes w), w\<lparr>w_takes := Suc (w_takes w)\<rparr>)"

text \<open>\<open>udp_sendto_if\<close>: the datagram is sent when the answer is \<open>ERR_OK\<close>.\<close>

definition udp_sendto :: "world \<Rightarrow> ip_addr_t \<Rightarrow> u16 \<Rightarrow> bytes \<Rightarrow> err_t \<times> world" where
  "udp_sendto w ip port data =
     (let r = w_send w (w_sends w);
          w = w\<lparr>w_sends := Suc (w_sends w)\<rparr>
      in (r, if r = ERR_OK then emit (Udp_sent ip port data) w else w))"

subsection \<open>The code\<close>

definition wireguard_random_bytes :: "nat \<Rightarrow> world \<Rightarrow> bytes \<times> world" where
  "wireguard_random_bytes n w =
     (map (\<lambda>i. w_entropy w (w_drawn w + i)) [0..<n], w\<lparr>w_drawn := w_drawn w + n\<rparr>)"

definition wireguard_sys_now :: "world \<Rightarrow> u32" where
  "wireguard_sys_now w = w_now w"

text \<open>The time of day in milliseconds, in 64 bits; \<open>tv_usec\<close> is below a million.\<close>

definition tai64n_millis :: "world \<Rightarrow> u64" where
  "tai64n_millis w = of_nat (w_tv_sec w * 1000 + w_tv_usec w div 1000)"

definition wireguard_tai64n_now :: "world \<Rightarrow> bytes" where
  "wireguard_tai64n_now w =
     (let millis = tai64n_millis w;
          seconds = 0x400000000000000a + millis div 1000 :: u64;
          nanos = ucast ((millis mod 1000) * 1000) :: u32
      in U64TO8_BIG seconds @ U32TO8_BIG nanos)"

definition wireguard_is_under_load :: bool where
  "wireguard_is_under_load = False"

subsection \<open>Library functions\<close>

text \<open>\<open>memcmp\<close> of the C library: the sign of the first difference.\<close>

fun memcmp :: "bytes \<Rightarrow> bytes \<Rightarrow> nat \<Rightarrow> int" where
  "memcmp a b 0 = 0"
| "memcmp a b (Suc n) =
     (if hd a = hd b then memcmp (tl a) (tl b) n else if hd a < hd b then - 1 else 1)"

lemma memcmp_eq_0: "n \<le> length a \<Longrightarrow> n \<le> length b \<Longrightarrow> memcmp a b n = 0 \<longleftrightarrow> take n a = take n b"
proof (induction a b n rule: memcmp.induct)
  case (2 a b n)
  then obtain x xs y ys where "a = x # xs" "b = y # ys" by (cases a; cases b) auto
  with 2 show ?case by auto
qed simp

text \<open>Big-endian values: \<open>memcmp\<close> of equally long strings compares them as numbers.\<close>

definition be_val :: "bytes \<Rightarrow> nat" where
  "be_val xs = le_val (rev xs)"

lemma be_val_Cons: "be_val (x # xs) = be_val xs + 256 ^ length xs * unat x"
  by (simp add: be_val_def le_val_append)

lemma be_val_less: "be_val xs < 256 ^ length xs"
  using le_val_bound [of "rev xs"] by (simp add: be_val_def)

lemma memcmp_be:
  "length a = n \<Longrightarrow> length b = n \<Longrightarrow>
   (memcmp a b n < 0 \<longleftrightarrow> be_val a < be_val b) \<and> (0 < memcmp a b n \<longleftrightarrow> be_val b < be_val a)"
proof (induction a b n rule: memcmp.induct)
  case (2 a b n)
  then obtain x xs y ys where ab: "a = x # xs" "b = y # ys" "length xs = n" "length ys = n"
    by (cases a; cases b) auto
  have lt: "be_val us < be_val vs"
    if "us = u # us'" "vs = v # vs'" "length us' = n" "length vs' = n" "unat u < unat v"
    for us vs us' vs' and u v :: u8
  proof -
    have "be_val us < 256 ^ n * (unat u + 1)" using that be_val_less [of us'] by (simp add: be_val_Cons)
    also have "\<dots> \<le> 256 ^ n * unat v" using that by (intro mult_le_mono2) simp
    also have "\<dots> \<le> be_val vs" using that by (simp add: be_val_Cons)
    finally show ?thesis .
  qed
  consider "x = y" | "unat x < unat y" | "unat y < unat x"
    by (metis linorder_neqE_nat word_unat_eq_iff)
  then show ?case
  proof cases
    case 1
    with 2 ab show ?thesis by (simp add: be_val_Cons)
  next
    case 2
    with lt [OF ab(1,2)] ab show ?thesis by (auto simp: word_less_nat_alt)
  next
    case 3
    with lt [OF ab(2,1)] ab show ?thesis by (auto simp: word_less_nat_alt)
  qed
qed (auto simp: be_val_def)

subsection \<open>Timestamps\<close>

lemma length_tai64n [simp, length_simps]: "length (wireguard_tai64n_now w) = 12"
  by (simp add: wireguard_tai64n_now_def Let_def)

lemma le_val_rev_BIG:
  "be_val (U64TO8_BIG x) = unat x" "be_val (U32TO8_BIG y) = unat y"
  by (simp_all add: be_val_def U64TO8_BIG_eq U32TO8_BIG_eq U64TO8_LITTLE_le_bytes U32TO8_LITTLE_le_bytes
      le_val_le_bytes)

lemma be_val_append: "be_val (xs @ ys) = be_val ys + 256 ^ length ys * be_val xs"
  by (simp add: be_val_def le_val_append)

text \<open>Until the clock passes 2^61 milliseconds the arithmetic does not wrap.\<close>

definition clock_ok :: "world \<Rightarrow> bool" where
  "clock_ok w \<longleftrightarrow> w_tv_sec w < 2 ^ 50 \<and> w_tv_usec w < 1000000"

lemma tai64n_value:
  assumes "clock_ok w"
  defines "n \<equiv> w_tv_sec w * 1000 + w_tv_usec w div 1000"
  shows "be_val (wireguard_tai64n_now w) = n mod 1000 * 1000 + 2 ^ 32 * (0x400000000000000a + n div 1000)"
    and "unat (tai64n_millis w) = n"
proof -
  have usec: "w_tv_usec w div 1000 < 1000" using assms(1) by (simp add: clock_ok_def less_mult_imp_div_less)
  have n: "n < 2 ^ 61" using assms(1) usec by (simp add: clock_ok_def n_def)
  show millis: "unat (tai64n_millis w) = n"
    using n unfolding tai64n_millis_def n_def [symmetric] by (simp add: unat_of_nat)
  have "unat (0x400000000000000a + tai64n_millis w div 1000) = 0x400000000000000a + n div 1000"
    using n by (simp add: unat_add unat_div_distrib millis)
  moreover have "n mod 1000 * 1000 < 2 ^ 32"
    using mod_less_divisor [of 1000 n] by simp
  then have "unat (ucast ((tai64n_millis w mod 1000) * 1000) :: u32) = n mod 1000 * 1000"
    by (simp add: unat_ucast_mod unat_mult unat_mod_distrib millis)
  ultimately show "be_val (wireguard_tai64n_now w) = n mod 1000 * 1000 + 2 ^ 32 * (0x400000000000000a + n div 1000)"
    by (simp add: wireguard_tai64n_now_def Let_def be_val_append le_val_rev_BIG)
qed

lemma tai64n_mono:
  fixes n m :: nat
  shows "n mod 1000 * 1000 + 2 ^ 32 * (c + n div 1000) < m mod 1000 * 1000 + 2 ^ 32 * (c + m div 1000) \<longleftrightarrow> n < m"
proof -
  have less: "x mod 1000 * 1000 + 2 ^ 32 * (c + x div 1000) < y mod 1000 * 1000 + 2 ^ 32 * (c + y div 1000)"
    if "x < y" for x y :: nat
  proof (cases "x div 1000 = y div 1000")
    case True
    then have "x mod 1000 < y mod 1000" using that
      by (metis mod_mult_div_eq nat_add_left_cancel_less add.commute)
    with True show ?thesis by simp
  next
    case False
    then have "x div 1000 + 1 \<le> y div 1000" using that div_le_mono [of x y 1000] by linarith
    then have "2 ^ 32 * (c + x div 1000) + 2 ^ 32 \<le> 2 ^ 32 * (c + y div 1000)" by simp
    moreover have "x mod 1000 < 1000" by simp
    ultimately show ?thesis by simp
  qed
  show ?thesis
    using less [of n m] less [of m n] by (cases n m rule: linorder_cases) auto
qed

text \<open>
  Timestamps order as time does: \<open>memcmp\<close> on two TAI64N stamps, which the responder uses
  against replayed initiations, compares the times of day they were made at in
  milliseconds. So an initiation made at least a millisecond later passes the check and
  one made in the same millisecond does not.
\<close>

theorem tai64n_order:
  assumes "w_tv_sec w < 2 ^ 50" "w_tv_usec w < 1000000" "w_tv_sec v < 2 ^ 50" "w_tv_usec v < 1000000"
  shows "(memcmp (wireguard_tai64n_now w) (wireguard_tai64n_now v) WIREGUARD_TAI64N_LEN \<le> 0) =
    (w_tv_sec w * 1000 + w_tv_usec w div 1000 \<le> w_tv_sec v * 1000 + w_tv_usec v div 1000)"
proof -
  have ok: "clock_ok w" "clock_ok v" using assms by (simp_all add: clock_ok_def)
  have "0 < memcmp (wireguard_tai64n_now w) (wireguard_tai64n_now v) 12 \<longleftrightarrow>
      be_val (wireguard_tai64n_now v) < be_val (wireguard_tai64n_now w)"
    using memcmp_be [of "wireguard_tai64n_now w" 12 "wireguard_tai64n_now v"] by simp
  then show ?thesis
    unfolding tai64n_value(1) [OF ok(1)] tai64n_value(1) [OF ok(2)] tai64n_mono
    by (auto simp: WIREGUARD_TAI64N_LEN_def not_less [symmetric])
qed

definition quiet_world :: world where
  "quiet_world = \<lparr>w_now = 5000, w_tv_sec = 1700000000, w_tv_usec = 250000, w_entropy = (\<lambda>n. word_of_nat (7 * n + 1)),
     w_drawn = 0, w_alloc = (\<lambda>n. True), w_allocs = 0, w_send = (\<lambda>n. ERR_OK), w_sends = 0,
     w_take = (\<lambda>n. ERR_OK), w_takes = 0, w_bind = ERR_OK, w_events = []\<rparr>"

theorem tai64n_order_witness:
  "\<not> memcmp (wireguard_tai64n_now (quiet_world\<lparr>w_tv_usec := 251000\<rparr>)) (wireguard_tai64n_now quiet_world)
     WIREGUARD_TAI64N_LEN \<le> 0"
  by (subst tai64n_order) (simp_all add: quiet_world_def)

end
