(* ===== verification/Wg_Kdf.thy ===== *)
theory Wg_Kdf
  imports Blake2s Wg_Types
begin

text \<open>
  The hash layer of \<open>wireguard.c\<close>: the precomputed hashes, MAC, mixed hash, HMAC over
  BLAKE2s and the three key derivations. The specification is HMAC of RFC 2104 and the
  derivation of RFC 5869 over \<open>blake2s_spec\<close>; the lemmas show the code computes it, also
  where its output buffer is its own input.
\<close>

unbundle bit_operations_syntax

subsection \<open>The code\<close>

text \<open>
  The local \<open>blake2s_ctx\<close> before its initialisation: \<open>blake2s_streaming\<close> shows that
  nothing depends on what it holds.
\<close>

definition blake2s_local :: blake2s_ctx where
  "blake2s_local = \<lparr>ctx_b = replicate 64 0, ctx_h = [], ctx_t = [], ctx_c = 0, ctx_outlen = 0\<rparr>"

text \<open>The string constants, as bytes.\<close>

definition bytes_of :: "string \<Rightarrow> bytes" where
  "bytes_of s = map of_char s"

definition CONSTRUCTION :: bytes where
  "CONSTRUCTION = bytes_of ''Noise_IKpsk2_25519_ChaChaPoly_BLAKE2s''"

definition IDENTIFIER :: bytes where
  "IDENTIFIER = bytes_of ''WireGuard v1 zx2c4 Jason@zx2c4.com''"

definition LABEL_MAC1 :: bytes where "LABEL_MAC1 = bytes_of ''mac1----''"
definition LABEL_COOKIE :: bytes where "LABEL_COOKIE = bytes_of ''cookie--''"

text \<open>What \<open>wireguard_init\<close> stores in the two static buffers.\<close>

definition construction_hash :: bytes where
  "construction_hash =
     (let ctx = snd (blake2s_init blake2s_local WIREGUARD_HASH_LEN []);
          ctx = blake2s_update ctx CONSTRUCTION
      in fst (blake2s_final ctx))"

definition identifier_hash :: bytes where
  "identifier_hash =
     (let ctx = snd (blake2s_init blake2s_local WIREGUARD_HASH_LEN []);
          ctx = blake2s_update ctx construction_hash;
          ctx = blake2s_update ctx IDENTIFIER
      in fst (blake2s_final ctx))"

definition wireguard_mac :: "bytes \<Rightarrow> bytes \<Rightarrow> bytes" where
  "wireguard_mac message key = snd (blake2s blake2s_local WIREGUARD_COOKIE_LEN key message)"

definition wireguard_mac_key :: "bytes \<Rightarrow> bytes \<Rightarrow> bytes" where
  "wireguard_mac_key public_key label =
     (let ctx = snd (blake2s_init blake2s_local WIREGUARD_SESSION_KEY_LEN []);
          ctx = blake2s_update ctx label;
          ctx = blake2s_update ctx public_key
      in fst (blake2s_final ctx))"

definition wireguard_mix_hash :: "bytes \<Rightarrow> bytes \<Rightarrow> bytes" where
  "wireguard_mix_hash hash src =
     (let ctx = snd (blake2s_init blake2s_local WIREGUARD_HASH_LEN []);
          ctx = blake2s_update ctx hash;
          ctx = blake2s_update ctx src
      in fst (blake2s_final ctx))"

definition WIREGUARD_BLAKE2S_BLOCK_SIZE :: nat where "WIREGUARD_BLAKE2S_BLOCK_SIZE = 64"

definition wireguard_hmac :: "bytes \<Rightarrow> bytes \<Rightarrow> bytes" where
  "wireguard_hmac key text =
     (let key = (if length key > WIREGUARD_BLAKE2S_BLOCK_SIZE then
                   let tctx = snd (blake2s_init blake2s_local WIREGUARD_HASH_LEN []);
                       tctx = blake2s_update tctx key
                   in fst (blake2s_final tctx)
                 else key);
          k_ipad = zeros WIREGUARD_BLAKE2S_BLOCK_SIZE;
          k_opad = zeros WIREGUARD_BLAKE2S_BLOCK_SIZE;
          k_ipad = buf_write k_ipad 0 key;
          k_opad = buf_write k_opad 0 key;
          k_ipad = map (\<lambda>b. b XOR 0x36) k_ipad;
          k_opad = map (\<lambda>b. b XOR 0x5c) k_opad;
          ctx = snd (blake2s_init blake2s_local WIREGUARD_HASH_LEN []);
          ctx = blake2s_update ctx k_ipad;
          ctx = blake2s_update ctx text;
          digest = fst (blake2s_final ctx);
          ctx = snd (blake2s_init blake2s_local WIREGUARD_HASH_LEN []);
          ctx = blake2s_update ctx k_opad;
          ctx = blake2s_update ctx digest
      in fst (blake2s_final ctx))"

text \<open>
  The derivations. \<open>output\<close> has 33 bytes, of which the HMAC writes the first 32; every
  call reads its text before it writes its digest.
\<close>

definition wireguard_kdf1 :: "bytes \<Rightarrow> bytes \<Rightarrow> bytes" where
  "wireguard_kdf1 chaining_key data =
     (let output = zeros (WIREGUARD_HASH_LEN + 1);
          tau0 = wireguard_hmac chaining_key data;
          output = output[0 := 1];
          output = buf_write output 0 (wireguard_hmac tau0 (take 1 output))
      in take WIREGUARD_HASH_LEN output)"

definition wireguard_kdf2 :: "bytes \<Rightarrow> bytes \<Rightarrow> bytes \<times> bytes" where
  "wireguard_kdf2 chaining_key data =
     (let output = zeros (WIREGUARD_HASH_LEN + 1);
          tau0 = wireguard_hmac chaining_key data;
          output = output[0 := 1];
          output = buf_write output 0 (wireguard_hmac tau0 (take 1 output));
          tau1 = take WIREGUARD_HASH_LEN output;
          output = output[WIREGUARD_HASH_LEN := 2];
          output = buf_write output 0 (wireguard_hmac tau0 (take (WIREGUARD_HASH_LEN + 1) output));
          tau2 = take WIREGUARD_HASH_LEN output
      in (tau1, tau2))"

definition wireguard_kdf3 :: "bytes \<Rightarrow> bytes \<Rightarrow> bytes \<times> bytes \<times> bytes" where
  "wireguard_kdf3 chaining_key data =
     (let output = zeros (WIREGUARD_HASH_LEN + 1);
          tau0 = wireguard_hmac chaining_key data;
          output = output[0 := 1];
          output = buf_write output 0 (wireguard_hmac tau0 (take 1 output));
          tau1 = take WIREGUARD_HASH_LEN output;
          output = output[WIREGUARD_HASH_LEN := 2];
          output = buf_write output 0 (wireguard_hmac tau0 (take (WIREGUARD_HASH_LEN + 1) output));
          tau2 = take WIREGUARD_HASH_LEN output;
          output = output[WIREGUARD_HASH_LEN := 3];
          output = buf_write output 0 (wireguard_hmac tau0 (take (WIREGUARD_HASH_LEN + 1) output));
          tau3 = take WIREGUARD_HASH_LEN output
      in (tau1, tau2, tau3))"

subsection \<open>Specification\<close>

definition HASH :: "bytes \<Rightarrow> bytes" where
  "HASH msg = blake2s_spec 32 [] msg"

definition HMAC :: "bytes \<Rightarrow> bytes \<Rightarrow> bytes" where
  "HMAC key text =
     (let k = (if length key > 64 then HASH key else key);
          k = k @ replicate (64 - length k) 0
      in HASH (map (\<lambda>b. b XOR 0x5c) k @ HASH (map (\<lambda>b. b XOR 0x36) k @ text)))"

text \<open>\<open>HKDF\<close>: the \<open>n\<close>-th output block, chained on the one before.\<close>

fun HKDF_block :: "bytes \<Rightarrow> nat \<Rightarrow> bytes" where
  "HKDF_block prk 0 = []"
| "HKDF_block prk (Suc n) = HMAC prk (HKDF_block prk n @ [of_nat (Suc n)])"

definition HKDF :: "nat \<Rightarrow> bytes \<Rightarrow> bytes \<Rightarrow> bytes list" where
  "HKDF n key input = map (\<lambda>i. HKDF_block (HMAC key input) (Suc i)) [0..<n]"

lemma length_HASH [simp, length_simps]: "length (HASH m) = 32"
  by (simp add: HASH_def)

lemma length_HMAC [simp, length_simps]: "length (HMAC k m) = 32"
  by (simp add: HMAC_def Let_def)

lemma hash_usable: "blake2s_usable (blake2s_local, WIREGUARD_HASH_LEN, [])"
  by (simp add: blake2s_usable_def blake2s_local_def WIREGUARD_HASH_LEN_def)

lemma hash_one: "fst (blake2s_final (blake2s_update (snd (blake2s_init blake2s_local WIREGUARD_HASH_LEN [])) a)) = HASH a"
  using b2s.absorb_one [OF hash_usable, of a] by (simp add: blake2s_start_def HASH_def WIREGUARD_HASH_LEN_def)

lemma hash_two:
  "fst (blake2s_final (blake2s_update (blake2s_update
     (snd (blake2s_init blake2s_local WIREGUARD_HASH_LEN [])) a) b)) = HASH (a @ b)"
  using b2s.absorb_two [OF hash_usable, of a b] by (simp add: blake2s_start_def HASH_def WIREGUARD_HASH_LEN_def)

lemma construction_hash_eq: "construction_hash = HASH CONSTRUCTION"
  by (simp add: construction_hash_def Let_def hash_one)

lemma identifier_hash_eq: "identifier_hash = HASH (HASH CONSTRUCTION @ IDENTIFIER)"
  by (simp add: identifier_hash_def Let_def hash_two construction_hash_eq)

lemma mix_hash_eq: "wireguard_mix_hash h src = HASH (h @ src)"
  by (simp add: wireguard_mix_hash_def Let_def hash_two)

lemma mac_key_eq: "wireguard_mac_key pk label = HASH (label @ pk)"
  using hash_two by (simp add: wireguard_mac_key_def Let_def wg_lengths)

lemma mac_eq: "length key \<le> 32 \<Longrightarrow> wireguard_mac msg key = blake2s_spec 16 key msg"
  by (simp add: wireguard_mac_def blake2s_all_in_one blake2s_local_def WIREGUARD_COOKIE_LEN_def)

lemma hmac_eq: "wireguard_hmac key text = HMAC key text"
proof -
  have pad: "buf_write (zeros 64) 0 k = k @ replicate (64 - length k) 0" if "length k \<le> 64" for k
    using that by (simp add: buf_write_def zeros_def)
  show ?thesis
  proof (cases "length key > 64")
    case True
    then show ?thesis
      by (simp add: wireguard_hmac_def HMAC_def Let_def hash_one hash_two WIREGUARD_BLAKE2S_BLOCK_SIZE_def pad)
  next
    case False
    then show ?thesis
      by (simp add: wireguard_hmac_def HMAC_def Let_def hash_two WIREGUARD_BLAKE2S_BLOCK_SIZE_def pad)
  qed
qed

lemma output_first: "take 1 ((zeros 33)[0 := 1]) = [1]"
  by (simp add: zeros_def list_update_append numeral_eq_Suc)

lemma output_written:
  "length t = 32 \<Longrightarrow> length out = 33 \<Longrightarrow>
   take 32 (buf_write out 0 t) = t \<and> length (buf_write out 0 t) = 33 \<and>
   take 33 ((buf_write out 0 t)[32 := c]) = t @ [c]"
proof -
  assume a: "length t = 32" "length out = 33"
  then obtain d where d: "drop 32 out = [d]"
    by (metis Cons_nth_drop_Suc drop_eq_Nil lessI less_numeral_extra(3) numeral_eq_Suc order_refl pred_numeral_simps(3)) 
  with a show ?thesis by (simp add: buf_write_def list_update_append)
qed

lemma HKDF_block_steps:
  "HKDF_block prk 1 = HMAC prk [1]"
  "HKDF_block prk 2 = HMAC prk (HKDF_block prk 1 @ [2])"
  "HKDF_block prk 3 = HMAC prk (HKDF_block prk 2 @ [3])"
  by (simp_all add: numeral_2_eq_2 numeral_3_eq_3)

lemma length_HKDF_block [simp, length_simps]: "0 < n \<Longrightarrow> length (HKDF_block prk n) = 32"
  by (cases n) simp_all

text \<open>The contents of \<open>output\<close> after the first, second and third call.\<close>

lemma kdf_outputs:
  defines "o1 \<equiv> \<lambda>prk. buf_write ((zeros 33)[0 := 1]) 0 (HKDF_block prk 1)"
  defines "o2 \<equiv> \<lambda>prk. buf_write ((o1 prk)[32 := 2]) 0 (HKDF_block prk 2)"
  defines "o3 \<equiv> \<lambda>prk. buf_write ((o2 prk)[32 := 3]) 0 (HKDF_block prk 3)"
  shows "take 32 (o1 prk) = HKDF_block prk 1" "take 33 ((o1 prk)[32 := 2]) = HKDF_block prk 1 @ [2]"
    "take 32 (o2 prk) = HKDF_block prk 2" "take 33 ((o2 prk)[32 := 3]) = HKDF_block prk 2 @ [3]"
    "take 32 (o3 prk) = HKDF_block prk 3"
proof -
  have 1: "take 32 (o1 prk) = HKDF_block prk 1 \<and> length (o1 prk) = 33 \<and>
    take 33 ((o1 prk)[32 := 2]) = HKDF_block prk 1 @ [2]"
    unfolding o1_def by (rule output_written) (simp_all del: HKDF_block.simps)
  then have 2: "take 32 (o2 prk) = HKDF_block prk 2 \<and> length (o2 prk) = 33 \<and>
    take 33 ((o2 prk)[32 := 3]) = HKDF_block prk 2 @ [3]"
    unfolding o2_def by (intro output_written) (simp_all del: HKDF_block.simps)
  then have 3: "take 32 (o3 prk) = HKDF_block prk 3 \<and> length (o3 prk) = 33 \<and>
    take 33 ((o3 prk)[32 := 3]) = HKDF_block prk 3 @ [3]"
    unfolding o3_def by (intro output_written) (simp_all del: HKDF_block.simps)
  show "take 32 (o1 prk) = HKDF_block prk 1" "take 33 ((o1 prk)[32 := 2]) = HKDF_block prk 1 @ [2]"
    "take 32 (o2 prk) = HKDF_block prk 2" "take 33 ((o2 prk)[32 := 3]) = HKDF_block prk 2 @ [3]"
    "take 32 (o3 prk) = HKDF_block prk 3"
    using 1 2 3 by blast+
qed

lemma output_size: "32 + 1 = (33 :: nat)"
  by simp

lemmas kdf_steps = Let_def WIREGUARD_HASH_LEN_def hmac_eq output_size output_first
  HKDF_block_steps [symmetric] kdf_outputs

lemma kdf1_eq: "wireguard_kdf1 ck data = HKDF_block (HMAC ck data) 1"
  unfolding wireguard_kdf1_def by (simp only: kdf_steps)

lemma kdf2_eq: "wireguard_kdf2 ck data = (HKDF_block (HMAC ck data) 1, HKDF_block (HMAC ck data) 2)"
  unfolding wireguard_kdf2_def by (simp only: kdf_steps)

lemma kdf3_eq:
  "wireguard_kdf3 ck data =
   (HKDF_block (HMAC ck data) 1, HKDF_block (HMAC ck data) 2, HKDF_block (HMAC ck data) 3)"
  unfolding wireguard_kdf3_def by (simp only: kdf_steps)

lemma length_kdf [simp, length_simps]:
  "length (wireguard_kdf1 ck d) = 32" "length (fst (wireguard_kdf2 ck d)) = 32"
  "length (snd (wireguard_kdf2 ck d)) = 32" "length (fst (wireguard_kdf3 ck d)) = 32"
  "length (wireguard_mix_hash h d) = 32" "length (wireguard_mac_key pk l) = 32"
  by (simp_all add: kdf1_eq kdf2_eq kdf3_eq mix_hash_eq mac_key_eq del: HKDF_block.simps)

lemma length_mac [simp, length_simps]: "length key \<le> 32 \<Longrightarrow> length (wireguard_mac msg key) = 16"
  by (simp add: mac_eq)

text \<open>
  C6. The key derivations are HKDF: \<open>wireguard_kdf1\<close>, \<open>wireguard_kdf2\<close> and
  \<open>wireguard_kdf3\<close> give the first one, two and three blocks of the chained expansion over
  HMAC-BLAKE2s, for keys and inputs of every length, although each call of the HMAC
  overwrites the buffer that holds its own input.
\<close>

theorem kdf_hkdf:
  "HKDF 1 ck data = [wireguard_kdf1 ck data] \<and>
   (case wireguard_kdf2 ck data of (t1, t2) \<Rightarrow> HKDF 2 ck data = [t1, t2]) \<and>
   (case wireguard_kdf3 ck data of (t1, t2, t3) \<Rightarrow> HKDF 3 ck data = [t1, t2, t3])"
proof -
  have "HKDF 1 ck data = [HKDF_block (HMAC ck data) 1]"
    "HKDF 2 ck data = [HKDF_block (HMAC ck data) 1, HKDF_block (HMAC ck data) 2]"
    "HKDF 3 ck data = [HKDF_block (HMAC ck data) 1, HKDF_block (HMAC ck data) 2, HKDF_block (HMAC ck data) 3]"
    by (simp_all add: HKDF_def upt_rec numeral_2_eq_2 numeral_3_eq_3 del: HKDF_block.simps)
  then show ?thesis by (simp only: kdf1_eq kdf2_eq kdf3_eq prod.case simp_thms)
qed

text \<open>
  The hash layer over BLAKE2s: \<open>wireguard_hmac\<close> is HMAC of RFC 2104 with a block of 64
  bytes, \<open>wireguard_mix_hash\<close> hashes the concatenation, \<open>wireguard_mac_key\<close> hashes label and
  key, and the two hashes that \<open>wireguard_init\<close> stores are those of the protocol name and of
  that hash with the identifier.
\<close>

theorem hash_layer:
  "wireguard_hmac key msg = HMAC key msg \<and> wireguard_mix_hash h msg = blake2s_spec 32 [] (h @ msg) \<and>
   wireguard_mac_key pk label = blake2s_spec 32 [] (label @ pk) \<and>
   construction_hash = blake2s_spec 32 [] CONSTRUCTION \<and>
   identifier_hash = blake2s_spec 32 [] (construction_hash @ IDENTIFIER)"
  by (simp add: hmac_eq mix_hash_eq mac_key_eq construction_hash_eq identifier_hash_eq HASH_def)

end
