(* ===== verification/Wg_Replay.thy ===== *)
theory Wg_Replay
  imports Wg_Types
begin

text \<open>
  The replay window of a key pair, \<open>wireguard_check_replay\<close> of \<open>wireguard.c\<close>. Its
  specification is a set of the sequence numbers seen and their maximum; the bitmap
  refines it as long as the sequence numbers stay within 2^32 of each other, because the
  code keeps the 64-bit difference in 32 bits. The window is \<open>sizeof\<close> of the bitmap wide,
  which is four numbers and not its 32 bits.
\<close>

unbundle bit_operations_syntax

subsection \<open>The code\<close>

text \<open>\<open>sizeof (keypair->replay_bitmap)\<close>, in bytes.\<close>

definition ReplayWindowSize :: u32 where
  "ReplayWindowSize = 4"

definition wireguard_check_replay :: "wireguard_keypair \<Rightarrow> u64 \<Rightarrow> bool \<times> wireguard_keypair" where
  "wireguard_check_replay keypair seq =
     (if seq \<noteq> 0 then
        if seq > kp_replay_counter keypair then
          let diff = ucast (seq - kp_replay_counter keypair) :: u32;
              bitmap = (if diff < ReplayWindowSize
                        then push_bit (unat diff) (kp_replay_bitmap keypair) OR 1
                        else 1)
          in (True, keypair\<lparr>kp_replay_bitmap := bitmap, kp_replay_counter := seq\<rparr>)
        else
          let diff = ucast (kp_replay_counter keypair - seq) :: u32
          in if diff < ReplayWindowSize then
               if kp_replay_bitmap keypair AND push_bit (unat diff) 1 \<noteq> 0 then (False, keypair)
               else (True, keypair\<lparr>kp_replay_bitmap :=
                             kp_replay_bitmap keypair OR push_bit (unat diff) 1\<rparr>)
             else (False, keypair)
      else (False, keypair))"

text \<open>A run of packets through the check: the verdicts.\<close>

fun replay_run :: "wireguard_keypair \<Rightarrow> u64 list \<Rightarrow> bool list" where
  "replay_run keypair [] = []"
| "replay_run keypair (s # ss) =
     (case wireguard_check_replay keypair s of (ok, keypair) \<Rightarrow> ok # replay_run keypair ss)"

subsection \<open>Specification\<close>

text \<open>The window: the numbers accepted so far. Zero is never accepted.\<close>

definition window_max :: "nat set \<Rightarrow> nat" where
  "window_max seen = (if seen = {} then 0 else Max seen)"

definition window_accepts :: "nat set \<Rightarrow> nat \<Rightarrow> bool" where
  "window_accepts seen s \<longleftrightarrow>
     s \<noteq> 0 \<and> s \<notin> seen \<and> (window_max seen < s \<or> window_max seen - s < 4)"

fun window_run :: "nat set \<Rightarrow> nat list \<Rightarrow> bool list" where
  "window_run seen [] = []"
| "window_run seen (s # ss) =
     window_accepts seen s # window_run (if window_accepts seen s then insert s seen else seen) ss"

lemma window_max_insert: "finite seen \<Longrightarrow> window_max (insert s seen) = max s (window_max seen)"
  by (simp add: window_max_def)

lemma le_window_max: "finite seen \<Longrightarrow> s \<in> seen \<Longrightarrow> s \<le> window_max seen"
  by (auto simp: window_max_def)

subsection \<open>Refinement\<close>

text \<open>
  The bitmap represents the set: the counter is the maximum, and bit \<open>k\<close> of the window says
  whether the number \<open>k\<close> below it has been seen.
\<close>

definition window_rel :: "nat set \<Rightarrow> wireguard_keypair \<Rightarrow> bool" where
  "window_rel seen keypair \<longleftrightarrow>
     finite seen \<and> 0 \<notin> seen \<and> unat (kp_replay_counter keypair) = window_max seen \<and>
     window_max seen < 2 ^ 32 \<and>
     (\<forall>k<4. bit (kp_replay_bitmap keypair) k \<longrightarrow> k < window_max seen \<and> window_max seen - k \<in> seen) \<and>
     (\<forall>k<4. k < window_max seen \<longrightarrow> window_max seen - k \<in> seen \<longrightarrow> bit (kp_replay_bitmap keypair) k)"

lemma window_relI:
  assumes "finite seen" "0 \<notin> seen" "unat (kp_replay_counter keypair) = window_max seen"
    "window_max seen < 2 ^ 32"
    "\<And>k. k < 4 \<Longrightarrow> bit (kp_replay_bitmap keypair) k \<longleftrightarrow> k < window_max seen \<and> window_max seen - k \<in> seen"
  shows "window_rel seen keypair"
  using assms by (simp add: window_rel_def)

lemma window_relD:
  assumes "window_rel seen keypair"
  shows "finite seen" "0 \<notin> seen" "unat (kp_replay_counter keypair) = window_max seen"
    "window_max seen < 2 ^ 32"
    "k < 4 \<Longrightarrow> bit (kp_replay_bitmap keypair) k \<longleftrightarrow> k < window_max seen \<and> window_max seen - k \<in> seen"
  using assms by (auto simp: window_rel_def)

lemma window_rel_fresh:
  "kp_replay_counter keypair = 0 \<Longrightarrow> kp_replay_bitmap keypair = 0 \<Longrightarrow> window_rel {} keypair"
  by (intro window_relI) (simp_all add: window_max_def)

lemma test_bit_zero: "bm AND push_bit k 1 \<noteq> 0 \<longleftrightarrow> bit bm k" if "k < 32" for bm :: u32
proof -
  have "bit (bm AND push_bit k 1) j \<longleftrightarrow> j = k \<and> bit bm k" for j
    using that by (auto simp: bit_simps)
  then have "(\<exists>j. bit (bm AND push_bit k 1) j) \<longleftrightarrow> bit bm k" by blast
  then show ?thesis by (metis bit_0_eq bot_apply bot_bool_def bit_eqI)
qed

lemma unat_diff32:
  fixes a b :: u64
  assumes "b \<le> a" "unat a < 2 ^ 32"
  shows "unat (ucast (a - b) :: u32) = unat a - unat b"
  using assms by (simp add: unat_ucast_mod unat_sub word_le_nat_alt)

lemma check_replay_newer:
  assumes rel: "window_rel seen keypair" and s: "unat s < 2 ^ 32" "window_max seen < unat s"
  shows "fst (wireguard_check_replay keypair s)"
    and "window_rel (insert (unat s) seen) (snd (wireguard_check_replay keypair s))"
proof -
  note d = window_relD [OF rel]
  let ?m = "window_max seen" and ?diff = "ucast (s - kp_replay_counter keypair) :: u32"
  let ?bm = "if ?diff < ReplayWindowSize then push_bit (unat ?diff) (kp_replay_bitmap keypair) OR 1 else 1"
  have gt: "s > kp_replay_counter keypair" using s(2) d(3) by (simp add: word_less_nat_alt)
  then have nz: "s \<noteq> 0" by auto
  have diff: "unat ?diff = unat s - ?m" using gt s(1) d(3) by (subst unat_diff32) simp_all
  have r: "wireguard_check_replay keypair s =
      (True, keypair\<lparr>kp_replay_bitmap := ?bm, kp_replay_counter := s\<rparr>)"
    using gt nz by (simp add: wireguard_check_replay_def Let_def)
  then show "fst (wireguard_check_replay keypair s)" by simp
  have max: "window_max (insert (unat s) seen) = unat s"
    using d(1) s(2) by (simp add: window_max_insert)
  have not_seen: "t \<notin> seen" if "?m < t" for t
    using that le_window_max [OF d(1)] by (meson not_le)
  have bits: "bit ?bm k \<longleftrightarrow> k < unat s \<and> unat s - k \<in> insert (unat s) seen" if k: "k < 4" for k
  proof (cases "k = 0")
    case True
    then show ?thesis using s(2) by (auto simp: bit_simps)
  next
    case False
    have b1: "\<not> bit (1 :: u32) k" using False by (simp add: bit_simps)
    show ?thesis
    proof (cases "unat s - ?m \<le> k")
      case True
      then have "?diff < ReplayWindowSize" using k diff by (simp add: ReplayWindowSize_def word_less_nat_alt)
      moreover have "bit (push_bit (unat ?diff) (kp_replay_bitmap keypair)) k \<longleftrightarrow>
          bit (kp_replay_bitmap keypair) (k - (unat s - ?m))"
        using True k diff by (simp add: bit_simps)
      moreover have "bit (kp_replay_bitmap keypair) (k - (unat s - ?m)) \<longleftrightarrow>
          k - (unat s - ?m) < ?m \<and> ?m - (k - (unat s - ?m)) \<in> seen"
        using k by (intro d(5)) simp
      moreover have "?m - (k - (unat s - ?m)) = unat s - k" using True s(2) by linarith
      moreover have "k - (unat s - ?m) < ?m \<longleftrightarrow> k < unat s" using True s(2) by linarith
      ultimately show ?thesis using b1 False s(2) by (auto simp: bit_simps)
    next
      case far: False
      then have "\<not> bit ?bm k" using b1 diff by (auto simp: bit_simps)
      moreover have "?m < unat s - k" using far by linarith
      ultimately show ?thesis using not_seen False by auto
    qed
  qed
  show "window_rel (insert (unat s) seen) (snd (wireguard_check_replay keypair s))"
    unfolding r using d(1,2) nz s(1) bits
    by (intro window_relI) (auto simp: max unat_eq_0)
qed

lemma check_replay_older:
  assumes rel: "window_rel seen keypair" and s: "unat s \<le> window_max seen" "s \<noteq> 0"
  shows "fst (wireguard_check_replay keypair s) \<longleftrightarrow> window_max seen - unat s < 4 \<and> unat s \<notin> seen"
    and "window_rel (if fst (wireguard_check_replay keypair s) then insert (unat s) seen else seen)
      (snd (wireguard_check_replay keypair s))"
proof -
  note d = window_relD [OF rel]
  let ?m = "window_max seen" and ?diff = "ucast (kp_replay_counter keypair - s) :: u32"
  let ?k = "?m - unat s"
  have le: "s \<le> kp_replay_counter keypair" using s(1) d(3) by (simp add: word_le_nat_alt)
  have diff: "unat ?diff = ?k" using le d(3,4) by (subst unat_diff32) simp_all
  have small: "?diff < ReplayWindowSize \<longleftrightarrow> ?k < 4"
    by (simp add: ReplayWindowSize_def word_less_nat_alt diff)
  have pos: "0 < unat s" using s(2) by (simp add: unat_gt_0)
  have seen_bit: "bit (kp_replay_bitmap keypair) ?k \<longleftrightarrow> unat s \<in> seen" if "?k < 4"
    using d(5) [OF that] s(1) pos by simp
  have r: "wireguard_check_replay keypair s =
      (if ?k < 4 then
         if bit (kp_replay_bitmap keypair) ?k then (False, keypair)
         else (True, keypair\<lparr>kp_replay_bitmap := kp_replay_bitmap keypair OR push_bit ?k 1\<rparr>)
       else (False, keypair))"
    using le s(2) test_bit_zero [of ?k "kp_replay_bitmap keypair"]
    by (auto simp add: wireguard_check_replay_def Let_def diff small)
  show verdict: "fst (wireguard_check_replay keypair s) \<longleftrightarrow> ?k < 4 \<and> unat s \<notin> seen"
    using seen_bit by (auto simp: r)
  show "window_rel (if fst (wireguard_check_replay keypair s) then insert (unat s) seen else seen)
      (snd (wireguard_check_replay keypair s))"
  proof (cases "?k < 4 \<and> unat s \<notin> seen")
    case False
    then have "wireguard_check_replay keypair s = (False, keypair)" using seen_bit by (auto simp: r)
    with rel show ?thesis by simp
  next
    case True
    then have acc: "wireguard_check_replay keypair s =
        (True, keypair\<lparr>kp_replay_bitmap := kp_replay_bitmap keypair OR push_bit ?k 1\<rparr>)"
      using seen_bit by (auto simp: r)
    have max: "window_max (insert (unat s) seen) = ?m"
      using d(1) s(1) by (simp add: window_max_insert)
    have "bit (kp_replay_bitmap keypair OR push_bit ?k 1) j \<longleftrightarrow> j < ?m \<and> ?m - j \<in> insert (unat s) seen"
      if j: "j < 4" for j
    proof -
      have "bit (push_bit ?k (1 :: u32)) j \<longleftrightarrow> j = ?k" using j by (auto simp: bit_simps)
      moreover have "?m - j = unat s \<longleftrightarrow> j = ?k" if "j < ?m" using that s(1) pos by linarith
      moreover have "?k < ?m" using s(1) pos by linarith
      ultimately show ?thesis using d(5) [OF j] by (auto simp: bit_or_iff)
    qed
    then show ?thesis
      unfolding acc using d(1-4) pos by (auto intro!: window_relI simp: max)
  qed
qed

lemma check_replay_step:
  assumes rel: "window_rel seen keypair" and s: "unat s < 2 ^ 32"
  shows "fst (wireguard_check_replay keypair s) = window_accepts seen (unat s)"
    and "window_rel (if window_accepts seen (unat s) then insert (unat s) seen else seen)
      (snd (wireguard_check_replay keypair s))"
proof -
  have "fst (wireguard_check_replay keypair s) = window_accepts seen (unat s) \<and>
    window_rel (if window_accepts seen (unat s) then insert (unat s) seen else seen)
      (snd (wireguard_check_replay keypair s))"
  proof -
    consider "s = 0" | "s \<noteq> 0" "unat s \<le> window_max seen" | "window_max seen < unat s" by linarith
    then show ?thesis
    proof cases
      case 1
      with rel show ?thesis by (simp add: wireguard_check_replay_def window_accepts_def)
    next
      case 2
      then have "window_accepts seen (unat s) \<longleftrightarrow> window_max seen - unat s < 4 \<and> unat s \<notin> seen"
        by (auto simp: window_accepts_def unat_eq_0)
      with check_replay_older [OF rel 2(2,1)] show ?thesis by simp
    next
      case 3
      then have "window_accepts seen (unat s)"
        using le_window_max [OF window_relD(1) [OF rel]] by (fastforce simp: window_accepts_def)
      with check_replay_newer [OF rel s 3] show ?thesis by simp
    qed
  qed
  then show "fst (wireguard_check_replay keypair s) = window_accepts seen (unat s)"
    "window_rel (if window_accepts seen (unat s) then insert (unat s) seen else seen)
      (snd (wireguard_check_replay keypair s))" by simp_all
qed

lemma replay_run_refines:
  "window_rel seen keypair \<Longrightarrow> list_all (\<lambda>s. unat s < 2 ^ 32) ss \<Longrightarrow>
   replay_run keypair ss = window_run seen (map unat ss)"
proof (induction ss arbitrary: seen keypair)
  case (Cons s ss)
  obtain ok keypair' where r: "wireguard_check_replay keypair s = (ok, keypair')" by fastforce
  have s: "unat s < 2 ^ 32" "list_all (\<lambda>s. unat s < 2 ^ 32) ss" using Cons.prems(2) by simp_all
  note step = check_replay_step [OF Cons.prems(1) s(1), unfolded r fst_conv snd_conv]
  show ?case using Cons.IH [OF step(2) s(2)] by (simp add: r step(1))
qed simp

subsection \<open>Interface: acceptance at most once\<close>

text \<open>
  A filter of numbered packets that never accepts a number twice: what the receive path
  needs. \<open>seen\<close> is the ghost set of the numbers accepted.
\<close>

locale once_filter =
  fixes accepts :: "nat set \<Rightarrow> nat \<Rightarrow> bool"
  assumes fresh: "accepts seen s \<Longrightarrow> s \<notin> seen"
begin

fun run :: "nat set \<Rightarrow> nat list \<Rightarrow> nat list" where
  "run seen [] = []"
| "run seen (s # ss) = (if accepts seen s then s # run (insert s seen) ss else run seen ss)"

lemma run_new: "set (run seen ss) \<inter> seen = {}"
  by (induction seen ss rule: run.induct) (auto dest: fresh)

lemma run_accepted: "s \<in> set (run seen ss) \<Longrightarrow> \<exists>seen. accepts seen s"
  by (induction seen ss rule: run.induct) (auto split: if_splits)

lemma run_distinct: "distinct (run seen ss)"
proof (induction seen ss rule: run.induct)
  case (2 seen s ss)
  then show ?case using run_new [of "insert s seen" ss] by auto
qed simp

end

interpretation window: once_filter window_accepts
  by unfold_locales (simp add: window_accepts_def)

text \<open>The packets of a run that the code accepts.\<close>

definition accepted :: "wireguard_keypair \<Rightarrow> u64 list \<Rightarrow> u64 list" where
  "accepted keypair ss = map snd (filter fst (zip (replay_run keypair ss) ss))"

lemma window_run_accepted:
  "map snd (filter fst (zip (window_run seen ss) ss)) = window.run seen ss"
  by (induction ss arbitrary: seen) auto

lemma accepted_eq:
  assumes "window_rel seen keypair" "list_all (\<lambda>s. unat s < 2 ^ 32) ss"
  shows "map unat (accepted keypair ss) = window.run seen (map unat ss)"
proof -
  have "map unat (map snd (filter fst (zip bs ss))) = map snd (filter fst (zip bs (map unat ss)))" for bs
    by (induction bs ss rule: list_induct2') auto
  then show ?thesis
    by (simp add: accepted_def replay_run_refines [OF assms] window_run_accepted)
qed

subsection \<open>Properties\<close>

text \<open>
  C7. The replay window refines its specification: from a fresh key pair, on any run of
  packets with counters below 2^32, the code gives exactly the verdicts of a window that
  remembers the set of accepted counters, accepts a new maximum always, and accepts an
  older counter if it is less than four below the maximum and has not been seen.
\<close>

theorem replay_window_refines:
  assumes "kp_replay_counter keypair = 0" and "kp_replay_bitmap keypair = 0"
    and "list_all (\<lambda>s. unat s < 2 ^ 32) ss"
  shows "replay_run keypair ss = window_run {} (map unat ss)"
  using assms by (intro replay_run_refines window_rel_fresh)

theorem replay_window_refines_witness:
  "replay_run zero_keypair [7, 5, 5, 3, 9, 8] = window_run {} [7, 5, 5, 3, 9, 8]"
  using replay_window_refines [of zero_keypair "[7, 5, 5, 3, 9, 8]"] by (simp add: zero_keypair_def)

text \<open>
  No replay within the first 2^32 packets: whatever the order of arrival, the counters
  that the code accepts under one key pair are pairwise different, and zero is never
  accepted.
\<close>

theorem replay_accepts_once:
  assumes "kp_replay_counter keypair = 0" and "kp_replay_bitmap keypair = 0"
    and "list_all (\<lambda>s. unat s < 2 ^ 32) ss"
  shows "distinct (accepted keypair ss) \<and> 0 \<notin> set (accepted keypair ss)"
proof -
  have "distinct (map unat (accepted keypair ss))"
    unfolding accepted_eq [OF window_rel_fresh [OF assms(1,2)] assms(3)] by (rule window.run_distinct)
  moreover have "0 \<notin> set (window.run seen ns)" for seen ns
    using window.run_accepted [of 0 seen ns] by (auto simp: window_accepts_def)
  then have "0 \<notin> set (map unat (accepted keypair ss))"
    unfolding accepted_eq [OF window_rel_fresh [OF assms(1,2)] assms(3)] .
  then have "0 \<notin> set (accepted keypair ss)" by force
  ultimately show ?thesis by (auto simp: distinct_map)
qed

theorem replay_accepts_once_witness:
  "distinct (accepted zero_keypair [1, 1, 2, 1]) \<and> 0 \<notin> set (accepted zero_keypair [1, 1, 2, 1])"
  using replay_accepts_once [of zero_keypair "[1, 1, 2, 1]"] by (simp add: zero_keypair_def)

text \<open>
  The bound is sharp: the difference of two counters is cut to 32 bits, so after a jump
  of more than 2^32 an old packet is taken for a recent one and accepted a second time.
  And the window is four packets, although the bitmap has room for 32: a packet that
  arrives four places late is dropped.
\<close>

theorem replay_window_limits:
  "replay_run zero_keypair [5, 100, 0x100000006, 5] = [True, True, True, True] \<and>
   replay_run zero_keypair [10, 6] = [True, False]"
  by (simp add: zero_keypair_def wireguard_check_replay_def ReplayWindowSize_def Let_def)

end
