(* ===== verification/Wg_Keypair.thy ===== *)
theory Wg_Keypair
  imports Wg_Kdf Wg_Platform Wg_Replay Aead
begin

text \<open>
  The key pairs of a peer in \<open>wireguard.c\<close>: expiry, the three slots and how a new session
  moves through them, the derivation of the session keys, and packet encryption. A
  \<open>struct wireguard_keypair *\<close> always points to one of the three slots of a peer and is
  modelled by the slot, so that writing through it after the slots have moved does what
  the code does.
\<close>

unbundle bit_operations_syntax

subsection \<open>The code\<close>

definition wireguard_expired :: "world \<Rightarrow> u32 \<Rightarrow> u32 \<Rightarrow> bool" where
  "wireguard_expired w created_millis valid_seconds =
     (let diff = wireguard_sys_now w - created_millis in diff \<ge> valid_seconds * 1000)"

text \<open>An \<open>int\<close> passed where \<open>wireguard_expired\<close> takes a \<open>uint32_t\<close>.\<close>

abbreviation seconds :: "int \<Rightarrow> u32" where
  "seconds \<equiv> of_int"

datatype slot = CURR | NEXT | PREV

fun keypair_of :: "slot \<Rightarrow> wireguard_peer \<Rightarrow> wireguard_keypair" where
  "keypair_of CURR p = pr_curr_keypair p"
| "keypair_of NEXT p = pr_next_keypair p"
| "keypair_of PREV p = pr_prev_keypair p"

fun set_keypair :: "slot \<Rightarrow> wireguard_keypair \<Rightarrow> wireguard_peer \<Rightarrow> wireguard_peer" where
  "set_keypair CURR k p = p\<lparr>pr_curr_keypair := k\<rparr>"
| "set_keypair NEXT k p = p\<lparr>pr_next_keypair := k\<rparr>"
| "set_keypair PREV k p = p\<lparr>pr_prev_keypair := k\<rparr>"

definition get_peer_keypair_for_idx :: "wireguard_peer \<Rightarrow> u32 \<Rightarrow> slot option" where
  "get_peer_keypair_for_idx peer idx =
     (if kp_valid (pr_curr_keypair peer) \<and> kp_local_index (pr_curr_keypair peer) = idx then Some CURR
      else if kp_valid (pr_next_keypair peer) \<and> kp_local_index (pr_next_keypair peer) = idx then Some NEXT
      else if kp_valid (pr_prev_keypair peer) \<and> kp_local_index (pr_prev_keypair peer) = idx then Some PREV
      else None)"

definition handshake_destroy :: "wireguard_handshake \<Rightarrow> wireguard_handshake" where
  "handshake_destroy handshake =
     handshake\<lparr>hs_ephemeral_private := crypto_zero (hs_ephemeral_private handshake) WIREGUARD_PUBLIC_KEY_LEN,
               hs_remote_ephemeral := crypto_zero (hs_remote_ephemeral handshake) WIREGUARD_PUBLIC_KEY_LEN,
               hs_hash := crypto_zero (hs_hash handshake) WIREGUARD_HASH_LEN,
               hs_chaining_key := crypto_zero (hs_chaining_key handshake) WIREGUARD_HASH_LEN,
               hs_remote_index := 0, hs_local_index := 0, hs_valid := False\<rparr>"

text \<open>All the bytes of the struct are cleared.\<close>

definition keypair_destroy :: "slot \<Rightarrow> wireguard_peer \<Rightarrow> wireguard_peer" where
  "keypair_destroy sl peer = set_keypair sl (zero_keypair\<lparr>kp_valid := False\<rparr>) peer"

definition keypair_update :: "wireguard_peer \<Rightarrow> slot \<Rightarrow> wireguard_peer" where
  "keypair_update peer received_keypair =
     (let key_is_next = (received_keypair = NEXT) in
      if key_is_next then
        let peer = peer\<lparr>pr_prev_keypair := pr_curr_keypair peer\<rparr>;
            peer = peer\<lparr>pr_curr_keypair := pr_next_keypair peer\<rparr>
        in keypair_destroy NEXT peer
      else peer)"

definition add_new_keypair :: "wireguard_peer \<Rightarrow> wireguard_keypair \<Rightarrow> wireguard_peer" where
  "add_new_keypair peer new_keypair =
     (if kp_initiator new_keypair then
        let peer = (if kp_valid (pr_next_keypair peer) then
                      keypair_destroy NEXT (peer\<lparr>pr_prev_keypair := pr_next_keypair peer\<rparr>)
                    else peer\<lparr>pr_prev_keypair := pr_curr_keypair peer\<rparr>)
        in peer\<lparr>pr_curr_keypair := new_keypair\<rparr>
      else
        let peer = peer\<lparr>pr_next_keypair := new_keypair\<rparr>
        in keypair_destroy PREV peer)"

text \<open>The key pair that \<open>wireguard_start_session\<close> makes out of the handshake.\<close>

definition session_keypair :: "world \<Rightarrow> wireguard_handshake \<Rightarrow> bool \<Rightarrow> wireguard_keypair" where
  "session_keypair w handshake initiator =
     (let (t1, t2) = wireguard_kdf2 (hs_chaining_key handshake) [];
          new_keypair = zero_keypair;
          new_keypair = new_keypair\<lparr>kp_initiator := initiator,
            kp_local_index := hs_local_index handshake, kp_remote_index := hs_remote_index handshake,
            kp_keypair_millis := wireguard_sys_now w, kp_sending_valid := True,
            kp_receiving_valid := True\<rparr>;
          new_keypair = (if kp_initiator new_keypair
                         then new_keypair\<lparr>kp_sending_key := t1, kp_receiving_key := t2\<rparr>
                         else new_keypair\<lparr>kp_receiving_key := t1, kp_sending_key := t2\<rparr>)
      in new_keypair\<lparr>kp_replay_bitmap := 0, kp_replay_counter := 0, kp_last_tx := 0, kp_last_rx := 0,
                     kp_valid := True\<rparr>)"

definition wireguard_start_session :: "world \<Rightarrow> wireguard_peer \<Rightarrow> bool \<Rightarrow> wireguard_peer" where
  "wireguard_start_session w peer initiator =
     (let new_keypair = session_keypair w (pr_handshake peer) initiator;
          handshake = pr_handshake peer;
          handshake = handshake\<lparr>
            hs_ephemeral_private := crypto_zero (hs_ephemeral_private handshake) WIREGUARD_PUBLIC_KEY_LEN,
            hs_remote_ephemeral := crypto_zero (hs_remote_ephemeral handshake) WIREGUARD_PUBLIC_KEY_LEN,
            hs_hash := crypto_zero (hs_hash handshake) WIREGUARD_HASH_LEN,
            hs_chaining_key := crypto_zero (hs_chaining_key handshake) WIREGUARD_HASH_LEN,
            hs_remote_index := 0, hs_local_index := 0, hs_valid := False\<rparr>
      in add_new_keypair (peer\<lparr>pr_handshake := handshake\<rparr>) new_keypair)"

definition wireguard_encrypt_packet :: "bytes \<Rightarrow> wireguard_keypair \<Rightarrow> bytes \<times> wireguard_keypair" where
  "wireguard_encrypt_packet src keypair =
     (chacha20poly1305_encrypt src [] (kp_sending_counter keypair) (kp_sending_key keypair),
      keypair\<lparr>kp_sending_counter := kp_sending_counter keypair + 1\<rparr>)"

definition wireguard_decrypt_packet :: "bytes \<Rightarrow> u64 \<Rightarrow> wireguard_keypair \<Rightarrow> bytes option" where
  "wireguard_decrypt_packet src counter keypair =
     chacha20poly1305_decrypt src [] counter (kp_receiving_key keypair)"

subsection \<open>Slots\<close>

lemma keypair_of_set [simp]: "keypair_of s (set_keypair t k p) = (if s = t then k else keypair_of s p)"
  by (cases s; cases t) simp_all

lemma set_keypair_frame [simp, frame_simps]:
  "pr_handshake (set_keypair s k p) = pr_handshake p" "pr_valid (set_keypair s k p) = pr_valid p"
  "pr_public_key (set_keypair s k p) = pr_public_key p"
  "pr_active (set_keypair s k p) = pr_active p"
  "pr_keepalive_interval (set_keypair s k p) = pr_keepalive_interval p"
  "pr_send_handshake (set_keypair s k p) = pr_send_handshake p"
  "pr_last_tx (set_keypair s k p) = pr_last_tx p"
  "pr_allowed_source_ips (set_keypair s k p) = pr_allowed_source_ips p"
  "pr_ip (set_keypair s k p) = pr_ip p" "pr_port (set_keypair s k p) = pr_port p"
  by (cases s; simp)+

lemma keypair_of_destroy [simp]:
  "keypair_of s (keypair_destroy t p) = (if s = t then zero_keypair else keypair_of s p)"
  by (simp add: keypair_destroy_def zero_keypair_def)

lemma destroy_frame [simp, frame_simps]:
  "pr_handshake (keypair_destroy s p) = pr_handshake p" "pr_valid (keypair_destroy s p) = pr_valid p"
  "pr_public_key (keypair_destroy s p) = pr_public_key p"
  by (simp_all add: keypair_destroy_def)

lemma idx_lookup:
  "get_peer_keypair_for_idx peer idx = Some sl \<Longrightarrow>
   kp_valid (keypair_of sl peer) \<and> kp_local_index (keypair_of sl peer) = idx"
  by (auto simp: get_peer_keypair_for_idx_def split: if_splits)

lemma idx_lookup_none:
  "get_peer_keypair_for_idx peer idx = None \<Longrightarrow>
   \<not> (kp_valid (keypair_of sl peer) \<and> kp_local_index (keypair_of sl peer) = idx)"
  by (cases sl) (auto simp: get_peer_keypair_for_idx_def split: if_splits)

lemma keypair_update_slots:
  "keypair_of s (keypair_update p t) =
   (if t = NEXT then (case s of CURR \<Rightarrow> keypair_of NEXT p | NEXT \<Rightarrow> zero_keypair | PREV \<Rightarrow> keypair_of CURR p)
    else keypair_of s p)"
  by (cases s) (simp_all add: keypair_update_def Let_def keypair_destroy_def zero_keypair_def)

lemma add_new_keypair_slots:
  "keypair_of s (add_new_keypair p k) =
   (if kp_initiator k then
      (case s of CURR \<Rightarrow> k
       | NEXT \<Rightarrow> (if kp_valid (keypair_of NEXT p) then zero_keypair else keypair_of NEXT p)
       | PREV \<Rightarrow> (if kp_valid (keypair_of NEXT p) then keypair_of NEXT p else keypair_of CURR p))
    else (case s of CURR \<Rightarrow> keypair_of CURR p | NEXT \<Rightarrow> k | PREV \<Rightarrow> zero_keypair))"
  by (cases s) (simp_all add: add_new_keypair_def Let_def keypair_destroy_def zero_keypair_def)

lemma session_keypair_fields [simp]:
  "kp_valid (session_keypair w h i)" "kp_initiator (session_keypair w h i) = i"
  "kp_local_index (session_keypair w h i) = hs_local_index h"
  "kp_remote_index (session_keypair w h i) = hs_remote_index h"
  "kp_keypair_millis (session_keypair w h i) = w_now w"
  "kp_sending_counter (session_keypair w h i) = 0"
  "kp_replay_counter (session_keypair w h i) = 0" "kp_replay_bitmap (session_keypair w h i) = 0"
  "kp_last_rx (session_keypair w h i) = 0" "kp_last_tx (session_keypair w h i) = 0"
  "kp_sending_valid (session_keypair w h i)" "kp_receiving_valid (session_keypair w h i)"
  by (simp_all add: session_keypair_def Let_def zero_keypair_def wireguard_sys_now_def split: prod.splits)

lemma session_keypair_keys:
  "kp_sending_key (session_keypair w h i) =
   (if i then fst (wireguard_kdf2 (hs_chaining_key h) []) else snd (wireguard_kdf2 (hs_chaining_key h) []))"
  "kp_receiving_key (session_keypair w h i) =
   (if i then snd (wireguard_kdf2 (hs_chaining_key h) []) else fst (wireguard_kdf2 (hs_chaining_key h) []))"
  by (simp_all add: session_keypair_def Let_def zero_keypair_def split: prod.splits)

lemma start_session_slots:
  "keypair_of s (wireguard_start_session w p i) =
   (let k = session_keypair w (pr_handshake p) i in
    if i then
      (case s of CURR \<Rightarrow> k
       | NEXT \<Rightarrow> (if kp_valid (keypair_of NEXT p) then zero_keypair else keypair_of NEXT p)
       | PREV \<Rightarrow> (if kp_valid (keypair_of NEXT p) then keypair_of NEXT p else keypair_of CURR p))
    else (case s of CURR \<Rightarrow> keypair_of CURR p | NEXT \<Rightarrow> k | PREV \<Rightarrow> zero_keypair))"
  by (cases s) (simp_all add: wireguard_start_session_def add_new_keypair_slots Let_def)

lemma start_session_handshake:
  "pr_handshake (wireguard_start_session w p i) =
   handshake_destroy (pr_handshake p)"
  by (simp add: wireguard_start_session_def add_new_keypair_def Let_def handshake_destroy_def)

subsection \<open>Interface: numbered sealing\<close>

text \<open>
  What transport needs of a sealing operation with a counter: the counter goes up by one,
  and the other end opens what was sealed when it holds the key and is told the counter.
\<close>

locale sealed_channel =
  fixes seal :: "bytes \<Rightarrow> 's \<Rightarrow> bytes \<times> 's"
    and unseal :: "bytes \<Rightarrow> u64 \<Rightarrow> 'r \<Rightarrow> bytes option"
    and counter :: "'s \<Rightarrow> u64"
    and linked :: "'s \<Rightarrow> 'r \<Rightarrow> bool"
    and fits :: "bytes \<Rightarrow> bool"
  assumes opened: "linked s r \<Longrightarrow> fits m \<Longrightarrow> unseal (fst (seal m s)) (counter s) r = Some m"
    and counted: "counter (snd (seal m s)) = counter s + 1"
    and still_linked: "linked s r \<Longrightarrow> linked (snd (seal m s)) r"
begin

text \<open>Sealing a list of packets: the datagrams with the counters they carry.\<close>

fun seal_all :: "'s \<Rightarrow> bytes list \<Rightarrow> (u64 \<times> bytes) list" where
  "seal_all s [] = []"
| "seal_all s (m # ms) = (counter s, fst (seal m s)) # seal_all (snd (seal m s)) ms"

lemma seal_all_counters: "map fst (seal_all s ms) = map (\<lambda>i. counter s + of_nat i) [0..<length ms]"
proof (induction ms arbitrary: s)
  case (Cons m ms)
  have "[0..<length (m # ms)] = 0 # map Suc [0..<length ms]"
    by (simp add: map_Suc_upt upt_conv_Cons del: upt_Suc)
  then show ?case using Cons by (simp add: counted comp_def add.assoc)
qed simp

lemma unseal_all:
  "linked s r \<Longrightarrow> list_all fits ms \<Longrightarrow>
   map (\<lambda>(n, c). unseal c n r) (seal_all s ms) = map Some ms"
  by (induction s ms rule: seal_all.induct) (simp_all add: opened still_linked)

end

definition packet_fits :: "bytes \<Rightarrow> bool" where
  "packet_fits m \<longleftrightarrow> length m + 32 \<le> 2 ^ 32"

interpretation transport: sealed_channel wireguard_encrypt_packet wireguard_decrypt_packet
  kp_sending_counter "\<lambda>s r. kp_sending_key s = kp_receiving_key r" packet_fits
proof unfold_locales
  fix s r :: wireguard_keypair and m
  assume "kp_sending_key s = kp_receiving_key r" "packet_fits m"
  then show "wireguard_decrypt_packet (fst (wireguard_encrypt_packet m s)) (kp_sending_counter s) r = Some m"
    by (simp add: wireguard_encrypt_packet_def wireguard_decrypt_packet_def decrypt_encrypt packet_fits_def
        aead_fits_def)
qed (simp_all add: wireguard_encrypt_packet_def)

text \<open>The packets a sender makes out of a list of plaintexts.\<close>

fun encrypt_all :: "wireguard_keypair \<Rightarrow> bytes list \<Rightarrow> (u64 \<times> bytes) list" where
  "encrypt_all keypair [] = []"
| "encrypt_all keypair (m # ms) =
     (case wireguard_encrypt_packet m keypair of (c, keypair') \<Rightarrow>
        (kp_sending_counter keypair, c) # encrypt_all keypair' ms)"

lemma encrypt_all_eq: "encrypt_all keypair ms = transport.seal_all keypair ms"
  by (induction ms arbitrary: keypair) (simp_all split: prod.splits)

subsection \<open>Properties\<close>

text \<open>
  C8. The session keys cross: two ends whose handshakes ended with the same chaining key, one
  as initiator and one as responder, start sessions in which each end's sending key is
  the other's receiving key; both start with counter 0 and an empty replay window. The
  initiator's session is its current one at once, the responder's is the next one, and the
  secrets of both handshakes are wiped.
\<close>

theorem sessions_cross:
  assumes "hs_chaining_key (pr_handshake p) = hs_chaining_key (pr_handshake q)"
  shows "let i = pr_curr_keypair (wireguard_start_session w p True);
      r = pr_next_keypair (wireguard_start_session v q False)
    in kp_sending_key i = kp_receiving_key r \<and> kp_sending_key r = kp_receiving_key i \<and>
      kp_valid i \<and> kp_valid r \<and> kp_sending_counter i = 0 \<and> kp_sending_counter r = 0 \<and>
      kp_replay_counter i = 0 \<and> kp_replay_counter r = 0 \<and> kp_replay_bitmap i = 0 \<and> kp_replay_bitmap r = 0 \<and>
      pr_handshake (wireguard_start_session w p True) = handshake_destroy (pr_handshake p) \<and>
      pr_handshake (wireguard_start_session v q False) = handshake_destroy (pr_handshake q)"
proof -
  have "pr_curr_keypair (wireguard_start_session w p True) = session_keypair w (pr_handshake p) True"
    "pr_next_keypair (wireguard_start_session v q False) = session_keypair v (pr_handshake q) False"
    using start_session_slots [of CURR w p True] start_session_slots [of NEXT v q False] by simp_all
  with assms show ?thesis by (simp add: session_keypair_keys start_session_handshake Let_def)
qed

theorem sessions_cross_witness:
  "kp_sending_key (pr_curr_keypair (wireguard_start_session quiet_world (zero_peer []) True)) =
   kp_receiving_key (pr_next_keypair (wireguard_start_session quiet_world (zero_peer [1]) False))"
  using sessions_cross [of "zero_peer []" "zero_peer [1]" quiet_world quiet_world]
  by (simp add: zero_peer_def Let_def)

text \<open>
  C9. Transport: the packets that a key pair encrypts carry consecutive counters, so no nonce
  is used twice under a key before the 64-bit counter wraps (the session is rejected
  before that), and a peer that holds the key decrypts each of them, in any order, to
  what was sent.
\<close>

theorem transport_correct:
  assumes "kp_sending_key s = kp_receiving_key r" and "list_all (\<lambda>m. length m + 32 \<le> 2 ^ 32) ms"
    and "unat (kp_sending_counter s) + length ms < 2 ^ 64"
  shows "map (\<lambda>(n, c). wireguard_decrypt_packet c n r) (encrypt_all s ms) = map Some ms \<and>
    distinct (map fst (encrypt_all s ms))"
proof
  show "map (\<lambda>(n, c). wireguard_decrypt_packet c n r) (encrypt_all s ms) = map Some ms"
  proof -
    have "list_all packet_fits ms" using assms(2) by (simp add: list_all_iff packet_fits_def)
    then show ?thesis unfolding encrypt_all_eq by (intro transport.unseal_all assms(1))
  qed
  have "inj_on (\<lambda>i. kp_sending_counter s + of_nat i) {0..<length ms}"
  proof (rule inj_onI)
    fix i j
    assume ij: "i \<in> {0..<length ms}" "j \<in> {0..<length ms}"
      "kp_sending_counter s + of_nat i = kp_sending_counter s + (of_nat j :: u64)"
    then have "(of_nat i :: u64) = of_nat j" by simp
    then show "i = j" using ij(1,2) assms(3) by (simp add: word_unat_eq_iff unat_of_nat)
  qed
  then show "distinct (map fst (encrypt_all s ms))"
    by (simp add: encrypt_all_eq transport.seal_all_counters distinct_map)
qed

theorem transport_correct_witness:
  "distinct (map fst (encrypt_all zero_keypair [[1], [1], [1]]))"
  using transport_correct [of zero_keypair zero_keypair "[[1], [1], [1]]"]
  by (simp add: zero_keypair_def)

text \<open>
  Expiry across the wrap of the millisecond clock: if \<open>t\<close> milliseconds have passed since
  \<open>created\<close>, with \<open>t\<close> below 2^32, then the answer is whether \<open>t\<close> has reached the limit,
  although the clock may have wrapped in between.
\<close>

theorem expired_iff_elapsed:
  assumes "w_now w = created + of_nat t" and "t < 2 ^ 32" and "valid_seconds * 1000 < 2 ^ 32"
  shows "wireguard_expired w created (of_nat valid_seconds) \<longleftrightarrow> valid_seconds * 1000 \<le> t"
proof -
  have "unat (of_nat t :: u32) = t" using assms(2) by (simp add: unat_of_nat)
  moreover have "unat (of_nat valid_seconds * 1000 :: u32) = valid_seconds * 1000"
    using assms(3) by (simp add: unat_mult unat_of_nat)
  ultimately show ?thesis
    using assms(1) by (simp add: wireguard_expired_def wireguard_sys_now_def word_le_nat_alt)
qed

theorem expired_iff_elapsed_witness:
  "wireguard_expired (quiet_world\<lparr>w_now := 20000\<rparr>) (20000 - of_nat 180000) (of_nat 180)"
  using expired_iff_elapsed [of "quiet_world\<lparr>w_now := 20000\<rparr>" "20000 - of_nat 180000" 180000 180]
  by simp

text \<open>
  A keepalive interval above the limit disables a rekey: the argument is computed as an
  \<open>int\<close>, a negative one becomes a huge number of seconds, and the test that should be
  true is false for the next 49 days. With an interval of 180 seconds a session of the
  initiator that is 170 seconds old is not renewed on receipt of data.
\<close>

theorem negative_limit_never_expires:
  assumes "w_now w = created + of_nat t" and "t < 2 ^ 32 - 60360000" and "180 < keepalive + 5"
    and "keepalive \<le> 60535"
  shows "\<not> wireguard_expired w created (seconds (REJECT_AFTER_TIME - int keepalive - REKEY_TIMEOUT))"
proof -
  define n where "n = keepalive + 5 - 180"
  have n: "0 < n" "n \<le> 60360" using assms(3,4) by (simp_all add: n_def)
  have "REJECT_AFTER_TIME - int keepalive - REKEY_TIMEOUT = - int n"
    using assms(3) by (simp add: REJECT_AFTER_TIME_def REKEY_TIMEOUT_def n_def)
  then have s: "seconds (REJECT_AFTER_TIME - int keepalive - REKEY_TIMEOUT) * 1000 = - (of_nat (n * 1000) :: u32)"
    by simp
  have u: "unat (of_nat (n * 1000) :: u32) = n * 1000" using n by (simp add: unat_mult unat_of_nat)
  have "unat (- (of_nat (n * 1000) :: u32)) = 2 ^ 32 - n * 1000"
    using n u unat_sub_if' [of 0 "of_nat (n * 1000) :: u32"] by simp
  moreover have "unat (of_nat t :: u32) = t" using assms(2) by (simp add: unat_of_nat)
  ultimately show ?thesis
    using assms(1,2) n s by (simp add: wireguard_expired_def wireguard_sys_now_def word_le_nat_alt)
qed

theorem negative_limit_never_expires_witness:
  "\<not> wireguard_expired (quiet_world\<lparr>w_now := 170000\<rparr>) 0 (seconds (REJECT_AFTER_TIME - int 180 - REKEY_TIMEOUT))"
  using negative_limit_never_expires [of "quiet_world\<lparr>w_now := 170000\<rparr>" 0 170000 180] by simp

end
