(* ===== verification/Wg_Peer.thy ===== *)
theory Wg_Peer
  imports Wg_Keypair "HOL-Library.Monad_Syntax"
begin

text \<open>
  The device of \<open>wireguard.c\<close> around its peers: allocation and lookup of peers, the choice
  of a fresh session index, cookies and the checks of the two message codes, and the
  generation of key pairs. A function that returns a peer or NULL returns an optional
  index. The key agreement is an argument \<open>dh\<close> of the definitions that call
  \<open>wireguard_x25519\<close> (scalar, then point; the results are the returned code and the
  output), so that the theorems say what they need of it.
\<close>

unbundle bit_operations_syntax

subsection \<open>Peers\<close>

definition peer_alloc :: "wireguard_device \<Rightarrow> nat option" where
  "peer_alloc device = find (\<lambda>x. \<not> pr_valid (peer_at device x)) [0..<WIREGUARD_MAX_PEERS]"

definition peer_lookup_by_pubkey :: "wireguard_device \<Rightarrow> bytes \<Rightarrow> nat option" where
  "peer_lookup_by_pubkey device public_key =
     find (\<lambda>x. pr_valid (peer_at device x) \<and>
               memcmp (pr_public_key (peer_at device x)) public_key WIREGUARD_PUBLIC_KEY_LEN = 0)
       [0..<WIREGUARD_MAX_PEERS]"

definition wireguard_peer_index :: "wireguard_device \<Rightarrow> nat \<Rightarrow> u8" where
  "wireguard_peer_index device peer =
     (case find (\<lambda>x. peer = x) [0..<WIREGUARD_MAX_PEERS] of None \<Rightarrow> 0xFF | Some x \<Rightarrow> of_nat x)"

definition peer_lookup_by_peer_index :: "wireguard_device \<Rightarrow> u8 \<Rightarrow> nat option" where
  "peer_lookup_by_peer_index device peer_index =
     (if unat peer_index < WIREGUARD_MAX_PEERS then
        if pr_valid (peer_at device (unat peer_index)) then Some (unat peer_index) else None
      else None)"

definition peer_lookup_by_receiver :: "wireguard_device \<Rightarrow> u32 \<Rightarrow> nat option" where
  "peer_lookup_by_receiver device receiver =
     find (\<lambda>x. let tmp = peer_at device x in
             pr_valid tmp \<and>
             ((kp_valid (pr_curr_keypair tmp) \<and> kp_local_index (pr_curr_keypair tmp) = receiver) \<or>
              (kp_valid (pr_next_keypair tmp) \<and> kp_local_index (pr_next_keypair tmp) = receiver) \<or>
              (kp_valid (pr_prev_keypair tmp) \<and> kp_local_index (pr_prev_keypair tmp) = receiver)))
       [0..<WIREGUARD_MAX_PEERS]"

definition peer_lookup_by_handshake :: "wireguard_device \<Rightarrow> u32 \<Rightarrow> nat option" where
  "peer_lookup_by_handshake device receiver =
     find (\<lambda>x. let tmp = peer_at device x in
             pr_valid tmp \<and>
             (hs_valid (pr_handshake tmp) \<and> hs_initiator (pr_handshake tmp) \<and>
              hs_local_index (pr_handshake tmp) = receiver))
       [0..<WIREGUARD_MAX_PEERS]"

subsection \<open>Fresh session indices\<close>

text \<open>The inner loop: four random bytes, until they are neither 0 nor 0xFFFFFFFF.\<close>

partial_function (option) draw_index :: "world \<Rightarrow> (u32 \<times> world) option" where
  "draw_index w =
     (case wireguard_random_bytes 4 w of (buf, w) \<Rightarrow>
        let result = U8TO32_LITTLE buf in
        if result = 0 \<or> result = 0xFFFFFFFF then draw_index w else Some (result, w))"

text \<open>The loop over the peers assigns \<open>existing\<close> anew for each of them.\<close>

definition index_existing :: "wireguard_device \<Rightarrow> u32 \<Rightarrow> bool" where
  "index_existing device result =
     fold (\<lambda>x existing.
         let peer = peer_at device x in
         result = kp_local_index (pr_curr_keypair peer) \<or>
         result = kp_local_index (pr_prev_keypair peer) \<or>
         result = kp_local_index (pr_next_keypair peer) \<or>
         result = hs_local_index (pr_handshake peer))
       [0..<WIREGUARD_MAX_PEERS] False"

partial_function (option) wireguard_generate_unique_index ::
  "wireguard_device \<Rightarrow> world \<Rightarrow> (u32 \<times> world) option" where
  "wireguard_generate_unique_index device w =
     do {
       (result, w) \<leftarrow> draw_index w;
       if index_existing device result then wireguard_generate_unique_index device w
       else Some (result, w)
     }"

subsection \<open>Keys\<close>

definition wireguard_clamp_private_key :: "bytes \<Rightarrow> bytes" where
  "wireguard_clamp_private_key key =
     (let key = key[0 := key ! 0 AND 248] in key[31 := (key ! 31 AND 127) OR 64])"

definition wireguard_generate_private_key :: "world \<Rightarrow> bytes \<times> world" where
  "wireguard_generate_private_key w =
     (case wireguard_random_bytes WIREGUARD_PRIVATE_KEY_LEN w of (key, w) \<Rightarrow>
        (wireguard_clamp_private_key key, w))"

definition basepoint :: bytes where
  "basepoint = (zeros WIREGUARD_PUBLIC_KEY_LEN)[0 := 9]"

text \<open>The result and, when the key was computed, what was written to \<open>public_key\<close>.\<close>

definition wireguard_generate_public_key ::
  "(bytes \<Rightarrow> bytes \<Rightarrow> int \<times> bytes) \<Rightarrow> bytes \<Rightarrow> bytes \<Rightarrow> bool \<times> bytes" where
  "wireguard_generate_public_key dh public_key private_key =
     (if memcmp private_key (zeros WIREGUARD_PUBLIC_KEY_LEN) WIREGUARD_PUBLIC_KEY_LEN \<noteq> 0
      then (case dh private_key basepoint of (r, out) \<Rightarrow> (r = 0, out))
      else (False, public_key))"

subsection \<open>Cookies and message codes\<close>

definition generate_cookie_secret :: "wireguard_device \<Rightarrow> world \<Rightarrow> wireguard_device \<times> world" where
  "generate_cookie_secret device w =
     (case wireguard_random_bytes WIREGUARD_HASH_LEN w of (secret, w) \<Rightarrow>
        (device\<lparr>dv_cookie_secret := secret, dv_cookie_secret_millis := wireguard_sys_now w\<rparr>, w))"

text \<open>An absent source address is the empty string of bytes.\<close>

definition generate_peer_cookie ::
  "wireguard_device \<Rightarrow> bytes \<Rightarrow> world \<Rightarrow> bytes \<times> wireguard_device \<times> world" where
  "generate_peer_cookie device source_addr_port w =
     (case (if wireguard_expired w (dv_cookie_secret_millis device) COOKIE_SECRET_MAX_AGE
            then generate_cookie_secret device w else (device, w)) of (device, w) \<Rightarrow>
      let ctx = snd (blake2s_init blake2s_local WIREGUARD_COOKIE_LEN (dv_cookie_secret device));
          ctx = (if length source_addr_port > 0 then blake2s_update ctx source_addr_port else ctx)
      in (fst (blake2s_final ctx), device, w))"

text \<open>\<open>data\<close> is the message up to the code that is checked.\<close>

definition wireguard_check_mac1 :: "wireguard_device \<Rightarrow> bytes \<Rightarrow> bytes \<Rightarrow> bool" where
  "wireguard_check_mac1 device data mac1 =
     (let calculated = wireguard_mac data (dv_label_mac1_key device)
      in crypto_equal calculated mac1 WIREGUARD_COOKIE_LEN)"

definition wireguard_check_mac2 ::
  "wireguard_device \<Rightarrow> bytes \<Rightarrow> bytes \<Rightarrow> bytes \<Rightarrow> world \<Rightarrow> bool \<times> wireguard_device \<times> world" where
  "wireguard_check_mac2 device data source_addr_port mac2 w =
     (case generate_peer_cookie device source_addr_port w of (cookie, device, w) \<Rightarrow>
      let calculated = wireguard_mac data cookie
      in (crypto_equal calculated mac2 WIREGUARD_COOKIE_LEN, device, w))"

subsection \<open>Message types\<close>

definition wireguard_get_message_type :: "bytes \<Rightarrow> u8" where
  "wireguard_get_message_type data =
     (let len = length data in
      if len \<ge> 4 then
        if data ! 1 = 0 \<and> data ! 2 = 0 \<and> data ! 3 = 0 then
          if data ! 0 = MESSAGE_HANDSHAKE_INITIATION then
            if len = sizeof_initiation then MESSAGE_HANDSHAKE_INITIATION else MESSAGE_INVALID
          else if data ! 0 = MESSAGE_HANDSHAKE_RESPONSE then
            if len = sizeof_response then MESSAGE_HANDSHAKE_RESPONSE else MESSAGE_INVALID
          else if data ! 0 = MESSAGE_COOKIE_REPLY then
            if len = sizeof_cookie_reply then MESSAGE_COOKIE_REPLY else MESSAGE_INVALID
          else if data ! 0 = MESSAGE_TRANSPORT_DATA then
            if len \<ge> sizeof_transport + WIREGUARD_AUTHTAG_LEN then MESSAGE_TRANSPORT_DATA
            else MESSAGE_INVALID
          else MESSAGE_INVALID
        else MESSAGE_INVALID
      else MESSAGE_INVALID)"

subsection \<open>Lookups\<close>

lemma find_upt_Some: "find P [0..<n] = Some x \<Longrightarrow> x < n \<and> P x \<and> (\<forall>y<x. \<not> P y)"
  by (auto simp: find_Some_iff)

lemma find_upt_None: "find P [0..<n] = None \<longleftrightarrow> (\<forall>x<n. \<not> P x)"
  by (auto simp: find_None_iff)

lemma lookup_receiver_keypair:
  "peer_lookup_by_receiver device receiver = Some x \<Longrightarrow>
   x < WIREGUARD_MAX_PEERS \<and> pr_valid (peer_at device x) \<and>
   get_peer_keypair_for_idx (peer_at device x) receiver \<noteq> None"
  by (auto simp: peer_lookup_by_receiver_def Let_def get_peer_keypair_for_idx_def dest!: find_upt_Some)

lemma lookup_handshake:
  "peer_lookup_by_handshake device receiver = Some x \<Longrightarrow>
   x < WIREGUARD_MAX_PEERS \<and> pr_valid (peer_at device x) \<and> hs_valid (pr_handshake (peer_at device x)) \<and>
   hs_initiator (pr_handshake (peer_at device x)) \<and>
   hs_local_index (pr_handshake (peer_at device x)) = receiver"
  by (auto simp: peer_lookup_by_handshake_def Let_def dest!: find_upt_Some)

lemma lookup_pubkey:
  "peer_lookup_by_pubkey device pk = Some x \<Longrightarrow> length pk = 32 \<Longrightarrow>
   length (pr_public_key (peer_at device x)) = 32 \<Longrightarrow>
   x < WIREGUARD_MAX_PEERS \<and> pr_valid (peer_at device x) \<and> pr_public_key (peer_at device x) = pk"
  by (auto simp: peer_lookup_by_pubkey_def WIREGUARD_PUBLIC_KEY_LEN_def memcmp_eq_0 dest!: find_upt_Some)

subsection \<open>Random bytes\<close>

lemma length_random [simp, length_simps]: "length (fst (wireguard_random_bytes n w)) = n"
  by (simp add: wireguard_random_bytes_def)

lemma random_now [simp, frame_simps]: "w_now (snd (wireguard_random_bytes n w)) = w_now w"
  by (simp add: wireguard_random_bytes_def)

text \<open>The \<open>k\<close>-th index that the random bytes spell from a point on.\<close>

definition nth_draw :: "world \<Rightarrow> nat \<Rightarrow> u32" where
  "nth_draw w k = U8TO32_LITTLE (map (\<lambda>i. w_entropy w (w_drawn w + 4 * k + i)) [0..<4])"

definition skip_draws :: "world \<Rightarrow> nat \<Rightarrow> world" where
  "skip_draws w k = w\<lparr>w_drawn := w_drawn w + 4 * k\<rparr>"

lemma skip_draws_simps [simp]:
  "skip_draws w 0 = w" "skip_draws (skip_draws w j) k = skip_draws w (j + k)"
  "nth_draw (skip_draws w j) k = nth_draw w (j + k)"
  by (simp_all add: skip_draws_def nth_draw_def algebra_simps)

lemma random_draw: "wireguard_random_bytes 4 w = (map (\<lambda>i. w_entropy w (w_drawn w + i)) [0..<4], skip_draws w 1)"
  by (simp add: wireguard_random_bytes_def skip_draws_def)

lemma draw_index_step:
  "draw_index w =
   (if nth_draw w 0 = 0 \<or> nth_draw w 0 = 0xFFFFFFFF then draw_index (skip_draws w 1)
    else Some (nth_draw w 0, skip_draws w 1))"
  by (subst draw_index.simps) (simp add: random_draw nth_draw_def Let_def)

lemma unique_index_step:
  "wireguard_generate_unique_index device w =
   (if nth_draw w 0 = 0 \<or> nth_draw w 0 = 0xFFFFFFFF \<or> index_existing device (nth_draw w 0)
    then wireguard_generate_unique_index device (skip_draws w 1)
    else Some (nth_draw w 0, skip_draws w 1))"
proof (cases "nth_draw w 0 = 0 \<or> nth_draw w 0 = 0xFFFFFFFF")
  case True
  then show ?thesis
    by (subst (1 2) wireguard_generate_unique_index.simps) (auto simp add: draw_index_step [of w])
next
  case False
  then show ?thesis
    by (subst wireguard_generate_unique_index.simps) (simp add: draw_index_step [of w])
qed

text \<open>What makes a drawn index acceptable.\<close>

definition index_ok :: "wireguard_device \<Rightarrow> u32 \<Rightarrow> bool" where
  "index_ok device i \<longleftrightarrow> i \<noteq> 0 \<and> i \<noteq> 0xFFFFFFFF \<and> \<not> index_existing device i"

lemma unique_index_first:
  "index_ok device (nth_draw w k) \<Longrightarrow> (\<forall>j<k. \<not> index_ok device (nth_draw w j)) \<Longrightarrow>
   wireguard_generate_unique_index device w = Some (nth_draw w k, skip_draws w (Suc k))"
proof (induction k arbitrary: w)
  case 0
  then show ?case by (subst unique_index_step) (simp add: index_ok_def)
next
  case (Suc k)
  have "\<not> index_ok device (nth_draw w 0)" using Suc.prems(2) by simp
  then have "wireguard_generate_unique_index device w =
      wireguard_generate_unique_index device (skip_draws w 1)"
    by (subst unique_index_step) (auto simp: index_ok_def)
  also have "\<dots> = Some (nth_draw (skip_draws w 1) k, skip_draws (skip_draws w 1) (Suc k))"
    using Suc.prems by (intro Suc.IH) auto
  finally show ?case by simp
qed

lemma draw_index_result:
  assumes "draw_index w = Some r"
  shows "fst r \<noteq> 0 \<and> fst r \<noteq> 0xFFFFFFFF"
  by (rule draw_index.raw_induct [OF _ assms, where P = "\<lambda>_ r. fst r \<noteq> 0 \<and> fst r \<noteq> 0xFFFFFFFF"])
    (force simp: Let_def split: prod.splits if_splits)

lemma unique_index_result:
  assumes "wireguard_generate_unique_index device w = Some r"
  shows "index_ok device (fst r)"
proof (rule wireguard_generate_unique_index.raw_induct [OF _ assms, where P = "\<lambda>d _ r. index_ok d (fst r)"])
  fix gen and device :: wireguard_device and w :: world and r :: "u32 \<times> world"
  assume IH: "\<And>d w r. gen d w = Some r \<Longrightarrow> index_ok d (fst r)"
    and body: "(draw_index w \<bind> (\<lambda>(result, w). if index_existing device result then gen device w else Some (result, w))) = Some r"
  then obtain i w' where i: "draw_index w = Some (i, w')"
    and r: "(if index_existing device i then gen device w' else Some (i, w')) = Some r"
    by (auto simp: bind_eq_Some_conv)
  from draw_index_result [OF i] r IH [of device w' r] show "index_ok device (fst r)"
    by (auto simp: index_ok_def split: if_splits)
qed

lemma index_existing_iff:
  "index_existing device i \<longleftrightarrow>
   i \<in> {kp_local_index (keypair_of s (peer_at device 0)) | s. True} \<union> {hs_local_index (pr_handshake (peer_at device 0))}"
proof -
  have "(\<exists>s. i = kp_local_index (keypair_of s p)) \<longleftrightarrow> i = kp_local_index (pr_curr_keypair p) \<or>
      i = kp_local_index (pr_prev_keypair p) \<or> i = kp_local_index (pr_next_keypair p)" for p
  proof
    assume "\<exists>s. i = kp_local_index (keypair_of s p)"
    then obtain s where "i = kp_local_index (keypair_of s p)" ..
    then show "i = kp_local_index (pr_curr_keypair p) \<or> i = kp_local_index (pr_prev_keypair p) \<or>
        i = kp_local_index (pr_next_keypair p)" by (cases s) simp_all
  qed (metis keypair_of.simps)
  then show ?thesis by (auto simp: index_existing_def WIREGUARD_MAX_PEERS_def Let_def)
qed

subsection \<open>Properties\<close>

text \<open>
  Fresh session indices: whenever \<open>wireguard_generate_unique_index\<close> returns, the index is
  neither 0 nor 0xFFFFFFFF and differs from the index of every key pair and of the
  handshake of the peer. And it returns as soon as the random generator yields such an
  index: if the \<open>k\<close>-th group of four random bytes is the first to be acceptable, the result
  is that group, after \<open>4 (k + 1)\<close> bytes.
\<close>

theorem unique_index_correct:
  "(\<forall>i w'. wireguard_generate_unique_index device w = Some (i, w') \<longrightarrow>
      i \<noteq> 0 \<and> i \<noteq> 0xFFFFFFFF \<and> i \<noteq> hs_local_index (pr_handshake (peer_at device 0)) \<and>
      (\<forall>s. i \<noteq> kp_local_index (keypair_of s (peer_at device 0)))) \<and>
   (\<forall>k. index_ok device (nth_draw w k) \<and> (\<forall>j<k. \<not> index_ok device (nth_draw w j)) \<longrightarrow>
      wireguard_generate_unique_index device w =
      Some (nth_draw w k, w\<lparr>w_drawn := w_drawn w + 4 * (k + 1)\<rparr>))"
proof (intro conjI allI impI; (elim conjE)?)
  fix i w' assume "wireguard_generate_unique_index device w = Some (i, w')"
  from unique_index_result [OF this] have ok: "index_ok device i" by simp
  then show "i \<noteq> 0" "i \<noteq> 0xFFFFFFFF" by (simp_all add: index_ok_def)
  show "i \<noteq> hs_local_index (pr_handshake (peer_at device 0))"
    "i \<noteq> kp_local_index (keypair_of s (peer_at device 0))" for s
    using ok by (auto simp: index_ok_def index_existing_iff)
next
  fix k assume "index_ok device (nth_draw w k)" "\<forall>j<k. \<not> index_ok device (nth_draw w j)"
  from unique_index_first [OF this]
  show "wireguard_generate_unique_index device w = Some (nth_draw w k, w\<lparr>w_drawn := w_drawn w + 4 * (k + 1)\<rparr>)"
    by (simp add: skip_draws_def)
qed

theorem unique_index_correct_witness:
  "wireguard_generate_unique_index (zero_device []) quiet_world =
   Some (0x160F0801, quiet_world\<lparr>w_drawn := 4\<rparr>)"
proof -
  have n: "nth_draw quiet_world 0 = 0x160F0801"
    by (simp add: nth_draw_def quiet_world_def U8TO32_LITTLE_def upt_rec)
  have ok: "index_ok (zero_device []) 0x160F0801"
    by (simp add: index_ok_def index_existing_def zero_device_def zero_peer_def zero_keypair_def
        zero_handshake_def WIREGUARD_MAX_PEERS_def)
  from unique_index_correct [of "zero_device []" quiet_world] n ok
  show ?thesis by (auto simp: quiet_world_def dest: spec [where x = 0])
qed

text \<open>
  Lookups are sound: the peer that \<open>peer_lookup_by_receiver\<close> finds for an index is a valid
  one, \<open>get_peer_keypair_for_idx\<close> then finds a slot in it, and the key pair in that slot is
  valid and carries the index. So a transport packet is only processed with a live key
  pair of ours that its receiver index names.
\<close>

theorem receiver_lookup_sound:
  assumes "peer_lookup_by_receiver device idx = Some x"
  shows "x < WIREGUARD_MAX_PEERS \<and> pr_valid (peer_at device x) \<and>
    (\<exists>sl. get_peer_keypair_for_idx (peer_at device x) idx = Some sl \<and>
      kp_valid (keypair_of sl (peer_at device x)) \<and> kp_local_index (keypair_of sl (peer_at device x)) = idx)"
  using lookup_receiver_keypair [OF assms] idx_lookup by blast

theorem receiver_lookup_sound_witness:
  "\<exists>sl. get_peer_keypair_for_idx
     ((zero_peer [])\<lparr>pr_valid := True, pr_prev_keypair := zero_keypair\<lparr>kp_valid := True, kp_local_index := 7\<rparr>\<rparr>) 7 = Some sl"
proof -
  let ?p = "(zero_peer [])\<lparr>pr_valid := True, pr_prev_keypair := zero_keypair\<lparr>kp_valid := True, kp_local_index := 7\<rparr>\<rparr>"
  let ?d = "set_peer (zero_device []) 0 ?p"
  have "peer_lookup_by_receiver ?d 7 = Some 0"
    by (simp add: peer_lookup_by_receiver_def zero_device_def set_peer_def WIREGUARD_MAX_PEERS_def)
  from receiver_lookup_sound [OF this] show ?thesis
    by (auto simp: zero_device_def set_peer_def WIREGUARD_MAX_PEERS_def)
qed

text \<open>
  Message types: a datagram is taken for a handshake message or a cookie reply only with
  exactly the size of the struct, and for transport data only if it holds the header and
  an authentication tag. So no cast of the receive path reads past the datagram, and the
  three reserved bytes are zero.
\<close>

theorem message_type_sizes:
  "(case wireguard_get_message_type data of t \<Rightarrow>
     (t = MESSAGE_HANDSHAKE_INITIATION \<longleftrightarrow> length data = 148 \<and> take 4 data = [1, 0, 0, 0]) \<and>
     (t = MESSAGE_HANDSHAKE_RESPONSE \<longleftrightarrow> length data = 92 \<and> take 4 data = [2, 0, 0, 0]) \<and>
     (t = MESSAGE_COOKIE_REPLY \<longleftrightarrow> length data = 64 \<and> take 4 data = [3, 0, 0, 0]) \<and>
     (t = MESSAGE_TRANSPORT_DATA \<longleftrightarrow> 32 \<le> length data \<and> take 4 data = [4, 0, 0, 0]))"
proof (cases "4 \<le> length data")
  case True
  then show ?thesis
    by (auto simp: wireguard_get_message_type_def Let_def message_types sizeofs take_4 WIREGUARD_AUTHTAG_LEN_def)
next
  case False
  then show ?thesis
    by (auto simp: wireguard_get_message_type_def Let_def message_types dest: arg_cong [where f = length])
qed

end
