(* ===== verification/Wg_Handshake.thy ===== *)
theory Wg_Handshake
  imports Wg_Peer
begin

text \<open>
  The handshake of \<open>wireguard.c\<close>: creating and processing the initiation and the response,
  the cookie messages, and the initialisation of peer and device. Each definition is the
  whole C function, its early exits included; what an exit leaves behind in the handshake
  object is part of the result. The specification is the key schedule of Noise IKpsk2 over
  HKDF, hash and sealing, and the lemmas show that both ends compute it.
\<close>

unbundle bit_operations_syntax

type_synonym x25519_fn = "bytes \<Rightarrow> bytes \<Rightarrow> int \<times> bytes"

text \<open>
  What the protocol relies on in the curve function: it ignores the bits that clamping fixes,
  and its result is as long as a key.
\<close>

locale clamped_curve =
  fixes dh :: x25519_fn
  assumes clamped: "dh (wireguard_clamp_private_key k) p = dh k p"
begin

lemma clamped_twice: "dh (wireguard_clamp_private_key (wireguard_clamp_private_key k)) p = dh k p"
  by (simp add: clamped)

end

locale sized_curve =
  fixes dh :: x25519_fn
  assumes sized: "length (snd (dh k p)) = 32"
begin

lemma not_empty: "snd (dh k p) \<noteq> []"
  using sized [of k p] by auto

end

locale curve = clamped_curve + sized_curve

abbreviation zero_key :: bytes where
  "zero_key \<equiv> zeros WIREGUARD_PUBLIC_KEY_LEN"

subsection \<open>Initiation\<close>

definition zero_initiation :: message_handshake_initiation where
  "zero_initiation = \<lparr>mi_type = 0, mi_reserved = zeros 3, mi_sender = 0, mi_ephemeral = zeros 32,
     mi_enc_static = zeros 48, mi_enc_timestamp = zeros 28, mi_mac1 = zeros 16, mi_mac2 = zeros 16\<rparr>"

text \<open>
  The cryptographic part of \<open>wireguard_create_handshake_initiation\<close>, up to the choice of the
  sender index: whether it succeeded, the handshake object and the message so far.
\<close>

definition initiation_noise ::
  "x25519_fn \<Rightarrow> wireguard_device \<Rightarrow> wireguard_peer \<Rightarrow> world \<Rightarrow>
   bool \<times> wireguard_handshake \<times> message_handshake_initiation \<times> world" where
  "initiation_noise dh device peer w =
     (let handshake = pr_handshake peer;
          dst = zero_initiation;
          handshake = handshake\<lparr>hs_chaining_key := construction_hash\<rparr>;
          handshake = handshake\<lparr>hs_hash := identifier_hash\<rparr>;
          handshake = handshake\<lparr>hs_hash := wireguard_mix_hash (hs_hash handshake) (pr_public_key peer)\<rparr>;
          (private_key, w) = wireguard_generate_private_key w;
          handshake = handshake\<lparr>hs_ephemeral_private := private_key\<rparr>;
          (ok, ephemeral) = wireguard_generate_public_key dh (mi_ephemeral dst) (hs_ephemeral_private handshake);
          dst = dst\<lparr>mi_ephemeral := ephemeral\<rparr>
      in if ok then
        let handshake = handshake\<lparr>hs_chaining_key := wireguard_kdf1 (hs_chaining_key handshake) (mi_ephemeral dst)\<rparr>;
            handshake = handshake\<lparr>hs_hash := wireguard_mix_hash (hs_hash handshake) (mi_ephemeral dst)\<rparr>;
            dh_calculation = snd (dh (hs_ephemeral_private handshake) (pr_public_key peer))
        in if \<not> crypto_equal dh_calculation zero_key WIREGUARD_PUBLIC_KEY_LEN then
          let (ck, key) = wireguard_kdf2 (hs_chaining_key handshake) dh_calculation;
              handshake = handshake\<lparr>hs_chaining_key := ck\<rparr>;
              dst = dst\<lparr>mi_enc_static := chacha20poly1305_encrypt (dv_public_key device) (hs_hash handshake) 0 key\<rparr>;
              handshake = handshake\<lparr>hs_hash := wireguard_mix_hash (hs_hash handshake) (mi_enc_static dst)\<rparr>;
              (ck, key) = wireguard_kdf2 (hs_chaining_key handshake) (pr_public_key_dh peer);
              handshake = handshake\<lparr>hs_chaining_key := ck\<rparr>;
              timestamp = wireguard_tai64n_now w;
              dst = dst\<lparr>mi_enc_timestamp := chacha20poly1305_encrypt timestamp (hs_hash handshake) 0 key\<rparr>;
              handshake = handshake\<lparr>hs_hash := wireguard_mix_hash (hs_hash handshake) (mi_enc_timestamp dst)\<rparr>
          in (True, handshake, dst, w)
        else (False, handshake, dst, w)
      else (False, handshake, dst, w))"

text \<open>The two message codes at the end of the message.\<close>

definition initiation_macs :: "wireguard_peer \<Rightarrow> world \<Rightarrow> message_handshake_initiation \<Rightarrow> message_handshake_initiation" where
  "initiation_macs peer w dst =
     (let dst = dst\<lparr>mi_mac1 := wireguard_mac (take (sizeof_initiation - 2 * WIREGUARD_COOKIE_LEN) (initiation_bytes dst))
                   (pr_label_mac1_key peer)\<rparr>
      in if pr_cookie_millis peer = 0 \<or> wireguard_expired w (pr_cookie_millis peer) COOKIE_SECRET_MAX_AGE
         then dst\<lparr>mi_mac2 := crypto_zero (mi_mac2 dst) WIREGUARD_COOKIE_LEN\<rparr>
         else dst\<lparr>mi_mac2 := wireguard_mac (take (sizeof_initiation - WIREGUARD_COOKIE_LEN) (initiation_bytes dst))
                (pr_cookie peer)\<rparr>)"

text \<open>The result is \<open>None\<close> only if no acceptable index is ever drawn.\<close>

definition wireguard_create_handshake_initiation ::
  "x25519_fn \<Rightarrow> wireguard_device \<Rightarrow> nat \<Rightarrow> world \<Rightarrow>
   (bool \<times> message_handshake_initiation \<times> wireguard_device \<times> world) option" where
  "wireguard_create_handshake_initiation dh device p w =
     (case initiation_noise dh device (peer_at device p) w of (result, handshake, dst, w) \<Rightarrow>
      let device = set_peer device p ((peer_at device p)\<lparr>pr_handshake := handshake\<rparr>)
      in if result then
           case wireguard_generate_unique_index device w of
             None \<Rightarrow> None
           | Some (index, w) \<Rightarrow>
             let dst = dst\<lparr>mi_type := MESSAGE_HANDSHAKE_INITIATION, mi_sender := index\<rparr>;
                 handshake = handshake\<lparr>hs_valid := True, hs_initiator := True, hs_local_index := mi_sender dst\<rparr>;
                 peer = (peer_at device p)\<lparr>pr_handshake := handshake\<rparr>
             in Some (True, initiation_macs peer w dst, set_peer device p peer, w)
         else Some (False, dst, device, w))"

text \<open>The two tests on an authentic initiation.\<close>

definition initiation_replay :: "wireguard_peer \<Rightarrow> bytes \<Rightarrow> bool" where
  "initiation_replay peer t \<longleftrightarrow> memcmp t (pr_greatest_timestamp peer) WIREGUARD_TAI64N_LEN \<le> 0"

definition initiation_rate_limit :: "wireguard_peer \<Rightarrow> u32 \<Rightarrow> bool" where
  "initiation_rate_limit peer now \<longleftrightarrow>
     pr_last_initiation_rx peer - now < of_nat (1000 div MAX_INITIATIONS_PER_SECOND)"

definition wireguard_process_initiation_message ::
  "x25519_fn \<Rightarrow> wireguard_device \<Rightarrow> message_handshake_initiation \<Rightarrow> world \<Rightarrow> nat option \<times> wireguard_device" where
  "wireguard_process_initiation_message dh device msg w =
     (let chaining_key = construction_hash;
          hash = identifier_hash;
          hash = wireguard_mix_hash hash (dv_public_key device);
          chaining_key = wireguard_kdf1 chaining_key (mi_ephemeral msg);
          e = mi_ephemeral msg;
          hash = wireguard_mix_hash hash (mi_ephemeral msg);
          dh_calculation = snd (dh (dv_private_key device) e)
      in if \<not> crypto_equal dh_calculation zero_key WIREGUARD_PUBLIC_KEY_LEN then
        let (chaining_key, key) = wireguard_kdf2 chaining_key dh_calculation in
        case chacha20poly1305_decrypt (mi_enc_static msg) hash 0 key of
          None \<Rightarrow> (None, device)
        | Some s \<Rightarrow>
          let hash = wireguard_mix_hash hash (mi_enc_static msg) in
          case peer_lookup_by_pubkey device s of
            None \<Rightarrow> (None, device)
          | Some p \<Rightarrow>
            let peer = peer_at device p;
                handshake = pr_handshake peer;
                (chaining_key, key) = wireguard_kdf2 chaining_key (pr_public_key_dh peer) in
            case chacha20poly1305_decrypt (mi_enc_timestamp msg) hash 0 key of
              None \<Rightarrow> (None, device)
            | Some t \<Rightarrow>
              let hash = wireguard_mix_hash hash (mi_enc_timestamp msg);
                  now = wireguard_sys_now w;
                  replay = initiation_replay peer t;
                  rate_limit = initiation_rate_limit peer now
              in if \<not> replay \<and> \<not> rate_limit then
                let peer = peer\<lparr>pr_last_initiation_rx := now\<rparr>;
                    peer = (if memcmp t (pr_greatest_timestamp peer) WIREGUARD_TAI64N_LEN > 0
                            then peer\<lparr>pr_greatest_timestamp := t\<rparr> else peer);
                    handshake = handshake\<lparr>hs_remote_ephemeral := e, hs_hash := hash,
                      hs_chaining_key := chaining_key, hs_remote_index := mi_sender msg,
                      hs_valid := True, hs_initiator := False\<rparr>
                in (Some p, set_peer device p (peer\<lparr>pr_handshake := handshake\<rparr>))
              else (None, device)
      else (None, device))"

subsection \<open>Response\<close>

definition zero_response :: message_handshake_response where
  "zero_response = \<lparr>mr_type = 0, mr_reserved = zeros 3, mr_sender = 0, mr_receiver = 0,
     mr_ephemeral = zeros 32, mr_enc_empty = zeros 16, mr_mac1 = zeros 16, mr_mac2 = zeros 16\<rparr>"

definition response_noise ::
  "x25519_fn \<Rightarrow> wireguard_peer \<Rightarrow> world \<Rightarrow>
   bool \<times> wireguard_handshake \<times> message_handshake_response \<times> world" where
  "response_noise dh peer w =
     (let handshake = pr_handshake peer;
          dst = zero_response
      in if hs_valid handshake \<and> \<not> hs_initiator handshake then
        let (private_key, w) = wireguard_generate_private_key w;
            handshake = handshake\<lparr>hs_ephemeral_private := private_key\<rparr>;
            (ok, ephemeral) = wireguard_generate_public_key dh (mr_ephemeral dst) (hs_ephemeral_private handshake);
            dst = dst\<lparr>mr_ephemeral := ephemeral\<rparr>
        in if ok then
          let handshake = handshake\<lparr>hs_chaining_key := wireguard_kdf1 (hs_chaining_key handshake) (mr_ephemeral dst)\<rparr>;
              handshake = handshake\<lparr>hs_hash := wireguard_mix_hash (hs_hash handshake) (mr_ephemeral dst)\<rparr>;
              dh_calculation = snd (dh (hs_ephemeral_private handshake) (hs_remote_ephemeral handshake))
          in if \<not> crypto_equal dh_calculation zero_key WIREGUARD_PUBLIC_KEY_LEN then
            let handshake = handshake\<lparr>hs_chaining_key := wireguard_kdf1 (hs_chaining_key handshake) dh_calculation\<rparr>;
                dh_calculation = snd (dh (hs_ephemeral_private handshake) (pr_public_key peer))
            in if \<not> crypto_equal dh_calculation zero_key WIREGUARD_PUBLIC_KEY_LEN then
              let handshake = handshake\<lparr>hs_chaining_key := wireguard_kdf1 (hs_chaining_key handshake) dh_calculation\<rparr>;
                  (ck, tau, key) = wireguard_kdf3 (hs_chaining_key handshake) (pr_preshared_key peer);
                  handshake = handshake\<lparr>hs_chaining_key := ck\<rparr>;
                  handshake = handshake\<lparr>hs_hash := wireguard_mix_hash (hs_hash handshake) tau\<rparr>;
                  dst = dst\<lparr>mr_enc_empty := chacha20poly1305_encrypt [] (hs_hash handshake) 0 key\<rparr>;
                  handshake = handshake\<lparr>hs_hash := wireguard_mix_hash (hs_hash handshake) (mr_enc_empty dst)\<rparr>
              in (True, handshake, dst, w)
            else (False, handshake, dst, w)
          else (False, handshake, dst, w)
        else (False, handshake, dst, w)
      else (False, handshake, dst, w))"

definition response_macs :: "wireguard_peer \<Rightarrow> world \<Rightarrow> message_handshake_response \<Rightarrow> message_handshake_response" where
  "response_macs peer w dst =
     (let dst = dst\<lparr>mr_mac1 := wireguard_mac (take (sizeof_response - 2 * WIREGUARD_COOKIE_LEN) (response_bytes dst))
                   (pr_label_mac1_key peer)\<rparr>
      in if pr_cookie_millis peer = 0 \<or> wireguard_expired w (pr_cookie_millis peer) COOKIE_SECRET_MAX_AGE
         then dst\<lparr>mr_mac2 := crypto_zero (mr_mac2 dst) WIREGUARD_COOKIE_LEN\<rparr>
         else dst\<lparr>mr_mac2 := wireguard_mac (take (sizeof_response - WIREGUARD_COOKIE_LEN) (response_bytes dst))
                (pr_cookie peer)\<rparr>)"

definition wireguard_create_handshake_response ::
  "x25519_fn \<Rightarrow> wireguard_device \<Rightarrow> nat \<Rightarrow> world \<Rightarrow>
   (bool \<times> message_handshake_response \<times> wireguard_device \<times> world) option" where
  "wireguard_create_handshake_response dh device p w =
     (case response_noise dh (peer_at device p) w of (result, handshake, dst, w) \<Rightarrow>
      let device = set_peer device p ((peer_at device p)\<lparr>pr_handshake := handshake\<rparr>)
      in if result then
           let dst = dst\<lparr>mr_type := MESSAGE_HANDSHAKE_RESPONSE, mr_receiver := hs_remote_index handshake\<rparr> in
           case wireguard_generate_unique_index device w of
             None \<Rightarrow> None
           | Some (index, w) \<Rightarrow>
             let dst = dst\<lparr>mr_sender := index\<rparr>;
                 handshake = handshake\<lparr>hs_local_index := mr_sender dst\<rparr>;
                 peer = (peer_at device p)\<lparr>pr_handshake := handshake\<rparr>
             in Some (True, response_macs peer w dst, set_peer device p peer, w)
         else Some (False, dst, device, w))"

definition wireguard_process_handshake_response ::
  "x25519_fn \<Rightarrow> wireguard_device \<Rightarrow> wireguard_peer \<Rightarrow> message_handshake_response \<Rightarrow> bool \<times> wireguard_peer" where
  "wireguard_process_handshake_response dh device peer src =
     (let handshake = pr_handshake peer
      in if hs_valid handshake \<and> hs_initiator handshake then
        let hash = hs_hash handshake;
            chaining_key = hs_chaining_key handshake;
            ephemeral_private = hs_ephemeral_private handshake;
            chaining_key = wireguard_kdf1 chaining_key (mr_ephemeral src);
            e = mr_ephemeral src;
            hash = wireguard_mix_hash hash (mr_ephemeral src);
            dh_calculation = snd (dh ephemeral_private e)
        in if \<not> crypto_equal dh_calculation zero_key WIREGUARD_PUBLIC_KEY_LEN then
          let chaining_key = wireguard_kdf1 chaining_key dh_calculation;
              dh_calculation = snd (dh (dv_private_key device) e)
          in if \<not> crypto_equal dh_calculation zero_key WIREGUARD_PUBLIC_KEY_LEN then
            let chaining_key = wireguard_kdf1 chaining_key dh_calculation;
                (chaining_key, tau, key) = wireguard_kdf3 chaining_key (pr_preshared_key peer);
                hash = wireguard_mix_hash hash tau
            in case chacha20poly1305_decrypt (mr_enc_empty src) hash 0 key of
                 None \<Rightarrow> (False, peer)
               | Some _ \<Rightarrow>
                 let handshake = handshake\<lparr>hs_remote_ephemeral := e, hs_hash := hash,
                       hs_chaining_key := chaining_key, hs_remote_index := mr_sender src\<rparr>
                 in (True, peer\<lparr>pr_handshake := handshake\<rparr>)
          else (False, peer)
        else (False, peer)
      else (False, peer))"

subsection \<open>Cookies\<close>

definition zero_cookie_reply :: message_cookie_reply where
  "zero_cookie_reply = \<lparr>mc_type = 0, mc_reserved = zeros 3, mc_receiver = 0, mc_nonce = zeros 24,
     mc_enc_cookie = zeros 32\<rparr>"

definition wireguard_create_cookie_reply ::
  "wireguard_device \<Rightarrow> bytes \<Rightarrow> u32 \<Rightarrow> bytes \<Rightarrow> world \<Rightarrow> message_cookie_reply \<times> wireguard_device \<times> world" where
  "wireguard_create_cookie_reply device mac1 index source_addr_port w =
     (let dst = zero_cookie_reply;
          dst = dst\<lparr>mc_type := MESSAGE_COOKIE_REPLY, mc_receiver := index\<rparr>;
          (nonce, w) = wireguard_random_bytes COOKIE_NONCE_LEN w;
          dst = dst\<lparr>mc_nonce := nonce\<rparr>;
          (cookie, device, w) = generate_peer_cookie device source_addr_port w;
          dst = dst\<lparr>mc_enc_cookie := xchacha20poly1305_encrypt cookie mac1 (mc_nonce dst) (dv_label_cookie_key device)\<rparr>
      in (dst, device, w))"

definition wireguard_process_cookie_message ::
  "wireguard_peer \<Rightarrow> message_cookie_reply \<Rightarrow> world \<Rightarrow> bool \<times> wireguard_peer" where
  "wireguard_process_cookie_message peer src w =
     (if pr_handshake_mac1_valid peer then
        case xchacha20poly1305_decrypt (mc_enc_cookie src) (pr_handshake_mac1 peer) (mc_nonce src)
               (pr_label_cookie_key peer) of
          None \<Rightarrow> (False, peer)
        | Some cookie \<Rightarrow>
          (True, peer\<lparr>pr_cookie := cookie, pr_cookie_millis := wireguard_sys_now w,
                      pr_handshake_mac1_valid := False\<rparr>)
      else (False, peer))"

subsection \<open>Initialisation\<close>

text \<open>A missing preshared key is \<open>None\<close>.\<close>

definition wireguard_peer_init ::
  "x25519_fn \<Rightarrow> ip_addr_t \<Rightarrow> wireguard_device \<Rightarrow> bytes \<Rightarrow> bytes option \<Rightarrow> bool \<times> wireguard_peer" where
  "wireguard_peer_init dh ip0 device public_key preshared_key =
     (let peer = zero_peer ip0;
          peer = (if dv_valid device then
            let peer = peer\<lparr>pr_public_key := public_key\<rparr>;
                peer = (case preshared_key of
                          Some k \<Rightarrow> peer\<lparr>pr_preshared_key := k\<rparr>
                        | None \<Rightarrow> peer\<lparr>pr_preshared_key := crypto_zero (pr_preshared_key peer) WIREGUARD_SESSION_KEY_LEN\<rparr>);
                (r, public_key_dh) = dh (dv_private_key device) (pr_public_key peer);
                peer = peer\<lparr>pr_public_key_dh := public_key_dh\<rparr>
            in if r = 0 then
              let peer = peer\<lparr>pr_handshake := zero_handshake\<rparr>;
                  peer = peer\<lparr>pr_handshake := (pr_handshake peer)\<lparr>hs_valid := False\<rparr>\<rparr>;
                  peer = peer\<lparr>pr_cookie_millis := 0, pr_cookie := zeros WIREGUARD_COOKIE_LEN\<rparr>;
                  peer = peer\<lparr>pr_label_mac1_key := wireguard_mac_key (pr_public_key peer) LABEL_MAC1,
                              pr_label_cookie_key := wireguard_mac_key (pr_public_key peer) LABEL_COOKIE\<rparr>
              in peer\<lparr>pr_valid := True\<rparr>
            else peer\<lparr>pr_public_key_dh := crypto_zero (pr_public_key_dh peer) WIREGUARD_PUBLIC_KEY_LEN\<rparr>
          else peer)
      in (pr_valid peer, peer))"

definition wireguard_device_init ::
  "x25519_fn \<Rightarrow> wireguard_device \<Rightarrow> bytes \<Rightarrow> world \<Rightarrow> bool \<times> wireguard_device \<times> world" where
  "wireguard_device_init dh device private_key w =
     (let device = device\<lparr>dv_private_key := private_key\<rparr>;
          device = device\<lparr>dv_private_key := wireguard_clamp_private_key (dv_private_key device)\<rparr>;
          (ok, public_key) = wireguard_generate_public_key dh (dv_public_key device) private_key;
          device = device\<lparr>dv_public_key := public_key, dv_valid := ok\<rparr>
      in if dv_valid device then
           let (device, w) = generate_cookie_secret device w;
               device = device\<lparr>dv_label_mac1_key := wireguard_mac_key (dv_public_key device) LABEL_MAC1\<rparr>;
               device = device\<lparr>dv_label_cookie_key := wireguard_mac_key (dv_public_key device) LABEL_COOKIE\<rparr>
           in (dv_valid device, device, w)
         else
           let device = device\<lparr>dv_private_key := crypto_zero (dv_private_key device) WIREGUARD_PRIVATE_KEY_LEN\<rparr>
           in (dv_valid device, device, w))"

subsection \<open>Specification: the key schedule\<close>

definition KDF :: "nat \<Rightarrow> bytes \<Rightarrow> bytes \<Rightarrow> bytes" where
  "KDF i ck input = HKDF_block (HMAC ck input) i"

definition SEAL :: "bytes \<Rightarrow> bytes \<Rightarrow> bytes \<Rightarrow> bytes" where
  "SEAL k ad m = chacha20poly1305_encrypt m ad 0 k"

text \<open>
  The first message: \<open>sr\<close>, \<open>e\<close> and \<open>s\<close> are the public keys of the responder, the ephemeral
  one and that of the initiator, \<open>es\<close> and \<open>ss\<close> the shared secrets, \<open>t\<close> the timestamp. The
  results are the chaining key, the hash and the two sealed fields.
\<close>

definition noise_initiation ::
  "bytes \<Rightarrow> bytes \<Rightarrow> bytes \<Rightarrow> bytes \<Rightarrow> bytes \<Rightarrow> bytes \<Rightarrow> bytes \<times> bytes \<times> bytes \<times> bytes" where
  "noise_initiation sr e s es ss t =
     (let c0 = HASH CONSTRUCTION;
          h0 = HASH (HASH (c0 @ IDENTIFIER) @ sr);
          c1 = KDF 1 c0 e;
          h1 = HASH (h0 @ e);
          c2 = KDF 1 c1 es;
          enc_static = SEAL (KDF 2 c1 es) h1 s;
          h2 = HASH (h1 @ enc_static);
          c3 = KDF 1 c2 ss;
          enc_timestamp = SEAL (KDF 2 c2 ss) h2 t
      in (c3, HASH (h2 @ enc_timestamp), enc_static, enc_timestamp))"

text \<open>The second message, from the state after the first.\<close>

definition noise_response ::
  "bytes \<Rightarrow> bytes \<Rightarrow> bytes \<Rightarrow> bytes \<Rightarrow> bytes \<Rightarrow> bytes \<Rightarrow> bytes \<times> bytes \<times> bytes" where
  "noise_response c h e ee se psk =
     (let c1 = KDF 1 (KDF 1 (KDF 1 c e) ee) se;
          h1 = HASH (HASH (h @ e) @ KDF 2 c1 psk)
      in (KDF 1 c1 psk, h1, SEAL (KDF 3 c1 psk) h1 []))"

lemma kdf_KDF:
  "wireguard_kdf1 ck d = KDF 1 ck d" "fst (wireguard_kdf2 ck d) = KDF 1 ck d"
  "snd (wireguard_kdf2 ck d) = KDF 2 ck d" "fst (wireguard_kdf3 ck d) = KDF 1 ck d"
  "fst (snd (wireguard_kdf3 ck d)) = KDF 2 ck d" "snd (snd (wireguard_kdf3 ck d)) = KDF 3 ck d"
  by (simp_all add: KDF_def kdf1_eq kdf2_eq kdf3_eq del: HKDF_block.simps)

lemma length_HASH_ad [simp]: "aead_fits (HASH x)"
  by (simp add: aead_fits_def)

lemma unseal_SEAL: "length m \<le> 64 \<Longrightarrow> chacha20poly1305_decrypt (SEAL k (HASH x) m) (HASH x) 0 k = Some m"
  by (simp add: SEAL_def decrypt_encrypt)

lemma length_SEAL [simp, length_simps]: "length (SEAL k ad m) = length m + 16"
  by (simp add: SEAL_def)

lemmas schedule = Let_def split_beta kdf_KDF mix_hash_eq construction_hash_eq identifier_hash_eq
  SEAL_def [symmetric]

lemma clock_frame [simp, frame_simps]:
  "wireguard_tai64n_now (w\<lparr>w_drawn := n\<rparr>) = wireguard_tai64n_now w"
  "wireguard_expired (w\<lparr>w_drawn := n\<rparr>) c v = wireguard_expired w c v"
  by (simp_all add: wireguard_tai64n_now_def tai64n_millis_def wireguard_expired_def wireguard_sys_now_def)

lemma private_key_world: "snd (wireguard_generate_private_key w) = w\<lparr>w_drawn := w_drawn w + 32\<rparr>"
  by (simp add: wireguard_generate_private_key_def wireguard_random_bytes_def wg_lengths)

lemma public_key_ok:
  "wireguard_generate_public_key dh old k = (True, e) \<Longrightarrow> e = snd (dh k basepoint)"
  by (auto simp: wireguard_generate_public_key_def split: prod.splits if_splits)

lemma initiation_noise_ok:
  assumes "initiation_noise dh device peer w = (True, hs, dst, w')"
  shows "\<exists>x. let e = snd (dh x basepoint); es = snd (dh x (pr_public_key peer));
      n = noise_initiation (pr_public_key peer) e (dv_public_key device) es (pr_public_key_dh peer)
        (wireguard_tai64n_now w)
    in \<not> crypto_equal es zero_key 32 \<and> w' = w\<lparr>w_drawn := w_drawn w + 32\<rparr> \<and>
      hs = (pr_handshake peer)\<lparr>hs_chaining_key := fst n, hs_hash := fst (snd n), hs_ephemeral_private := x\<rparr> \<and>
      dst = zero_initiation\<lparr>mi_ephemeral := e, mi_enc_static := fst (snd (snd n)),
        mi_enc_timestamp := snd (snd (snd n))\<rparr>"
proof -
  obtain x v where x: "wireguard_generate_private_key w = (x, v)" by fastforce
  then have v: "v = w\<lparr>w_drawn := w_drawn w + 32\<rparr>" using private_key_world [of w] by simp
  obtain ok e where g: "wireguard_generate_public_key dh (zeros 32) x = (ok, e)" by fastforce
  have ok: ok "\<not> crypto_equal (snd (dh x (pr_public_key peer))) zero_key 32"
    using assms by (auto simp: initiation_noise_def x g Let_def split_beta zero_initiation_def
        WIREGUARD_PUBLIC_KEY_LEN_def split: if_splits)
  then have e: "e = snd (dh x basepoint)" using g public_key_ok [of dh "zeros 32" x e] by simp
  have "hs = (pr_handshake peer)\<lparr>
      hs_chaining_key := fst (noise_initiation (pr_public_key peer) e (dv_public_key device)
        (snd (dh x (pr_public_key peer))) (pr_public_key_dh peer) (wireguard_tai64n_now w)),
      hs_hash := fst (snd (noise_initiation (pr_public_key peer) e (dv_public_key device)
        (snd (dh x (pr_public_key peer))) (pr_public_key_dh peer) (wireguard_tai64n_now w))),
      hs_ephemeral_private := x\<rparr> \<and>
    dst = zero_initiation\<lparr>mi_ephemeral := e,
      mi_enc_static := fst (snd (snd (noise_initiation (pr_public_key peer) e (dv_public_key device)
        (snd (dh x (pr_public_key peer))) (pr_public_key_dh peer) (wireguard_tai64n_now w)))),
      mi_enc_timestamp := snd (snd (snd (noise_initiation (pr_public_key peer) e (dv_public_key device)
        (snd (dh x (pr_public_key peer))) (pr_public_key_dh peer) (wireguard_tai64n_now w))))\<rparr> \<and> w' = v"
    using assms ok by (auto simp: initiation_noise_def x g zero_initiation_def noise_initiation_def v
        WIREGUARD_PUBLIC_KEY_LEN_def schedule)
  then show ?thesis using ok e v by (auto simp: Let_def)
qed

lemma process_initiation_accepts:
  assumes n: "noise_initiation (dv_public_key device) (mi_ephemeral msg) s es
      (pr_public_key_dh (peer_at device p)) t = (ck, h, mi_enc_static msg, mi_enc_timestamp msg)"
    and es: "es = snd (dh (dv_private_key device) (mi_ephemeral msg))" "\<not> crypto_equal es zero_key 32"
    and p: "peer_lookup_by_pubkey device s = Some p" and len: "length s \<le> 64" "length t \<le> 64"
    and fresh: "\<not> initiation_replay (peer_at device p) t" "\<not> initiation_rate_limit (peer_at device p) (w_now w)"
  shows "wireguard_process_initiation_message dh device msg w =
    (Some p, set_peer device p ((peer_at device p)\<lparr>pr_last_initiation_rx := w_now w, pr_greatest_timestamp := t,
       pr_handshake := (pr_handshake (peer_at device p))\<lparr>hs_remote_ephemeral := mi_ephemeral msg, hs_hash := h,
         hs_chaining_key := ck, hs_remote_index := mi_sender msg, hs_valid := True, hs_initiator := False\<rparr>\<rparr>))"
proof -
  have c: "mi_enc_static msg = fst (snd (snd (noise_initiation (dv_public_key device) (mi_ephemeral msg) s es
      (pr_public_key_dh (peer_at device p)) t)))"
    "mi_enc_timestamp msg = snd (snd (snd (noise_initiation (dv_public_key device) (mi_ephemeral msg) s es
      (pr_public_key_dh (peer_at device p)) t)))" using n by simp_all
  define c1 where "c1 = KDF 1 (HASH CONSTRUCTION) (mi_ephemeral msg)"
  define h1 where "h1 = HASH (HASH (HASH (HASH CONSTRUCTION @ IDENTIFIER) @ dv_public_key device) @ mi_ephemeral msg)"
  have s: "chacha20poly1305_decrypt (mi_enc_static msg) h1 0 (KDF 2 c1 es) = Some s"
    unfolding c h1_def c1_def using len(1) by (simp add: noise_initiation_def Let_def unseal_SEAL)
  have t: "chacha20poly1305_decrypt (mi_enc_timestamp msg) (HASH (h1 @ mi_enc_static msg)) 0
      (KDF 2 (KDF 1 c1 es) (pr_public_key_dh (peer_at device p))) = Some t"
    unfolding c h1_def c1_def using len(2) by (simp add: noise_initiation_def Let_def unseal_SEAL)
  have st: "ck = KDF 1 (KDF 1 c1 es) (pr_public_key_dh (peer_at device p))"
    "h = HASH (HASH (h1 @ mi_enc_static msg) @ mi_enc_timestamp msg)"
    using n by (auto simp: noise_initiation_def Let_def c1_def h1_def)
  have "memcmp t (pr_greatest_timestamp (peer_at device p)) WIREGUARD_TAI64N_LEN > 0"
    using fresh(1) by (simp add: initiation_replay_def)
  with fresh es(2) show ?thesis
    unfolding wireguard_process_initiation_message_def
    by (simp add: schedule WIREGUARD_PUBLIC_KEY_LEN_def es(1) [symmetric] c1_def [symmetric] h1_def [symmetric]
        s t p st wireguard_sys_now_def del: One_nat_def)
qed

lemma response_noise_ok:
  assumes "response_noise dh peer w = (True, hs, dst, w')"
  shows "\<exists>x. let e = snd (dh x basepoint); ee = snd (dh x (hs_remote_ephemeral (pr_handshake peer)));
      se = snd (dh x (pr_public_key peer));
      n = noise_response (hs_chaining_key (pr_handshake peer)) (hs_hash (pr_handshake peer)) e ee se
        (pr_preshared_key peer)
    in hs_valid (pr_handshake peer) \<and> \<not> hs_initiator (pr_handshake peer) \<and>
      \<not> crypto_equal ee zero_key 32 \<and> \<not> crypto_equal se zero_key 32 \<and>
      w' = w\<lparr>w_drawn := w_drawn w + 32\<rparr> \<and>
      hs = (pr_handshake peer)\<lparr>hs_chaining_key := fst n, hs_hash := HASH (fst (snd n) @ snd (snd n)),
        hs_ephemeral_private := x\<rparr> \<and>
      dst = zero_response\<lparr>mr_ephemeral := e, mr_enc_empty := snd (snd n)\<rparr>"
proof -
  obtain x v where x: "wireguard_generate_private_key w = (x, v)" by fastforce
  then have v: "v = w\<lparr>w_drawn := w_drawn w + 32\<rparr>" using private_key_world [of w] by simp
  obtain ok e where g: "wireguard_generate_public_key dh (zeros 32) x = (ok, e)" by fastforce
  note unfolds = response_noise_def x g Let_def split_beta zero_response_def WIREGUARD_PUBLIC_KEY_LEN_def
  have ok: ok "hs_valid (pr_handshake peer)" "\<not> hs_initiator (pr_handshake peer)"
    "\<not> crypto_equal (snd (dh x (hs_remote_ephemeral (pr_handshake peer)))) zero_key 32"
    "\<not> crypto_equal (snd (dh x (pr_public_key peer))) zero_key 32"
    using assms by (auto simp: unfolds split: if_splits)
  have e: "e = snd (dh x basepoint)" using g ok(1) public_key_ok [of dh "zeros 32" x e] by simp
  show ?thesis
    using assms ok by (intro exI [of _ x]) (auto simp: unfolds noise_response_def v schedule e)
qed

lemma process_response_accepts:
  assumes hs: "hs_valid (pr_handshake peer)" "hs_initiator (pr_handshake peer)"
    and n: "noise_response (hs_chaining_key (pr_handshake peer)) (hs_hash (pr_handshake peer)) (mr_ephemeral src)
      ee se (pr_preshared_key peer) = (ck, h, mr_enc_empty src)"
    and ee: "ee = snd (dh (hs_ephemeral_private (pr_handshake peer)) (mr_ephemeral src))" "\<not> crypto_equal ee zero_key 32"
    and se: "se = snd (dh (dv_private_key device) (mr_ephemeral src))" "\<not> crypto_equal se zero_key 32"
  shows "wireguard_process_handshake_response dh device peer src =
    (True, peer\<lparr>pr_handshake := (pr_handshake peer)\<lparr>hs_remote_ephemeral := mr_ephemeral src, hs_hash := h,
       hs_chaining_key := ck, hs_remote_index := mr_sender src\<rparr>\<rparr>)"
proof -
  define c1 where "c1 = KDF 1 (KDF 1 (KDF 1 (hs_chaining_key (pr_handshake peer)) (mr_ephemeral src)) ee) se"
  have h: "h = HASH (HASH (hs_hash (pr_handshake peer) @ mr_ephemeral src) @ KDF 2 c1 (pr_preshared_key peer))"
    "ck = KDF 1 c1 (pr_preshared_key peer)" "mr_enc_empty src = SEAL (KDF 3 c1 (pr_preshared_key peer)) h []"
    using n by (auto simp: noise_response_def Let_def c1_def)
  have "chacha20poly1305_decrypt (mr_enc_empty src) h 0 (KDF 3 c1 (pr_preshared_key peer)) = Some []"
    unfolding h(3) unfolding h(1) by (rule unseal_SEAL) simp
  with hs ee(2) se(2) show ?thesis
    unfolding wireguard_process_handshake_response_def
    by (simp add: schedule WIREGUARD_PUBLIC_KEY_LEN_def ee(1) [symmetric] se(1) [symmetric] c1_def [symmetric]
        h(1) [symmetric] h(2) del: One_nat_def)
qed

subsection \<open>Two devices\<close>

text \<open>
  What the theorems ask of the key agreement: keys of 32 bytes, and that the two ends of an
  exchange compute the same secret.
\<close>

definition key_agreement :: "x25519_fn \<Rightarrow> bool" where
  "key_agreement dh \<longleftrightarrow> (\<forall>a p. length (snd (dh a p)) = 32) \<and>
     (\<forall>a b. snd (dh a (snd (dh b basepoint))) = snd (dh b (snd (dh a basepoint))))"

text \<open>\<open>A\<close> has its key pair, and its peer 0 is \<open>B\<close>.\<close>

definition knows :: "x25519_fn \<Rightarrow> wireguard_device \<Rightarrow> wireguard_device \<Rightarrow> bool" where
  "knows dh A B \<longleftrightarrow>
     length (dv_peers A) = WIREGUARD_MAX_PEERS \<and> dv_public_key A = snd (dh (dv_private_key A) basepoint) \<and>
     dv_label_mac1_key A = wireguard_mac_key (dv_public_key A) LABEL_MAC1 \<and>
     dv_label_cookie_key A = wireguard_mac_key (dv_public_key A) LABEL_COOKIE \<and> length (dv_cookie_secret A) = 32 \<and>
     (let p = peer_at A 0 in
        pr_valid p \<and> pr_public_key p = dv_public_key B \<and>
        pr_public_key_dh p = snd (dh (dv_private_key A) (dv_public_key B)) \<and>
        pr_label_mac1_key p = wireguard_mac_key (pr_public_key p) LABEL_MAC1 \<and>
        pr_label_cookie_key p = wireguard_mac_key (pr_public_key p) LABEL_COOKIE \<and> length (pr_cookie p) = 16)"

definition introduced :: "x25519_fn \<Rightarrow> wireguard_device \<Rightarrow> wireguard_device \<Rightarrow> bool" where
  "introduced dh A B \<longleftrightarrow> knows dh A B \<and> knows dh B A \<and>
     pr_preshared_key (peer_at A 0) = pr_preshared_key (peer_at B 0)"

lemma initiation_macs_fields [simp]:
  "mi_type (initiation_macs p w m) = mi_type m" "mi_sender (initiation_macs p w m) = mi_sender m"
  "mi_reserved (initiation_macs p w m) = mi_reserved m"
  "mi_ephemeral (initiation_macs p w m) = mi_ephemeral m"
  "mi_enc_static (initiation_macs p w m) = mi_enc_static m"
  "mi_enc_timestamp (initiation_macs p w m) = mi_enc_timestamp m"
  by (simp_all add: initiation_macs_def Let_def)

lemma response_macs_fields [simp]:
  "mr_type (response_macs p w m) = mr_type m" "mr_sender (response_macs p w m) = mr_sender m"
  "mr_reserved (response_macs p w m) = mr_reserved m" "mr_receiver (response_macs p w m) = mr_receiver m"
  "mr_ephemeral (response_macs p w m) = mr_ephemeral m"
  "mr_enc_empty (response_macs p w m) = mr_enc_empty m"
  by (simp_all add: response_macs_def Let_def)

lemma length_crypto_zero [simp, length_simps]: "length (crypto_zero p n) = length p"
  by (induction p n rule: crypto_zero.induct) simp_all

lemma initiation_macs_wf:
  "initiation_wf m \<Longrightarrow> length (pr_label_mac1_key p) \<le> 32 \<Longrightarrow> length (pr_cookie p) \<le> 32 \<Longrightarrow>
   initiation_wf (initiation_macs p w m)"
  by (simp add: initiation_wf_def initiation_macs_def Let_def)

lemma response_macs_wf:
  "response_wf m \<Longrightarrow> length (pr_label_mac1_key p) \<le> 32 \<Longrightarrow> length (pr_cookie p) \<le> 32 \<Longrightarrow>
   response_wf (response_macs p w m)"
  by (simp add: response_wf_def response_macs_def Let_def)

lemma create_initiation_ok:
  assumes "wireguard_create_handshake_initiation dh A p w = Some (True, m, A', w')" "p < length (dv_peers A)"
  obtains hs dst wn i where "initiation_noise dh A (peer_at A p) w = (True, hs, dst, wn)"
    "wireguard_generate_unique_index (set_peer A p ((peer_at A p)\<lparr>pr_handshake := hs\<rparr>)) wn = Some (i, w')"
    "m = initiation_macs (peer_at A' p) w' (dst\<lparr>mi_type := MESSAGE_HANDSHAKE_INITIATION, mi_sender := i\<rparr>)"
    "A' = set_peer A p ((peer_at A p)\<lparr>pr_handshake := hs\<lparr>hs_valid := True, hs_initiator := True, hs_local_index := i\<rparr>\<rparr>)"
  using assms by (auto simp: wireguard_create_handshake_initiation_def Let_def split: prod.splits if_splits option.splits)

lemma create_response_ok:
  assumes "wireguard_create_handshake_response dh B p w = Some (True, m, B', w')" "p < length (dv_peers B)"
  obtains hs dst wn i where "response_noise dh (peer_at B p) w = (True, hs, dst, wn)"
    "wireguard_generate_unique_index (set_peer B p ((peer_at B p)\<lparr>pr_handshake := hs\<rparr>)) wn = Some (i, w')"
    "m = response_macs (peer_at B' p) w' (dst\<lparr>mr_type := MESSAGE_HANDSHAKE_RESPONSE,
       mr_receiver := hs_remote_index hs, mr_sender := i\<rparr>)"
    "B' = set_peer B p ((peer_at B p)\<lparr>pr_handshake := hs\<lparr>hs_local_index := i\<rparr>\<rparr>)"
  using assms by (auto simp: wireguard_create_handshake_response_def Let_def split: prod.splits if_splits option.splits)

lemma length_noise_initiation:
  "length (fst (snd (snd (noise_initiation sr e s es ss t)))) = length s + 16"
  "length (snd (snd (snd (noise_initiation sr e s es ss t)))) = length t + 16"
  by (simp_all add: noise_initiation_def Let_def)

lemma length_noise_response: "length (snd (snd (noise_response c h e ee se psk))) = 16"
  by (simp add: noise_response_def Let_def)

text \<open>The first message between two devices that know each other.\<close>

lemma initiation_exchange:
  assumes ka: "key_agreement dh" and intro: "introduced dh A B"
    and create: "wireguard_create_handshake_initiation dh A 0 w = Some (True, m, A1, w1)"
    and fresh: "\<not> initiation_replay (peer_at B 0) (wireguard_tai64n_now w)"
      "\<not> initiation_rate_limit (peer_at B 0) (w_now v)"
  obtains x ck h where "hs_ephemeral_private (pr_handshake (peer_at A1 0)) = x"
    "peer_at A1 0 = (peer_at A 0)\<lparr>pr_handshake := pr_handshake (peer_at A1 0)\<rparr>"
    "hs_valid (pr_handshake (peer_at A1 0))" "hs_initiator (pr_handshake (peer_at A1 0))"
    "hs_chaining_key (pr_handshake (peer_at A1 0)) = ck" "hs_hash (pr_handshake (peer_at A1 0)) = h"
    "hs_local_index (pr_handshake (peer_at A1 0)) = mi_sender m" "A1 = set_peer A 0 (peer_at A1 0)"
    "mi_ephemeral m = snd (dh x basepoint)" "initiation_wf m"
    "wireguard_process_initiation_message dh B m v =
      (Some 0, set_peer B 0 ((peer_at B 0)\<lparr>pr_last_initiation_rx := w_now v,
        pr_greatest_timestamp := wireguard_tai64n_now w,
        pr_handshake := (pr_handshake (peer_at B 0))\<lparr>hs_remote_ephemeral := mi_ephemeral m, hs_hash := h,
          hs_chaining_key := ck, hs_remote_index := mi_sender m, hs_valid := True, hs_initiator := False\<rparr>\<rparr>))"
proof -
  note A = intro [unfolded introduced_def knows_def Let_def]
  have lenA: "0 < length (dv_peers A)" "0 < length (dv_peers B)" using A by (simp_all add: WIREGUARD_MAX_PEERS_def)
  from create lenA(1) obtain hs dst wn i where n: "initiation_noise dh A (peer_at A 0) w = (True, hs, dst, wn)"
    and m: "m = initiation_macs (peer_at A1 0) w1 (dst\<lparr>mi_type := MESSAGE_HANDSHAKE_INITIATION, mi_sender := i\<rparr>)"
    and A1: "A1 = set_peer A 0 ((peer_at A 0)\<lparr>pr_handshake := hs\<lparr>hs_valid := True, hs_initiator := True, hs_local_index := i\<rparr>\<rparr>)"
    by (rule create_initiation_ok)
  from initiation_noise_ok [OF n, unfolded Let_def] obtain x nn where
    nn: "nn = noise_initiation (pr_public_key (peer_at A 0)) (snd (dh x basepoint)) (dv_public_key A)
      (snd (dh x (pr_public_key (peer_at A 0)))) (pr_public_key_dh (peer_at A 0)) (wireguard_tai64n_now w)"
    and nz: "\<not> crypto_equal (snd (dh x (pr_public_key (peer_at A 0)))) zero_key 32"
    and hs: "hs = (pr_handshake (peer_at A 0))\<lparr>hs_chaining_key := fst nn, hs_hash := fst (snd nn), hs_ephemeral_private := x\<rparr>"
    and dst: "dst = zero_initiation\<lparr>mi_ephemeral := snd (dh x basepoint), mi_enc_static := fst (snd (snd nn)),
        mi_enc_timestamp := snd (snd (snd nn))\<rparr>" by blast
  have pkA: "pr_public_key (peer_at A 0) = dv_public_key B" "pr_public_key (peer_at B 0) = dv_public_key A"
    and lens: "length (dv_public_key A) = 32"
    using A ka by (auto simp: key_agreement_def)
  have dh: "snd (dh x (dv_public_key B)) = snd (dh (dv_private_key B) (snd (dh x basepoint)))"
    "pr_public_key_dh (peer_at A 0) = pr_public_key_dh (peer_at B 0)"
    using A ka by (metis key_agreement_def)+
  have fields: "mi_ephemeral m = snd (dh x basepoint)" "mi_enc_static m = fst (snd (snd nn))"
    "mi_enc_timestamp m = snd (snd (snd nn))" "mi_sender m = i"
    by (simp_all add: m dst)
  have "initiation_wf (dst\<lparr>mi_type := MESSAGE_HANDSHAKE_INITIATION, mi_sender := i\<rparr>)"
    using ka lens by (simp add: initiation_wf_def dst nn length_noise_initiation zero_initiation_def key_agreement_def)
  then have wf: "initiation_wf m"
    unfolding m using A lenA by (intro initiation_macs_wf) (simp_all add: A1)
  have lookup: "peer_lookup_by_pubkey B (dv_public_key A) = Some 0"
    using A lens by (simp add: peer_lookup_by_pubkey_def WIREGUARD_MAX_PEERS_def memcmp_eq_0 WIREGUARD_PUBLIC_KEY_LEN_def)
  have run: "noise_initiation (dv_public_key B) (mi_ephemeral m) (dv_public_key A)
      (snd (dh (dv_private_key B) (mi_ephemeral m))) (pr_public_key_dh (peer_at B 0)) (wireguard_tai64n_now w) =
      (fst nn, fst (snd nn), mi_enc_static m, mi_enc_timestamp m)"
    by (simp add: fields nn pkA dh)
  have "\<not> crypto_equal (snd (dh (dv_private_key B) (mi_ephemeral m))) zero_key 32"
    using nz by (simp add: fields pkA dh)
  with process_initiation_accepts [where dh = dh and device = B and msg = m and p = 0, OF run] lookup lens fresh
  have acc: "wireguard_process_initiation_message dh B m v =
      (Some 0, set_peer B 0 ((peer_at B 0)\<lparr>pr_last_initiation_rx := w_now v,
        pr_greatest_timestamp := wireguard_tai64n_now w,
        pr_handshake := (pr_handshake (peer_at B 0))\<lparr>hs_remote_ephemeral := mi_ephemeral m, hs_hash := fst (snd nn),
          hs_chaining_key := fst nn, hs_remote_index := mi_sender m, hs_valid := True, hs_initiator := False\<rparr>\<rparr>))"
    by simp
  have "peer_at A1 0 = (peer_at A 0)\<lparr>pr_handshake := hs\<lparr>hs_valid := True, hs_initiator := True, hs_local_index := i\<rparr>\<rparr>"
    using lenA by (simp add: A1)
  with acc wf fields show thesis
    by (intro that [of x "fst nn" "fst (snd nn)"]) (simp_all add: hs A1 lenA)
qed

text \<open>The second message.\<close>

lemma response_exchange:
  assumes ka: "key_agreement dh" and intro: "introduced dh A B"
    and pA: "pr_public_key p = pr_public_key (peer_at A 0)" "pr_preshared_key p = pr_preshared_key (peer_at A 0)"
      "hs_valid (pr_handshake p)" "hs_initiator (pr_handshake p)" "dv_private_key A1 = dv_private_key A"
    and qB: "q = peer_at B1 0" "0 < length (dv_peers B1)" "pr_public_key q = pr_public_key (peer_at B 0)"
      "pr_preshared_key q = pr_preshared_key (peer_at B 0)" "pr_label_mac1_key q = pr_label_mac1_key (peer_at B 0)"
      "pr_cookie q = pr_cookie (peer_at B 0)"
    and state: "hs_chaining_key (pr_handshake q) = hs_chaining_key (pr_handshake p)"
      "hs_hash (pr_handshake q) = hs_hash (pr_handshake p)"
      "hs_remote_ephemeral (pr_handshake q) = snd (dh (hs_ephemeral_private (pr_handshake p)) basepoint)"
    and create: "wireguard_create_handshake_response dh B1 0 v = Some (True, m, B2, v2)"
  shows "mr_receiver m = hs_remote_index (pr_handshake q) \<and> response_wf m \<and>
    (\<exists>p'. wireguard_process_handshake_response dh A1 p m = (True, p') \<and>
      hs_chaining_key (pr_handshake p') = hs_chaining_key (pr_handshake (peer_at B2 0)) \<and>
      hs_local_index (pr_handshake p') = hs_local_index (pr_handshake p) \<and>
      hs_remote_index (pr_handshake p') = hs_local_index (pr_handshake (peer_at B2 0)) \<and>
      hs_remote_index (pr_handshake (peer_at B2 0)) = hs_remote_index (pr_handshake q))"
proof -
  note A = intro [unfolded introduced_def knows_def Let_def]
  from create qB(2) obtain hs dst wn i where n: "response_noise dh q v = (True, hs, dst, wn)"
    and m: "m = response_macs (peer_at B2 0) v2 (dst\<lparr>mr_type := MESSAGE_HANDSHAKE_RESPONSE,
       mr_receiver := hs_remote_index hs, mr_sender := i\<rparr>)"
    and B2: "B2 = set_peer B1 0 (q\<lparr>pr_handshake := hs\<lparr>hs_local_index := i\<rparr>\<rparr>)"
    unfolding qB(1) by (rule create_response_ok)
  let ?hp = "pr_handshake p" and ?hq = "pr_handshake q"
  from response_noise_ok [OF n, unfolded Let_def] obtain y nn where
    nn: "nn = noise_response (hs_chaining_key ?hq) (hs_hash ?hq) (snd (dh y basepoint))
      (snd (dh y (hs_remote_ephemeral ?hq))) (snd (dh y (pr_public_key q))) (pr_preshared_key q)"
    and nz: "\<not> crypto_equal (snd (dh y (hs_remote_ephemeral ?hq))) zero_key 32"
      "\<not> crypto_equal (snd (dh y (pr_public_key q))) zero_key 32"
    and hs: "hs = ?hq\<lparr>hs_chaining_key := fst nn, hs_hash := HASH (fst (snd nn) @ snd (snd nn)), hs_ephemeral_private := y\<rparr>"
    and dst: "dst = zero_response\<lparr>mr_ephemeral := snd (dh y basepoint), mr_enc_empty := snd (snd nn)\<rparr>" by blast
  have fields: "mr_ephemeral m = snd (dh y basepoint)" "mr_enc_empty m = snd (snd nn)" "mr_sender m = i"
    "mr_receiver m = hs_remote_index ?hq" by (simp_all add: m dst hs)
  have peer2: "peer_at B2 0 = q\<lparr>pr_handshake := hs\<lparr>hs_local_index := i\<rparr>\<rparr>" using qB(2) by (simp add: B2)
  have "response_wf (dst\<lparr>mr_type := MESSAGE_HANDSHAKE_RESPONSE, mr_receiver := hs_remote_index hs, mr_sender := i\<rparr>)"
    using ka by (simp add: response_wf_def dst nn length_noise_response zero_response_def key_agreement_def)
  then have wf: "response_wf m"
    unfolding m using A qB by (intro response_macs_wf) (simp_all add: peer2)
  have dhs: "snd (dh y (hs_remote_ephemeral ?hq)) = snd (dh (hs_ephemeral_private ?hp) (mr_ephemeral m))"
    "snd (dh y (pr_public_key q)) = snd (dh (dv_private_key A1) (mr_ephemeral m))"
    using A ka qB(3) pA(5) by (metis fields(1) state(3) key_agreement_def)+
  have "noise_response (hs_chaining_key ?hp) (hs_hash ?hp) (mr_ephemeral m)
      (snd (dh (hs_ephemeral_private ?hp) (mr_ephemeral m))) (snd (dh (dv_private_key A1) (mr_ephemeral m)))
      (pr_preshared_key p) = (fst nn, fst (snd nn), mr_enc_empty m)"
    using A pA(2) qB(4) unfolding dhs [symmetric] by (simp add: nn fields(1,2) state(1,2))
  from process_response_accepts [where dh = dh and device = A1 and src = m, OF pA(3,4) this] nz
  show ?thesis using wf by (simp add: dhs fields(3,4) peer2 hs)
qed

subsection \<open>Success of a creation\<close>

lemma clamped_nonzero: "length k = 32 \<Longrightarrow> memcmp (wireguard_clamp_private_key k) (zeros 32) 32 \<noteq> 0"
proof
  assume len: "length k = 32" and z: "memcmp (wireguard_clamp_private_key k) (zeros 32) 32 = 0"
  then have "wireguard_clamp_private_key k = zeros 32"
    by (subst (asm) memcmp_eq_0) (simp_all add: wireguard_clamp_private_key_def Let_def)
  from arg_cong [OF this, of "\<lambda>k. bit (k ! 31) 6"] len show False
    by (simp add: wireguard_clamp_private_key_def Let_def zeros_def bit_simps)
qed

lemma generated_public_key:
  "wireguard_generate_public_key dh old (fst (wireguard_generate_private_key w)) =
   (fst (dh (fst (wireguard_generate_private_key w)) basepoint) = 0,
    snd (dh (fst (wireguard_generate_private_key w)) basepoint))"
  using clamped_nonzero [of "fst (wireguard_random_bytes 32 w)"]
  by (simp add: wireguard_generate_public_key_def wireguard_generate_private_key_def wg_lengths split_beta)

lemma initiation_noise_fst:
  assumes "wireguard_generate_private_key w = (x, v)"
  shows "fst (initiation_noise dh device peer w) \<longleftrightarrow>
    fst (dh x basepoint) = 0 \<and> \<not> crypto_equal (snd (dh x (pr_public_key peer))) zero_key 32"
proof -
  have g: "wireguard_generate_public_key dh old x = (fst (dh x basepoint) = 0, snd (dh x basepoint))" for old
    using generated_public_key [of dh old w] assms by simp
  show ?thesis
    by (simp add: initiation_noise_def assms g Let_def split_beta WIREGUARD_PUBLIC_KEY_LEN_def)
qed

lemma index_ok_handshake:
  "hs_local_index hs = hs_local_index (pr_handshake (peer_at d p)) \<Longrightarrow>
   index_ok (set_peer d p ((peer_at d p)\<lparr>pr_handshake := hs\<rparr>)) i = index_ok d i"
  by (cases "p < length (dv_peers d)"; cases "p = 0")
    (simp_all add: index_ok_def index_existing_def WIREGUARD_MAX_PEERS_def set_peer_def Let_def)

lemma create_initiation_succeeds:
  assumes x: "wireguard_generate_private_key w = (x, v)"
    and dh: "fst (dh x basepoint) = 0" "\<not> crypto_equal (snd (dh x (pr_public_key (peer_at device p)))) zero_key 32"
    and k: "index_ok device (nth_draw v k)" "\<forall>j<k. \<not> index_ok device (nth_draw v j)"
  shows "\<exists>m device' w'. wireguard_create_handshake_initiation dh device p w = Some (True, m, device', w')"
proof -
  obtain hs dst wn where n: "initiation_noise dh device (peer_at device p) w = (True, hs, dst, wn)"
    using initiation_noise_fst [OF x, of dh device "peer_at device p"] dh
    by (cases "initiation_noise dh device (peer_at device p) w") auto
  from initiation_noise_ok [OF n] have wn: "wn = v" "hs_local_index hs = hs_local_index (pr_handshake (peer_at device p))"
    using private_key_world [of w] x by (auto simp: Let_def)
  have "wireguard_generate_unique_index (set_peer device p ((peer_at device p)\<lparr>pr_handshake := hs\<rparr>)) v =
      Some (nth_draw v k, skip_draws v (Suc k))"
    using k by (intro unique_index_first) (simp_all add: index_ok_handshake wn(2))
  then show ?thesis by (simp add: wireguard_create_handshake_initiation_def n Let_def wn(1))
qed

subsection \<open>Properties\<close>

text \<open>
  C10. The handshake succeeds and agrees. Let two devices hold each other's public key and the
  same preshared key, and let the key agreement commute. If one creates an initiation, the
  other accepts its bytes for its peer 0, provided the timestamp is later than the last one
  and the rate limit does not apply. Whenever it then creates a response, the first device
  finds its handshake by the receiver index, accepts the bytes of the response, and the
  sessions that both then start have crossed keys and crossed indices.
\<close>

theorem handshake_agreement:
  assumes "key_agreement dh" and "introduced dh A B"
    and "wireguard_create_handshake_initiation dh A 0 w = Some (True, m1, A1, w1)"
    and "\<not> initiation_replay (peer_at B 0) (wireguard_tai64n_now w)" "\<not> initiation_rate_limit (peer_at B 0) (w_now v)"
  shows "\<exists>B1. wireguard_process_initiation_message dh B (initiation_of (initiation_bytes m1)) v = (Some 0, B1) \<and>
    (\<forall>v1 m2 B2 v2. wireguard_create_handshake_response dh B1 0 v1 = Some (True, m2, B2, v2) \<longrightarrow>
      (let m = response_of (response_bytes m2) in
       peer_lookup_by_handshake A1 (mr_receiver m) = Some 0 \<and>
       (\<exists>p. wireguard_process_handshake_response dh A1 (peer_at A1 0) m = (True, p) \<and>
         (\<forall>t u. let i = pr_curr_keypair (wireguard_start_session t p True);
                   r = pr_next_keypair (wireguard_start_session u (peer_at B2 0) False)
               in kp_sending_key i = kp_receiving_key r \<and> kp_sending_key r = kp_receiving_key i \<and>
                  kp_local_index i = kp_remote_index r \<and> kp_local_index r = kp_remote_index i))))"
proof -
  note A = assms(2) [unfolded introduced_def knows_def Let_def]
  have lens: "0 < length (dv_peers A)" "0 < length (dv_peers B)" using A by (simp_all add: WIREGUARD_MAX_PEERS_def)
  obtain x ck h where a: "hs_ephemeral_private (pr_handshake (peer_at A1 0)) = x"
    "peer_at A1 0 = (peer_at A 0)\<lparr>pr_handshake := pr_handshake (peer_at A1 0)\<rparr>"
    "hs_valid (pr_handshake (peer_at A1 0))" "hs_initiator (pr_handshake (peer_at A1 0))"
    "hs_chaining_key (pr_handshake (peer_at A1 0)) = ck" "hs_hash (pr_handshake (peer_at A1 0)) = h"
    "hs_local_index (pr_handshake (peer_at A1 0)) = mi_sender m1" "A1 = set_peer A 0 (peer_at A1 0)"
    "mi_ephemeral m1 = snd (dh x basepoint)" and wf: "initiation_wf m1"
    and acc: "wireguard_process_initiation_message dh B m1 v =
      (Some 0, set_peer B 0 ((peer_at B 0)\<lparr>pr_last_initiation_rx := w_now v,
        pr_greatest_timestamp := wireguard_tai64n_now w,
        pr_handshake := (pr_handshake (peer_at B 0))\<lparr>hs_remote_ephemeral := mi_ephemeral m1, hs_hash := h,
          hs_chaining_key := ck, hs_remote_index := mi_sender m1, hs_valid := True, hs_initiator := False\<rparr>\<rparr>))"
    (is "_ = (_, ?B1)")
    using initiation_exchange [OF assms] by metis
  obtain hs where hs: "peer_at A1 0 = (peer_at A 0)\<lparr>pr_handshake := hs\<rparr>" using a(2) by blast
  obtain p1 where p1: "A1 = set_peer A 0 p1" using a(8) by blast
  have pA: "pr_public_key (peer_at A1 0) = pr_public_key (peer_at A 0)"
    "pr_preshared_key (peer_at A1 0) = pr_preshared_key (peer_at A 0)" "dv_private_key A1 = dv_private_key A"
    "pr_valid (peer_at A1 0)"
    using A unfolding hs by (simp_all add: p1)
  have main: "let m = response_of (response_bytes m2) in
       peer_lookup_by_handshake A1 (mr_receiver m) = Some 0 \<and>
       (\<exists>p. wireguard_process_handshake_response dh A1 (peer_at A1 0) m = (True, p) \<and>
         (\<forall>t u. let i = pr_curr_keypair (wireguard_start_session t p True);
                   r = pr_next_keypair (wireguard_start_session u (peer_at B2 0) False)
               in kp_sending_key i = kp_receiving_key r \<and> kp_sending_key r = kp_receiving_key i \<and>
                  kp_local_index i = kp_remote_index r \<and> kp_local_index r = kp_remote_index i))"
    if "wireguard_create_handshake_response dh ?B1 0 v1 = Some (True, m2, B2, v2)" for v1 m2 B2 v2
  proof -
    have "mr_receiver m2 = mi_sender m1 \<and> response_wf m2 \<and>
      (\<exists>p'. wireguard_process_handshake_response dh A1 (peer_at A1 0) m2 = (True, p') \<and>
        hs_chaining_key (pr_handshake p') = hs_chaining_key (pr_handshake (peer_at B2 0)) \<and>
        hs_local_index (pr_handshake p') = mi_sender m1 \<and>
        hs_remote_index (pr_handshake p') = hs_local_index (pr_handshake (peer_at B2 0)) \<and>
        hs_remote_index (pr_handshake (peer_at B2 0)) = mi_sender m1)"
      using response_exchange [OF assms(1,2) pA(1,2) a(3,4) pA(3) refl _ _ _ _ _ _ _ _ that] lens a by simp
    moreover have "peer_lookup_by_handshake A1 (mi_sender m1) = Some 0"
      using pA(4) a(3,4,7) by (simp add: peer_lookup_by_handshake_def WIREGUARD_MAX_PEERS_def)
    ultimately show ?thesis
      using start_session_slots [of CURR] start_session_slots [of NEXT]
      by (auto simp: Let_def response_of_bytes session_keypair_keys)
  qed
  show ?thesis unfolding initiation_of_bytes [OF wf] acc using main by blast
qed

text \<open>A key agreement and two devices on which the theorem applies.\<close>

definition toy_dh :: x25519_fn where
  "toy_dh a p = (0, (a ! 0 + p ! 0) # replicate 31 1)"

definition toy_peer :: "bytes \<Rightarrow> bytes \<Rightarrow> wireguard_peer" where
  "toy_peer priv pub = (zero_peer [])\<lparr>pr_valid := True, pr_public_key := pub, pr_public_key_dh := snd (toy_dh priv pub),
     pr_label_mac1_key := wireguard_mac_key pub LABEL_MAC1, pr_label_cookie_key := wireguard_mac_key pub LABEL_COOKIE\<rparr>"

definition toy_device :: "u8 \<Rightarrow> u8 \<Rightarrow> wireguard_device" where
  "toy_device a b = (zero_device [])\<lparr>dv_private_key := a # zeros 31, dv_public_key := (a + 9) # replicate 31 1,
     dv_valid := True, dv_label_mac1_key := wireguard_mac_key ((a + 9) # replicate 31 1) LABEL_MAC1,
     dv_label_cookie_key := wireguard_mac_key ((a + 9) # replicate 31 1) LABEL_COOKIE,
     dv_peers := [toy_peer (a # zeros 31) ((b + 9) # replicate 31 1)]\<rparr>"

lemma basepoint_0: "basepoint ! 0 = 9"
  by (simp add: basepoint_def WIREGUARD_PUBLIC_KEY_LEN_def zeros_def)

lemma toy_key_agreement: "key_agreement toy_dh"
  by (simp add: key_agreement_def toy_dh_def basepoint_0)

lemma toy_introduced: "introduced toy_dh (toy_device a b) (toy_device b a)"
  by (simp add: introduced_def knows_def toy_device_def toy_peer_def toy_dh_def basepoint_0 Let_def zero_peer_def
      zero_device_def WIREGUARD_MAX_PEERS_def)

lemma toy_nonzero: "\<not> crypto_equal (snd (toy_dh a p)) (zeros 32) 32"
  by (subst crypto_equal_iff) (simp_all add: toy_dh_def zeros_def numeral_eq_Suc)

lemma toy_create:
  "\<exists>m A' w'. wireguard_create_handshake_initiation toy_dh (toy_device a b) 0 quiet_world = Some (True, m, A', w')"
proof -
  obtain x v where x: "wireguard_generate_private_key quiet_world = (x, v)" by fastforce
  then have v: "v = quiet_world\<lparr>w_drawn := 32\<rparr>" using private_key_world [of quiet_world] by (simp add: quiet_world_def)
  have d: "nth_draw v 0 = 0xF6EFE8E1"
    by (simp add: v nth_draw_def quiet_world_def U8TO32_LITTLE_def upt_rec)
  have "index_ok (toy_device a b) (nth_draw v 0)"
    by (simp add: d index_ok_def index_existing_def WIREGUARD_MAX_PEERS_def toy_device_def
        toy_peer_def zero_peer_def zero_keypair_def zero_handshake_def)
  then show ?thesis
    by (intro create_initiation_succeeds [OF x, where k = 0]) (simp_all add: toy_nonzero WIREGUARD_PUBLIC_KEY_LEN_def toy_dh_def [of x basepoint])
qed

lemma later_than_zero: "clock_ok w \<Longrightarrow> memcmp (wireguard_tai64n_now w) (zeros 12) 12 > 0"
  using memcmp_be [of "wireguard_tai64n_now w" 12 "zeros 12"] tai64n_value(1) [of w]
  by (simp add: zeros_def be_val_def)

lemma toy_fresh:
  "\<not> initiation_replay (peer_at (toy_device a b) 0) (wireguard_tai64n_now quiet_world)"
  "\<not> initiation_rate_limit (peer_at (toy_device a b) 0) (w_now quiet_world)"
proof -
  have "clock_ok quiet_world" by (simp add: clock_ok_def quiet_world_def)
  from later_than_zero [OF this]
  show "\<not> initiation_replay (peer_at (toy_device a b) 0) (wireguard_tai64n_now quiet_world)"
    by (simp add: initiation_replay_def toy_device_def toy_peer_def zero_peer_def WIREGUARD_TAI64N_LEN_def)
  show "\<not> initiation_rate_limit (peer_at (toy_device a b) 0) (w_now quiet_world)"
    by (simp add: initiation_rate_limit_def toy_device_def toy_peer_def zero_peer_def quiet_world_def
        MAX_INITIATIONS_PER_SECOND_def)
qed

theorem handshake_agreement_witness:
  "\<exists>m1 A1 w1 B1. wireguard_create_handshake_initiation toy_dh (toy_device 3 5) 0 quiet_world = Some (True, m1, A1, w1) \<and>
     wireguard_process_initiation_message toy_dh (toy_device 5 3) (initiation_of (initiation_bytes m1)) quiet_world =
     (Some 0, B1)"
proof -
  obtain m1 A1 w1 where c: "wireguard_create_handshake_initiation toy_dh (toy_device 3 5) 0 quiet_world = Some (True, m1, A1, w1)"
    using toy_create by blast
  from handshake_agreement [OF toy_key_agreement toy_introduced this toy_fresh] c show ?thesis by blast
qed

end
