(* ===== verification/Wg_Auth.thy ===== *)
theory Wg_Auth
  imports Wg_Handshake
begin

text \<open>
  Authentication properties of the handshake messages: an initiation is accepted once, the
  message codes of what a device creates are accepted by the device it is meant for, a
  cookie reply is understood by the device whose message it answers and the codes made
  with the cookie are accepted, and devices and peers that the initialisation functions set
  up satisfy what the handshake needs.
\<close>

subsection \<open>Accepted initiations\<close>

lemma memcmp_refl [simp]: "memcmp a a n = 0"
  by (induction n arbitrary: a) simp_all

text \<open>What an acceptance implies.\<close>

lemma process_initiation_Some:
  assumes "wireguard_process_initiation_message dh device msg w = (Some p, device')"
  obtains s t k1 k2 h1 h2 ck where
    "k1 = snd (wireguard_kdf2 (wireguard_kdf1 construction_hash (mi_ephemeral msg)) (snd (dh (dv_private_key device) (mi_ephemeral msg))))"
    "h1 = wireguard_mix_hash (wireguard_mix_hash identifier_hash (dv_public_key device)) (mi_ephemeral msg)"
    "chacha20poly1305_decrypt (mi_enc_static msg) h1 0 k1 = Some s"
    "peer_lookup_by_pubkey device s = Some p"
    "k2 = snd (wireguard_kdf2 (fst (wireguard_kdf2 (wireguard_kdf1 construction_hash (mi_ephemeral msg))
       (snd (dh (dv_private_key device) (mi_ephemeral msg))))) (pr_public_key_dh (peer_at device p)))"
    "h2 = wireguard_mix_hash h1 (mi_enc_static msg)"
    "chacha20poly1305_decrypt (mi_enc_timestamp msg) h2 0 k2 = Some t"
    "\<not> initiation_replay (peer_at device p) t" "\<not> initiation_rate_limit (peer_at device p) (w_now w)"
    "device' = set_peer device p ((peer_at device p)\<lparr>pr_last_initiation_rx := w_now w, pr_greatest_timestamp := t,
       pr_handshake := (pr_handshake (peer_at device p))\<lparr>hs_remote_ephemeral := mi_ephemeral msg,
         hs_hash := wireguard_mix_hash h2 (mi_enc_timestamp msg), hs_chaining_key := ck,
         hs_remote_index := mi_sender msg, hs_valid := True, hs_initiator := False\<rparr>\<rparr>)"
    "length ck = 32"
  using assms unfolding wireguard_process_initiation_message_def
  by (auto simp: Let_def split_beta wireguard_sys_now_def initiation_replay_def not_le
      split: if_splits option.splits)

lemma process_initiation_replayed:
  assumes "k1 = snd (wireguard_kdf2 (wireguard_kdf1 construction_hash (mi_ephemeral msg)) (snd (dh (dv_private_key device) (mi_ephemeral msg))))"
    "h1 = wireguard_mix_hash (wireguard_mix_hash identifier_hash (dv_public_key device)) (mi_ephemeral msg)"
    "chacha20poly1305_decrypt (mi_enc_static msg) h1 0 k1 = Some s"
    "peer_lookup_by_pubkey device s = Some p"
    "k2 = snd (wireguard_kdf2 (fst (wireguard_kdf2 (wireguard_kdf1 construction_hash (mi_ephemeral msg))
       (snd (dh (dv_private_key device) (mi_ephemeral msg))))) (pr_public_key_dh (peer_at device p)))"
    "h2 = wireguard_mix_hash h1 (mi_enc_static msg)"
    "chacha20poly1305_decrypt (mi_enc_timestamp msg) h2 0 k2 = Some t"
    "initiation_replay (peer_at device p) t"
  shows "wireguard_process_initiation_message dh device msg w = (None, device)"
  using assms unfolding wireguard_process_initiation_message_def by (simp add: Let_def split_beta)

lemma lookup_pubkey_set_peer:
  assumes "pr_valid q = pr_valid (peer_at device p)" "pr_public_key q = pr_public_key (peer_at device p)"
  shows "peer_lookup_by_pubkey (set_peer device p q) s = peer_lookup_by_pubkey device s"
proof -
  have "pr_valid (peer_at (set_peer device p q) x) = pr_valid (peer_at device x) \<and>
      pr_public_key (peer_at (set_peer device p q) x) = pr_public_key (peer_at device x)" for x
    using assms by (cases "x = p"; cases "p < length (dv_peers device)") (simp_all add: set_peer_def list_update_beyond)
  then show ?thesis by (simp add: peer_lookup_by_pubkey_def)
qed

text \<open>What later handling of initiations keeps of a device.\<close>

definition ages :: "wireguard_device \<Rightarrow> wireguard_device \<Rightarrow> bool" where
  "ages d d' \<longleftrightarrow> dv_private_key d' = dv_private_key d \<and> dv_public_key d' = dv_public_key d \<and>
     length (dv_peers d') = length (dv_peers d) \<and> (\<forall>s. peer_lookup_by_pubkey d' s = peer_lookup_by_pubkey d s) \<and>
     (\<forall>p. pr_public_key_dh (peer_at d' p) = pr_public_key_dh (peer_at d p) \<and>
          length (pr_greatest_timestamp (peer_at d' p)) = length (pr_greatest_timestamp (peer_at d p)) \<and>
          be_val (pr_greatest_timestamp (peer_at d p)) \<le> be_val (pr_greatest_timestamp (peer_at d' p)))"

lemma ages_refl [simp]: "ages d d"
  by (simp add: ages_def)

lemma ages_trans: "ages a b \<Longrightarrow> ages b c \<Longrightarrow> ages a c"
  unfolding ages_def by (metis order_trans)

definition stamps_wf :: "wireguard_device \<Rightarrow> bool" where
  "stamps_wf d \<longleftrightarrow> (\<forall>p < length (dv_peers d). length (pr_greatest_timestamp (peer_at d p)) = 12)"

lemma ages_stamps_wf: "ages d d' \<Longrightarrow> stamps_wf d \<Longrightarrow> stamps_wf d'"
  by (simp add: ages_def stamps_wf_def)

lemma ages_length: "ages d d' \<Longrightarrow> length (dv_peers d') = length (dv_peers d)"
  by (simp add: ages_def)

lemma ages_stamp:
  "ages d d' \<Longrightarrow> be_val (pr_greatest_timestamp (peer_at d p)) \<le> be_val (pr_greatest_timestamp (peer_at d' p)) \<and>
   length (pr_greatest_timestamp (peer_at d' p)) = length (pr_greatest_timestamp (peer_at d p))"
  by (simp add: ages_def)

lemma accepted_ages:
  assumes acc: "wireguard_process_initiation_message dh device msg w = (Some p, device')"
    and p: "p < length (dv_peers device)" and wf: "stamps_wf device" "length (mi_enc_timestamp msg) = 28"
  shows "ages device device' \<and> pr_valid (peer_at device p) \<and>
    be_val (pr_greatest_timestamp (peer_at device p)) < be_val (pr_greatest_timestamp (peer_at device' p))"
  using acc
proof (rule process_initiation_Some)
  fix s t k1 k2 h1 h2 ck
  assume lookup: "peer_lookup_by_pubkey device s = Some p"
    and dec: "chacha20poly1305_decrypt (mi_enc_timestamp msg) h2 0 k2 = Some t"
    and fresh: "\<not> initiation_replay (peer_at device p) t"
    and d': "device' = set_peer device p ((peer_at device p)\<lparr>pr_last_initiation_rx := w_now w, pr_greatest_timestamp := t,
       pr_handshake := (pr_handshake (peer_at device p))\<lparr>hs_remote_ephemeral := mi_ephemeral msg,
         hs_hash := wireguard_mix_hash h2 (mi_enc_timestamp msg), hs_chaining_key := ck,
         hs_remote_index := mi_sender msg, hs_valid := True, hs_initiator := False\<rparr>\<rparr>)"
  have t: "length t = 12" using decrypt_length [OF dec] wf(2) by simp
  have g: "length (pr_greatest_timestamp (peer_at device p)) = 12" using wf(1) p by (simp add: stamps_wf_def)
  have less: "be_val (pr_greatest_timestamp (peer_at device p)) < be_val t"
    using fresh memcmp_be [OF t g] by (simp add: initiation_replay_def WIREGUARD_TAI64N_LEN_def not_le)
  have at: "peer_at device' q = (if q = p then (peer_at device p)\<lparr>pr_last_initiation_rx := w_now w, pr_greatest_timestamp := t,
       pr_handshake := (pr_handshake (peer_at device p))\<lparr>hs_remote_ephemeral := mi_ephemeral msg,
         hs_hash := wireguard_mix_hash h2 (mi_enc_timestamp msg), hs_chaining_key := ck,
         hs_remote_index := mi_sender msg, hs_valid := True, hs_initiator := False\<rparr>\<rparr> else peer_at device q)" for q
    using p by (simp add: d')
  have "peer_lookup_by_pubkey device' s = peer_lookup_by_pubkey device s" for s
    unfolding d' by (rule lookup_pubkey_set_peer) simp_all
  then have "ages device device'"
    using less t g unfolding ages_def by (simp add: at) (simp add: d')
  moreover have "pr_valid (peer_at device p)"
    using lookup by (auto simp: peer_lookup_by_pubkey_def dest!: find_upt_Some)
  ultimately show ?thesis using less by (simp add: at)
qed

lemma process_initiation_ages:
  assumes "stamps_wf device" "length (mi_enc_timestamp msg) = 28" "length (dv_peers device) = WIREGUARD_MAX_PEERS"
  shows "ages device (snd (wireguard_process_initiation_message dh device msg w))"
proof (cases "wireguard_process_initiation_message dh device msg w")
  case (Pair r d')
  show ?thesis
  proof (cases r)
    case None
    then have "d' = device" using Pair unfolding wireguard_process_initiation_message_def
      by (auto simp: Let_def split_beta split: if_splits option.splits)
    then show ?thesis using Pair by simp
  next
    case (Some p)
    with Pair have acc: "wireguard_process_initiation_message dh device msg w = (Some p, d')" by simp
    then have "p < length (dv_peers device)"
      using assms(3) by (elim process_initiation_Some) (auto simp: peer_lookup_by_pubkey_def dest!: find_upt_Some)
    with accepted_ages [OF acc] assms Pair show ?thesis by simp
  qed
qed

text \<open>Any number of initiations, each with the world it arrives in.\<close>

definition process_all :: "x25519_fn \<Rightarrow> (message_handshake_initiation \<times> world) list \<Rightarrow> wireguard_device \<Rightarrow> wireguard_device" where
  "process_all dh ms device = fold (\<lambda>(m, w) d. snd (wireguard_process_initiation_message dh d m w)) ms device"

lemma process_all_ages:
  "stamps_wf device \<Longrightarrow> length (dv_peers device) = WIREGUARD_MAX_PEERS \<Longrightarrow>
   \<forall>(m, w) \<in> set ms. length (mi_enc_timestamp m) = 28 \<Longrightarrow> ages device (process_all dh ms device)"
proof (induction ms arbitrary: device)
  case (Cons mw ms)
  obtain m w where mw: "mw = (m, w)" by fastforce
  let ?d = "snd (wireguard_process_initiation_message dh device m w)"
  have a: "ages device ?d" using Cons.prems by (intro process_initiation_ages) (simp_all add: mw)
  then have "stamps_wf ?d" "length (dv_peers ?d) = WIREGUARD_MAX_PEERS"
    using ages_stamps_wf [OF a] ages_length [OF a] Cons.prems(1,2) by simp_all
  from Cons.IH [OF this] Cons.prems(3) a show ?case
    by (auto simp: process_all_def mw intro: ages_trans)
qed (simp add: process_all_def)

lemma process_initiation_again:
  assumes acc: "wireguard_process_initiation_message dh device msg w = (Some p, device')"
    and len: "p < length (dv_peers device)" and wf: "stamps_wf device" "length (mi_enc_timestamp msg) = 28"
    and later: "ages device' d"
  shows "wireguard_process_initiation_message dh d msg v = (None, d)"
  using acc
proof (rule process_initiation_Some)
  fix s t k1 k2 h1 h2 ck
  assume a: "k1 = snd (wireguard_kdf2 (wireguard_kdf1 construction_hash (mi_ephemeral msg)) (snd (dh (dv_private_key device) (mi_ephemeral msg))))"
    "h1 = wireguard_mix_hash (wireguard_mix_hash identifier_hash (dv_public_key device)) (mi_ephemeral msg)"
    "chacha20poly1305_decrypt (mi_enc_static msg) h1 0 k1 = Some s"
    "peer_lookup_by_pubkey device s = Some p"
    "k2 = snd (wireguard_kdf2 (fst (wireguard_kdf2 (wireguard_kdf1 construction_hash (mi_ephemeral msg))
       (snd (dh (dv_private_key device) (mi_ephemeral msg))))) (pr_public_key_dh (peer_at device p)))"
    "h2 = wireguard_mix_hash h1 (mi_enc_static msg)"
    "chacha20poly1305_decrypt (mi_enc_timestamp msg) h2 0 k2 = Some t"
    and d': "device' = set_peer device p ((peer_at device p)\<lparr>pr_last_initiation_rx := w_now w, pr_greatest_timestamp := t,
       pr_handshake := (pr_handshake (peer_at device p))\<lparr>hs_remote_ephemeral := mi_ephemeral msg,
         hs_hash := wireguard_mix_hash h2 (mi_enc_timestamp msg), hs_chaining_key := ck,
         hs_remote_index := mi_sender msg, hs_valid := True, hs_initiator := False\<rparr>\<rparr>)"
  have t: "pr_greatest_timestamp (peer_at device' p) = t" using len by (simp add: d')
  have "length t = 12" using decrypt_length [OF a(7)] wf(2) by simp
  then have "initiation_replay (peer_at d p) t"
    using memcmp_be [of t 12 "pr_greatest_timestamp (peer_at d p)"] ages_stamp [OF later, of p] t
    by (simp add: initiation_replay_def WIREGUARD_TAI64N_LEN_def)
  moreover have "ages device d" using accepted_ages [OF acc len wf] later by (blast intro: ages_trans)
  ultimately show ?thesis using a by (intro process_initiation_replayed) (simp_all add: ages_def)
qed

subsection \<open>Message codes\<close>

lemma take_initiation_bytes:
  "initiation_wf m \<Longrightarrow> take 116 (initiation_bytes m) =
   [mi_type m] @ mi_reserved m @ U32TO8_LITTLE (mi_sender m) @ mi_ephemeral m @ mi_enc_static m @ mi_enc_timestamp m"
  "initiation_wf m \<Longrightarrow> take 132 (initiation_bytes m) =
   [mi_type m] @ mi_reserved m @ U32TO8_LITTLE (mi_sender m) @ mi_ephemeral m @ mi_enc_static m @ mi_enc_timestamp m @ mi_mac1 m"
  by (simp_all add: initiation_bytes_def initiation_wf_def)

lemma take_response_bytes:
  "response_wf m \<Longrightarrow> take 60 (response_bytes m) =
   [mr_type m] @ mr_reserved m @ U32TO8_LITTLE (mr_sender m) @ U32TO8_LITTLE (mr_receiver m) @ mr_ephemeral m @ mr_enc_empty m"
  by (simp add: response_bytes_def response_wf_def)

lemma crypto_equal_refl [simp]: "n \<le> length a \<Longrightarrow> crypto_equal a a n"
  by (simp add: crypto_equal_iff)

lemma initiation_macs_mac1:
  assumes "initiation_wf m" "length (pr_label_mac1_key p) \<le> 32" "length (pr_cookie p) \<le> 32"
  shows "mi_mac1 (initiation_macs p w m) =
    wireguard_mac (take 116 (initiation_bytes (initiation_macs p w m))) (pr_label_mac1_key p)"
  using assms by (simp add: take_initiation_bytes initiation_macs_wf)
    (simp add: initiation_macs_def Let_def take_initiation_bytes sizeofs WIREGUARD_COOKIE_LEN_def)

lemma initiation_macs_mac2:
  assumes "initiation_wf m" "length (pr_label_mac1_key p) \<le> 32" "length (pr_cookie p) \<le> 32"
    and "pr_cookie_millis p \<noteq> 0" "\<not> wireguard_expired w (pr_cookie_millis p) COOKIE_SECRET_MAX_AGE"
  shows "mi_mac2 (initiation_macs p w m) =
    wireguard_mac (take 132 (initiation_bytes (initiation_macs p w m))) (pr_cookie p)"
proof -
  have wf: "initiation_wf (m\<lparr>mi_mac1 := wireguard_mac (take 116 (initiation_bytes m)) (pr_label_mac1_key p)\<rparr>)"
    using assms(1,2) by (simp add: initiation_wf_def)
  show ?thesis
    using assms by (simp add: take_initiation_bytes initiation_macs_wf)
      (simp add: initiation_macs_def Let_def take_initiation_bytes(2) [OF wf] sizeofs WIREGUARD_COOKIE_LEN_def)
qed

lemma response_macs_mac1:
  assumes "response_wf m" "length (pr_label_mac1_key p) \<le> 32" "length (pr_cookie p) \<le> 32"
  shows "mr_mac1 (response_macs p w m) =
    wireguard_mac (take 60 (response_bytes (response_macs p w m))) (pr_label_mac1_key p)"
  using assms by (simp add: take_response_bytes response_macs_wf)
    (simp add: response_macs_def Let_def take_response_bytes sizeofs WIREGUARD_COOKIE_LEN_def)

subsection \<open>Cookies\<close>

lemma cookie_usable: "length secret \<le> 32 \<Longrightarrow> blake2s_usable (blake2s_local, 16, secret)"
  by (simp add: blake2s_usable_def blake2s_local_def)

text \<open>The cookie of an address under a secret.\<close>

lemma peer_cookie_eq:
  assumes "generate_peer_cookie d src w = (cookie, d', w')" "length (dv_cookie_secret d') = 32"
  shows "cookie = blake2s_spec 16 (dv_cookie_secret d') src"
proof -
  note u = cookie_usable [of "dv_cookie_secret d'"]
  from assms(1) have "cookie = fst (blake2s_final (if length src > 0 then blake2s_update
      (snd (blake2s_init blake2s_local 16 (dv_cookie_secret d'))) src
      else snd (blake2s_init blake2s_local 16 (dv_cookie_secret d'))))"
    by (auto simp: generate_peer_cookie_def WIREGUARD_COOKIE_LEN_def Let_def split: prod.splits if_splits)
  with b2s.absorb_one [OF u, of src] b2s.absorb_none [OF u] assms(2) show ?thesis
    by (simp add: blake2s_start_def)
qed

lemma peer_cookie_state:
  assumes "generate_peer_cookie d src w = (cookie, d', w')"
  shows "dv_label_cookie_key d' = dv_label_cookie_key d"
    and "length (dv_cookie_secret d) = 32 \<Longrightarrow> length (dv_cookie_secret d') = 32"
    and "\<not> wireguard_expired w (dv_cookie_secret_millis d) COOKIE_SECRET_MAX_AGE \<Longrightarrow> d' = d"
  using assms
  by (auto simp: generate_peer_cookie_def generate_cookie_secret_def Let_def WIREGUARD_HASH_LEN_def
      wireguard_random_bytes_def split: prod.splits if_splits)

subsection \<open>Initialisation\<close>

lemma device_init_True:
  assumes "wireguard_device_init dh d k w = (True, d', w')"
  shows "dv_private_key d' = wireguard_clamp_private_key k \<and> dv_public_key d' = snd (dh k basepoint) \<and> dv_valid d' \<and>
    dv_label_mac1_key d' = wireguard_mac_key (dv_public_key d') LABEL_MAC1 \<and>
    dv_label_cookie_key d' = wireguard_mac_key (dv_public_key d') LABEL_COOKIE \<and>
    length (dv_cookie_secret d') = 32 \<and> dv_peers d' = dv_peers d"
proof -
  obtain ok pk where g: "wireguard_generate_public_key dh (dv_public_key d) k = (ok, pk)" by fastforce
  with assms have ok by (auto simp: wireguard_device_init_def Let_def split: prod.splits if_splits)
  then have "pk = snd (dh k basepoint)" using g public_key_ok [of dh "dv_public_key d" k pk] by simp
  with assms \<open>ok\<close> show ?thesis
    by (auto simp: wireguard_device_init_def g Let_def generate_cookie_secret_def WIREGUARD_HASH_LEN_def
        wireguard_random_bytes_def)
qed

lemma peer_init_True:
  assumes "wireguard_peer_init dh ip0 d pk psk = (True, p)"
  shows "pr_valid p \<and> pr_public_key p = pk \<and> pr_public_key_dh p = snd (dh (dv_private_key d) pk) \<and>
    pr_label_mac1_key p = wireguard_mac_key pk LABEL_MAC1 \<and> pr_label_cookie_key p = wireguard_mac_key pk LABEL_COOKIE \<and>
    pr_cookie p = zeros 16 \<and> pr_preshared_key p = (case psk of None \<Rightarrow> zeros 32 | Some k \<Rightarrow> k) \<and>
    pr_handshake p = zero_handshake"
  using assms
  by (auto simp: wireguard_peer_init_def Let_def zero_peer_def crypto_zero_eq wg_lengths zeros_def zero_handshake_def
      split: option.splits prod.splits if_splits)

subsection \<open>Properties\<close>

text \<open>
  C11. An initiation is accepted once: acceptance is for a valid peer and raises that peer's
  stored timestamp, and whatever other initiations are handled afterwards, in any number
  and at any time, the same message is refused for ever and changes nothing.
\<close>

theorem initiation_accepted_once:
  assumes "wireguard_process_initiation_message dh device msg w = (Some p, device')"
    and "length (dv_peers device) = WIREGUARD_MAX_PEERS" and "stamps_wf device"
    and "length (mi_enc_timestamp msg) = 28" and "\<forall>(m, u) \<in> set ms. length (mi_enc_timestamp m) = 28"
  shows "pr_valid (peer_at device p) \<and>
    be_val (pr_greatest_timestamp (peer_at device p)) < be_val (pr_greatest_timestamp (peer_at device' p)) \<and>
    wireguard_process_initiation_message dh (process_all dh ms device') msg v = (None, process_all dh ms device')"
proof -
  have p: "p < length (dv_peers device)"
    using assms(1,2) by (elim process_initiation_Some) (auto simp: peer_lookup_by_pubkey_def dest!: find_upt_Some)
  note a = accepted_ages [OF assms(1) p assms(3,4)]
  have "stamps_wf device'" "length (dv_peers device') = WIREGUARD_MAX_PEERS"
    using a ages_stamps_wf [of device device'] ages_length [of device device'] assms(2,3) by simp_all
  from process_initiation_again [OF assms(1) p assms(3,4) process_all_ages [OF this assms(5)]] a
  show ?thesis by blast
qed

theorem initiation_accepted_once_witness:
  "\<exists>m B1. wireguard_process_initiation_message toy_dh (toy_device 5 3) m quiet_world = (Some 0, B1) \<and>
     wireguard_process_initiation_message toy_dh B1 m quiet_world = (None, B1)"
proof -
  obtain m A1 w1 where c: "wireguard_create_handshake_initiation toy_dh (toy_device 3 5) 0 quiet_world = Some (True, m, A1, w1)"
    using toy_create by blast
  from initiation_exchange [OF toy_key_agreement toy_introduced this toy_fresh]
  obtain B1 where wf: "initiation_wf m" and acc: "wireguard_process_initiation_message toy_dh (toy_device 5 3) m quiet_world = (Some 0, B1)"
    by metis
  have "stamps_wf (toy_device 5 3)" "length (dv_peers (toy_device 5 3)) = WIREGUARD_MAX_PEERS"
    by (simp_all add: stamps_wf_def toy_device_def toy_peer_def zero_peer_def WIREGUARD_MAX_PEERS_def)
  from initiation_accepted_once [OF acc this(2,1), of "[]" quiet_world] wf acc show ?thesis
    by (auto simp: initiation_wf_def process_all_def)
qed

text \<open>
  What the rate limit does: \<open>d\<close> milliseconds after the last accepted initiation of a peer,
  the test applies only if \<open>d\<close> is 0 or at least \<open>2 ^ 32 - 499\<close>. The operands of the
  subtraction are reversed, so of two initiations a millisecond or more apart both are
  let through, and the limit of two per second that the code names is never enforced.
\<close>

theorem initiation_rate_limit_reversed:
  assumes "d < 2 ^ 32"
  shows "initiation_rate_limit peer (pr_last_initiation_rx peer + of_nat d) \<longleftrightarrow> d = 0 \<or> 2 ^ 32 - 500 < d"
proof -
  have d: "unat (of_nat d :: u32) = d" using assms by (simp add: unat_of_nat)
  have "unat (pr_last_initiation_rx peer - (pr_last_initiation_rx peer + of_nat d)) = (if d = 0 then 0 else 2 ^ 32 - d)"
    using unat_sub_if' [of 0 "of_nat d :: u32"] d by auto
  then show ?thesis
    using assms by (simp add: initiation_rate_limit_def word_less_nat_alt MAX_INITIATIONS_PER_SECOND_def) linarith
qed

theorem initiation_rate_limit_reversed_witness:
  "\<not> initiation_rate_limit (zero_peer []) (0 + of_nat 1)"
  using initiation_rate_limit_reversed [of 1 "zero_peer []"] by (simp add: zero_peer_def)

lemma created_initiation_wf:
  assumes ka: "key_agreement dh" and k: "knows dh A B"
    and create: "wireguard_create_handshake_initiation dh A 0 w = Some (True, m, A1, w1)"
  obtains dst where "initiation_wf dst" "m = initiation_macs (peer_at A1 0) w1 dst"
    "pr_label_mac1_key (peer_at A1 0) = wireguard_mac_key (dv_public_key B) LABEL_MAC1"
    "length (pr_cookie (peer_at A1 0)) \<le> 32"
proof -
  note A = k [unfolded knows_def Let_def]
  have "0 < length (dv_peers A)" using A by (simp add: WIREGUARD_MAX_PEERS_def)
  with create obtain hs dst wn i where n: "initiation_noise dh A (peer_at A 0) w = (True, hs, dst, wn)"
    and m: "m = initiation_macs (peer_at A1 0) w1 (dst\<lparr>mi_type := MESSAGE_HANDSHAKE_INITIATION, mi_sender := i\<rparr>)"
    and A1: "A1 = set_peer A 0 ((peer_at A 0)\<lparr>pr_handshake := hs\<lparr>hs_valid := True, hs_initiator := True, hs_local_index := i\<rparr>\<rparr>)"
    by (rule create_initiation_ok)
  have "initiation_wf (dst\<lparr>mi_type := MESSAGE_HANDSHAKE_INITIATION, mi_sender := i\<rparr>)"
    using initiation_noise_ok [OF n] ka A
    by (auto simp: Let_def initiation_wf_def length_noise_initiation zero_initiation_def key_agreement_def)
  then show thesis using m A by (intro that) (simp_all add: A1 WIREGUARD_MAX_PEERS_def)
qed

lemma created_response_wf:
  assumes ka: "key_agreement dh" and k: "knows dh A B"
    and create: "wireguard_create_handshake_response dh A 0 w = Some (True, m, A1, w1)"
  obtains dst where "response_wf dst" "m = response_macs (peer_at A1 0) w1 dst"
    "pr_label_mac1_key (peer_at A1 0) = wireguard_mac_key (dv_public_key B) LABEL_MAC1"
    "length (pr_cookie (peer_at A1 0)) \<le> 32"
proof -
  note A = k [unfolded knows_def Let_def]
  have "0 < length (dv_peers A)" using A by (simp add: WIREGUARD_MAX_PEERS_def)
  with create obtain hs dst wn i where n: "response_noise dh (peer_at A 0) w = (True, hs, dst, wn)"
    and m: "m = response_macs (peer_at A1 0) w1 (dst\<lparr>mr_type := MESSAGE_HANDSHAKE_RESPONSE,
       mr_receiver := hs_remote_index hs, mr_sender := i\<rparr>)"
    and A1: "A1 = set_peer A 0 ((peer_at A 0)\<lparr>pr_handshake := hs\<lparr>hs_local_index := i\<rparr>\<rparr>)"
    by (rule create_response_ok)
  have "response_wf (dst\<lparr>mr_type := MESSAGE_HANDSHAKE_RESPONSE, mr_receiver := hs_remote_index hs, mr_sender := i\<rparr>)"
    using response_noise_ok [OF n] ka
    by (auto simp: Let_def response_wf_def length_noise_response zero_response_def key_agreement_def)
  then show thesis using m A by (intro that) (simp_all add: A1 WIREGUARD_MAX_PEERS_def)
qed

text \<open>
  The first message code: of the initiations and responses that a device creates for its
  peer, the bytes pass \<open>wireguard_check_mac1\<close> of the device that the peer is.
\<close>

theorem message_macs_accepted:
  assumes "key_agreement dh" and "introduced dh A B"
  shows "(wireguard_create_handshake_initiation dh A 0 w = Some (True, m, A1, w1) \<longrightarrow>
      wireguard_check_mac1 B (take (sizeof_initiation - 2 * WIREGUARD_COOKIE_LEN) (initiation_bytes m)) (mi_mac1 m)) \<and>
    (wireguard_create_handshake_response dh A 0 w = Some (True, r, A2, w2) \<longrightarrow>
      wireguard_check_mac1 B (take (sizeof_response - 2 * WIREGUARD_COOKIE_LEN) (response_bytes r)) (mr_mac1 r))"
proof (intro conjI impI)
  have k: "knows dh A B" and B: "dv_label_mac1_key B = wireguard_mac_key (dv_public_key B) LABEL_MAC1"
    using assms(2) by (simp_all add: introduced_def knows_def Let_def)
  show "wireguard_check_mac1 B (take (sizeof_initiation - 2 * WIREGUARD_COOKIE_LEN) (initiation_bytes m)) (mi_mac1 m)"
    if c: "wireguard_create_handshake_initiation dh A 0 w = Some (True, m, A1, w1)"
  proof -
    obtain dst where "initiation_wf dst" and m: "m = initiation_macs (peer_at A1 0) w1 dst"
      and l: "pr_label_mac1_key (peer_at A1 0) = wireguard_mac_key (dv_public_key B) LABEL_MAC1"
      "length (pr_cookie (peer_at A1 0)) \<le> 32"
      by (rule created_initiation_wf [OF assms(1) k c])
    then have "mi_mac1 m = wireguard_mac (take 116 (initiation_bytes m)) (dv_label_mac1_key B)"
      unfolding m B l(1) [symmetric] by (intro initiation_macs_mac1) (simp_all add: l(1))
    then show ?thesis using B by (simp add: wireguard_check_mac1_def Let_def sizeofs WIREGUARD_COOKIE_LEN_def)
  qed
  show "wireguard_check_mac1 B (take (sizeof_response - 2 * WIREGUARD_COOKIE_LEN) (response_bytes r)) (mr_mac1 r)"
    if c: "wireguard_create_handshake_response dh A 0 w = Some (True, r, A2, w2)"
  proof -
    obtain dst where "response_wf dst" and r: "r = response_macs (peer_at A2 0) w2 dst"
      and l: "pr_label_mac1_key (peer_at A2 0) = wireguard_mac_key (dv_public_key B) LABEL_MAC1"
      "length (pr_cookie (peer_at A2 0)) \<le> 32"
      by (rule created_response_wf [OF assms(1) k c])
    then have "mr_mac1 r = wireguard_mac (take 60 (response_bytes r)) (dv_label_mac1_key B)"
      unfolding r B l(1) [symmetric] by (intro response_macs_mac1) (simp_all add: l(1))
    then show ?thesis using B by (simp add: wireguard_check_mac1_def Let_def sizeofs WIREGUARD_COOKIE_LEN_def)
  qed
qed

theorem message_macs_accepted_witness:
  "\<exists>m A1 w1. wireguard_create_handshake_initiation toy_dh (toy_device 3 5) 0 quiet_world = Some (True, m, A1, w1) \<and>
     wireguard_check_mac1 (toy_device 5 3) (take (sizeof_initiation - 2 * WIREGUARD_COOKIE_LEN) (initiation_bytes m)) (mi_mac1 m)"
proof -
  obtain m A1 w1 where "wireguard_create_handshake_initiation toy_dh (toy_device 3 5) 0 quiet_world = Some (True, m, A1, w1)"
    using toy_create by blast
  with message_macs_accepted [OF toy_key_agreement toy_introduced] show ?thesis by blast
qed

text \<open>
  C12. The cookie exchange: the bytes of a cookie reply made for the code of the message that a
  peer last sent are accepted by that peer once, and from then on, while neither the cookie
  nor the secret has expired, the second code of every initiation it makes passes
  \<open>wireguard_check_mac2\<close> at the device that gave the cookie, for the same source address.
\<close>

theorem cookie_exchange:
  assumes "pr_handshake_mac1_valid p" and "length (pr_handshake_mac1 p) = 16" and "length (pr_label_mac1_key p) \<le> 32"
    and "pr_label_cookie_key p = dv_label_cookie_key B" and "length (dv_cookie_secret B) = 32"
    and "wireguard_create_cookie_reply B (pr_handshake_mac1 p) i src w = (m, B', w')" and "w_now v \<noteq> 0"
  shows "\<exists>p'. wireguard_process_cookie_message p (cookie_reply_of (cookie_reply_bytes m)) v = (True, p') \<and>
    (\<forall>m' v'. wireguard_process_cookie_message p' m' v' = (False, p')) \<and>
    (\<forall>dst u u'. initiation_wf dst \<and> \<not> wireguard_expired u (w_now v) COOKIE_SECRET_MAX_AGE \<and>
        \<not> wireguard_expired u' (dv_cookie_secret_millis B') COOKIE_SECRET_MAX_AGE \<longrightarrow>
      (let msg = initiation_macs p' u dst
       in fst (wireguard_check_mac2 B' (take (sizeof_initiation - WIREGUARD_COOKIE_LEN) (initiation_bytes msg))
                 src (mi_mac2 msg) u')))"
proof -
  obtain nonce v1 where r: "wireguard_random_bytes COOKIE_NONCE_LEN w = (nonce, v1)" by fastforce
  obtain cookie d' v2 where g: "generate_peer_cookie B src v1 = (cookie, d', v2)" by (metis prod_cases3)
  have B': "B' = d'" and m: "m = zero_cookie_reply\<lparr>mc_type := MESSAGE_COOKIE_REPLY, mc_receiver := i, mc_nonce := nonce,
      mc_enc_cookie := xchacha20poly1305_encrypt cookie (pr_handshake_mac1 p) nonce (dv_label_cookie_key B)\<rparr>"
    using assms(6) peer_cookie_state(1) [OF g] by (auto simp: wireguard_create_cookie_reply_def r g Let_def)
  have s: "length (dv_cookie_secret B') = 32" using peer_cookie_state(2) [OF g assms(5)] B' by simp
  then have c: "cookie = blake2s_spec 16 (dv_cookie_secret B') src" using peer_cookie_eq [OF g] B' by simp
  then have lc: "length cookie = 16" by simp
  have "length nonce = 24" using r length_random [of COOKIE_NONCE_LEN w] by (simp add: COOKIE_NONCE_LEN_def)
  then have "cookie_reply_wf m" using lc by (simp add: cookie_reply_wf_def m zero_cookie_reply_def)
  then have reread: "cookie_reply_of (cookie_reply_bytes m) = m" by (rule cookie_reply_of_bytes)
  let ?p' = "p\<lparr>pr_cookie := cookie, pr_cookie_millis := w_now v, pr_handshake_mac1_valid := False\<rparr>"
  have "xchacha20poly1305_decrypt (mc_enc_cookie m) (pr_handshake_mac1 p) (mc_nonce m) (pr_label_cookie_key p) = Some cookie"
    unfolding m using assms(2,4) lc by (simp add: wg_xaead.unseal_seal aead_fits_def)
  then have 1: "wireguard_process_cookie_message p (cookie_reply_of (cookie_reply_bytes m)) v = (True, ?p')"
    using assms(1) by (simp add: wireguard_process_cookie_message_def reread wireguard_sys_now_def)
  have 2: "wireguard_process_cookie_message ?p' m' v' = (False, ?p')" for m' v'
    by (simp add: wireguard_process_cookie_message_def)
  have 3: "fst (wireguard_check_mac2 B' (take (sizeof_initiation - WIREGUARD_COOKIE_LEN) (initiation_bytes (initiation_macs ?p' u dst)))
       src (mi_mac2 (initiation_macs ?p' u dst)) u')"
    if "initiation_wf dst" "\<not> wireguard_expired u (w_now v) COOKIE_SECRET_MAX_AGE"
      "\<not> wireguard_expired u' (dv_cookie_secret_millis B') COOKIE_SECRET_MAX_AGE" for dst u u'
  proof -
    obtain cookie' d2 u2 where g2: "generate_peer_cookie B' src u' = (cookie', d2, u2)" by (metis prod_cases3)
    have d2: "d2 = B'" by (rule peer_cookie_state(3) [OF g2 that(3)])
    with g2 have c2: "cookie' = cookie" using peer_cookie_eq [of B' src u' cookie' d2 u2] s c by simp
    have "mi_mac2 (initiation_macs ?p' u dst) =
        wireguard_mac (take 132 (initiation_bytes (initiation_macs ?p' u dst))) cookie"
      using initiation_macs_mac2 [of dst ?p' u] that assms(3,7) lc by simp
    then show ?thesis using lc by (simp add: wireguard_check_mac2_def g2 d2 c2 Let_def sizeofs WIREGUARD_COOKIE_LEN_def)
  qed
  show ?thesis using 1 2 3 unfolding Let_def by blast
qed

theorem cookie_exchange_witness:
  "\<exists>p'. wireguard_process_cookie_message ((zero_peer [])\<lparr>pr_handshake_mac1_valid := True\<rparr>)
     (cookie_reply_of (cookie_reply_bytes (fst (wireguard_create_cookie_reply (zero_device []) (zeros 16) 7 [] quiet_world))))
     quiet_world = (True, p')"
proof -
  obtain m B' w' where c: "wireguard_create_cookie_reply (zero_device []) (zeros 16) 7 [] quiet_world = (m, B', w')"
    by (metis prod_cases3)
  from cookie_exchange [of "(zero_peer [])\<lparr>pr_handshake_mac1_valid := True\<rparr>" "zero_device []" 7 "[]" quiet_world m B' w' quiet_world] c
  show ?thesis by (auto simp: zero_peer_def zero_device_def quiet_world_def)
qed

context clamped_curve
begin

lemma init_introduces:
  assumes "wireguard_device_init dh (zero_device ip) ka w = (True, A, w1)"
    and "wireguard_device_init dh (zero_device ip) kb v = (True, B, v1)"
    and "wireguard_peer_init dh ip A (dv_public_key B) psk = (True, p)"
    and "wireguard_peer_init dh ip B (dv_public_key A) psk = (True, q)"
  shows "introduced dh (set_peer A 0 p) (set_peer B 0 q)"
proof -
  note init = device_init_True [OF assms(1)] device_init_True [OF assms(2)]
    peer_init_True [OF assms(3)] peer_init_True [OF assms(4)]
  have "length (dv_peers A) = 1" "length (dv_peers B) = 1"
    using init by (simp_all add: zero_device_def WIREGUARD_MAX_PEERS_def)
  then show ?thesis
    using init clamped by (simp add: introduced_def knows_def Let_def WIREGUARD_MAX_PEERS_def)
qed

end

text \<open>
  C13. Initialisation establishes what the handshake needs: two devices that
  \<open>wireguard_device_init\<close> sets up from any private keys, whose only peers are set up by
  \<open>wireguard_peer_init\<close> with the other's public key and the same preshared key, or none,
  are introduced to each other, if the key agreement ignores the bits that clamping fixes.
\<close>

theorem devices_introduced:
  assumes "\<forall>k p. dh (wireguard_clamp_private_key k) p = dh k p"
    and "wireguard_device_init dh (zero_device ip) ka w = (True, A, w1)"
    and "wireguard_device_init dh (zero_device ip) kb v = (True, B, v1)"
    and "wireguard_peer_init dh ip A (dv_public_key B) psk = (True, p)"
    and "wireguard_peer_init dh ip B (dv_public_key A) psk = (True, q)"
  shows "introduced dh (set_peer A 0 p) (set_peer B 0 q)"
proof -
  have "clamped_curve dh" using assms(1) by (simp add: clamped_curve_def)
  from clamped_curve.init_introduces [OF this assms(2-5)] show ?thesis .
qed

text \<open>A key agreement that only looks at bits that clamping leaves alone.\<close>

definition toy_dh1 :: x25519_fn where
  "toy_dh1 a p = (0, (a ! 1 + p ! 0) # replicate 31 1)"

theorem devices_introduced_witness:
  "let d = (\<lambda>k. fst (snd (wireguard_device_init toy_dh1 (zero_device []) (k # replicate 31 k) quiet_world)));
       p = (\<lambda>A B. snd (wireguard_peer_init toy_dh1 [] A (dv_public_key B) None))
   in introduced toy_dh1 (set_peer (d 3) 0 (p (d 3) (d 5))) (set_peer (d 5) 0 (p (d 5) (d 3)))"
proof -
  have ok: "wireguard_generate_public_key toy_dh1 old (k # replicate 31 k) = (True, snd (toy_dh1 (k # replicate 31 k) basepoint))"
    if "k \<noteq> 0" for old k
    using that by (simp add: wireguard_generate_public_key_def memcmp_eq_0 wg_lengths toy_dh1_def zeros_def Cons_replicate_eq)
  have d: "\<exists>A w. wireguard_device_init toy_dh1 (zero_device []) (k # replicate 31 k) quiet_world = (True, A, w)"
    if "k \<noteq> 0" for k
    using ok [OF that] by (auto simp: wireguard_device_init_def Let_def generate_cookie_secret_def split_beta)
  obtain A B w v where A: "wireguard_device_init toy_dh1 (zero_device []) (3 # replicate 31 3) quiet_world = (True, A, w)"
    and B: "wireguard_device_init toy_dh1 (zero_device []) (5 # replicate 31 5) quiet_world = (True, B, v)"
    using d [of 3] d [of 5] by auto
  have p: "\<exists>p. wireguard_peer_init toy_dh1 [] D pk None = (True, p)" if "dv_valid D" for D pk
    using that by (simp add: wireguard_peer_init_def Let_def toy_dh1_def split_beta)
  obtain p q where p: "wireguard_peer_init toy_dh1 [] A (dv_public_key B) None = (True, p)"
    "wireguard_peer_init toy_dh1 [] B (dv_public_key A) None = (True, q)"
    using p device_init_True [OF A] device_init_True [OF B] by blast
  have "\<forall>k p. toy_dh1 (wireguard_clamp_private_key k) p = toy_dh1 k p"
    by (simp add: toy_dh1_def wireguard_clamp_private_key_def Let_def)
  from devices_introduced [OF this A B p] show ?thesis by (simp add: A B p Let_def)
qed

text \<open>
  When initialisation fails it leaves no usable secret: a device whose private key is zero,
  or whose public key cannot be computed, is not valid and its private key is wiped; a
  peer of a device that is not valid, or whose shared secret cannot be computed, is not
  valid and its shared secret is wiped.
\<close>

theorem init_failure:
  "(\<not> fst (wireguard_device_init dh device k w) \<longrightarrow>
      (let d = fst (snd (wireguard_device_init dh device k w)) in
       \<not> dv_valid d \<and> (length k = 32 \<longrightarrow> dv_private_key d = zeros 32))) \<and>
   (fst (wireguard_device_init dh device k w) \<longleftrightarrow> memcmp k (zeros 32) 32 \<noteq> 0 \<and> fst (dh k basepoint) = 0) \<and>
   (fst (wireguard_peer_init dh ip0 device pk psk) \<longleftrightarrow> dv_valid device \<and> fst (dh (dv_private_key device) pk) = 0) \<and>
   (\<not> fst (wireguard_peer_init dh ip0 device pk psk) \<longrightarrow>
      (let p = snd (wireguard_peer_init dh ip0 device pk psk) in
       \<not> pr_valid p \<and> (length (snd (dh (dv_private_key device) pk)) = 32 \<longrightarrow> pr_public_key_dh p = zeros 32)))"
proof -
  have g: "wireguard_generate_public_key dh old k =
      (if memcmp k (zeros 32) 32 \<noteq> 0 then (fst (dh k basepoint) = 0, snd (dh k basepoint)) else (False, old))" for old
    by (simp add: wireguard_generate_public_key_def WIREGUARD_PUBLIC_KEY_LEN_def split_beta)
  have len: "length k = 32 \<Longrightarrow> crypto_zero (wireguard_clamp_private_key k) 32 = zeros 32"
    by (simp add: crypto_zero_eq wireguard_clamp_private_key_def zeros_def)
  have 1: "fst (wireguard_device_init dh device k w) \<longleftrightarrow> memcmp k (zeros 32) 32 \<noteq> 0 \<and> fst (dh k basepoint) = 0"
    by (simp add: wireguard_device_init_def g Let_def split_beta generate_cookie_secret_def)
  have 2: "fst (wireguard_peer_init dh ip0 device pk psk) \<longleftrightarrow> dv_valid device \<and> fst (dh (dv_private_key device) pk) = 0"
    by (auto simp: wireguard_peer_init_def Let_def split_beta zero_peer_def split: option.splits)
  have 3: "\<not> dv_valid d \<and> (length k = 32 \<longrightarrow> dv_private_key d = zeros 32)"
    if "\<not> fst (wireguard_device_init dh device k w)" "d = fst (snd (wireguard_device_init dh device k w))" for d
    using that len by (auto simp: wireguard_device_init_def g Let_def split_beta generate_cookie_secret_def
        WIREGUARD_PRIVATE_KEY_LEN_def split: if_splits)
  have 4: "\<not> pr_valid p \<and> (length (snd (dh (dv_private_key device) pk)) = 32 \<longrightarrow> pr_public_key_dh p = zeros 32)"
    if "\<not> fst (wireguard_peer_init dh ip0 device pk psk)" "p = snd (wireguard_peer_init dh ip0 device pk psk)" for p
    using that by (auto simp: wireguard_peer_init_def Let_def split_beta zero_peer_def crypto_zero_eq zeros_def
        WIREGUARD_PUBLIC_KEY_LEN_def split: option.splits if_splits)
  show ?thesis using 1 2 3 4 unfolding Let_def by blast
qed

theorem init_failure_witness:
  "let d = fst (snd (wireguard_device_init toy_dh1 (zero_device []) (zeros 32) quiet_world)) in
   \<not> dv_valid d \<and> dv_private_key d = zeros 32"
  using init_failure [of toy_dh1 "zero_device []" "zeros 32" quiet_world] by (simp add: Let_def)

end
