(* ===== verification/Fe25519.thy ===== *)
theory Fe25519
  imports Crypto_Util
begin

text \<open>
  The field of \<open>x25519.c\<close>: integers modulo 2^255 - 19 in eight limbs of 32 bits, held
  between operations below 2^255 plus one limb. Each operation is the C function; the
  lemmas show that it computes the field operation and keeps the bound.
\<close>

unbundle bit_operations_syntax

type_synonym fe = "u32 list"

subsection \<open>The code\<close>

definition NLIMBS :: nat where "NLIMBS = 8"

text \<open>Result and carry.\<close>

definition umaal :: "u32 \<Rightarrow> u32 \<Rightarrow> u32 \<Rightarrow> u32 \<Rightarrow> u32 \<times> u32" where
  "umaal carry acc mand mier =
     (let tmp = (ucast mand * ucast mier + ucast acc + ucast carry :: u64)
      in (ucast tmp, ucast (drop_bit 32 tmp)))"

definition adc :: "u32 \<Rightarrow> u32 \<Rightarrow> u32 \<Rightarrow> u32 \<times> u32" where
  "adc carry acc mand =
     (let total = (ucast carry + ucast acc + ucast mand :: u64) in (ucast total, ucast (drop_bit 32 total)))"

definition adc0 :: "u32 \<Rightarrow> u32 \<Rightarrow> u32 \<times> u32" where
  "adc0 carry acc =
     (let total = (ucast carry + ucast acc :: u64) in (ucast total, ucast (drop_bit 32 total)))"

text \<open>The loops over the limbs: the limbs written and the carry out.\<close>

fun adc0_loop :: "u32 \<Rightarrow> fe \<Rightarrow> fe \<times> u32" where
  "adc0_loop carry [] = ([], carry)"
| "adc0_loop carry (x # xs) =
     (case adc0 carry x of (x, carry) \<Rightarrow> case adc0_loop carry xs of (xs, carry) \<Rightarrow> (x # xs, carry))"

definition propagate :: "fe \<Rightarrow> u32 \<Rightarrow> fe" where
  "propagate x over =
     (let over = drop_bit 31 (x ! (NLIMBS - 1)) OR push_bit 1 over;
          x = x[NLIMBS - 1 := x ! (NLIMBS - 1) AND NOT (push_bit 31 1)];
          carry = over * 19
      in fst (adc0_loop carry x))"

fun adc_loop :: "u32 \<Rightarrow> fe \<Rightarrow> fe \<Rightarrow> fe \<times> u32" where
  "adc_loop carry (a # as) (b # bs) =
     (case adc carry a b of (x, carry) \<Rightarrow> case adc_loop carry as bs of (xs, carry) \<Rightarrow> (x # xs, carry))"
| "adc_loop carry as bs = ([], carry)"

definition fe_add :: "fe \<Rightarrow> fe \<Rightarrow> fe" where
  "fe_add a b = (case adc_loop 0 a b of (out, carry) \<Rightarrow> propagate out carry)"

text \<open>
  The signed 64-bit carry stays between -39 and 1, so it is an integer here; storing it in a
  limb keeps its low 32 bits and the shift rounds down.
\<close>

fun sub_loop :: "int \<Rightarrow> fe \<Rightarrow> fe \<Rightarrow> fe \<times> int" where
  "sub_loop carry (a # as) (b # bs) =
     (let carry = carry + uint a - uint b;
          x = of_int carry :: u32
      in case sub_loop (carry div 2 ^ 32) as bs of (xs, carry) \<Rightarrow> (x # xs, carry))"
| "sub_loop carry as bs = ([], carry)"

definition fe_sub :: "fe \<Rightarrow> fe \<Rightarrow> fe" where
  "fe_sub a b = (case sub_loop (- 38) a b of (out, carry) \<Rightarrow> propagate out (of_int (1 + carry)))"

definition swapin :: "bytes \<Rightarrow> fe" where
  "swapin bs = map (\<lambda>i. U8TO32_LITTLE (drop (4 * i) bs)) [0..<NLIMBS]"

definition swapout :: "fe \<Rightarrow> bytes" where
  "swapout x = concat (map U32TO8_LITTLE x)"

text \<open>One row of the multiplication, and the reduction, which is the same loop.\<close>

fun umaal_loop :: "u32 \<Rightarrow> u32 \<Rightarrow> fe \<Rightarrow> fe \<Rightarrow> fe \<times> u32" where
  "umaal_loop carry mand (x # xs) (a # as) =
     (case umaal carry x mand a of (x, carry) \<Rightarrow>
      case umaal_loop carry mand xs as of (xs, carry) \<Rightarrow> (x # xs, carry))"
| "umaal_loop carry mand xs as = ([], carry)"

definition mul_row :: "fe \<Rightarrow> fe \<Rightarrow> nat \<Rightarrow> fe \<Rightarrow> fe" where
  "mul_row a b i accum =
     (case umaal_loop 0 (b ! i) (take NLIMBS (drop i accum)) a of
        (row, carry2) \<Rightarrow> take i accum @ row @ [carry2] @ drop (i + NLIMBS + 1) accum)"

text \<open>\<open>nb\<close> is the length of \<open>b\<close>. The inputs are read before the output is written.\<close>

definition fe_mul :: "fe \<Rightarrow> fe \<Rightarrow> fe" where
  "fe_mul a b =
     (let accum = replicate (2 * NLIMBS) 0;
          accum = fold (mul_row a b) [0..<length b] accum
      in case umaal_loop 0 38 (take NLIMBS accum) (drop NLIMBS accum) of
           (out, carry2) \<Rightarrow> propagate out carry2)"

definition sqr :: "fe \<Rightarrow> fe" where
  "sqr a = fe_mul a a"

text \<open>\<open>mul1 out a\<close> is the new value of \<open>out\<close>.\<close>

definition mul1 :: "fe \<Rightarrow> fe \<Rightarrow> fe" where
  "mul1 out a = fe_mul a out"

definition sqr1 :: "fe \<Rightarrow> fe" where
  "sqr1 a = mul1 a a"

definition condswap :: "fe \<Rightarrow> fe \<Rightarrow> u32 \<Rightarrow> fe \<times> fe" where
  "condswap a b doswap =
     (map (\<lambda>(a, b). a XOR ((a XOR b) AND doswap)) (zip a b),
      map (\<lambda>(a, b). b XOR ((a XOR b) AND doswap)) (zip a b))"

fun canon_loop :: "int \<Rightarrow> u32 \<Rightarrow> fe \<Rightarrow> fe \<times> u32" where
  "canon_loop carry res [] = ([], res)"
| "canon_loop carry res (x # xs) =
     (let carry = carry + uint x;
          y = of_int carry :: u32
      in case canon_loop (carry div 2 ^ 32) (res OR y) xs of (ys, res) \<Rightarrow> (y # ys, res))"

definition canon :: "fe \<Rightarrow> fe \<times> u32" where
  "canon x =
     (case adc0_loop 19 x of (x, carry0) \<Rightarrow>
      case canon_loop (- 19) 0 (propagate x carry0) of (x, res) \<Rightarrow>
        (x, ucast (drop_bit 32 (ucast res - 1 :: u64))))"

subsection \<open>Values\<close>

definition fe_p :: int where "fe_p = 2 ^ 255 - 19"

fun fe_val :: "fe \<Rightarrow> int" where
  "fe_val [] = 0"
| "fe_val (x # xs) = uint x + 2 ^ 32 * fe_val xs"

text \<open>What every operation leaves behind: below 2^255 plus one limb.\<close>

definition tight :: "fe \<Rightarrow> bool" where
  "tight x \<longleftrightarrow> length x = NLIMBS \<and> fe_val x < 2 ^ 255 + 2 ^ 32"

lemma uint32_bound: "uint (x :: u32) < 4294967296"
  using uint_lt2p [of x] by simp

lemma fe_val_nonneg [simp]: "0 \<le> fe_val x"
  by (induction x) simp_all

lemma fe_val_bound: "fe_val x < 2 ^ (32 * length x)"
proof (induction x)
  case (Cons w x)
  have "(2 :: int) ^ (32 * length (w # x)) = 4294967296 * 2 ^ (32 * length x)"
    by (simp add: power_add)
  moreover have "fe_val x + 1 \<le> 2 ^ (32 * length x)" using Cons by simp
  ultimately show ?case using uint32_bound [of w] by simp
qed simp

lemma fe_val_append: "fe_val (x @ y) = fe_val x + 2 ^ (32 * length x) * fe_val y"
  by (induction x) (simp_all add: power_add algebra_simps)

lemma fe_val_replicate [simp]: "fe_val (replicate n 0) = 0"
  by (induction n) simp_all

text \<open>A word cut in a low and a high half.\<close>

lemma split_64:
  fixes t :: u64
  shows "uint (ucast t :: u32) + 4294967296 * uint (ucast (drop_bit 32 t) :: u32) = uint t"
proof -
  have t: "uint t < 2 ^ 64" using uint_lt2p [of t] by simp
  have "uint (ucast t :: u32) = uint t mod 2 ^ 32"
    by (simp add: unsigned_ucast_eq take_bit_eq_mod)
  moreover have "uint (ucast (drop_bit 32 t) :: u32) = (uint t div 2 ^ 32) mod 2 ^ 32"
    by (simp only: unsigned_ucast_eq take_bit_eq_mod drop_bit_eq_div) (simp add: uint_div_distrib)
  moreover have "(uint t div 2 ^ 32) mod 2 ^ 32 = uint t div 2 ^ 32"
    using t by (intro mod_pos_pos_trivial) (simp_all add: pos_imp_zdiv_nonneg_iff)
  ultimately show ?thesis by simp
qed

lemma uint_ucast_64: "uint (ucast (x :: u32) :: u64) = uint x"
  using uint32_bound [of x] by (simp add: unsigned_ucast_eq take_bit_int_eq_self)

lemma uint_add_64: "uint x + uint y < 2 ^ 64 \<Longrightarrow> uint (x + y) = uint x + uint (y :: u64)"
  by (simp add: uint_word_ariths)

lemma adc0_val: "adc0 c x = (y, c') \<Longrightarrow> uint y + 4294967296 * uint c' = uint c + uint x"
proof -
  assume a: "adc0 c x = (y, c')"
  have "uint (ucast c + ucast x :: u64) = uint c + uint x"
    using uint32_bound [of c] uint32_bound [of x] by (simp add: uint_add_64 uint_ucast_64)
  with a split_64 [of "ucast c + ucast x"] show ?thesis by (auto simp: adc0_def Let_def)
qed

lemma adc_val: "adc c x m = (y, c') \<Longrightarrow> uint y + 4294967296 * uint c' = uint c + uint x + uint m"
proof -
  assume a: "adc c x m = (y, c')"
  have "uint (ucast c + ucast x + ucast m :: u64) = uint c + uint x + uint m"
    using uint32_bound [of c] uint32_bound [of x] uint32_bound [of m]
    by (simp add: uint_add_64 uint_ucast_64)
  with a split_64 [of "ucast c + ucast x + ucast m"] show ?thesis by (auto simp: adc_def Let_def)
qed

text \<open>The product of two limbs plus two limbs never exceeds 64 bits.\<close>

lemma umaal_val:
  "umaal c x m a = (y, c') \<Longrightarrow> uint y + 4294967296 * uint c' = uint m * uint a + uint x + uint c"
proof -
  assume e: "umaal c x m a = (y, c')"
  have le: "uint w \<le> 4294967295" for w :: u32 using uint32_bound [of w] by simp
  have ma: "uint m * uint a \<le> 4294967295 * 4294967295"
    by (rule mult_mono) (simp_all add: le)
  have "uint (ucast m * ucast a :: u64) = uint m * uint a"
    using ma by (simp add: uint_word_ariths uint_ucast_64)
  then have "uint (ucast m * ucast a + ucast x + ucast c :: u64) = uint m * uint a + uint x + uint c"
    using ma le [of x] le [of c] by (simp add: uint_add_64 uint_ucast_64)
  with e split_64 [of "ucast m * ucast a + ucast x + ucast c"] show ?thesis
    by (auto simp: umaal_def Let_def)
qed

lemma adc0_loop_val:
  "adc0_loop c x = (y, c') \<Longrightarrow>
   length y = length x \<and> fe_val y + 2 ^ (32 * length x) * uint c' = fe_val x + uint c"
proof (induction x arbitrary: c y c')
  case (Cons a x)
  obtain b d where b: "adc0 c a = (b, d)" by fastforce
  obtain z e where z: "adc0_loop d x = (z, e)" by fastforce
  have "length z = length x" and "fe_val z + 2 ^ (32 * length x) * uint e = fe_val x + uint d"
    using Cons.IH [OF z] by auto
  with Cons.prems b z adc0_val [OF b] show ?case by (auto simp: power_add algebra_simps)
qed simp

lemma adc_loop_val:
  "length a = length b \<Longrightarrow> adc_loop c a b = (y, c') \<Longrightarrow>
   length y = length a \<and> fe_val y + 2 ^ (32 * length a) * uint c' = fe_val a + fe_val b + uint c"
proof (induction a b arbitrary: c y c' rule: list_induct2)
  case (Cons u a v b)
  obtain w d where w: "adc c u v = (w, d)" by fastforce
  obtain z e where z: "adc_loop d a b = (z, e)" by fastforce
  have "length z = length a"
    and "fe_val z + 2 ^ (32 * length a) * uint e = fe_val a + fe_val b + uint d"
    using Cons.IH [OF z] by auto
  with Cons.prems w z adc_val [OF w] show ?case by (auto simp: power_add algebra_simps)
qed simp

lemma umaal_loop_val:
  "length x = length a \<Longrightarrow> umaal_loop c m x a = (y, c') \<Longrightarrow>
   length y = length x \<and>
   fe_val y + 2 ^ (32 * length x) * uint c' = fe_val x + uint m * fe_val a + uint c"
proof (induction x a arbitrary: c y c' rule: list_induct2)
  case (Cons u x v a)
  obtain w d where w: "umaal c u m v = (w, d)" by fastforce
  obtain z e where z: "umaal_loop d m x a = (z, e)" by fastforce
  have "length z = length x"
    and "fe_val z + 2 ^ (32 * length x) * uint e = fe_val x + uint m * fe_val a + uint d"
    using Cons.IH [OF z] by auto
  with Cons.prems w z umaal_val [OF w] show ?case by (auto simp: power_add algebra_simps)
qed simp

lemma uint_of_int_32: "uint (of_int k :: u32) = k mod 4294967296"
  by (simp add: uint_word_of_int)

lemma sub_loop_val:
  "length a = length b \<Longrightarrow> sub_loop c a b = (y, c') \<Longrightarrow>
   length y = length a \<and> fe_val y + 2 ^ (32 * length a) * c' = fe_val a - fe_val b + c"
proof (induction a b arbitrary: c y c' rule: list_induct2)
  case (Cons u a v b)
  let ?k = "c + uint u - uint v"
  obtain z e where z: "sub_loop (?k div 4294967296) a b = (z, e)" by fastforce
  have "length z = length a"
    and "fe_val z + 2 ^ (32 * length a) * e = fe_val a - fe_val b + ?k div 4294967296"
    using Cons.IH [OF z] by auto
  moreover have "uint (of_int ?k :: u32) + 4294967296 * (?k div 4294967296) = ?k"
    by (simp only: uint_of_int_32 mod_mult_div_eq)
  moreover have "y = of_int ?k # z" "c' = e" using Cons.prems z by (simp_all add: Let_def)
  ultimately show ?case by (simp add: power_add algebra_simps del: of_int_add of_int_diff)
qed simp

subsection \<open>Reduction\<close>

lemma fe_val_split_last:
  assumes "length x = NLIMBS"
  shows "fe_val x = fe_val (butlast x) + 2 ^ 224 * uint (x ! 7)"
proof -
  have ne: "x \<noteq> []" using assms by (auto simp: NLIMBS_def)
  have "last x = x ! 7" using ne assms by (simp add: last_conv_nth NLIMBS_def)
  then have "x = butlast x @ [x ! 7]" using append_butlast_last_id [OF ne] by simp
  moreover have "length (butlast x) = 7" using assms by (simp add: NLIMBS_def)
  ultimately show ?thesis
    using fe_val_append [of "butlast x" "[x ! 7]"] by simp
qed

lemma over_word:
  assumes "unat over < 2 ^ 31"
  shows "uint (drop_bit 31 w OR push_bit 1 over :: u32) = uint w div 2 ^ 31 + 2 * uint over"
proof -
  have "unat w div 2 ^ 31 < 2 ^ 1"
    using unat_u32_less [of w] by (simp add: less_mult_imp_div_less)
  then have "unat w div 2 ^ 31 OR unat over * 2 ^ 1 = unat w div 2 ^ 31 + unat over * 2 ^ 1"
    by (rule nat_or_add)
  moreover have "unat (push_bit 1 over) = unat over * 2 ^ 1"
    using assms by (simp only: unat_push_bit) simp
  ultimately have "unat (drop_bit 31 w OR push_bit 1 over) = unat w div 2 ^ 31 + unat over * 2 ^ 1"
    by (simp only: unat_or unat_drop_bit)
  then have "int (unat (drop_bit 31 w OR push_bit 1 over)) =
      int (unat w) div 2 ^ 31 + 2 * int (unat over)"
    by (simp add: zdiv_int)
  then show ?thesis by simp
qed

lemma low_31: "uint (w AND NOT (push_bit 31 1) :: u32) = uint w mod 2 ^ 31"
proof -
  have "NOT (push_bit 31 1) = (2 ^ 31 - 1 :: u32)" by simp
  then have "unat (w AND NOT (push_bit 31 1)) = unat w AND unat (2 ^ 31 - 1 :: u32)"
    by (simp only: unat_and)
  also have "unat (2 ^ 31 - 1 :: u32) = 2 ^ 31 - 1" by simp
  also have "unat w AND (2 ^ 31 - 1) = unat w mod 2 ^ 31" by (rule nat_and_mask)
  finally have "int (unat (w AND NOT (push_bit 31 1))) = int (unat w) mod 2 ^ 31"
    by (simp only: zmod_int) simp
  then show ?thesis by simp
qed

text \<open>
  The bits from 255 up are worth 19 each, the word that overflowed the limbs included.
\<close>

definition fold_255 :: "int \<Rightarrow> int" where
  "fold_255 v = v mod 2 ^ 255 + 19 * (v div 2 ^ 255)"

lemma fold_255_mod: "fold_255 v mod fe_p = v mod fe_p"
proof -
  have "v = fold_255 v + fe_p * (v div 2 ^ 255)"
    using mult_div_mod_eq [of "2 ^ 255" v] by (simp add: fold_255_def fe_p_def algebra_simps)
  then show ?thesis by (metis mod_mult_self2)
qed

lemma mod_split: "0 \<le> a \<Longrightarrow> a < m \<Longrightarrow> (a + m * q) mod m = a" for a m q :: int
  by simp

lemma div_split: "0 \<le> a \<Longrightarrow> a < m \<Longrightarrow> (a + m * q) div m = q" for a m q :: int
  by simp

lemma propagate_val:
  assumes x: "length x = NLIMBS" and over: "uint over < 2 ^ 26"
  shows "length (propagate x over) = NLIMBS"
    and "fe_val (propagate x over) = fold_255 (fe_val x + 2 ^ 256 * uint over)"
proof -
  let ?w = "x ! 7"
  let ?over = "drop_bit 31 ?w OR push_bit 1 over"
  let ?x = "x[7 := ?w AND NOT (push_bit 31 1)]"
  obtain y c where y: "adc0_loop (?over * 19) ?x = (y, c)" by fastforce
  have p: "propagate x over = y"
  proof -
    have "NLIMBS - 1 = 7" by (simp add: NLIMBS_def)
    then show ?thesis by (simp only: propagate_def Let_def y fst_conv)
  qed
  define h where "h = uint ?w div 2 ^ 31"
  define l where "l = uint ?w mod 2 ^ 31"
  define b where "b = fe_val (butlast x)"
  have w: "uint ?w = 2 ^ 31 * h + l" by (simp add: h_def l_def)
  have h: "0 \<le> h" "h \<le> 1" using uint32_bound [of ?w] by (simp_all add: h_def pos_imp_zdiv_nonneg_iff)
  have l: "0 \<le> l" "l < 2 ^ 31" by (simp_all add: l_def)
  have b: "0 \<le> b" "b < 2 ^ 224"
    using fe_val_bound [of "butlast x"] x by (simp_all add: b_def NLIMBS_def)
  have ov: "0 \<le> uint over" "uint over < 67108864" using over by simp_all
  have "nat (uint over) < nat 67108864" using ov by (simp only: zless_nat_conj) simp
  then have "unat over < 2 ^ 31" by simp
  then have o: "uint ?over = h + 2 * uint over" by (simp only: over_word h_def)
  have c19: "uint (?over * 19) = 19 * (h + 2 * uint over)"
  proof -
    have "uint ?over * uint (19 :: u32) < 2 ^ 32" using o h ov by simp
    then have "uint (?over * 19) = uint ?over * uint (19 :: u32)"
      by (simp only: uint_word_ariths) simp
    with o show ?thesis by simp
  qed
  have bx: "butlast ?x = butlast x" by (simp add: butlast_list_update x NLIMBS_def)
  have "fe_val ?x = fe_val (butlast ?x) + 2 ^ 224 * uint (?x ! 7)"
    using x by (intro fe_val_split_last) simp
  moreover have "?x ! 7 = ?w AND NOT (push_bit 31 1)"
    using x by (intro nth_list_update_eq) (simp add: NLIMBS_def)
  ultimately have xv: "fe_val ?x = b + 2 ^ 224 * l"
    by (simp only: bx low_31 b_def l_def)
  have v: "fe_val x + 2 ^ 256 * uint over = (b + 2 ^ 224 * l) + 2 ^ 255 * (h + 2 * uint over)"
    using fe_val_split_last [OF x] w by (simp add: b_def)
  have lo: "0 \<le> b + 2 ^ 224 * l" "b + 2 ^ 224 * l < 2 ^ 255"
    using b l by simp_all
  have dm: "(fe_val x + 2 ^ 256 * uint over) mod 2 ^ 255 = b + 2 ^ 224 * l"
    "(fe_val x + 2 ^ 256 * uint over) div 2 ^ 255 = h + 2 * uint over"
    unfolding v using lo by (rule mod_split, rule div_split)
  have l2: "length y = 8"
    and sum: "fe_val y + 2 ^ 256 * uint c = (b + 2 ^ 224 * l) + 19 * (h + 2 * uint over)"
    using adc0_loop_val [OF y] x xv c19 by (simp_all add: NLIMBS_def)
  have small: "19 * (h + 2 * uint over) < 2 ^ 255" using h(2) ov(2) by simp
  have dbl: "(2 :: int) ^ 255 + 2 ^ 255 = 2 ^ 256" by simp
  have "2 ^ 256 * uint c \<le> (b + 2 ^ 224 * l) + 19 * (h + 2 * uint over)"
    using sum fe_val_nonneg [of y] by (metis add_le_cancel_right add_0)
  also have "\<dots> < 2 ^ 255 + 2 ^ 255" by (rule add_strict_mono [OF lo(2) small])
  finally have "2 ^ 256 * uint c < 2 ^ 256 * 1" by (simp only: dbl mult_1_right)
  then have "uint c < 1" by (simp only: mult_less_cancel_left_pos zero_less_power zero_less_numeral)
  then have "uint c = 0" using uint_ge_0 [of c] by linarith
  with sum have "fe_val y = fold_255 (fe_val x + 2 ^ 256 * uint over)"
    by (simp only: fold_255_def dm mult_zero_right add_0_right)
  with p l2 show "length (propagate x over) = NLIMBS"
    "fe_val (propagate x over) = fold_255 (fe_val x + 2 ^ 256 * uint over)"
    by (simp_all add: NLIMBS_def)
qed

lemma fold_255_bound:
  assumes "0 \<le> v" and "v < 2 ^ 255 * 2 ^ 27"
  shows "0 \<le> fold_255 v" and "fold_255 v < 2 ^ 255 + 2 ^ 32"
proof -
  have pos: "(0 :: int) < 2 ^ 255" by simp
  have "v div 2 ^ 255 < 2 ^ 27"
  proof -
    have "2 ^ 255 * (v div 2 ^ 255) \<le> v"
      using mult_div_mod_eq [of "2 ^ 255" v] pos_mod_sign [OF pos, of v] by linarith
    then have "2 ^ 255 * (v div 2 ^ 255) < 2 ^ 255 * 2 ^ 27"
      using assms(2) by (rule order.strict_trans1)
    then show ?thesis
      by (simp only: mult_less_cancel_left_pos zero_less_power zero_less_numeral)
  qed
  moreover have "0 \<le> v div 2 ^ 255" using assms(1) pos by (simp add: pos_imp_zdiv_nonneg_iff)
  moreover have "0 \<le> v mod 2 ^ 255" "v mod 2 ^ 255 < 2 ^ 255" by simp_all
  ultimately show "0 \<le> fold_255 v" "fold_255 v < 2 ^ 255 + 2 ^ 32"
    unfolding fold_255_def by simp_all
qed

lemma fe_val_bound_8: "length x = NLIMBS \<Longrightarrow> fe_val x < 2 ^ 256"
  using fe_val_bound [of x] by (simp add: NLIMBS_def)

lemma carry_bound:
  assumes "y + 2 ^ 256 * c = v" and "0 \<le> y" and "v < 2 ^ 256 * k"
  shows "c < (k :: int)"
proof -
  have "2 ^ 256 * c \<le> v" using assms(1,2) by linarith
  with assms(3) have "2 ^ 256 * c < 2 ^ 256 * k" by (rule order.strict_trans1 [rotated])
  then show ?thesis by (simp only: mult_less_cancel_left_pos zero_less_power zero_less_numeral)
qed

text \<open>An operation that ends in \<open>propagate\<close>.\<close>

lemma propagate_ok:
  assumes "length x = NLIMBS" and over: "uint over < 2 ^ 26"
  shows "tight (propagate x over)"
    and "fe_val (propagate x over) mod fe_p = (fe_val x + 2 ^ 256 * uint over) mod fe_p"
proof -
  have "uint over + 1 \<le> 2 ^ 26" using over by simp
  then have "2 ^ 256 * (uint over + 1) \<le> (2 :: int) ^ 256 * 2 ^ 26" by (intro mult_left_mono) simp_all
  moreover have "2 ^ 256 * 2 ^ 26 = (2 :: int) ^ 255 * 2 ^ 27" by simp
  moreover have "2 ^ 256 * (uint over + 1) = 2 ^ 256 * uint over + 2 ^ 256" by (rule distrib_left [THEN trans]) simp
  ultimately have "fe_val x + 2 ^ 256 * uint over < 2 ^ 255 * 2 ^ 27"
    using fe_val_bound_8 [OF assms(1)] by linarith
  moreover have "0 \<le> fe_val x + 2 ^ 256 * uint over" by simp
  ultimately have "fold_255 (fe_val x + 2 ^ 256 * uint over) < 2 ^ 255 + 2 ^ 32"
    by (rule fold_255_bound(2) [rotated])
  then show "tight (propagate x over)"
    using propagate_val [OF assms] by (simp only: tight_def)
  show "fe_val (propagate x over) mod fe_p = (fe_val x + 2 ^ 256 * uint over) mod fe_p"
    by (simp only: propagate_val [OF assms] fold_255_mod)
qed

lemma tight_length: "tight x \<Longrightarrow> length x = NLIMBS"
  by (simp add: tight_def)

lemma fe_add_ok:
  assumes "length a = NLIMBS" and "length b = NLIMBS"
  shows "tight (fe_add a b)" and "fe_val (fe_add a b) mod fe_p = (fe_val a + fe_val b) mod fe_p"
proof -
  obtain y c where y: "adc_loop 0 a b = (y, c)" by fastforce
  have len: "length y = NLIMBS" and v: "fe_val y + 2 ^ 256 * uint c = fe_val a + fe_val b"
    using adc_loop_val [OF _ y] assms by (simp_all add: NLIMBS_def)
  have "fe_val a + fe_val b < 2 ^ 256 * 2"
    using fe_val_bound_8 [OF assms(1)] fe_val_bound_8 [OF assms(2)] by linarith
  then have "uint c < 2" by (rule carry_bound [OF v fe_val_nonneg])
  then have c: "uint c < 2 ^ 26" by simp
  show "tight (fe_add a b)" "fe_val (fe_add a b) mod fe_p = (fe_val a + fe_val b) mod fe_p"
    using propagate_ok [OF len c] by (simp_all only: fe_add_def y split v)
qed

text \<open>The subtrahend may be at most 2^256 - 38, so that adding 2p makes the difference positive.\<close>

lemma fe_sub_ok:
  assumes a: "length a = NLIMBS" and b: "tight b"
  shows "tight (fe_sub a b)" and "fe_val (fe_sub a b) mod fe_p = (fe_val a - fe_val b) mod fe_p"
proof -
  obtain y c where y: "sub_loop (- 38) a b = (y, c)" by fastforce
  have len: "length y = NLIMBS" and v: "fe_val y + 2 ^ 256 * c = fe_val a - fe_val b - 38"
    using sub_loop_val [OF _ y] assms by (simp_all add: NLIMBS_def tight_def)
  have vb: "fe_val b < 2 ^ 255 + 2 ^ 32" using b by (simp only: tight_def)
  have "fe_val a - fe_val b - 38 < 2 ^ 256 * 1"
    using fe_val_bound_8 [OF a] fe_val_nonneg [of b] by linarith
  then have c1: "c < 1" by (rule carry_bound [OF v fe_val_nonneg])
  have two: "(2 :: int) ^ 255 + 2 ^ 32 + 38 \<le> 2 ^ 256" by simp
  have "- (2 ^ 256) \<le> fe_val y + 2 ^ 256 * c"
    unfolding v using vb two fe_val_nonneg [of a] by linarith
  moreover have "fe_val y < 2 ^ 256" using fe_val_bound_8 [OF len] .
  ultimately have "2 ^ 256 * (- 2) < 2 ^ 256 * c" by linarith
  then have c2: "- 2 < c" by (simp only: mult_less_cancel_left_pos zero_less_power zero_less_numeral)
  have "uint (of_int (1 + c) :: u32) = (1 + c) mod 4294967296" by (rule uint_of_int_32)
  also have "\<dots> = 1 + c" using c1 c2 by (intro mod_pos_pos_trivial) simp_all
  finally have oc: "uint (of_int (1 + c) :: u32) = 1 + c" .
  then have small: "uint (of_int (1 + c) :: u32) < 2 ^ 26" using c1 by simp
  have "fe_val y + 2 ^ 256 * (1 + c) = fe_val a - fe_val b + fe_p * 2"
    using v by (simp add: fe_p_def)
  then have "(fe_val y + 2 ^ 256 * uint (of_int (1 + c) :: u32)) mod fe_p = (fe_val a - fe_val b) mod fe_p"
    by (simp only: oc mod_mult_self2)
  then show "tight (fe_sub a b)" "fe_val (fe_sub a b) mod fe_p = (fe_val a - fe_val b) mod fe_p"
    using propagate_ok [OF len small] by (simp_all only: fe_sub_def y split)
qed

subsection \<open>Multiplication\<close>

lemma fe_val_split: "i \<le> length x \<Longrightarrow> fe_val x = fe_val (take i x) + 2 ^ (32 * i) * fe_val (drop i x)"
  using fe_val_append [of "take i x" "drop i x"] by simp

text \<open>A row on an accumulator whose limbs from \<open>8 + i\<close> on are still zero.\<close>

lemma mul_row_val:
  assumes a: "length a = NLIMBS" and p: "length p = NLIMBS + i" and i: "i < NLIMBS"
  obtains q where "mul_row a b i (p @ replicate (NLIMBS - i) 0) = q @ replicate (NLIMBS - Suc i) 0"
    and "length q = NLIMBS + Suc i"
    and "fe_val q = fe_val p + 2 ^ (32 * i) * (uint (b ! i) * fe_val a)"
proof -
  obtain row c where row: "umaal_loop 0 (b ! i) (drop i p) a = (row, c)" by fastforce
  have d: "length (drop i p) = length a" using a p by simp
  have r: "length row = NLIMBS"
    and v: "fe_val row + 2 ^ 256 * uint c = fe_val (drop i p) + uint (b ! i) * fe_val a"
    using umaal_loop_val [OF d row] a d by (simp_all add: NLIMBS_def)
  have "take NLIMBS (drop i (p @ replicate (NLIMBS - i) 0)) = drop i p" using p by simp
  moreover have "take i (p @ replicate (NLIMBS - i) (0 :: u32)) = take i p" using p by simp
  moreover have "drop (i + NLIMBS + 1) (p @ replicate (NLIMBS - i) (0 :: u32)) = replicate (NLIMBS - Suc i) 0"
    using p i by simp
  ultimately have eq: "mul_row a b i (p @ replicate (NLIMBS - i) 0) =
      (take i p @ row @ [c]) @ replicate (NLIMBS - Suc i) 0"
    by (simp only: mul_row_def row split append.assoc)
  have "fe_val (take i p @ row @ [c]) = fe_val (take i p) + 2 ^ (32 * i) * (fe_val row + 2 ^ 256 * uint c)"
    using p r by (simp add: fe_val_append NLIMBS_def)
  also have "\<dots> = fe_val p + 2 ^ (32 * i) * (uint (b ! i) * fe_val a)"
    using fe_val_split [of i p] p by (simp only: v) (simp add: algebra_simps)
  finally show thesis
    using that [OF eq] p r by simp
qed

lemma mul_rows_val:
  assumes a: "length a = NLIMBS"
  shows "n \<le> length b \<Longrightarrow> n \<le> NLIMBS \<Longrightarrow>
    \<exists>p. fold (mul_row a b) [0..<n] (replicate (2 * NLIMBS) 0) = p @ replicate (NLIMBS - n) 0 \<and>
      length p = NLIMBS + n \<and> fe_val p = fe_val a * fe_val (take n b)"
proof (induction n)
  case 0
  have "replicate (2 * NLIMBS) (0 :: u32) = replicate NLIMBS 0 @ replicate NLIMBS 0"
    by (simp add: replicate_add [symmetric] mult_2)
  then show ?case by (intro exI [of _ "replicate NLIMBS 0"]) simp
next
  case (Suc n)
  then obtain p where p: "fold (mul_row a b) [0..<n] (replicate (2 * NLIMBS) 0) = p @ replicate (NLIMBS - n) 0"
    "length p = NLIMBS + n" "fe_val p = fe_val a * fe_val (take n b)" by auto
  have "n < NLIMBS" using Suc.prems by simp
  from mul_row_val [OF a p(2) this, of b] obtain q where
    q: "mul_row a b n (p @ replicate (NLIMBS - n) 0) = q @ replicate (NLIMBS - Suc n) 0"
      "length q = NLIMBS + Suc n" "fe_val q = fe_val p + 2 ^ (32 * n) * (uint (b ! n) * fe_val a)" by blast
  have "fe_val (take (Suc n) b) = fe_val (take n b) + 2 ^ (32 * n) * uint (b ! n)"
    using Suc.prems by (simp add: take_Suc_conv_app_nth fe_val_append)
  then have "fe_val q = fe_val a * fe_val (take (Suc n) b)"
    using p(3) q(3) by (simp add: algebra_simps)
  then show ?case using p(1) q(1,2) by (intro exI [of _ q]) simp
qed

text \<open>The second pass folds the upper eight limbs, 2^256 being 38.\<close>

lemma fe_mul_ok:
  assumes a: "length a = NLIMBS" and b: "length b \<le> NLIMBS"
  shows "tight (fe_mul a b)" and "fe_val (fe_mul a b) mod fe_p = (fe_val a * fe_val b) mod fe_p"
proof -
  let ?acc = "fold (mul_row a b) [0..<length b] (replicate (2 * NLIMBS) 0)"
  from mul_rows_val [OF a order.refl b] obtain p where
    p: "?acc = p @ replicate (NLIMBS - length b) 0" "length p = NLIMBS + length b"
      "fe_val p = fe_val a * fe_val b" by auto
  have len: "length ?acc = 2 * NLIMBS" using p(1,2) b by simp
  have val: "fe_val ?acc = fe_val a * fe_val b" using p by (simp add: fe_val_append)
  obtain y c where y: "umaal_loop 0 38 (take NLIMBS ?acc) (drop NLIMBS ?acc) = (y, c)" by fastforce
  have l: "length (take NLIMBS ?acc) = length (drop NLIMBS ?acc)" using len by simp
  have ly: "length y = NLIMBS"
    and v: "fe_val y + 2 ^ 256 * uint c = fe_val (take NLIMBS ?acc) + 38 * fe_val (drop NLIMBS ?acc)"
    using umaal_loop_val [OF l y] len by (simp_all add: NLIMBS_def)
  have "fe_val (take NLIMBS ?acc) < 2 ^ 256" "fe_val (drop NLIMBS ?acc) < 2 ^ 256"
    using fe_val_bound_8 [of "take NLIMBS ?acc"] fe_val_bound_8 [of "drop NLIMBS ?acc"] len by simp_all
  then have "fe_val (take NLIMBS ?acc) + 38 * fe_val (drop NLIMBS ?acc) < 2 ^ 256 * 39"
    by linarith
  then have "uint c < 39" by (rule carry_bound [OF v fe_val_nonneg])
  then have c: "uint c < 2 ^ 26" by simp
  have "fe_val a * fe_val b = fe_val (take NLIMBS ?acc) + 2 ^ 256 * fe_val (drop NLIMBS ?acc)"
    using fe_val_split [of NLIMBS ?acc] len val by (simp add: NLIMBS_def)
  also have "\<dots> = fe_val y + 2 ^ 256 * uint c + fe_p * (2 * fe_val (drop NLIMBS ?acc))"
    unfolding v by (simp add: fe_p_def)
  finally have "(fe_val a * fe_val b) mod fe_p = (fe_val y + 2 ^ 256 * uint c) mod fe_p"
    by (simp only: mod_mult_self2)
  then show "tight (fe_mul a b)" "fe_val (fe_mul a b) mod fe_p = (fe_val a * fe_val b) mod fe_p"
    using propagate_ok [OF ly c] by (simp_all only: fe_mul_def Let_def y split)
qed

lemma sqr_ok:
  assumes "length a = NLIMBS"
  shows "tight (sqr a)" and "fe_val (sqr a) mod fe_p = (fe_val a * fe_val a) mod fe_p"
  using fe_mul_ok [of a a] assms by (simp_all add: sqr_def)

lemma mul1_ok:
  assumes "length out = NLIMBS" and "length a = NLIMBS"
  shows "tight (mul1 out a)" and "fe_val (mul1 out a) mod fe_p = (fe_val out * fe_val a) mod fe_p"
  using fe_mul_ok [of a out] assms by (simp_all add: mul1_def mult.commute)

lemma sqr1_eq: "sqr1 a = sqr a"
  by (simp add: sqr1_def mul1_def sqr_def)

subsection \<open>The conditional swap\<close>

lemma condswap_0: "length a = length b \<Longrightarrow> condswap a b 0 = (a, b)"
  by (simp add: condswap_def list_eq_iff_nth_eq)

lemma condswap_ones: "length a = length b \<Longrightarrow> condswap a b (- 1) = (b, a)"
proof -
  assume "length a = length b"
  moreover have "x XOR (x XOR y) = y" "y XOR (x XOR y) = x" for x y :: u32
    by (simp_all add: xor.commute xor.left_commute)
  ultimately show ?thesis by (simp add: condswap_def list_eq_iff_nth_eq)
qed

subsection \<open>The canonical form\<close>

lemma fe_val_zero: "fe_val (w # x) = 0 \<longleftrightarrow> w = 0 \<and> fe_val x = 0"
  by (simp add: add_nonneg_eq_0_iff uint_0_iff)

lemma canon_loop_val:
  "canon_loop c r x = (y, r') \<Longrightarrow>
   length y = length x \<and> (\<exists>k. fe_val y + 2 ^ (32 * length x) * k = fe_val x + c) \<and>
   (r' = 0 \<longleftrightarrow> r = 0 \<and> fe_val y = 0)"
proof (induction x arbitrary: c r y r')
  case (Cons u x)
  let ?k = "c + uint u"
  obtain z e where z: "canon_loop (?k div 4294967296) (r OR of_int ?k) x = (z, e)" by fastforce
  from Cons.IH [OF z] obtain k where l: "length z = length x"
    and k: "fe_val z + 2 ^ (32 * length x) * k = fe_val x + ?k div 4294967296"
    and e: "e = 0 \<longleftrightarrow> r OR of_int ?k = 0 \<and> fe_val z = 0" by auto
  have m: "uint (of_int ?k :: u32) + 4294967296 * (?k div 4294967296) = ?k"
    by (simp only: uint_of_int_32 mod_mult_div_eq)
  have y: "y = of_int ?k # z" "r' = e" using Cons.prems z by (simp_all add: Let_def)
  have "fe_val y + 2 ^ (32 * length (u # x)) * k = fe_val (u # x) + c"
    using k m by (simp add: y power_add algebra_simps del: of_int_add)
  moreover have "r' = 0 \<longleftrightarrow> r = 0 \<and> fe_val y = 0"
    by (simp only: y e fe_val_zero word_or_eq_0 conj_assoc)
  ultimately show ?case using l y by auto
qed simp

lemma zero_mask: "ucast (drop_bit 32 (ucast (res :: u32) - 1 :: u64)) = (if res = 0 then - 1 else 0 :: u32)"
proof (cases "res = 0")
  case False
  then have "uint res \<noteq> 0" by (simp add: uint_0_iff)
  then have pos: "1 \<le> uint res" using uint_ge_0 [of res] by linarith
  then have "uint (ucast res - 1 :: u64) = uint res - 1"
    using uint32_bound [of res] by (simp add: uint_word_ariths uint_ucast_64)
  then have "uint (ucast res - 1 :: u64) div 4294967296 = 0"
    using pos uint32_bound [of res] by (simp add: div_pos_pos_trivial)
  then have "drop_bit 32 (ucast res - 1 :: u64) = 0"
    by (simp add: word_uint_eq_iff drop_bit_eq_div uint_div_distrib)
  with False show ?thesis by simp
next
  case True
  have "uint (ucast (drop_bit 32 (- 1 :: u64)) :: u32) = uint (- 1 :: u32)"
    by (simp add: unsigned_ucast_eq unsigned_drop_bit_eq unsigned_minus_1_eq_mask mask_eq_exp_minus_1)
  then have "ucast (drop_bit 32 (- 1 :: u64)) = (- 1 :: u32)" by (simp only: word_uint_eq_iff)
  with True show ?thesis by simp
qed

text \<open>The least residue, and the mask that is all ones exactly for zero.\<close>

lemma canon_ok:
  assumes "tight x"
  shows "length (fst (canon x)) = NLIMBS"
    and "fe_val (fst (canon x)) = fe_val x mod fe_p"
    and "snd (canon x) = (if fe_val x mod fe_p = 0 then - 1 else 0)"
proof -
  have x: "length x = NLIMBS" "fe_val x < 2 ^ 255 + 2 ^ 32" using assms by (simp_all add: tight_def)
  obtain y c where y: "adc0_loop 19 x = (y, c)" by fastforce
  have ly: "length y = NLIMBS" and v: "fe_val y + 2 ^ 256 * uint c = fe_val x + 19"
    using adc0_loop_val [OF y] x(1) by (simp_all add: NLIMBS_def)
  have two: "(2 :: int) ^ 255 + 2 ^ 32 + 19 \<le> 2 ^ 256 * 1" by simp
  have "fe_val x + 19 < 2 ^ 256 * 1" using x(2) two by linarith
  then have "uint c < 1" by (rule carry_bound [OF v fe_val_nonneg])
  then have c: "uint c = 0" using uint_ge_0 [of c] by linarith
  then have c26: "uint c < 2 ^ 26" by simp
  have w: "length (propagate y c) = NLIMBS" "fe_val (propagate y c) = fold_255 (fe_val x + 19)"
    using propagate_val [OF ly c26] v by simp_all
  have f: "fold_255 (fe_val x + 19) = fe_val x mod fe_p + 19"
  proof (cases "fe_val x < fe_p")
    case True
    then have "fe_val x + 19 < 2 ^ 255" by (simp add: fe_p_def)
    then show ?thesis using True by (simp add: fold_255_def fe_p_def)
  next
    case False
    have "fe_val x + 19 = (fe_val x - fe_p) + 2 ^ 255 * 1" by (simp add: fe_p_def)
    moreover have r: "0 \<le> fe_val x - fe_p" "fe_val x - fe_p < 2 ^ 255"
      "fe_val x - fe_p < fe_p" using False x(2) by (simp_all add: fe_p_def)
    ultimately have "(fe_val x + 19) mod 2 ^ 255 = fe_val x - fe_p" "(fe_val x + 19) div 2 ^ 255 = 1"
      by (simp_all only: mod_split div_split)
    moreover have "fe_val x mod fe_p = fe_val x - fe_p"
      using r mod_split [of "fe_val x - fe_p" fe_p 1] by simp
    ultimately show ?thesis by (simp only: fold_255_def)
  qed
  obtain z r where z: "canon_loop (- 19) 0 (propagate y c) = (z, r)" by fastforce
  obtain k where lz: "length z = NLIMBS"
    and k: "fe_val z + 2 ^ 256 * k = fe_val x mod fe_p" and r: "r = 0 \<longleftrightarrow> fe_val z = 0"
    using canon_loop_val [OF z] w f by (auto simp: NLIMBS_def)
  have p: "0 < fe_p" "fe_p < 2 ^ 256 * 1" by (simp_all add: fe_p_def)
  then have m: "0 \<le> fe_val x mod fe_p" "fe_val x mod fe_p < 2 ^ 256 * 1"
    by (simp_all add: order.strict_trans [OF pos_mod_bound [OF p(1)]])
  have "k < 1" by (rule carry_bound [OF k fe_val_nonneg m(2)])
  moreover have "2 ^ 256 * (- 1) < 2 ^ 256 * k" using k m(1) fe_val_bound_8 [OF lz] by linarith
  then have "- 1 < k" by (simp only: mult_less_cancel_left_pos zero_less_power zero_less_numeral)
  ultimately have "k = 0" by linarith
  with k have vz: "fe_val z = fe_val x mod fe_p" by simp
  have "canon x = (z, if r = 0 then - 1 else 0)"
    by (simp only: canon_def y split z zero_mask)
  with lz vz r show "length (fst (canon x)) = NLIMBS" "fe_val (fst (canon x)) = fe_val x mod fe_p"
    "snd (canon x) = (if fe_val x mod fe_p = 0 then - 1 else 0)"
    by simp_all
qed

subsection \<open>Bytes and limbs\<close>

lemma length_swapin [simp]: "length (swapin bs) = NLIMBS"
  by (simp add: swapin_def)

lemma le_val_take_add: "int (le_val (take (m + n) bs)) =
    int (le_val (take m bs)) + 256 ^ min m (length bs) * int (le_val (take n (drop m bs)))"
  by (simp add: take_add le_val_append min.commute)

lemma swapin_prefix:
  "4 * n \<le> length bs \<Longrightarrow>
   fe_val (map (\<lambda>i. U8TO32_LITTLE (drop (4 * i) bs)) [0..<n]) = int (le_val (take (4 * n) bs))"
proof (induction n)
  case (Suc n)
  have "uint (U8TO32_LITTLE (drop (4 * n) bs)) = int (le_val (take 4 (drop (4 * n) bs)))"
    using Suc.prems unat_U8TO32_LITTLE [of "drop (4 * n) bs"] by (simp add: uint_nat del: of_nat_unat)
  moreover have "(256 :: int) ^ (4 * n) = 2 ^ (32 * n)" by (simp add: power_mult)
  moreover have "4 * Suc n = 4 * n + 4" by simp
  ultimately show ?case
    using Suc by (simp only: le_val_take_add) (simp add: fe_val_append min_def)
qed simp

lemma fe_val_swapin: "length bs = 32 \<Longrightarrow> fe_val (swapin bs) = int (le_val bs)"
  using swapin_prefix [of NLIMBS bs] by (simp add: swapin_def NLIMBS_def)

lemma length_swapout [simp, length_simps]: "length (swapout x) = 4 * length x"
  by (induction x) (simp_all add: swapout_def)

lemma le_val_swapout: "int (le_val (swapout x)) = fe_val x"
  by (induction x) (simp_all add: swapout_def le_val_append U32TO8_LITTLE_le_bytes le_val_le_bytes)

end
