(* ===== verification/X25519.thy ===== *)
theory X25519
  imports Fe25519
begin

text \<open>
  Scalar multiplication on Curve25519, \<open>x25519.c\<close>: the ladder step in its two parts, the loop
  with the lazy conditional swap, the addition chain that inverts, and \<open>x25519\<close> itself. The
  theorem equates it with the Montgomery ladder of RFC 7748 written over the integers modulo
  2^255 - 19. The signature functions of the file are compiled out there
  (\<open>X25519_SUPPORT_SIGN\<close> is 0) and have no counterpart here.

  \<open>fe xs[5]\<close> is a list of five field elements, with x2, z2, x3, z3 and t1 at the indices
  0 to 4; t1 is not initialised by the code, so the list comes in as an argument.
\<close>

unbundle bit_operations_syntax

subsection \<open>The code\<close>

definition a24 :: fe where "a24 = [121665]"

definition ladder_part1 :: "fe list \<Rightarrow> fe list" where
  "ladder_part1 xs =
     (let x2 = xs ! 0; z2 = xs ! 1; x3 = xs ! 2; z3 = xs ! 3;
          t1 = fe_add x2 z2;
          z2 = fe_sub x2 z2;
          x2 = fe_add x3 z3;
          z3 = fe_sub x3 z3;
          z3 = mul1 z3 t1;
          x2 = mul1 x2 z2;
          x3 = fe_add z3 x2;
          z3 = fe_sub z3 x2;
          t1 = sqr1 t1;
          z2 = sqr1 z2;
          x2 = fe_sub t1 z2;
          z2 = fe_mul x2 a24;
          z2 = fe_add z2 t1
      in [x2, z2, x3, z3, t1])"

definition ladder_part2 :: "fe list \<Rightarrow> fe \<Rightarrow> fe list" where
  "ladder_part2 xs x1 =
     (let x2 = xs ! 0; z2 = xs ! 1; x3 = xs ! 2; z3 = xs ! 3; t1 = xs ! 4;
          z3 = sqr1 z3;
          z3 = mul1 z3 x1;
          x3 = sqr1 x3;
          z2 = mul1 z2 x2;
          x2 = fe_sub t1 x2;
          x2 = mul1 x2 t1
      in [x2, z2, x3, z3, t1])"

text \<open>The swap runs over x2 and z2, which lie one after the other, and over x3 and z3.\<close>

definition condswap_xs :: "fe list \<Rightarrow> u32 \<Rightarrow> fe list" where
  "condswap_xs xs doswap =
     (case condswap (xs ! 0 @ xs ! 1) (xs ! 2 @ xs ! 3) doswap of
        (a, b) \<Rightarrow> [take NLIMBS a, drop NLIMBS a, take NLIMBS b, drop NLIMBS b, xs ! 4])"

text \<open>One turn of the loop, for the bit \<open>i\<close>.\<close>

definition scalar_byte :: "bytes \<Rightarrow> int \<Rightarrow> nat \<Rightarrow> u8" where
  "scalar_byte scalar clamp i =
     (let bytei = scalar ! (i div 8)
      in if clamp \<noteq> 0 then
           if i div 8 = 0 then bytei AND NOT 7
           else if i div 8 = 32 - 1 then (bytei AND 0x7F) OR 0x40
           else bytei
         else bytei)"

definition ladder_step :: "bytes \<Rightarrow> int \<Rightarrow> fe \<Rightarrow> nat \<Rightarrow> fe list \<times> u32 \<Rightarrow> fe list \<times> u32" where
  "ladder_step scalar clamp x1 i =
     (\<lambda>(xs, swap).
       let bytei = scalar_byte scalar clamp i;
           doswap = - (ucast (drop_bit (i mod 8) bytei AND 1) :: u32);
           xs = condswap_xs xs (swap XOR doswap);
           swap = doswap;
           xs = ladder_part1 xs;
           xs = ladder_part2 xs x1
       in (xs, swap))"

definition x25519_core :: "fe list \<Rightarrow> bytes \<Rightarrow> bytes \<Rightarrow> int \<Rightarrow> fe list" where
  "x25519_core xs scalar x1 clamp =
     (let x1 = swapin x1;
          zero = replicate NLIMBS 0;
          xs = [zero[0 := 1], zero, x1, zero[0 := 1], xs ! 4];
          (xs, swap) = fold (ladder_step scalar clamp x1) (rev [0..<256]) (xs, 0)
      in condswap_xs xs swap)"

text \<open>The addition chain: the table, and the squarings and the product of one of its steps.\<close>

definition steps :: "(nat \<times> nat \<times> nat) list" where
  "steps =
     [(2, 1, 1),
      (2, 1, 1),
      (4, 2, 3),
      (2, 4, 6),
      (3, 1, 1),
      (3, 2, 12),
      (4, 3, 25),
      (2, 3, 25),
      (2, 4, 50),
      (3, 2, 125),
      (3, 1, 2),
      (3, 1, 2),
      (3, 1, 1)]"

fun sqr_times :: "nat \<Rightarrow> nat \<Rightarrow> fe list \<times> nat \<Rightarrow> fe list \<times> nat" where
  "sqr_times a 0 (xs, prev) = (xs, prev)"
| "sqr_times a (Suc j) (xs, prev) = sqr_times a j (xs[a := sqr (xs ! prev)], a)"

definition chain_step :: "nat \<times> nat \<times> nat \<Rightarrow> fe list \<times> nat \<Rightarrow> fe list \<times> nat" where
  "chain_step = (\<lambda>(a, c, n) (xs, prev).
     case sqr_times a n (xs, prev) of (xs, prev) \<Rightarrow> (xs[a := mul1 (xs ! a) (xs ! c)], prev))"

text \<open>The return value and the 32 bytes written to \<open>out\<close>.\<close>

definition x25519 :: "bytes \<Rightarrow> bytes \<Rightarrow> int \<Rightarrow> int \<times> bytes" where
  "x25519 scalar x1 clamp =
     (let xs = x25519_core (replicate 5 (replicate NLIMBS 0)) scalar x1 clamp;
          (xs, prev) = fold chain_step steps (xs, 1);
          x2 = mul1 (xs ! 0) (xs ! 3);
          (x2, res) = canon x2;
          ret = sint res;
          out = swapout x2
      in (if clamp \<noteq> 0 then ret else 0, out))"

definition X25519_BASE_POINT :: bytes where
  "X25519_BASE_POINT = 9 # replicate 31 0"

text \<open>\<open>wireguard_x25519\<close> of \<open>crypto.h\<close> clamps; its arguments are the scalar and the point.\<close>

definition wireguard_x25519 :: "bytes \<Rightarrow> bytes \<Rightarrow> int \<times> bytes" where
  "wireguard_x25519 b c = x25519 b c 1"

subsection \<open>The ladder of RFC 7748\<close>

text \<open>Points are a pair X : Z of integers modulo p; \<open>u\<close> is the coordinate of the difference.\<close>

definition xdbl :: "int \<times> int \<Rightarrow> int \<times> int" where
  "xdbl = (\<lambda>(X, Z).
     let AA = (X + Z) ^ 2; BB = (X - Z) ^ 2; E = AA - BB
     in ((AA * BB) mod fe_p, (E * (AA + 121665 * E)) mod fe_p))"

definition xadd :: "int \<Rightarrow> int \<times> int \<Rightarrow> int \<times> int \<Rightarrow> int \<times> int" where
  "xadd u = (\<lambda>(X2, Z2) (X3, Z3).
     let DA = (X3 - Z3) * (X2 + Z2); CB = (X3 + Z3) * (X2 - Z2)
     in (((DA + CB) ^ 2) mod fe_p, (u * (DA - CB) ^ 2) mod fe_p))"

fun montgomery_ladder :: "int \<Rightarrow> bool list \<Rightarrow> (int \<times> int) \<times> (int \<times> int) \<Rightarrow> (int \<times> int) \<times> (int \<times> int)" where
  "montgomery_ladder u [] (P, Q) = (P, Q)"
| "montgomery_ladder u (b # bs) (P, Q) =
     montgomery_ladder u bs (if b then (xadd u P Q, xdbl Q) else (xdbl P, xadd u P Q))"

text \<open>Bits 0 to 2 and 255 cleared, bit 254 set.\<close>

definition decode_scalar :: "bytes \<Rightarrow> nat" where
  "decode_scalar k = 2 ^ 254 + (le_val k mod 2 ^ 254) div 8 * 8"

definition x25519_spec :: "bool list \<Rightarrow> int \<Rightarrow> int" where
  "x25519_spec bits u =
     (case montgomery_ladder u bits ((1, 0), (u, 1)) of
        ((X, Z), _) \<Rightarrow> (X * Z ^ (2 ^ 255 - 21)) mod fe_p)"

text \<open>The 256 bits of a number, the highest first.\<close>

definition bits_256 :: "nat \<Rightarrow> bool list" where
  "bits_256 k = map (bit k) (rev [0..<256])"

subsection \<open>Field elements standing for integers\<close>

definition rep :: "fe \<Rightarrow> int \<Rightarrow> bool" where
  "rep x v \<longleftrightarrow> length x = NLIMBS \<and> fe_val x mod fe_p = v mod fe_p"

definition rept :: "fe \<Rightarrow> int \<Rightarrow> bool" where
  "rept x v \<longleftrightarrow> tight x \<and> fe_val x mod fe_p = v mod fe_p"

named_theorems fe_intros "the field operation a limb operation computes"

lemma rept_rep: "rept x v \<Longrightarrow> rep x v"
  by (simp add: rept_def rep_def tight_length)

lemma rep_length: "rep x v \<Longrightarrow> length x = NLIMBS"
  by (simp add: rep_def)

lemma rept_length: "rept x v \<Longrightarrow> length x = NLIMBS"
  by (simp add: rept_def tight_length)

lemma rept_add [fe_intros]: "rep a u \<Longrightarrow> rep b v \<Longrightarrow> rept (fe_add a b) (u + v)"
  using fe_add_ok [of a b] by (simp add: rep_def rept_def) (metis mod_add_cong)

lemma rept_sub [fe_intros]: "rep a u \<Longrightarrow> rept b v \<Longrightarrow> rept (fe_sub a b) (u - v)"
  using fe_sub_ok [of a b] by (simp add: rep_def rept_def) (metis mod_diff_cong)

lemma rept_mul1 [fe_intros]: "rep a u \<Longrightarrow> rep b v \<Longrightarrow> rept (mul1 a b) (u * v)"
  using mul1_ok [of a b] by (simp add: rep_def rept_def) (metis mod_mult_cong)

lemma rept_sqr [fe_intros]: "rep a u \<Longrightarrow> rept (sqr a) (u ^ 2)"
  using sqr_ok [of a] by (simp add: rep_def rept_def power2_eq_square) (metis mod_mult_cong)

lemma rept_sqr1 [fe_intros]: "rep a u \<Longrightarrow> rept (sqr1 a) (u ^ 2)"
  by (simp add: sqr1_eq rept_sqr)

lemma rept_a24 [fe_intros]: "rep a u \<Longrightarrow> rept (fe_mul a a24) (u * 121665)"
  using fe_mul_ok [of a a24]
  by (simp add: rep_def rept_def a24_def NLIMBS_def) (metis mod_mult_left_eq)

lemma rep_mod: "rep x (v mod fe_p) \<longleftrightarrow> rep x v"
  by (simp add: rep_def)

lemma rept_mod: "rept x (v mod fe_p) \<longleftrightarrow> rept x v"
  by (simp add: rept_def)

lemma rept_eq: "rept x u \<Longrightarrow> u = v \<Longrightarrow> rept x v"
  by simp

text \<open>A pair of limb vectors standing for a point; only Z has to be tight.\<close>

definition point :: "fe \<Rightarrow> fe \<Rightarrow> int \<times> int \<Rightarrow> bool" where
  "point x z P \<longleftrightarrow> rep x (fst P) \<and> rept z (snd P)"

lemma ladder_ok:
  assumes "point x2 z2 P" and "point x3 z3 Q" and "rep x1 u"
  obtains a b c d t where "ladder_part2 (ladder_part1 [x2, z2, x3, z3, t1]) x1 = [a, b, c, d, t]"
    and "point a b (xdbl P)" and "point c d (xadd u P Q)"
proof -
  obtain X2 Z2 X3 Z3 where P: "P = (X2, Z2)" and Q: "Q = (X3, Z3)" by fastforce
  have r: "rep x2 X2" "rept z2 Z2" "rep x3 X3" "rept z3 Z3" "rep z2 Z2" "rep z3 Z3"
    using assms(1,2) by (auto simp: point_def P Q intro: rept_rep)
  let ?A = "fe_add x2 z2" and ?B = "fe_sub x2 z2" and ?C = "fe_add x3 z3" and ?D = "fe_sub x3 z3"
  let ?DA = "mul1 ?D ?A" and ?CB = "mul1 ?C ?B"
  have A: "rept ?A (X2 + Z2)" and B: "rept ?B (X2 - Z2)" and C: "rept ?C (X3 + Z3)"
    and D: "rept ?D (X3 - Z3)" using r by (auto intro: fe_intros)
  have DA: "rept ?DA ((X3 - Z3) * (X2 + Z2))" and CB: "rept ?CB ((X3 + Z3) * (X2 - Z2))"
    using A B C D by (auto intro: fe_intros rept_rep)
  let ?S = "fe_add ?DA ?CB" and ?T = "fe_sub ?DA ?CB"
  have S: "rept ?S ((X3 - Z3) * (X2 + Z2) + (X3 + Z3) * (X2 - Z2))"
    and T: "rept ?T ((X3 - Z3) * (X2 + Z2) - (X3 + Z3) * (X2 - Z2))"
    using DA CB by (auto intro: fe_intros rept_rep)
  let ?AA = "sqr1 ?A" and ?BB = "sqr1 ?B"
  have AA: "rept ?AA ((X2 + Z2) ^ 2)" and BB: "rept ?BB ((X2 - Z2) ^ 2)"
    using A B by (auto intro: fe_intros rept_rep)
  let ?E = "fe_sub ?AA ?BB"
  have E: "rept ?E ((X2 + Z2) ^ 2 - (X2 - Z2) ^ 2)" using AA BB by (auto intro: fe_intros rept_rep)
  let ?F = "fe_add (fe_mul ?E a24) ?AA"
  have F: "rept ?F (((X2 + Z2) ^ 2 - (X2 - Z2) ^ 2) * 121665 + (X2 + Z2) ^ 2)"
    by (rule rept_add [OF rept_rep [OF rept_a24 [OF rept_rep [OF E]]] rept_rep [OF AA]])
  have b: "rept (mul1 ?F ?E)
      ((((X2 + Z2) ^ 2 - (X2 - Z2) ^ 2) * 121665 + (X2 + Z2) ^ 2) * ((X2 + Z2) ^ 2 - (X2 - Z2) ^ 2))"
    using E F by (auto intro: fe_intros rept_rep)
  have a: "rept (mul1 (fe_sub ?AA ?E) ?AA)
      (((X2 + Z2) ^ 2 - ((X2 + Z2) ^ 2 - (X2 - Z2) ^ 2)) * (X2 + Z2) ^ 2)"
    by (rule rept_mul1 [OF rept_rep [OF rept_sub [OF rept_rep [OF AA] E]] rept_rep [OF AA]])
  have c: "rept (sqr1 ?S) (((X3 - Z3) * (X2 + Z2) + (X3 + Z3) * (X2 - Z2)) ^ 2)"
    using S by (auto intro: fe_intros rept_rep)
  have d: "rept (mul1 (sqr1 ?T) x1) (((X3 - Z3) * (X2 + Z2) - (X3 + Z3) * (X2 - Z2)) ^ 2 * u)"
    using T assms(3) by (auto intro: fe_intros rept_rep)
  have eq: "ladder_part2 (ladder_part1 [x2, z2, x3, z3, t1]) x1 =
      [mul1 (fe_sub ?AA ?E) ?AA, mul1 ?F ?E, sqr1 ?S, mul1 (sqr1 ?T) x1, ?AA]"
    by (simp add: ladder_part1_def ladder_part2_def Let_def)
  have "point (mul1 (fe_sub ?AA ?E) ?AA) (mul1 ?F ?E) (xdbl P)"
    using rept_rep [OF a] b
    by (simp add: point_def xdbl_def P Let_def rep_mod rept_mod mult.commute add.commute)
  moreover have "point (sqr1 ?S) (mul1 (sqr1 ?T) x1) (xadd u P Q)"
    using rept_rep [OF c] d
    by (simp add: point_def xadd_def P Q Let_def rep_mod rept_mod mult.commute)
  ultimately show thesis by (rule that [OF eq])
qed

lemma xadd_commute: "xadd u P Q = xadd u Q P"
proof -
  obtain X2 Z2 X3 Z3 where P: "P = (X2, Z2)" and Q: "Q = (X3, Z3)" by fastforce
  have s: "(X3 - Z3) * (X2 + Z2) + (X3 + Z3) * (X2 - Z2) =
      (X2 - Z2) * (X3 + Z3) + (X2 + Z2) * (X3 - Z3)" by (simp add: algebra_simps)
  have d: "(X3 - Z3) * (X2 + Z2) - (X3 + Z3) * (X2 - Z2) =
      - ((X2 - Z2) * (X3 + Z3) - (X2 + Z2) * (X3 - Z3))" by (simp add: algebra_simps)
  show ?thesis by (simp only: P Q xadd_def Let_def prod.case s d power2_minus)
qed

text \<open>
  The state of the loop: the mask tells whether the two points of the ladder are held in
  reverse order.
\<close>

definition ladder_rel :: "fe list \<times> u32 \<Rightarrow> bool \<Rightarrow> (int \<times> int) \<times> (int \<times> int) \<Rightarrow> bool" where
  "ladder_rel = (\<lambda>(xs, swap) s (P, Q).
     \<exists>x2 z2 x3 z3 t1. xs = [x2, z2, x3, z3, t1] \<and> swap = (if s then - 1 else 0) \<and>
       point x2 z2 (if s then Q else P) \<and> point x3 z3 (if s then P else Q))"

lemma condswap_xs_eq:
  assumes "point x2 z2 P" and "point x3 z3 Q"
  shows "condswap_xs [x2, z2, x3, z3, t1] 0 = [x2, z2, x3, z3, t1]"
    and "condswap_xs [x2, z2, x3, z3, t1] (- 1) = [x3, z3, x2, z2, t1]"
proof -
  have "length x2 = NLIMBS" "length z2 = NLIMBS" "length x3 = NLIMBS" "length z3 = NLIMBS"
    using assms by (auto simp: point_def rep_length rept_length)
  then show "condswap_xs [x2, z2, x3, z3, t1] 0 = [x2, z2, x3, z3, t1]"
    "condswap_xs [x2, z2, x3, z3, t1] (- 1) = [x3, z3, x2, z2, t1]"
    by (simp_all add: condswap_xs_def condswap_0 condswap_ones)
qed

lemma condswap_rel:
  assumes "ladder_rel (xs, swap) s (P, Q)"
  shows "ladder_rel (condswap_xs xs (swap XOR (if d then - 1 else 0)), if d then - 1 else 0) d (P, Q)"
  using assms by (cases s; cases d) (auto simp: ladder_rel_def condswap_xs_eq)

lemma ladder_rel_step:
  assumes rel: "ladder_rel (xs, swap) s (P, Q)" and x1: "rep x1 u"
    and d: "bit (scalar_byte scalar clamp i) (i mod 8) = d"
  shows "ladder_rel (ladder_step scalar clamp x1 i (xs, swap)) d
    (if d then (xadd u P Q, xdbl Q) else (xdbl P, xadd u P Q))"
proof -
  have mask: "- (ucast (drop_bit (i mod 8) (scalar_byte scalar clamp i) AND 1) :: u32) =
      (if d then - 1 else 0)"
    using d by (auto simp: and_one_eq mod_2_eq_odd bit_iff_odd_drop_bit)
  let ?ys = "condswap_xs xs (swap XOR (if d then - 1 else 0))"
  have step: "ladder_step scalar clamp x1 i (xs, swap) =
      (ladder_part2 (ladder_part1 ?ys) x1, if d then - 1 else 0)"
    by (simp only: ladder_step_def split Let_def mask)
  from condswap_rel [OF rel, of d] obtain x2 z2 x3 z3 t1 where
    ys: "?ys = [x2, z2, x3, z3, t1]" and p: "point x2 z2 (if d then Q else P)"
    "point x3 z3 (if d then P else Q)" by (auto simp: ladder_rel_def)
  from ladder_ok [OF p x1, of t1] obtain a b c e t where
    l: "ladder_part2 (ladder_part1 ?ys) x1 = [a, b, c, e, t]"
    and q: "point a b (xdbl (if d then Q else P))"
      "point c e (xadd u (if d then Q else P) (if d then P else Q))"
    unfolding ys by blast
  show ?thesis unfolding step l using q xadd_commute [of u Q P] by (auto simp: ladder_rel_def)
qed

text \<open>The bit of the loop at \<open>i\<close>, clamped or not.\<close>

definition scalar_bit :: "bytes \<Rightarrow> int \<Rightarrow> nat \<Rightarrow> bool" where
  "scalar_bit scalar clamp i = bit (scalar_byte scalar clamp i) (i mod 8)"

lemma ladder_rel_fold:
  assumes x1: "rep x1 u"
  shows "ladder_rel (xs, swap) s (P, Q) \<Longrightarrow>
    \<exists>s. ladder_rel (fold (ladder_step scalar clamp x1) is (xs, swap)) s
      (montgomery_ladder u (map (scalar_bit scalar clamp) is) (P, Q))"
proof (induction "is" arbitrary: xs swap s P Q)
  case (Cons i "is")
  obtain ys sw where ys: "ladder_step scalar clamp x1 i (xs, swap) = (ys, sw)" by fastforce
  let ?b = "scalar_bit scalar clamp i"
  from ladder_rel_step [OF Cons.prems x1 scalar_bit_def [of scalar clamp i, symmetric]]
  have rel: "ladder_rel (ys, sw) ?b
      (if ?b then (xadd u P Q, xdbl Q) else (xdbl P, xadd u P Q))" by (simp only: ys)
  obtain P' Q' where pq: "(if ?b then (xadd u P Q, xdbl Q) else (xdbl P, xadd u P Q)) = (P', Q')"
    by fastforce
  have "\<exists>s. ladder_rel (fold (ladder_step scalar clamp x1) is (ys, sw)) s
      (montgomery_ladder u (map (scalar_bit scalar clamp) is) (P', Q'))"
    using rel unfolding pq by (intro Cons.IH) auto
  then show ?case by (simp add: ys pq)
qed auto

text \<open>The bits the loop reads are those of the decoded scalar.\<close>

lemma bit_le_val:
  "i < 8 * length bs \<Longrightarrow> bit (le_val bs) i = bit (bs ! (i div 8)) (i mod 8)"
proof (induction bs arbitrary: i)
  case (Cons b bs)
  have v: "le_val (b # bs) = unat b + 2 ^ 8 * le_val bs" by simp
  show ?case
  proof (cases "i < 8")
    case True
    have "bit (le_val (b # bs)) i = bit (take_bit 8 (le_val (b # bs))) i"
      using True by (simp add: bit_take_bit_iff del: le_val.simps)
    also have "take_bit 8 (le_val (b # bs)) = unat b"
      unfolding v by (simp add: take_bit_eq_mod)
    also have "bit (unat b) i = bit b i" by (simp add: bit_unsigned_iff)
    finally show ?thesis using True by simp
  next
    case False
    then obtain j where j: "i = 8 + j" using le_Suc_ex not_less by blast
    have "bit (le_val (b # bs)) i = bit (drop_bit 8 (le_val (b # bs))) j"
      by (simp add: j bit_drop_bit_eq add.commute)
    also have "drop_bit 8 (le_val (b # bs)) = le_val bs"
      unfolding v by (simp add: drop_bit_eq_div)
    finally have "bit (le_val (b # bs)) i = bit (le_val bs) j" .
    moreover have "bit (le_val bs) j = bit (bs ! (j div 8)) (j mod 8)"
      using Cons.prems j by (intro Cons.IH) simp
    moreover have "(8 + j) div 8 = Suc (j div 8)" by simp
    ultimately show ?thesis by (simp only: j nth_Cons_Suc mod_add_self1)
  qed
qed simp

lemma bit_decode_scalar:
  assumes "i < 256"
  shows "bit (decode_scalar k) i \<longleftrightarrow> i = 254 \<or> (3 \<le> i \<and> i < 254 \<and> bit (le_val k) i)"
proof -
  define e :: nat where "e = 2 ^ 254"
  have e: "bit e n \<longleftrightarrow> n = 254" for n
    by (simp only: e_def bit_exp_iff possible_bit_nat) simp
  have "decode_scalar k = e + push_bit 3 (drop_bit 3 (take_bit 254 (le_val k)))"
    by (simp add: decode_scalar_def e_def push_bit_eq_mult drop_bit_eq_div take_bit_eq_mod)
  also have "\<dots> = e OR push_bit 3 (drop_bit 3 (take_bit 254 (le_val k)))"
    by (rule disjunctive_add) (auto simp: bit_simps e)
  finally show ?thesis using assms by (auto simp: bit_simps e)
qed

lemma scalar_bit_eq:
  assumes len: "length scalar = 32" and i: "i < 256"
  shows "scalar_bit scalar clamp i =
    bit (if clamp \<noteq> 0 then decode_scalar scalar else le_val scalar) i"
proof (cases "clamp = 0")
  case True
  then show ?thesis using bit_le_val [of i scalar] len i by (simp add: scalar_bit_def scalar_byte_def)
next
  case False
  have v: "bit (scalar ! (i div 8)) (i mod 8) = bit (le_val scalar) i"
    using bit_le_val [of i scalar] len i by simp
  consider (low) "i div 8 = 0" | (high) "i div 8 = 31" | (mid) "i div 8 \<noteq> 0" "i div 8 \<noteq> 31" by blast
  then show ?thesis
  proof cases
    case low
    then have "i < 8" by simp
    moreover have "bit (7 :: u8) i \<longleftrightarrow> i < 3" if "i < 8" for i
      using that by (auto simp: less_Suc_eq eval_nat_numeral bit_simps)
    ultimately show ?thesis
      using False low v by (auto simp: scalar_bit_def scalar_byte_def Let_def bit_decode_scalar i bit_simps)
  next
    case high
    have "i = 248 + i mod 8" using high mult_div_mod_eq [of 8 i] by simp
    then obtain j where j: "i = 248 + j" "j < 8" "(248 + j) mod 8 = j"
      by (intro that [of "i mod 8"]) simp_all
    moreover have "bit (0x7F :: u8) j \<longleftrightarrow> j < 7" "bit (0x40 :: u8) j \<longleftrightarrow> j = 6" if "j < 8" for j
      using that by (auto simp: less_Suc_eq eval_nat_numeral bit_simps)
    ultimately show ?thesis
      using False high v by (auto simp: scalar_bit_def scalar_byte_def Let_def bit_decode_scalar i bit_simps)
  next
    case mid
    then have "8 \<le> i" "i < 248" using i by auto
    then show ?thesis
      using False mid v by (simp add: scalar_bit_def scalar_byte_def Let_def bit_decode_scalar i)
  qed
qed

subsection \<open>The addition chain\<close>

text \<open>
  What the chain computes is seen on the exponents: \<open>es\<close> gives, for each entry of \<open>xs\<close>, the
  power of z it holds, if it holds one.
\<close>

definition powers :: "int \<Rightarrow> fe list \<Rightarrow> nat option list \<Rightarrow> bool" where
  "powers z xs es \<longleftrightarrow> length xs = 5 \<and> length es = 5 \<and>
     (\<forall>i < 5. \<forall>e. es ! i = Some e \<longrightarrow> rep (xs ! i) (z ^ e))"

definition exp_step :: "nat \<times> nat \<times> nat \<Rightarrow> nat option list \<times> nat \<Rightarrow> nat option list \<times> nat" where
  "exp_step = (\<lambda>(a, c, n) (es, prev). (es[a := Some (2 ^ n * the (es ! prev) + the (es ! c))], a))"

definition exp_ok :: "nat \<times> nat \<times> nat \<Rightarrow> nat option list \<times> nat \<Rightarrow> bool" where
  "exp_ok = (\<lambda>(a, c, n) (es, prev). prev < 5 \<and> a < 5 \<and> a \<noteq> 0 \<and> c < 5 \<and> a \<noteq> c \<and> 0 < n \<and>
     es ! prev \<noteq> None \<and> es ! c \<noteq> None)"

fun chain_ok :: "(nat \<times> nat \<times> nat) list \<Rightarrow> nat option list \<times> nat \<Rightarrow> bool" where
  "chain_ok [] s = True"
| "chain_ok (t # ts) s = (exp_ok t s \<and> chain_ok ts (exp_step t s))"

lemma powersD:
  assumes "powers z xs es" and "i < 5" and "es ! i = Some e"
  shows "rep (xs ! i) (z ^ e)"
  using assms by (simp add: powers_def)

lemma powers_update:
  assumes "powers z xs es" and "a < 5" and "rep x (z ^ e)"
  shows "powers z (xs[a := x]) (es[a := Some e])"
  using assms by (auto simp: powers_def nth_list_update rep_length)

lemma sqr_times_ok:
  assumes "powers z xs es" and "prev < 5" and "a < 5" and "es ! prev = Some e"
  shows "0 < n \<Longrightarrow> \<exists>x. sqr_times a n (xs, prev) = (xs[a := x], a) \<and> rep x (z ^ (2 ^ n * e))"
  using assms
proof (induction n arbitrary: xs es prev e)
  case (Suc n)
  have len: "length xs = 5" "length es = 5" using Suc.prems(2) by (simp_all add: powers_def)
  have "rept (sqr (xs ! prev)) ((z ^ e) ^ 2)"
    using Suc.prems by (intro rept_sqr powersD) auto
  then have s: "rep (sqr (xs ! prev)) (z ^ (2 * e))"
    by (simp add: rept_rep power_mult [symmetric] mult.commute)
  show ?case
  proof (cases "n = 0")
    case True
    then show ?thesis using s by (intro exI [of _ "sqr (xs ! prev)"]) simp
  next
    case False
    have "powers z (xs[a := sqr (xs ! prev)]) (es[a := Some (2 * e)])"
      using Suc.prems s by (intro powers_update)
    moreover have "es[a := Some (2 * e)] ! a = Some (2 * e)" using Suc.prems len by simp
    ultimately obtain x where "sqr_times a n (xs[a := sqr (xs ! prev)], a) = (xs[a := sqr (xs ! prev), a := x], a)"
      "rep x (z ^ (2 ^ n * (2 * e)))"
      using Suc.IH [of "xs[a := sqr (xs ! prev)]" _ a "2 * e"] False Suc.prems(4) by blast
    then show ?thesis by (intro exI [of _ x]) (simp add: mult.assoc mult.left_commute)
  qed
qed simp

lemma chain_step_ok:
  assumes p: "powers z xs es" and ok: "exp_ok t (es, prev)"
  obtains xs' where "chain_step t (xs, prev) = (xs', snd (exp_step t (es, prev)))"
    and "powers z xs' (fst (exp_step t (es, prev)))" and "xs' ! 0 = xs ! 0"
proof -
  obtain a c n where t: "t = (a, c, n)" using prod_cases3 by blast
  from ok obtain e f where ef: "es ! prev = Some e" "es ! c = Some f"
    and b: "prev < 5" "a < 5" "a \<noteq> 0" "c < 5" "a \<noteq> c" "0 < n" by (auto simp: exp_ok_def t)
  from sqr_times_ok [OF p b(1,2) ef(1) b(6)] obtain x where
    x: "sqr_times a n (xs, prev) = (xs[a := x], a)" "rep x (z ^ (2 ^ n * e))" by blast
  have len: "length xs = 5" using p by (simp add: powers_def)
  have "rept (mul1 x (xs ! c)) (z ^ (2 ^ n * e) * z ^ f)"
    using x(2) powersD [OF p b(4) ef(2)] by (rule rept_mul1)
  then have m: "rep (mul1 x (xs ! c)) (z ^ (2 ^ n * e + f))"
    by (simp add: rept_rep power_add)
  have "chain_step t (xs, prev) = (xs[a := mul1 x (xs ! c)], a)"
    using b len by (simp add: chain_step_def t x(1))
  moreover have "powers z (xs[a := mul1 x (xs ! c)]) (es[a := Some (2 ^ n * e + f)])"
    by (rule powers_update [OF p b(2) m])
  ultimately show thesis
    using b by (intro that [of "xs[a := mul1 x (xs ! c)]"]) (simp_all add: t exp_step_def ef)
qed

lemma chain_fold_ok:
  "powers z xs es \<Longrightarrow> chain_ok ts (es, prev) \<Longrightarrow>
   \<exists>xs' prev'. fold chain_step ts (xs, prev) = (xs', prev') \<and>
     powers z xs' (fst (fold exp_step ts (es, prev))) \<and> xs' ! 0 = xs ! 0"
proof (induction ts arbitrary: xs es prev)
  case (Cons t ts)
  obtain es' prev' where e: "exp_step t (es, prev) = (es', prev')" by fastforce
  from Cons.prems(2) e have ok: "exp_ok t (es, prev)" "chain_ok ts (es', prev')" by simp_all
  from chain_step_ok [OF Cons.prems(1) ok(1)] obtain ys where
    ys: "chain_step t (xs, prev) = (ys, prev')" "powers z ys es'" "ys ! 0 = xs ! 0"
    by (simp only: e fst_conv snd_conv) blast
  from Cons.IH [OF ys(2) ok(2)] show ?case by (simp add: ys e)
qed simp

lemma chain_exponents:
  "chain_ok steps ([None, Some 1, None, None, None], 1)"
  "fst (fold exp_step steps ([None, Some 1, None, None, None], 1)) ! 3 = Some (2 ^ 255 - 21)"
  by (simp_all add: steps_def exp_step_def exp_ok_def)

subsection \<open>The function\<close>

definition scalar_bits :: "bytes \<Rightarrow> int \<Rightarrow> bool list" where
  "scalar_bits scalar clamp = map (scalar_bit scalar clamp) (rev [0..<256])"

lemma core_ok:
  obtains x2 z2 x3 z3 t1 where "x25519_core xs scalar x1 clamp = [x2, z2, x3, z3, t1]"
    and "point x2 z2 (fst (montgomery_ladder (fe_val (swapin x1)) (scalar_bits scalar clamp)
      ((1, 0), (fe_val (swapin x1), 1))))"
proof -
  let ?u = "fe_val (swapin x1)" and ?one = "(replicate NLIMBS 0)[0 := 1] :: fe"
  have one: "fe_val ?one = 1" by (simp add: NLIMBS_def eval_nat_numeral)
  have x1: "rep (swapin x1) ?u" by (simp add: rep_def)
  have "point ?one (replicate NLIMBS 0) (1, 0)" "point (swapin x1) ?one (?u, 1)"
    using one x1 by (simp_all add: point_def rep_def rept_def tight_def)
  then have "ladder_rel ([?one, replicate NLIMBS 0, swapin x1, ?one, xs ! 4], 0) False ((1, 0), (?u, 1))"
    by (simp add: ladder_rel_def)
  from ladder_rel_fold [OF x1 this, of scalar clamp "rev [0..<256]"]
  obtain s where rel: "ladder_rel (fold (ladder_step scalar clamp (swapin x1)) (rev [0..<256])
        ([?one, replicate NLIMBS 0, swapin x1, ?one, xs ! 4], 0)) s
      (montgomery_ladder ?u (scalar_bits scalar clamp) ((1, 0), (?u, 1)))"
    unfolding scalar_bits_def by blast
  obtain P Q where pq: "montgomery_ladder ?u (scalar_bits scalar clamp) ((1, 0), (?u, 1)) = (P, Q)"
    by (meson old.prod.exhaust)
  obtain ys sw where ys: "fold (ladder_step scalar clamp (swapin x1)) (rev [0..<256])
      ([?one, replicate NLIMBS 0, swapin x1, ?one, xs ! 4], 0) = (ys, sw)"
    by (meson old.prod.exhaust)
  have "ladder_rel (condswap_xs ys (sw XOR (if False then - 1 else 0)), if False then - 1 else 0) False (P, Q)"
    by (rule condswap_rel) (use rel in \<open>simp only: pq ys\<close>)
  then obtain x2 z2 x3 z3 t1 where r: "condswap_xs ys sw = [x2, z2, x3, z3, t1]"
    "point x2 z2 P" "point x3 z3 Q" by (auto simp: ladder_rel_def)
  show thesis
    by (rule that [of x2 z2 x3 z3 t1])
      (use r in \<open>simp_all only: x25519_core_def Let_def ys split pq fst_conv\<close>)
qed

lemma rep_spec:
  assumes p: "point x z (X, Z)" and z: "powers (fe_val z) xs es" "es ! 3 = Some e" and x: "xs ! 0 = x"
  shows "rept (mul1 (xs ! 0) (xs ! 3)) (X * Z ^ e)"
proof -
  have "rep (xs ! 3) (fe_val z ^ e)" using z by (intro powersD) simp_all
  moreover have "fe_val z mod fe_p = Z mod fe_p" using p by (simp add: point_def rept_def)
  then have "fe_val z ^ e mod fe_p = Z ^ e mod fe_p" by (metis power_mod)
  ultimately have "rep (xs ! 3) (Z ^ e)" by (simp add: rep_def)
  moreover have "rep (xs ! 0) X" using p x by (simp add: point_def)
  ultimately show ?thesis by (intro rept_mul1)
qed

lemma swapout_eq:
  assumes "length x = NLIMBS"
  shows "swapout x = le_bytes 32 (nat (fe_val x))"
proof -
  have "length (swapout x) = 32" using assms by (simp add: NLIMBS_def)
  moreover have "le_val (swapout x) = nat (fe_val x)" using le_val_swapout [of x] by linarith
  ultimately show ?thesis by (metis le_bytes_le_val)
qed

text \<open>
  The result for arguments of any length: the ladder over the bits the loop reads, from the
  256-bit value of the point.
\<close>

lemma x25519_bits:
  "x25519 scalar x1 clamp =
    (let w = x25519_spec (scalar_bits scalar clamp) (fe_val (swapin x1))
     in (if clamp \<noteq> 0 \<and> w = 0 then - 1 else 0, le_bytes 32 (nat w)))"
proof -
  let ?u = "fe_val (swapin x1)" and ?bits = "scalar_bits scalar clamp"
  obtain X Z Q where ml: "montgomery_ladder ?u ?bits ((1, 0), (?u, 1)) = ((X, Z), Q)"
    by (metis old.prod.exhaust)
  from core_ok [of "replicate 5 (replicate NLIMBS 0)" scalar x1 clamp]
  obtain x2 z2 x3 z3 t1 where
    core: "x25519_core (replicate 5 (replicate NLIMBS 0)) scalar x1 clamp = [x2, z2, x3, z3, t1]"
    and "point x2 z2 (fst (montgomery_ladder ?u ?bits ((1, 0), (?u, 1))))" by blast
  then have p: "point x2 z2 (X, Z)" by (simp only: ml fst_conv)
  have "powers (fe_val z2) [x2, z2, x3, z3, t1] [None, Some 1, None, None, None]"
    using p by (auto simp: powers_def point_def rep_def rept_length nth_Cons' split: if_splits)
  from chain_fold_ok [OF this chain_exponents(1)] obtain xs prev where
    fold: "fold chain_step steps ([x2, z2, x3, z3, t1], 1) = (xs, prev)"
    and pw: "powers (fe_val z2) xs (fst (fold exp_step steps ([None, Some 1, None, None, None], 1)))"
    and x0: "xs ! 0 = x2" by (auto simp only: nth_Cons_0)
  let ?x = "mul1 (xs ! 0) (xs ! 3)"
  have r: "rept ?x (X * Z ^ (2 ^ 255 - 21))" by (rule rep_spec [OF p pw chain_exponents(2) x0])
  let ?w = "x25519_spec ?bits ?u"
  have w: "fe_val ?x mod fe_p = ?w"
    using r by (simp only: x25519_spec_def ml prod.case rept_def)
  have c: "length (fst (canon ?x)) = NLIMBS" "fe_val (fst (canon ?x)) = ?w"
    "snd (canon ?x) = (if ?w = 0 then - 1 else 0)"
    using canon_ok [of ?x] r by (simp_all only: rept_def w)
  obtain y m where ym: "canon ?x = (y, m)" by (meson old.prod.exhaust)
  have "swapout y = le_bytes 32 (nat ?w)" using swapout_eq [of y] c(1,2) by (simp only: ym fst_conv)
  moreover have "sint m = (if ?w = 0 then - 1 else 0)" using c(3) by (simp add: ym)
  ultimately show ?thesis
    by (simp only: x25519_def Let_def core fold split ym) simp
qed


lemma length_x25519 [simp, length_simps]: "length (snd (x25519 scalar x1 clamp)) = 32"
  by (simp add: x25519_bits Let_def)

lemma scalar_bits_eq:
  assumes "length scalar = 32"
  shows "scalar_bits scalar clamp = bits_256 (if clamp \<noteq> 0 then decode_scalar scalar else le_val scalar)"
  using assms by (simp add: scalar_bits_def bits_256_def scalar_bit_eq)

lemma x25519_spec_range: "0 \<le> x25519_spec bits u" "x25519_spec bits u < fe_p"
  by (simp_all add: x25519_spec_def fe_p_def split_beta)

text \<open>
  C5. \<open>x25519\<close> is the X25519 of RFC 7748 over the integers modulo 2^255 - 19, for every scalar
  and every 256-bit value of the point: the Montgomery ladder on the bits of the decoded scalar
  (of the scalar itself without clamping) followed by the multiplication with Z^(p - 2). The
  result is written as 32 little-endian bytes, fully reduced, and with clamping the return value
  is -1 exactly if it is zero. The point's top bit is not masked, unlike in the RFC.
\<close>

theorem x25519_rfc7748:
  assumes "length scalar = 32" and "length x1 = 32"
  shows "x25519 scalar x1 clamp =
    (let k = if clamp \<noteq> 0 then decode_scalar scalar else le_val scalar;
         w = x25519_spec (bits_256 k) (int (le_val x1))
     in (if clamp \<noteq> 0 \<and> w = 0 then - 1 else 0, le_bytes 32 (nat w))) \<and>
    0 \<le> x25519_spec bits u \<and> x25519_spec bits u < fe_p"
  using assms x25519_spec_range by (simp only: x25519_bits scalar_bits_eq fe_val_swapin Let_def simp_thms)

theorem x25519_rfc7748_witness:
  "let scalar = replicate 32 7; x1 = X25519_BASE_POINT; w = x25519_spec (bits_256 (decode_scalar scalar)) 9
   in x25519 scalar x1 1 = (if w = 0 then - 1 else 0, le_bytes 32 (nat w))"
proof -
  have "le_val (replicate n 0) = 0" for n by (induction n) simp_all
  then have "int (le_val X25519_BASE_POINT) = 9" by (simp add: X25519_BASE_POINT_def)
  then show ?thesis
    using x25519_rfc7748 [of "replicate 32 7" X25519_BASE_POINT 1]
    by (simp add: X25519_BASE_POINT_def Let_def)
qed

end
