(* ===== verification/Wg_Curve.thy ===== *)
theory Wg_Curve
  imports X25519 Wg_Auth
begin

text \<open>
  The curve of \<open>x25519.c\<close> in the place of the function the handshake is written over: it
  meets the laws of the locale \<open>curve\<close>, so what the initialisation of devices and peers
  establishes holds for it.
\<close>

lemma clamp_low: "(x AND 248) AND NOT 7 = x AND NOT (7 :: u8)"
proof -
  have "(248 :: u8) = NOT 7" by simp
  then show ?thesis by (simp only: and.assoc and.idem)
qed

lemma clamp_high: "(((x AND 127) OR 64) AND 127) OR 64 = (x AND 127) OR (64 :: u8)"
  by (rule bit_word_eqI) (auto simp: bit_simps)

lemma clamped_0: "wireguard_clamp_private_key k ! 0 AND NOT 7 = k ! 0 AND NOT 7"
proof (cases "k = []")
  case False
  then have "wireguard_clamp_private_key k ! 0 = k ! 0 AND 248"
    by (simp add: wireguard_clamp_private_key_def Let_def)
  then show ?thesis by (simp only: clamp_low)
qed (simp add: wireguard_clamp_private_key_def)

lemma clamped_31: "(wireguard_clamp_private_key k ! 31 AND 127) OR 64 = (k ! 31 AND 127) OR 64"
proof (cases "31 < length k")
  case True
  then have "wireguard_clamp_private_key k ! 31 = (k ! 31 AND 127) OR 64"
    by (simp add: wireguard_clamp_private_key_def Let_def)
  then show ?thesis by (simp only: clamp_high)
next
  case False
  then show ?thesis by (simp add: wireguard_clamp_private_key_def Let_def list_update_beyond)
qed

lemma clamped_mid: "0 < j \<Longrightarrow> j < 31 \<Longrightarrow> wireguard_clamp_private_key k ! j = k ! j"
  by (simp add: wireguard_clamp_private_key_def Let_def)

lemma scalar_byte_clamped:
  assumes "clamp \<noteq> 0" and "i < 256"
  shows "scalar_byte (wireguard_clamp_private_key k) clamp i = scalar_byte k clamp i"
proof -
  have "i div 8 < 32" using assms(2) by simp
  then consider (low) "i div 8 = 0" | (high) "i div 8 = 31" | (mid) "0 < i div 8" "i div 8 < 31" by linarith
  then show ?thesis
  proof cases
    case low
    then show ?thesis using assms(1) by (simp only: scalar_byte_def Let_def clamped_0 simp_thms if_True)
  next
    case high
    moreover have "(31 :: nat) \<noteq> 0" "32 - 1 = (31 :: nat)" by simp_all
    ultimately show ?thesis using assms(1) by (simp only: scalar_byte_def Let_def clamped_31 simp_thms if_True if_False)
  next
    case mid
    then show ?thesis using assms(1) by (simp add: scalar_byte_def clamped_mid)
  qed
qed

lemma x25519_clamped: "wireguard_x25519 (wireguard_clamp_private_key k) p = wireguard_x25519 k p"
proof -
  have "scalar_bits (wireguard_clamp_private_key k) 1 = scalar_bits k 1"
    by (simp add: scalar_bits_def scalar_bit_def scalar_byte_clamped)
  then show ?thesis by (simp add: wireguard_x25519_def x25519_bits)
qed

lemma length_wireguard_x25519 [simp, length_simps]: "length (snd (wireguard_x25519 k p)) = 32"
  by (simp add: wireguard_x25519_def)

interpretation c25519: curve wireguard_x25519
  by unfold_locales (simp_all add: x25519_clamped)

text \<open>
  The curve function as the protocol uses it: the bits that \<open>wireguard_clamp_private_key\<close>
  fixes do not matter, 32 bytes are written, and the call fails exactly if all of them are zero.
\<close>

theorem wireguard_x25519_laws:
  "wireguard_x25519 (wireguard_clamp_private_key k) p = wireguard_x25519 k p \<and>
   length (snd (wireguard_x25519 k p)) = 32 \<and>
   fst (wireguard_x25519 k p) = (if snd (wireguard_x25519 k p) = replicate 32 0 then - 1 else 0)"
proof -
  let ?w = "x25519_spec (scalar_bits k 1) (fe_val (swapin p))"
  have r: "wireguard_x25519 k p = (if ?w = 0 then - 1 else 0, le_bytes 32 (nat ?w))"
    by (simp add: wireguard_x25519_def x25519_bits Let_def)
  have "0 \<le> ?w" "?w < fe_p" by (rule x25519_spec_range)+
  then have w: "0 \<le> ?w" "nat ?w < 256 ^ 32" by (simp_all add: fe_p_def)
  have zero: "le_val (replicate n 0) = 0" for n by (induction n) simp_all
  have "le_bytes 32 (nat ?w) = replicate 32 0 \<longleftrightarrow> ?w = 0"
  proof
    assume "le_bytes 32 (nat ?w) = replicate 32 0"
    then have "le_val (le_bytes 32 (nat ?w)) = 0" by (simp only: zero)
    with w show "?w = 0" by (simp only: le_val_le_bytes mod_less)
  next
    assume "?w = 0"
    then show "le_bytes 32 (nat ?w) = replicate 32 0" by (metis le_bytes_le_val length_replicate nat_zero_as_int zero nat_0)
  qed
  then show ?thesis by (simp add: x25519_clamped r)
qed

end
