(* ===== verification/Wg_If.thy ===== *)
theory Wg_If
  imports Wg_Handshake
begin

text \<open>
  The data path of \<open>wireguardif.c\<close>: what the interface does with a packet to send and with
  a datagram received. Each definition is a whole C function. The IP stack is not under
  \<open>src/\<close>: its address macros are the record \<open>lwip\<close>, an argument of the definitions, and its
  effects are the answers and events of the world. The result is \<open>None\<close> only where the
  search for a session index does not end.
\<close>

unbundle bit_operations_syntax

subsection \<open>The IP stack\<close>

text \<open>
  \<open>lw_netcmp a n m\<close> is \<open>ip_addr_netcmp\<close> with the mask \<open>ip_2_ip4 m\<close>; \<open>lw_iph_v\<close>, \<open>lw_iph_len\<close> and
  \<open>lw_iph_dest\<close> read the version, the total length in host order and the destination of an
  IPv4 header; \<open>lw_ip4_u32\<close> is \<open>PP_NTOHL (ip4_addr_get_u32 a)\<close> and \<open>lw_ip6_block a i\<close> the
  \<open>i\<close>-th block of an IPv6 address; \<open>lw_zero\<close> is an address object all of whose bytes are
  zero, \<open>lw_any\<close> what \<open>ip_addr_set_any\<close> stores.
\<close>

record lwip =
  lw_ipv4 :: bool
  lw_ipv6 :: bool
  lw_zero :: ip_addr_t
  lw_any :: ip_addr_t
  lw_isany :: "ip_addr_t \<Rightarrow> bool"
  lw_cmp :: "ip_addr_t \<Rightarrow> ip_addr_t \<Rightarrow> bool"
  lw_netcmp :: "ip_addr_t \<Rightarrow> ip_addr_t \<Rightarrow> ip_addr_t \<Rightarrow> bool"
  lw_from_ip4 :: "bytes \<Rightarrow> ip_addr_t"
  lw_is_v4 :: "ip_addr_t \<Rightarrow> bool"
  lw_is_v6 :: "ip_addr_t \<Rightarrow> bool"
  lw_ip4_u32 :: "ip_addr_t \<Rightarrow> u32"
  lw_ip6_block :: "ip_addr_t \<Rightarrow> nat \<Rightarrow> u16"
  lw_iph_v :: "bytes \<Rightarrow> nat"
  lw_iph_len :: "bytes \<Rightarrow> u16"
  lw_iph_dest :: "bytes \<Rightarrow> bytes"

subsection \<open>Peers and addresses\<close>

definition update_peer_addr :: "wireguard_peer \<Rightarrow> ip_addr_t \<Rightarrow> u16 \<Rightarrow> wireguard_peer" where
  "update_peer_addr peer addr port = peer\<lparr>pr_ip := addr, pr_port := port\<rparr>"

definition peer_lookup_by_allowed_ip :: "lwip \<Rightarrow> wireguard_device \<Rightarrow> ip_addr_t \<Rightarrow> nat option" where
  "peer_lookup_by_allowed_ip L device ipaddr =
     find (\<lambda>x. let tmp = peer_at device x in
             pr_valid tmp \<and>
             list_ex (\<lambda>y. let a = pr_allowed_source_ips tmp ! y in
                        ai_valid a \<and> lw_netcmp L ipaddr (ai_ip a) (ai_mask a)) [0..<WIREGUARD_MAX_SRC_IPS])
       [0..<WIREGUARD_MAX_PEERS]"

definition wireguardif_can_send_initiation :: "world \<Rightarrow> wireguard_peer \<Rightarrow> bool" where
  "wireguardif_can_send_initiation w peer \<longleftrightarrow>
     pr_last_initiation_tx peer = 0 \<or> wireguard_expired w (pr_last_initiation_tx peer) (seconds REKEY_TIMEOUT)"

text \<open>The index of the slot that was free or already held the pair, and the peer.\<close>

definition peer_add_ip :: "lwip \<Rightarrow> wireguard_peer \<Rightarrow> ip_addr_t \<Rightarrow> ip_addr_t \<Rightarrow> bool \<times> wireguard_peer" where
  "peer_add_ip L peer ip ip_mask =
     (if list_ex (\<lambda>x. let allowed = pr_allowed_source_ips peer ! x in
                    ai_valid allowed \<and> lw_cmp L (ai_ip allowed) ip \<and> lw_cmp L (ai_mask allowed) ip_mask)
           [0..<WIREGUARD_MAX_SRC_IPS]
      then (True, peer)
      else case find (\<lambda>x. \<not> ai_valid (pr_allowed_source_ips peer ! x)) [0..<WIREGUARD_MAX_SRC_IPS] of
             Some x \<Rightarrow> (True, peer\<lparr>pr_allowed_source_ips :=
                         (pr_allowed_source_ips peer)[x := \<lparr>ai_valid = True, ai_ip = ip, ai_mask = ip_mask\<rparr>]\<rparr>)
           | None \<Rightarrow> (False, peer))"

text \<open>The bytes written to a buffer of \<open>buflen\<close> bytes.\<close>

definition get_source_addr_port :: "lwip \<Rightarrow> ip_addr_t \<Rightarrow> u16 \<Rightarrow> nat \<Rightarrow> bytes" where
  "get_source_addr_port L addr port buflen =
     (let buf = [];
          buf = (if lw_ipv4 L \<and> lw_is_v4 L addr \<and> buflen \<ge> 4 then buf @ U32TO8_BIG (lw_ip4_u32 L addr) else buf);
          buf = (if lw_ipv6 L \<and> lw_is_v6 L addr \<and> buflen \<ge> 16
                 then buf @ concat (map (\<lambda>i. U16TO8_BIG (lw_ip6_block L addr i)) [1..<9]) else buf);
          buf = (if buflen \<ge> length buf + 2 then buf @ U16TO8_BIG port else buf)
      in buf)"

subsection \<open>Sending\<close>

definition wireguardif_peer_output :: "world \<Rightarrow> bytes \<Rightarrow> wireguard_peer \<Rightarrow> err_t \<times> world" where
  "wireguardif_peer_output w q peer = udp_sendto w (pr_ip peer) (pr_port peer) q"

definition wireguardif_device_output :: "world \<Rightarrow> bytes \<Rightarrow> ip_addr_t \<Rightarrow> u16 \<Rightarrow> err_t \<times> world" where
  "wireguardif_device_output w q ipaddr port = udp_sendto w ipaddr port q"

text \<open>The packet under a key pair, and the key pair with its counter moved on.\<close>

definition transport_packet :: "wireguard_keypair \<Rightarrow> bytes option \<Rightarrow> bytes \<times> wireguard_keypair" where
  "transport_packet keypair q =
     (let unpadded_len = (case q of Some d \<Rightarrow> length d | None \<Rightarrow> 0);
          padded_len = unat ((of_nat unpadded_len + 15) AND 0xFFFFFFF0 :: u32);
          hdr = \<lparr>mt_type = MESSAGE_TRANSPORT_DATA, mt_reserved = zeros 3, mt_receiver = kp_remote_index keypair,
                 mt_counter = U64TO8_LITTLE (kp_sending_counter keypair),
                 mt_enc_packet = zeros (padded_len + WIREGUARD_AUTHTAG_LEN)\<rparr>;
          dst = zeros padded_len;
          dst = (case q of Some d \<Rightarrow> if padded_len > 0 then buf_write dst 0 d else dst | None \<Rightarrow> dst);
          (sealed, keypair) = wireguard_encrypt_packet dst keypair
      in (transport_bytes (hdr\<lparr>mt_enc_packet := sealed\<rparr>), keypair))"

definition output_slot :: "wireguard_peer \<Rightarrow> slot" where
  "output_slot peer =
     (let keypair = pr_curr_keypair peer in
      if kp_valid keypair \<and> \<not> kp_initiator keypair \<and> kp_last_rx keypair = 0 then PREV else CURR)"

definition wireguardif_output_to_peer :: "world \<Rightarrow> bytes option \<Rightarrow> wireguard_peer \<Rightarrow> err_t \<times> wireguard_peer \<times> world" where
  "wireguardif_output_to_peer w q peer =
     (let sl = output_slot peer;
          keypair = keypair_of sl peer
      in if kp_valid keypair \<and> (kp_initiator keypair \<or> kp_last_rx keypair \<noteq> 0) then
        if \<not> wireguard_expired w (kp_keypair_millis keypair) (seconds REJECT_AFTER_TIME) \<and>
           kp_sending_counter keypair < REJECT_AFTER_MESSAGES then
          case take_alloc w of (allocated, w) \<Rightarrow>
          if allocated then
            let (pbuf, keypair) = transport_packet keypair q;
                (result, w) = wireguardif_peer_output w pbuf peer;
                now = wireguard_sys_now w;
                keypair = (if result = ERR_OK then keypair\<lparr>kp_last_tx := now\<rparr> else keypair);
                peer = (if result = ERR_OK
                        then peer\<lparr>pr_last_tx := now,
                                  pr_tx_bytes := pr_tx_bytes peer +
                                    of_nat (case q of Some d \<Rightarrow> length d | None \<Rightarrow> 0)\<rparr>
                        else peer);
                peer = set_keypair sl keypair peer;
                peer = (if kp_sending_counter keypair \<ge> REKEY_AFTER_MESSAGES then peer\<lparr>pr_send_handshake := True\<rparr>
                        else if kp_initiator keypair \<and>
                                wireguard_expired w (kp_keypair_millis keypair) (seconds REKEY_AFTER_TIME)
                        then peer\<lparr>pr_send_handshake := True\<rparr> else peer)
            in (result, peer, w)
          else (ERR_MEM, peer, w)
        else (ERR_CONN, keypair_destroy sl peer, w)
      else (ERR_CONN, peer, w))"

definition wireguardif_output ::
  "lwip \<Rightarrow> wireguard_device \<Rightarrow> bytes \<Rightarrow> bytes \<Rightarrow> world \<Rightarrow> err_t \<times> wireguard_device \<times> world" where
  "wireguardif_output L device q ip4addr w =
     (let ipaddr = lw_from_ip4 L ip4addr in
      case peer_lookup_by_allowed_ip L device ipaddr of
        Some p \<Rightarrow> (case wireguardif_output_to_peer w (Some q) (peer_at device p) of
                     (err, peer, w) \<Rightarrow> (err, set_peer device p peer, w))
      | None \<Rightarrow> (ERR_RTE, device, w))"

definition wireguardif_send_keepalive :: "wireguard_device \<Rightarrow> nat \<Rightarrow> world \<Rightarrow> wireguard_device \<times> world" where
  "wireguardif_send_keepalive device p w =
     (case wireguardif_output_to_peer w None (peer_at device p) of
        (err, peer, w) \<Rightarrow> (set_peer device p peer, w))"

subsection \<open>Receiving a response\<close>

definition wireguardif_process_response_message ::
  "x25519_fn \<Rightarrow> wireguard_device \<Rightarrow> nat \<Rightarrow> message_handshake_response \<Rightarrow> ip_addr_t \<Rightarrow> u16 \<Rightarrow> world \<Rightarrow>
   wireguard_device \<times> world" where
  "wireguardif_process_response_message dh device p response addr port w =
     (case wireguard_process_handshake_response dh device (peer_at device p) response of (ok, peer) \<Rightarrow>
      if ok then
        let peer = update_peer_addr peer addr port;
            peer = wireguard_start_session w peer True;
            (device, w) = wireguardif_send_keepalive (set_peer device p peer) p w
        in (device, emit Link_up w)
      else (set_peer device p peer, w))"

subsection \<open>Receiving data\<close>

text \<open>The test of the inner packet: whether it is routed, and the length its header gives.\<close>

definition inner_header :: "lwip \<Rightarrow> wireguard_peer \<Rightarrow> bytes \<Rightarrow> bool \<times> u16" where
  "inner_header L peer pkt =
     (let (dest_ok, header_len) = (False, 0xFFFF);
          (dest_ok, header_len) =
            (if lw_ipv4 L \<and> lw_iph_v L pkt = 4 then
               let dest = lw_from_ip4 L (lw_iph_dest L pkt) in
               if list_ex (\<lambda>x. let a = pr_allowed_source_ips peer ! x in
                             ai_valid a \<and> lw_netcmp L dest (ai_ip a) (ai_mask a)) [0..<WIREGUARD_MAX_SRC_IPS]
               then (True, lw_iph_len L pkt) else (dest_ok, header_len)
             else (dest_ok, header_len))
      in if lw_ipv6 L \<and> lw_iph_v L pkt = 6 then (True, lw_iph_len L pkt) else (dest_ok, header_len))"

text \<open>
  An authentic packet on slot \<open>sl\<close>. The code holds a pointer to the slot while
  \<open>keypair_update\<close> moves the key pairs, so what it reads and writes afterwards is what the
  slot then holds. First the bookkeeping of address, times, counters and slots.
\<close>

definition register_reception ::
  "wireguard_peer \<Rightarrow> slot \<Rightarrow> nat \<Rightarrow> ip_addr_t \<Rightarrow> u16 \<Rightarrow> world \<Rightarrow> wireguard_peer" where
  "register_reception peer sl src_len addr port w =
     (let peer = update_peer_addr peer addr port;
          now = wireguard_sys_now w;
          peer = set_keypair sl ((keypair_of sl peer)\<lparr>kp_last_rx := now\<rparr>) peer;
          peer = peer\<lparr>pr_last_rx := now\<rparr>;
          peer = peer\<lparr>pr_rx_bytes := pr_rx_bytes peer +
                   (if src_len \<ge> WIREGUARD_AUTHTAG_LEN then of_nat (src_len - WIREGUARD_AUTHTAG_LEN) else 0)\<rparr>;
          peer = keypair_update peer sl;
          keypair = keypair_of sl peer
      in if kp_initiator keypair \<and>
            wireguard_expired w (kp_keypair_millis keypair)
              (seconds (REJECT_AFTER_TIME - int (unat (pr_keepalive_interval peer)) - REKEY_TIMEOUT))
         then peer\<lparr>pr_send_handshake := True\<rparr> else peer)"

definition authentic_data ::
  "lwip \<Rightarrow> wireguard_peer \<Rightarrow> slot \<Rightarrow> u64 \<Rightarrow> nat \<Rightarrow> bytes \<Rightarrow> ip_addr_t \<Rightarrow> u16 \<Rightarrow> world \<Rightarrow> wireguard_peer \<times> world" where
  "authentic_data L peer sl nonce src_len pkt addr port w =
     (let peer = register_reception peer sl src_len addr port w;
          w = emit Link_up w
      in if length pkt > 0 then
           case wireguard_check_replay (keypair_of sl peer) nonce of (fresh, keypair) \<Rightarrow>
           let peer = set_keypair sl keypair peer in
           if fresh then
             let (dest_ok, header_len) = inner_header L peer pkt in
             if unat header_len \<le> length pkt then
               if dest_ok then (peer, emit (Ip_input pkt) w) else (peer, w)
             else (peer, w)
           else (peer, w)
         else (peer, w))"

definition wireguardif_process_data_message ::
  "lwip \<Rightarrow> wireguard_device \<Rightarrow> nat \<Rightarrow> message_transport_data \<Rightarrow> nat \<Rightarrow> ip_addr_t \<Rightarrow> u16 \<Rightarrow> world \<Rightarrow>
   wireguard_device \<times> world" where
  "wireguardif_process_data_message L device p data_hdr data_len addr port w =
     (let peer = peer_at device p in
      case get_peer_keypair_for_idx peer (mt_receiver data_hdr) of
        None \<Rightarrow> (device, w)
      | Some sl \<Rightarrow>
        let keypair = keypair_of sl peer in
        if kp_receiving_valid keypair \<and>
           \<not> wireguard_expired w (kp_keypair_millis keypair) (seconds REJECT_AFTER_TIME) \<and>
           kp_sending_counter keypair < REJECT_AFTER_MESSAGES then
          let nonce = U8TO64_LITTLE (mt_counter data_hdr);
              src = take data_len (mt_enc_packet data_hdr);
              src_len = data_len in
          case take_alloc w of (allocated, w) \<Rightarrow>
          if allocated then
            case wireguard_decrypt_packet src nonce keypair of
              None \<Rightarrow> (device, w)
            | Some pkt \<Rightarrow>
              (case authentic_data L peer sl nonce src_len pkt addr port w of
                 (peer, w) \<Rightarrow> (set_peer device p peer, w))
          else (device, w)
        else (set_peer device p (keypair_destroy sl peer), w))"

subsection \<open>Handshake messages\<close>

definition wireguardif_initiate_handshake ::
  "x25519_fn \<Rightarrow> wireguard_device \<Rightarrow> nat \<Rightarrow> world \<Rightarrow>
   (bytes option \<times> message_handshake_initiation \<times> err_t \<times> wireguard_device \<times> world) option" where
  "wireguardif_initiate_handshake dh device p w =
     (case wireguard_create_handshake_initiation dh device p w of
        None \<Rightarrow> None
      | Some (created, msg, device, w) \<Rightarrow>
        if created then
          case take_alloc w of (allocated, w) \<Rightarrow>
          if allocated then
            case pbuf_take w of (err, w) \<Rightarrow>
            if err = ERR_OK then Some (Some (initiation_bytes msg), msg, err, device, w)
            else Some (None, msg, err, device, w)
          else Some (None, msg, ERR_MEM, device, w)
        else Some (None, msg, ERR_ARG, device, w))"

definition wireguardif_send_handshake_response ::
  "x25519_fn \<Rightarrow> wireguard_device \<Rightarrow> nat \<Rightarrow> world \<Rightarrow> (wireguard_device \<times> world) option" where
  "wireguardif_send_handshake_response dh device p w =
     (case wireguard_create_handshake_response dh device p w of
        None \<Rightarrow> None
      | Some (created, packet, device, w) \<Rightarrow>
        if created then
          let device = set_peer device p (wireguard_start_session w (peer_at device p) False) in
          case take_alloc w of (allocated, w) \<Rightarrow>
          if allocated then
            case pbuf_take w of (err, w) \<Rightarrow>
            if err = ERR_OK
            then Some (device, snd (wireguardif_peer_output w (response_bytes packet) (peer_at device p)))
            else Some (device, w)
          else Some (device, w)
        else Some (device, w))"

definition wireguardif_send_handshake_cookie ::
  "lwip \<Rightarrow> wireguard_device \<Rightarrow> bytes \<Rightarrow> u32 \<Rightarrow> ip_addr_t \<Rightarrow> u16 \<Rightarrow> world \<Rightarrow> wireguard_device \<times> world" where
  "wireguardif_send_handshake_cookie L device mac1 index addr port w =
     (let source_buf = get_source_addr_port L addr port 18;
          (packet, device, w) = wireguard_create_cookie_reply device mac1 index source_buf w in
      case take_alloc w of (allocated, w) \<Rightarrow>
      if allocated then
        case pbuf_take w of (err, w) \<Rightarrow>
        if err = ERR_OK then (device, snd (wireguardif_device_output w (cookie_reply_bytes packet) addr port))
        else (device, w)
      else (device, w))"

definition wireguardif_check_initiation_message ::
  "lwip \<Rightarrow> wireguard_device \<Rightarrow> message_handshake_initiation \<Rightarrow> ip_addr_t \<Rightarrow> u16 \<Rightarrow> world \<Rightarrow>
   bool \<times> wireguard_device \<times> world" where
  "wireguardif_check_initiation_message L device msg addr port w =
     (let data = initiation_bytes msg in
      if wireguard_check_mac1 device (take (sizeof_initiation - 2 * WIREGUARD_COOKIE_LEN) data) (mi_mac1 msg) then
        if \<not> wireguard_is_under_load then (True, device, w)
        else
          let source_buf = get_source_addr_port L addr port 18;
              (result, device, w) = wireguard_check_mac2 device (take (sizeof_initiation - WIREGUARD_COOKIE_LEN) data)
                 source_buf (mi_mac2 msg) w in
          if \<not> result then
            case wireguardif_send_handshake_cookie L device (mi_mac1 msg) (mi_sender msg) addr port w of
              (device, w) \<Rightarrow> (result, device, w)
          else (result, device, w)
      else (False, device, w))"

definition wireguardif_check_response_message ::
  "lwip \<Rightarrow> wireguard_device \<Rightarrow> message_handshake_response \<Rightarrow> ip_addr_t \<Rightarrow> u16 \<Rightarrow> world \<Rightarrow>
   bool \<times> wireguard_device \<times> world" where
  "wireguardif_check_response_message L device msg addr port w =
     (let data = response_bytes msg in
      if wireguard_check_mac1 device (take (sizeof_response - 2 * WIREGUARD_COOKIE_LEN) data) (mr_mac1 msg) then
        if \<not> wireguard_is_under_load then (True, device, w)
        else
          let source_buf = get_source_addr_port L addr port 18;
              (result, device, w) = wireguard_check_mac2 device (take (sizeof_response - WIREGUARD_COOKIE_LEN) data)
                 source_buf (mr_mac2 msg) w in
          if \<not> result then
            case wireguardif_send_handshake_cookie L device (mr_mac1 msg) (mr_sender msg) addr port w of
              (device, w) \<Rightarrow> (result, device, w)
          else (result, device, w)
      else (False, device, w))"

subsection \<open>The receive callback\<close>

text \<open>\<open>data\<close> is the first buffer of the datagram, \<open>addr\<close> and \<open>port\<close> where it came from.\<close>

definition wireguardif_network_rx ::
  "x25519_fn \<Rightarrow> lwip \<Rightarrow> wireguard_device \<Rightarrow> bytes \<Rightarrow> ip_addr_t \<Rightarrow> u16 \<Rightarrow> world \<Rightarrow> (wireguard_device \<times> world) option" where
  "wireguardif_network_rx dh L device data addr port w =
     (let len = length data;
          type = wireguard_get_message_type data
      in if type = MESSAGE_HANDSHAKE_INITIATION then
        let msg_initiation = initiation_of data in
        case wireguardif_check_initiation_message L device msg_initiation addr port w of (ok, device, w) \<Rightarrow>
        if ok then
          case wireguard_process_initiation_message dh device msg_initiation w of
            (None, device) \<Rightarrow> Some (device, w)
          | (Some p, device) \<Rightarrow>
            let device = set_peer device p (update_peer_addr (peer_at device p) addr port)
            in wireguardif_send_handshake_response dh device p w
        else Some (device, w)
      else if type = MESSAGE_HANDSHAKE_RESPONSE then
        let msg_response = response_of data in
        case wireguardif_check_response_message L device msg_response addr port w of (ok, device, w) \<Rightarrow>
        if ok then
          case peer_lookup_by_handshake device (mr_receiver msg_response) of
            None \<Rightarrow> Some (device, w)
          | Some p \<Rightarrow> Some (wireguardif_process_response_message dh device p msg_response addr port w)
        else Some (device, w)
      else if type = MESSAGE_COOKIE_REPLY then
        let msg_cookie = cookie_reply_of data in
        case peer_lookup_by_handshake device (mc_receiver msg_cookie) of
          None \<Rightarrow> Some (device, w)
        | Some p \<Rightarrow>
          (case wireguard_process_cookie_message (peer_at device p) msg_cookie w of (ok, peer) \<Rightarrow>
           if ok then Some (set_peer device p (update_peer_addr peer addr port), w)
           else Some (set_peer device p peer, w))
      else if type = MESSAGE_TRANSPORT_DATA then
        let msg_data = transport_of data in
        case peer_lookup_by_receiver device (mt_receiver msg_data) of
          None \<Rightarrow> Some (device, w)
        | Some p \<Rightarrow> Some (wireguardif_process_data_message L device p msg_data (len - 16) addr port w)
      else Some (device, w))"

definition wireguard_start_handshake ::
  "x25519_fn \<Rightarrow> wireguard_device \<Rightarrow> nat \<Rightarrow> world \<Rightarrow> (err_t \<times> wireguard_device \<times> world) option" where
  "wireguard_start_handshake dh device p w =
     (case wireguardif_initiate_handshake dh device p w of
        None \<Rightarrow> None
      | Some (None, msg, result, device, w) \<Rightarrow> Some (result, device, w)
      | Some (Some pbuf, msg, result, device, w) \<Rightarrow>
        let (result, w) = wireguardif_peer_output w pbuf (peer_at device p);
            peer = (peer_at device p)\<lparr>pr_send_handshake := False, pr_last_initiation_tx := wireguard_sys_now w,
              pr_handshake_mac1 := mi_mac1 msg, pr_handshake_mac1_valid := True\<rparr>
        in Some (result, set_peer device p peer, w))"

end
