(* ===== verification/Wg_Netif.thy ===== *)
theory Wg_Netif
  imports Wg_If Base64
begin

text \<open>
  The rest of \<open>wireguardif.c\<close>: the periodic timer with its tests, the management of peers,
  and the start and end of an interface. A \<open>struct netif\<close> is modelled by its \<open>state\<close>: the
  device, or nothing.
\<close>

subsection \<open>Timer\<close>

definition should_send_initiation :: "world \<Rightarrow> wireguard_peer \<Rightarrow> bool" where
  "should_send_initiation w peer =
     (if wireguardif_can_send_initiation w peer then
        if pr_send_handshake peer then True
        else if kp_valid (pr_curr_keypair peer) \<and> \<not> kp_initiator (pr_curr_keypair peer) \<and>
                wireguard_expired w (kp_keypair_millis (pr_curr_keypair peer))
                  (seconds (REJECT_AFTER_TIME - int (unat (pr_keepalive_interval peer)))) then True
        else if \<not> kp_valid (pr_curr_keypair peer) \<and> pr_active peer then True
        else False
      else False)"

definition should_send_keepalive :: "world \<Rightarrow> wireguard_peer \<Rightarrow> bool" where
  "should_send_keepalive w peer =
     (if pr_keepalive_interval peer > 0 then
        if kp_valid (pr_curr_keypair peer) \<or> kp_valid (pr_prev_keypair peer) then
          if wireguard_expired w (pr_last_tx peer) (ucast (pr_keepalive_interval peer)) then True else False
        else False
      else False)"

definition should_destroy_current_keypair :: "world \<Rightarrow> wireguard_peer \<Rightarrow> bool" where
  "should_destroy_current_keypair w peer =
     (if kp_valid (pr_curr_keypair peer) \<and>
         (wireguard_expired w (kp_keypair_millis (pr_curr_keypair peer)) (seconds REJECT_AFTER_TIME) \<or>
          kp_sending_counter (pr_curr_keypair peer) \<ge> REJECT_AFTER_MESSAGES)
      then True else False)"

definition should_reset_peer :: "world \<Rightarrow> wireguard_peer \<Rightarrow> bool" where
  "should_reset_peer w peer =
     (if kp_valid (pr_curr_keypair peer) \<and>
         wireguard_expired w (kp_keypair_millis (pr_curr_keypair peer)) (seconds (REJECT_AFTER_TIME * 3))
      then True else False)"

text \<open>The part of the timer that only changes the peer.\<close>

definition tmr_expire :: "world \<Rightarrow> wireguard_peer \<Rightarrow> wireguard_peer" where
  "tmr_expire w peer =
     (let peer = (if should_reset_peer w peer then
                    let peer = keypair_destroy NEXT peer;
                        peer = keypair_destroy CURR peer;
                        peer = keypair_destroy PREV peer;
                        peer = peer\<lparr>pr_handshake := handshake_destroy (pr_handshake peer)\<rparr>
                    in peer\<lparr>pr_ip := pr_connect_ip peer, pr_port := pr_connect_port peer\<rparr>
                  else peer)
      in if should_destroy_current_keypair w peer then keypair_destroy CURR peer else peer)"

fun tmr_peers ::
  "x25519_fn \<Rightarrow> nat list \<Rightarrow> bool \<Rightarrow> wireguard_device \<Rightarrow> world \<Rightarrow> (bool \<times> wireguard_device \<times> world) option" where
  "tmr_peers dh [] link_up device w = Some (link_up, device, w)"
| "tmr_peers dh (x # xs) link_up device w =
     (if pr_valid (peer_at device x) then
        let device = set_peer device x (tmr_expire w (peer_at device x));
            (device, w) = (if should_send_keepalive w (peer_at device x)
                           then wireguardif_send_keepalive device x w else (device, w))
        in case (if should_send_initiation w (peer_at device x)
                 then map_option snd (wireguard_start_handshake dh device x w) else Some (device, w)) of
             None \<Rightarrow> None
           | Some (device, w) \<Rightarrow>
             let peer = peer_at device x;
                 link_up = (if kp_valid (pr_curr_keypair peer) \<or> kp_valid (pr_prev_keypair peer) then True else link_up)
             in tmr_peers dh xs link_up device w
      else tmr_peers dh xs link_up device w)"

definition wireguardif_tmr ::
  "x25519_fn \<Rightarrow> wireguard_device \<Rightarrow> world \<Rightarrow> (wireguard_device \<times> world) option" where
  "wireguardif_tmr dh device w =
     (case tmr_peers dh [0..<WIREGUARD_MAX_PEERS] False device (emit Timer_set w) of
        None \<Rightarrow> None
      | Some (link_up, device, w) \<Rightarrow> Some (device, if \<not> link_up then emit Link_down w else w))"

subsection \<open>Peers\<close>

definition wireguardif_lookup_peer :: "wireguard_device \<Rightarrow> u8 \<Rightarrow> err_t \<times> nat option" where
  "wireguardif_lookup_peer device peer_index =
     (if dv_valid device then
        case peer_lookup_by_peer_index device peer_index of
          Some p \<Rightarrow> (ERR_OK, Some p)
        | None \<Rightarrow> (ERR_ARG, None)
      else (ERR_ARG, None))"

text \<open>Runs \<open>f\<close> on the peer, when there is one.\<close>

definition with_peer :: "wireguard_device \<Rightarrow> u8 \<Rightarrow> (wireguard_peer \<Rightarrow> err_t \<times> wireguard_peer) \<Rightarrow> err_t \<times> wireguard_device" where
  "with_peer device peer_index f =
     (case wireguardif_lookup_peer device peer_index of
        (result, Some p) \<Rightarrow> (case f (peer_at device p) of (result, peer) \<Rightarrow> (result, set_peer device p peer))
      | (result, None) \<Rightarrow> (result, device))"

definition wireguardif_connect :: "lwip \<Rightarrow> wireguard_device \<Rightarrow> u8 \<Rightarrow> err_t \<times> wireguard_device" where
  "wireguardif_connect L device peer_index = with_peer device peer_index (\<lambda>peer.
     if \<not> lw_isany L (pr_connect_ip peer) \<and> pr_connect_port peer > 0 then
       (ERR_OK, peer\<lparr>pr_active := True, pr_ip := pr_connect_ip peer, pr_port := pr_connect_port peer\<rparr>)
     else (ERR_ARG, peer))"

definition wireguardif_disconnect :: "wireguard_device \<Rightarrow> u8 \<Rightarrow> err_t \<times> wireguard_device" where
  "wireguardif_disconnect device peer_index = with_peer device peer_index (\<lambda>peer.
     (ERR_OK, keypair_destroy PREV (keypair_destroy CURR (keypair_destroy NEXT (peer\<lparr>pr_active := False\<rparr>)))))"

text \<open>The results: the code, and the address and port stored through the pointers.\<close>

definition wireguardif_peer_is_up :: "wireguard_device \<Rightarrow> u8 \<Rightarrow> err_t \<times> (ip_addr_t \<times> u16) option" where
  "wireguardif_peer_is_up device peer_index =
     (case wireguardif_lookup_peer device peer_index of
        (result, Some p) \<Rightarrow>
          let peer = peer_at device p in
          (if kp_valid (pr_curr_keypair peer) \<or> kp_valid (pr_prev_keypair peer) then ERR_OK else ERR_CONN,
           Some (pr_ip peer, pr_port peer))
      | (result, None) \<Rightarrow> (result, None))"

definition wireguardif_remove_peer :: "lwip \<Rightarrow> wireguard_device \<Rightarrow> u8 \<Rightarrow> err_t \<times> wireguard_device" where
  "wireguardif_remove_peer L device peer_index = with_peer device peer_index (\<lambda>peer.
     (ERR_OK, (zero_peer (lw_zero L))\<lparr>pr_valid := False\<rparr>))"

definition wireguardif_update_endpoint :: "wireguard_device \<Rightarrow> u8 \<Rightarrow> ip_addr_t \<Rightarrow> u16 \<Rightarrow> err_t \<times> wireguard_device" where
  "wireguardif_update_endpoint device peer_index ip port = with_peer device peer_index (\<lambda>peer.
     (ERR_OK, peer\<lparr>pr_connect_ip := ip, pr_connect_port := port\<rparr>))"

text \<open>A string that is not given is \<open>None\<close>, as is a preshared key.\<close>

record wireguardif_peer =
  wp_public_key :: "string option"
  wp_preshared_key :: "bytes option"
  wp_greatest_timestamp :: bytes
  wp_allowed_ip :: ip_addr_t
  wp_allowed_mask :: ip_addr_t
  wp_endpoint_ip :: ip_addr_t
  wp_endport_port :: u16
  wp_keep_alive :: u16

definition WIREGUARDIF_DEFAULT_PORT :: u16 where "WIREGUARDIF_DEFAULT_PORT = 51820"
definition WIREGUARDIF_KEEPALIVE_DEFAULT :: u16 where "WIREGUARDIF_KEEPALIVE_DEFAULT = 0xFFFF"
definition WIREGUARDIF_INVALID_INDEX :: u8 where "WIREGUARDIF_INVALID_INDEX = 0xFF"

definition wireguardif_peer_init :: "lwip \<Rightarrow> wireguardif_peer" where
  "wireguardif_peer_init L =
     \<lparr>wp_public_key = None, wp_preshared_key = None, wp_greatest_timestamp = zeros 12,
      wp_allowed_ip = lw_any L, wp_allowed_mask = lw_any L, wp_endpoint_ip = lw_any L,
      wp_endport_port = WIREGUARDIF_DEFAULT_PORT, wp_keep_alive = WIREGUARDIF_KEEPALIVE_DEFAULT\<rparr>"

definition wireguardif_add_peer ::
  "x25519_fn \<Rightarrow> lwip \<Rightarrow> wireguard_device \<Rightarrow> wireguardif_peer \<Rightarrow> err_t \<times> u8 \<times> wireguard_device" where
  "wireguardif_add_peer dh L device p =
     (let (decoded, public_key) = wireguard_base64_decode (wp_public_key p) WIREGUARD_PUBLIC_KEY_LEN;
          (result, peer, device) =
            (if decoded \<and> length public_key = WIREGUARD_PUBLIC_KEY_LEN then
               case peer_lookup_by_pubkey device public_key of
                 Some x \<Rightarrow> (ERR_OK, Some x, device)
               | None \<Rightarrow>
                 (case peer_alloc device of
                    None \<Rightarrow> (ERR_MEM, None, device)
                  | Some x \<Rightarrow>
                    (case wireguard_peer_init dh (lw_zero L) device public_key (wp_preshared_key p) of (ok, peer) \<Rightarrow>
                     if ok then
                       let peer = peer\<lparr>pr_connect_ip := wp_endpoint_ip p, pr_connect_port := wp_endport_port p\<rparr>;
                           peer = peer\<lparr>pr_ip := pr_connect_ip peer, pr_port := pr_connect_port peer\<rparr>;
                           peer = peer\<lparr>pr_keepalive_interval :=
                             (if wp_keep_alive p = WIREGUARDIF_KEEPALIVE_DEFAULT then of_int KEEPALIVE_TIMEOUT
                              else wp_keep_alive p)\<rparr>;
                           (added, peer) = peer_add_ip L peer (wp_allowed_ip p) (wp_allowed_mask p);
                           peer = peer\<lparr>pr_greatest_timestamp := wp_greatest_timestamp p\<rparr>
                       in (ERR_OK, Some x, set_peer device x peer)
                     else (ERR_ARG, Some x, set_peer device x peer)))
             else (ERR_ARG, None, device))
      in (result, case peer of Some x \<Rightarrow> wireguard_peer_index device x | None \<Rightarrow> WIREGUARDIF_INVALID_INDEX, device))"

subsection \<open>Interface\<close>

text \<open>The member \<open>bind_netif\<close> is never read.\<close>

record wireguardif_init_data =
  wi_private_key :: "string option"
  wi_listen_port :: u16

text \<open>
  The argument is \<open>netif->state\<close> on entry, the data of the caller or NULL; the result is the
  code and the state on exit. Setting up the remaining members of the netif is not modelled.
\<close>

definition wireguardif_init ::
  "x25519_fn \<Rightarrow> lwip \<Rightarrow> wireguardif_init_data option \<Rightarrow> world \<Rightarrow> err_t \<times> wireguard_device option \<times> world" where
  "wireguardif_init dh L state w =
     (case state of
        None \<Rightarrow> (ERR_ARG, None, w)
      | Some init_data \<Rightarrow>
        (case wireguard_base64_decode (wi_private_key init_data) WIREGUARD_PRIVATE_KEY_LEN of (decoded, private_key) \<Rightarrow>
         if decoded \<and> length private_key = WIREGUARD_PRIVATE_KEY_LEN then
           case take_alloc w of (udp, w) \<Rightarrow>
           if udp then
             let result = w_bind w in
             if result = ERR_OK then
               let w = emit (Udp_bound (wi_listen_port init_data)) w in
               case take_alloc w of (allocated, w) \<Rightarrow>
               if allocated then
                 case wireguard_device_init dh (zero_device (lw_zero L)) private_key w of (ok, device, w) \<Rightarrow>
                 if ok then (ERR_OK, Some device, emit Timer_set w)
                 else (ERR_ARG, None, emit Udp_removed w)
               else (ERR_MEM, None, emit Udp_removed w)
             else (result, None, emit Udp_removed w)
           else (ERR_MEM, None, w)
         else (ERR_ARG, None, w)))"

text \<open>After \<open>wireguardif_init\<close> the device has its UDP control block.\<close>

definition wireguardif_shutdown :: "wireguard_device \<Rightarrow> world \<Rightarrow> wireguard_device option \<times> world" where
  "wireguardif_shutdown device w =
     (let w = emit Timer_cleared w;
          w = emit Udp_removed w
      in (None, w))"

end
