(* ===== verification/Wg_Invariant.thy ===== *)
theory Wg_Invariant
  imports Wg_Netif Wg_Auth
begin

text \<open>
  The invariant of an interface: its state under any sequence of datagrams, packets to send,
  timer ticks and management calls. The step relation \<open>wg_step\<close> runs one entry point of
  \<open>wireguardif.c\<close>; between two of them the clock and the answers of the stack may change.
\<close>

subsection \<open>Well-formed state\<close>

definition index_usable :: "u32 \<Rightarrow> bool" where
  "index_usable i \<longleftrightarrow> i \<noteq> 0 \<and> i \<noteq> 0xFFFFFFFF"

definition keypair_wf :: "wireguard_keypair \<Rightarrow> bool" where
  "keypair_wf k \<longleftrightarrow> length (kp_sending_key k) = 32 \<and> length (kp_receiving_key k) = 32 \<and>
     kp_sending_counter k \<le> REJECT_AFTER_MESSAGES \<and>
     (kp_valid k \<longrightarrow> kp_sending_valid k \<and> kp_receiving_valid k \<and> index_usable (kp_local_index k))"

definition handshake_wf :: "wireguard_handshake \<Rightarrow> bool" where
  "handshake_wf h \<longleftrightarrow> length (hs_ephemeral_private h) = 32 \<and> length (hs_remote_ephemeral h) = 32 \<and>
     length (hs_hash h) = 32 \<and> length (hs_chaining_key h) = 32 \<and>
     (hs_valid h \<and> hs_initiator h \<longrightarrow> index_usable (hs_local_index h))"

definition peer_sized :: "wireguard_peer \<Rightarrow> bool" where
  "peer_sized p \<longleftrightarrow> length (pr_allowed_source_ips p) = WIREGUARD_MAX_SRC_IPS \<and>
     length (pr_public_key p) = 32 \<and> length (pr_preshared_key p) = 32 \<and> length (pr_public_key_dh p) = 32 \<and>
     length (pr_greatest_timestamp p) = 12 \<and> length (pr_cookie p) = 16 \<and> length (pr_handshake_mac1 p) = 16 \<and>
     length (pr_label_cookie_key p) = 32 \<and> length (pr_label_mac1_key p) = 32"

text \<open>The next slot only ever holds a session of the responder.\<close>

definition peer_wf :: "wireguard_peer \<Rightarrow> bool" where
  "peer_wf p \<longleftrightarrow> peer_sized p \<and> handshake_wf (pr_handshake p) \<and> (\<forall>sl. keypair_wf (keypair_of sl p)) \<and>
     (kp_valid (keypair_of NEXT p) \<longrightarrow> \<not> kp_initiator (keypair_of NEXT p))"

definition device_wf :: "wireguard_device \<Rightarrow> bool" where
  "device_wf d \<longleftrightarrow> length (dv_peers d) = WIREGUARD_MAX_PEERS \<and> length (dv_private_key d) = 32 \<and>
     length (dv_public_key d) = 32 \<and> length (dv_cookie_secret d) = 32 \<and> length (dv_label_mac1_key d) = 32 \<and>
     length (dv_label_cookie_key d) = 32 \<and> (\<forall>p < WIREGUARD_MAX_PEERS. peer_wf (peer_at d p))"

lemma all_slots: "(\<forall>sl. P (keypair_of sl p)) \<longleftrightarrow> P (pr_curr_keypair p) \<and> P (pr_next_keypair p) \<and> P (pr_prev_keypair p)"
  by (metis keypair_of.simps slot.exhaust)

text \<open>What no operation changes.\<close>

definition same_identity :: "wireguard_device \<Rightarrow> wireguard_device \<Rightarrow> bool" where
  "same_identity d d' \<longleftrightarrow> dv_private_key d' = dv_private_key d \<and> dv_public_key d' = dv_public_key d \<and>
     dv_label_mac1_key d' = dv_label_mac1_key d \<and> dv_label_cookie_key d' = dv_label_cookie_key d \<and>
     dv_valid d' = dv_valid d"

text \<open>An operation keeps the invariant.\<close>

definition keeps :: "wireguard_device \<Rightarrow> wireguard_device \<Rightarrow> bool" where
  "keeps d d' \<longleftrightarrow> (device_wf d \<longrightarrow> device_wf d') \<and> same_identity d d'"

lemma keeps_refl [simp]: "keeps d d"
  by (simp add: keeps_def same_identity_def)

lemma keeps_trans: "keeps a b \<Longrightarrow> keeps b c \<Longrightarrow> keeps a c"
  by (auto simp: keeps_def same_identity_def)

lemma keeps_set_peer:
  "(device_wf d \<Longrightarrow> p < WIREGUARD_MAX_PEERS \<Longrightarrow> peer_wf q) \<Longrightarrow> keeps d (set_peer d p q)"
proof -
  assume q: "device_wf d \<Longrightarrow> p < WIREGUARD_MAX_PEERS \<Longrightarrow> peer_wf q"
  have "device_wf (set_peer d p q)" if d: "device_wf d"
  proof -
    have "peer_wf (peer_at (set_peer d p q) x)" if x: "x < WIREGUARD_MAX_PEERS" for x
      using d q x by (cases "p = x") (auto simp: device_wf_def)
    with d show ?thesis by (simp add: device_wf_def)
  qed
  then show ?thesis by (simp add: keeps_def same_identity_def)
qed

lemma peer_at_wf: "device_wf d \<Longrightarrow> p < WIREGUARD_MAX_PEERS \<Longrightarrow> peer_wf (peer_at d p)"
  by (simp add: device_wf_def)

subsection \<open>Key pairs\<close>

lemma zero_keypair_wf [simp]: "keypair_wf zero_keypair"
  by (simp add: keypair_wf_def zero_keypair_def REJECT_AFTER_MESSAGES_def)

lemma zero_keypair_invalid [simp]: "\<not> kp_valid zero_keypair"
  by (simp add: zero_keypair_def)

lemma peer_sized_set_keypair [simp]: "peer_sized (set_keypair sl k p) = peer_sized p"
  by (cases sl) (simp_all add: peer_sized_def)

lemma peer_wf_set_keypair:
  "peer_wf p \<Longrightarrow> keypair_wf k \<Longrightarrow> (sl = NEXT \<Longrightarrow> kp_valid k \<Longrightarrow> \<not> kp_initiator k) \<Longrightarrow> peer_wf (set_keypair sl k p)"
  by (auto simp: peer_wf_def)

lemma keypair_destroy_wf [intro]: "peer_wf p \<Longrightarrow> peer_wf (keypair_destroy sl p)"
  unfolding keypair_destroy_def
  by (intro peer_wf_set_keypair) (simp_all add: keypair_wf_def zero_keypair_def REJECT_AFTER_MESSAGES_def)

lemma keypair_of_wf: "peer_wf p \<Longrightarrow> keypair_wf (keypair_of sl p)"
  by (simp add: peer_wf_def)

lemma handshake_destroy_wf [simp]: "handshake_wf h \<Longrightarrow> handshake_wf (handshake_destroy h)"
  by (simp add: handshake_wf_def handshake_destroy_def)

lemma keypair_update_sized [simp]: "peer_sized (keypair_update p sl) = peer_sized p"
  "pr_handshake (keypair_update p sl) = pr_handshake p"
  by (simp_all add: keypair_update_def keypair_destroy_def Let_def peer_sized_def)

lemma keypair_update_wf [intro]: "peer_wf p \<Longrightarrow> peer_wf (keypair_update p sl)"
  by (auto simp: peer_wf_def all_slots keypair_update_slots split: slot.splits)

lemma session_keypair_wf:
  "index_usable (hs_local_index h) \<Longrightarrow> keypair_wf (session_keypair w h i)"
  by (simp add: keypair_wf_def session_keypair_keys REJECT_AFTER_MESSAGES_def)

lemma start_session_sized [simp]: "peer_sized (wireguard_start_session w p i) = peer_sized p"
  by (simp add: wireguard_start_session_def add_new_keypair_def keypair_destroy_def Let_def peer_sized_def)

lemma start_session_wf:
  assumes "peer_wf p" "index_usable (hs_local_index (pr_handshake p))"
  shows "peer_wf (wireguard_start_session w p i)"
proof -
  have "keypair_wf (keypair_of sl (wireguard_start_session w p i))" for sl
    using assms session_keypair_wf [of "pr_handshake p" w i]
    by (auto simp: start_session_slots Let_def peer_wf_def all_slots split: slot.split)
  moreover have "kp_valid (keypair_of NEXT (wireguard_start_session w p i)) \<longrightarrow>
      \<not> kp_initiator (keypair_of NEXT (wireguard_start_session w p i))"
    using assms(1) unfolding start_session_slots Let_def by (auto simp: peer_wf_def)
  ultimately show ?thesis
    using assms(1) by (auto simp: peer_wf_def start_session_handshake)
qed

text \<open>Fields the invariant does not look at.\<close>

lemma peer_wf_frame [simp]:
  "peer_wf (p\<lparr>pr_ip := a\<rparr>) = peer_wf p" "peer_wf (p\<lparr>pr_port := b\<rparr>) = peer_wf p"
  "peer_wf (p\<lparr>pr_connect_ip := a\<rparr>) = peer_wf p" "peer_wf (p\<lparr>pr_connect_port := b\<rparr>) = peer_wf p"
  "peer_wf (p\<lparr>pr_active := c\<rparr>) = peer_wf p" "peer_wf (p\<lparr>pr_valid := c\<rparr>) = peer_wf p"
  "peer_wf (p\<lparr>pr_last_tx := e\<rparr>) = peer_wf p" "peer_wf (p\<lparr>pr_last_rx := e\<rparr>) = peer_wf p"
  "peer_wf (p\<lparr>pr_tx_bytes := f\<rparr>) = peer_wf p" "peer_wf (p\<lparr>pr_rx_bytes := f\<rparr>) = peer_wf p"
  "peer_wf (p\<lparr>pr_send_handshake := c\<rparr>) = peer_wf p" "peer_wf (p\<lparr>pr_last_initiation_tx := e\<rparr>) = peer_wf p"
  "peer_wf (p\<lparr>pr_last_initiation_rx := e\<rparr>) = peer_wf p" "peer_wf (p\<lparr>pr_cookie_millis := e\<rparr>) = peer_wf p"
  "peer_wf (p\<lparr>pr_handshake_mac1_valid := c\<rparr>) = peer_wf p"
  "peer_wf (p\<lparr>pr_keepalive_interval := b\<rparr>) = peer_wf p"
proof -
  have k: "keypair_of sl (p\<lparr>pr_ip := a\<rparr>) = keypair_of sl p" "keypair_of sl (p\<lparr>pr_port := b\<rparr>) = keypair_of sl p"
    "keypair_of sl (p\<lparr>pr_connect_ip := a\<rparr>) = keypair_of sl p" "keypair_of sl (p\<lparr>pr_connect_port := b\<rparr>) = keypair_of sl p"
    "keypair_of sl (p\<lparr>pr_active := c\<rparr>) = keypair_of sl p" "keypair_of sl (p\<lparr>pr_valid := c\<rparr>) = keypair_of sl p"
    "keypair_of sl (p\<lparr>pr_last_tx := e\<rparr>) = keypair_of sl p" "keypair_of sl (p\<lparr>pr_last_rx := e\<rparr>) = keypair_of sl p"
    "keypair_of sl (p\<lparr>pr_tx_bytes := f\<rparr>) = keypair_of sl p" "keypair_of sl (p\<lparr>pr_rx_bytes := f\<rparr>) = keypair_of sl p"
    "keypair_of sl (p\<lparr>pr_send_handshake := c\<rparr>) = keypair_of sl p" "keypair_of sl (p\<lparr>pr_last_initiation_tx := e\<rparr>) = keypair_of sl p"
    "keypair_of sl (p\<lparr>pr_last_initiation_rx := e\<rparr>) = keypair_of sl p" "keypair_of sl (p\<lparr>pr_cookie_millis := e\<rparr>) = keypair_of sl p"
    "keypair_of sl (p\<lparr>pr_handshake_mac1_valid := c\<rparr>) = keypair_of sl p"
    "keypair_of sl (p\<lparr>pr_keepalive_interval := b\<rparr>) = keypair_of sl p" for sl
    by (cases sl; simp)+
  show "peer_wf (p\<lparr>pr_ip := a\<rparr>) = peer_wf p" "peer_wf (p\<lparr>pr_port := b\<rparr>) = peer_wf p"
    "peer_wf (p\<lparr>pr_connect_ip := a\<rparr>) = peer_wf p" "peer_wf (p\<lparr>pr_connect_port := b\<rparr>) = peer_wf p"
    "peer_wf (p\<lparr>pr_active := c\<rparr>) = peer_wf p" "peer_wf (p\<lparr>pr_valid := c\<rparr>) = peer_wf p"
    "peer_wf (p\<lparr>pr_last_tx := e\<rparr>) = peer_wf p" "peer_wf (p\<lparr>pr_last_rx := e\<rparr>) = peer_wf p"
    "peer_wf (p\<lparr>pr_tx_bytes := f\<rparr>) = peer_wf p" "peer_wf (p\<lparr>pr_rx_bytes := f\<rparr>) = peer_wf p"
    "peer_wf (p\<lparr>pr_send_handshake := c\<rparr>) = peer_wf p" "peer_wf (p\<lparr>pr_last_initiation_tx := e\<rparr>) = peer_wf p"
    "peer_wf (p\<lparr>pr_last_initiation_rx := e\<rparr>) = peer_wf p" "peer_wf (p\<lparr>pr_cookie_millis := e\<rparr>) = peer_wf p"
    "peer_wf (p\<lparr>pr_handshake_mac1_valid := c\<rparr>) = peer_wf p"
    "peer_wf (p\<lparr>pr_keepalive_interval := b\<rparr>) = peer_wf p"
    by (simp_all add: peer_wf_def k peer_sized_def)
qed

subsection \<open>The data path\<close>

lemma transport_packet_keypair:
  "snd (transport_packet k q) = k\<lparr>kp_sending_counter := kp_sending_counter k + 1\<rparr>"
  by (simp add: transport_packet_def wireguard_encrypt_packet_def Let_def)

lemma counter_step: "x < REJECT_AFTER_MESSAGES \<Longrightarrow> x + 1 \<le> REJECT_AFTER_MESSAGES"
  by (rule inc_le)

lemma output_to_peer_wf:
  assumes "peer_wf p"
  shows "peer_wf (fst (snd (wireguardif_output_to_peer w q p)))"
proof -
  let ?k = "keypair_of (output_slot p) p"
  have k: "keypair_wf ?k" using assms by (rule keypair_of_wf)
  have "output_slot p \<noteq> NEXT" by (simp add: output_slot_def Let_def)
  then have "peer_wf (set_keypair (output_slot p) (?k\<lparr>kp_sending_counter := kp_sending_counter ?k + 1, kp_last_tx := t\<rparr>) p)"
    "peer_wf (set_keypair (output_slot p) (?k\<lparr>kp_sending_counter := kp_sending_counter ?k + 1\<rparr>) p)"
    if "kp_sending_counter ?k < REJECT_AFTER_MESSAGES" for t
    using assms k counter_step [OF that] by (auto intro!: peer_wf_set_keypair simp: keypair_wf_def)
  moreover have "set_keypair sl k (p\<lparr>pr_last_tx := t, pr_tx_bytes := b\<rparr>) = (set_keypair sl k p)\<lparr>pr_last_tx := t, pr_tx_bytes := b\<rparr>"
    for sl k t b by (cases sl) simp_all
  ultimately show ?thesis
    using assms by (auto simp: wireguardif_output_to_peer_def Let_def split_beta transport_packet_keypair)
qed

lemma send_keepalive_keeps: "keeps d (fst (wireguardif_send_keepalive d p w))"
  unfolding wireguardif_send_keepalive_def split_beta fst_conv
  by (intro keeps_set_peer output_to_peer_wf peer_at_wf)

lemma output_keeps: "keeps d (fst (snd (wireguardif_output L d q ip w)))"
proof (cases "peer_lookup_by_allowed_ip L d (lw_from_ip4 L ip)")
  case (Some p)
  then show ?thesis
    by (simp add: wireguardif_output_def split_beta) (intro keeps_set_peer output_to_peer_wf peer_at_wf)
qed (simp add: wireguardif_output_def)

lemma check_replay_fields:
  "snd (wireguard_check_replay k n) =
   k\<lparr>kp_replay_bitmap := kp_replay_bitmap (snd (wireguard_check_replay k n)),
     kp_replay_counter := kp_replay_counter (snd (wireguard_check_replay k n))\<rparr>"
  by (simp add: wireguard_check_replay_def Let_def)

lemma check_replay_wf: "keypair_wf (snd (wireguard_check_replay k n)) = keypair_wf k"
  "kp_valid (snd (wireguard_check_replay k n)) = kp_valid k"
  "kp_initiator (snd (wireguard_check_replay k n)) = kp_initiator k"
  by (subst check_replay_fields; simp add: keypair_wf_def)+

lemma register_reception_wf:
  assumes "peer_wf p"
  shows "peer_wf (register_reception p sl len addr port w)"
proof -
  let ?p1 = "set_keypair sl ((keypair_of sl (update_peer_addr p addr port))\<lparr>kp_last_rx := w_now w\<rparr>) (update_peer_addr p addr port)"
  have "peer_wf (update_peer_addr p addr port)" using assms by (simp add: update_peer_addr_def)
  moreover from this have "keypair_wf ((keypair_of sl (update_peer_addr p addr port))\<lparr>kp_last_rx := w_now w\<rparr>)"
    using keypair_of_wf by (auto simp: keypair_wf_def)
  ultimately have "peer_wf ?p1"
    by (intro peer_wf_set_keypair) (auto simp: peer_wf_def)
  then have "peer_wf (keypair_update (?p1\<lparr>pr_last_rx := t, pr_rx_bytes := b\<rparr>) sl)" for t b
    by (intro keypair_update_wf) simp
  then show ?thesis by (simp add: register_reception_def Let_def wireguard_sys_now_def)
qed

lemma authentic_data_wf:
  assumes "peer_wf p"
  shows "peer_wf (fst (authentic_data L p sl n len pkt addr port w))"
proof -
  have "peer_wf (set_keypair sl (snd (wireguard_check_replay (keypair_of sl q) n)) q)" if "peer_wf q" for q
    using that by (intro peer_wf_set_keypair) (auto simp: check_replay_wf keypair_of_wf, auto simp: peer_wf_def)
  with register_reception_wf [OF assms] show ?thesis
    by (simp add: authentic_data_def Let_def split_beta)
qed

lemma process_data_keeps: "keeps d (fst (wireguardif_process_data_message L d p m len addr port w))"
  by (auto simp: wireguardif_process_data_message_def Let_def split_beta
      intro!: keeps_set_peer authentic_data_wf keypair_destroy_wf peer_at_wf split: option.split)

subsection \<open>Handshake messages\<close>

definition dh_sized :: "x25519_fn \<Rightarrow> bool" where
  "dh_sized dh \<longleftrightarrow> (\<forall>a p. length (snd (dh a p)) = 32)"

lemma hash_lengths [simp, length_simps]: "length construction_hash = 32" "length identifier_hash = 32"
  by (simp_all add: construction_hash_eq identifier_hash_eq)

lemma length_private_key [simp, length_simps]: "length (fst (wireguard_generate_private_key w)) = 32"
  by (simp add: wireguard_generate_private_key_def split_beta wireguard_clamp_private_key_def Let_def wg_lengths)

lemma initiation_noise_wf:
  "handshake_wf (pr_handshake p) \<Longrightarrow> handshake_wf (fst (snd (initiation_noise dh d p w)))"
  by (simp add: initiation_noise_def Let_def split_beta handshake_wf_def)

lemma response_noise_wf:
  "handshake_wf (pr_handshake p) \<Longrightarrow> handshake_wf (fst (snd (response_noise dh p w)))"
  by (simp add: response_noise_def Let_def split_beta handshake_wf_def)

lemma peer_wf_handshake: "peer_wf p \<Longrightarrow> handshake_wf h \<Longrightarrow> peer_wf (p\<lparr>pr_handshake := h\<rparr>)"
  by (auto simp: peer_wf_def peer_sized_def all_slots)

lemma peer_handshake_wf: "peer_wf p \<Longrightarrow> handshake_wf (pr_handshake p)"
  by (simp add: peer_wf_def)

lemma unique_index_usable:
  "wireguard_generate_unique_index d w = Some (i, w') \<Longrightarrow> index_usable i"
  using unique_index_result [of d w "(i, w')"] by (simp add: index_ok_def index_usable_def)

lemma create_initiation_keeps:
  assumes "wireguard_create_handshake_initiation dh d p w = Some (ok, m, d', w')"
  shows "keeps d d'"
proof -
  obtain r hs dst wn where n: "initiation_noise dh d (peer_at d p) w = (r, hs, dst, wn)" by (metis prod_cases4)
  have hs: "device_wf d \<Longrightarrow> p < WIREGUARD_MAX_PEERS \<Longrightarrow> handshake_wf hs"
    using initiation_noise_wf [OF peer_handshake_wf [OF peer_at_wf], of d p dh d w] n by simp
  then have 1: "keeps d (set_peer d p ((peer_at d p)\<lparr>pr_handshake := hs\<rparr>))"
    by (intro keeps_set_peer peer_wf_handshake peer_at_wf)
  show ?thesis
  proof (cases r)
    case False
    then show ?thesis using assms 1 by (simp add: wireguard_create_handshake_initiation_def n)
  next
    case True
    let ?d = "set_peer d p ((peer_at d p)\<lparr>pr_handshake := hs\<rparr>)"
    from assms True obtain i where i: "wireguard_generate_unique_index ?d wn = Some (i, w')"
      and d': "d' = set_peer ?d p ((peer_at ?d p)\<lparr>pr_handshake :=
        hs\<lparr>hs_valid := True, hs_initiator := True, hs_local_index := i\<rparr>\<rparr>)"
      by (auto simp: wireguard_create_handshake_initiation_def n Let_def split: option.splits)
    have "handshake_wf (hs\<lparr>hs_valid := True, hs_initiator := True, hs_local_index := i\<rparr>)"
      if "device_wf ?d" "p < WIREGUARD_MAX_PEERS"
      using peer_handshake_wf [OF peer_at_wf [OF that]] unique_index_usable [OF i] that
      by (simp add: handshake_wf_def device_wf_def)
    then have "keeps ?d d'"
      unfolding d' by (intro keeps_set_peer peer_wf_handshake peer_at_wf)
    with 1 show ?thesis by (rule keeps_trans)
  qed
qed

lemma create_response_keeps:
  assumes "wireguard_create_handshake_response dh d p w = Some (ok, m, d', w')"
  shows "keeps d d'"
    and "ok \<Longrightarrow> device_wf d \<Longrightarrow> p < WIREGUARD_MAX_PEERS \<Longrightarrow> index_usable (hs_local_index (pr_handshake (peer_at d' p)))"
proof -
  obtain r hs dst wn where n: "response_noise dh (peer_at d p) w = (r, hs, dst, wn)" by (metis prod_cases4)
  have hs: "device_wf d \<Longrightarrow> p < WIREGUARD_MAX_PEERS \<Longrightarrow> handshake_wf hs"
    using response_noise_wf [OF peer_handshake_wf [OF peer_at_wf], of d p dh w] n by simp
  then have 1: "keeps d (set_peer d p ((peer_at d p)\<lparr>pr_handshake := hs\<rparr>))"
    by (intro keeps_set_peer peer_wf_handshake peer_at_wf)
  let ?d = "set_peer d p ((peer_at d p)\<lparr>pr_handshake := hs\<rparr>)"
  have 2: "\<exists>i. index_usable i \<and> d' = set_peer ?d p ((peer_at ?d p)\<lparr>pr_handshake := hs\<lparr>hs_local_index := i\<rparr>\<rparr>)" if c: r
  proof -
    obtain i where "wireguard_generate_unique_index ?d wn = Some (i, w')"
      "d' = set_peer ?d p ((peer_at ?d p)\<lparr>pr_handshake := hs\<lparr>hs_local_index := i\<rparr>\<rparr>)"
      using assms c by (auto simp: wireguard_create_handshake_response_def n Let_def split: option.splits)
    then show ?thesis using unique_index_usable by blast
  qed
  have r: "r = ok" using assms by (auto simp: wireguard_create_handshake_response_def n Let_def split: if_splits option.splits)
  show "keeps d d'"
  proof (cases r)
    case False
    then show ?thesis using assms 1 by (simp add: wireguard_create_handshake_response_def n)
  next
    case True
    then obtain i where i: "index_usable i" and d': "d' = set_peer ?d p ((peer_at ?d p)\<lparr>pr_handshake := hs\<lparr>hs_local_index := i\<rparr>\<rparr>)"
      using 2 by blast
    have "handshake_wf (hs\<lparr>hs_local_index := i\<rparr>)" if "device_wf ?d" "p < WIREGUARD_MAX_PEERS"
      using peer_handshake_wf [OF peer_at_wf [OF that]] i that by (simp add: handshake_wf_def device_wf_def)
    then have "keeps ?d d'"
      unfolding d' by (intro keeps_set_peer peer_wf_handshake peer_at_wf)
    with 1 show ?thesis by (rule keeps_trans)
  qed
  show "index_usable (hs_local_index (pr_handshake (peer_at d' p)))" if ok "device_wf d" "p < WIREGUARD_MAX_PEERS"
    using 2 that r by (auto simp: device_wf_def)
qed

lemma process_initiation_keeps:
  assumes "length (mi_ephemeral m) = 32" "length (mi_enc_timestamp m) = 28"
  shows "keeps d (snd (wireguard_process_initiation_message dh d m w))"
proof (cases "wireguard_process_initiation_message dh d m w")
  case (Pair r d')
  show ?thesis
  proof (cases r)
    case None
    then have "d' = d" using Pair unfolding wireguard_process_initiation_message_def
      by (auto simp: Let_def split_beta split: if_splits option.splits)
    then show ?thesis using Pair by simp
  next
    case (Some p)
    have "keeps d d'"
      using Pair [unfolded Some]
    proof (rule process_initiation_Some)
      fix s t k1 k2 h1 h2 ck
      assume dec: "chacha20poly1305_decrypt (mi_enc_timestamp m) h2 0 k2 = Some t"
        and d': "d' = set_peer d p ((peer_at d p)\<lparr>pr_last_initiation_rx := w_now w, pr_greatest_timestamp := t,
          pr_handshake := (pr_handshake (peer_at d p))\<lparr>hs_remote_ephemeral := mi_ephemeral m,
            hs_hash := wireguard_mix_hash h2 (mi_enc_timestamp m), hs_chaining_key := ck,
            hs_remote_index := mi_sender m, hs_valid := True, hs_initiator := False\<rparr>\<rparr>)"
        and ck: "length ck = 32"
      have t: "length t = 12" using decrypt_length [OF dec] assms(2) by simp
      show ?thesis
        unfolding d'
      proof (rule keeps_set_peer)
        assume "device_wf d" "p < WIREGUARD_MAX_PEERS"
        then have "peer_wf (peer_at d p)" by (rule peer_at_wf)
        then show "peer_wf ((peer_at d p)\<lparr>pr_last_initiation_rx := w_now w, pr_greatest_timestamp := t,
          pr_handshake := (pr_handshake (peer_at d p))\<lparr>hs_remote_ephemeral := mi_ephemeral m,
            hs_hash := wireguard_mix_hash h2 (mi_enc_timestamp m), hs_chaining_key := ck,
            hs_remote_index := mi_sender m, hs_valid := True, hs_initiator := False\<rparr>\<rparr>)"
          using t assms(1) ck by (simp add: peer_wf_def peer_sized_def all_slots handshake_wf_def)
      qed
    qed
    with Pair show ?thesis by simp
  qed
qed

lemma process_response_wf:
  assumes "peer_wf p" "length (mr_ephemeral m) = 32"
  shows "peer_wf (snd (wireguard_process_handshake_response dh d p m))"
proof -
  have "handshake_wf ((pr_handshake p)\<lparr>hs_remote_ephemeral := mr_ephemeral m, hs_hash := h, hs_chaining_key := ck,
      hs_remote_index := i\<rparr>)" if "length h = 32" "length ck = 32" for h ck i
    using assms that by (simp add: handshake_wf_def peer_wf_def)
  then show ?thesis
    using assms(1) by (auto simp: wireguard_process_handshake_response_def Let_def split_beta
        intro!: peer_wf_handshake split: option.split)
qed

lemma process_response_local:
  "wireguard_process_handshake_response dh d p m = (True, p') \<Longrightarrow>
   hs_valid (pr_handshake p) \<and> hs_initiator (pr_handshake p) \<and>
   hs_local_index (pr_handshake p') = hs_local_index (pr_handshake p)"
  by (auto simp: wireguard_process_handshake_response_def Let_def split_beta split: if_splits option.splits)

lemma process_response_message_keeps:
  assumes "length (mr_ephemeral m) = 32"
  shows "keeps d (fst (wireguardif_process_response_message dh d p m addr port w))"
proof -
  obtain ok q where q: "wireguard_process_handshake_response dh d (peer_at d p) m = (ok, q)" by fastforce
  have wf: "peer_wf q" if "device_wf d" "p < WIREGUARD_MAX_PEERS"
    using process_response_wf [OF peer_at_wf [OF that] assms, of dh d] q by simp
  show ?thesis
  proof (cases ok)
    case False
    with wf show ?thesis by (simp add: wireguardif_process_response_message_def q) (intro keeps_set_peer)
  next
    case True
    let ?s = "wireguard_start_session w (update_peer_addr q addr port) True"
    have "peer_wf ?s" if d: "device_wf d" "p < WIREGUARD_MAX_PEERS"
    proof (rule start_session_wf)
      show "peer_wf (update_peer_addr q addr port)" using wf [OF d] by (simp add: update_peer_addr_def)
      show "index_usable (hs_local_index (pr_handshake (update_peer_addr q addr port)))"
        using process_response_local [of dh d "peer_at d p" m q] q True peer_handshake_wf [OF peer_at_wf [OF d]]
        by (simp add: update_peer_addr_def handshake_wf_def)
    qed
    then have "keeps d (set_peer d p ?s)" by (rule keeps_set_peer)
    then show ?thesis
      using keeps_trans [OF _ send_keepalive_keeps] True
      by (simp add: wireguardif_process_response_message_def q Let_def split_beta)
  qed
qed

lemma xdecrypt_length:
  "xchacha20poly1305_decrypt c ad nonce key = Some m \<Longrightarrow> length c = length m + 16"
  by (auto simp: xchacha20poly1305_decrypt_def Let_def dest: decrypt_length)

lemma process_cookie_wf:
  assumes "peer_wf p" "length (mc_enc_cookie m) = 32"
  shows "peer_wf (snd (wireguard_process_cookie_message p m w))"
proof -
  have "peer_wf (p\<lparr>pr_cookie := c, pr_cookie_millis := t, pr_handshake_mac1_valid := False\<rparr>)" if "length c = 16" for c t
    using assms(1) that by (simp add: peer_wf_def peer_sized_def all_slots)
  then show ?thesis
    using assms by (auto simp: wireguard_process_cookie_message_def dest: xdecrypt_length split: option.split)
qed

lemma check_initiation_result:
  "wireguardif_check_initiation_message L d m addr port w =
   (wireguard_check_mac1 d (take 116 (initiation_bytes m)) (mi_mac1 m), d, w)"
  by (simp add: wireguardif_check_initiation_message_def wireguard_is_under_load_def Let_def sizeofs WIREGUARD_COOKIE_LEN_def)

lemma check_response_result:
  "wireguardif_check_response_message L d m addr port w =
   (wireguard_check_mac1 d (take 60 (response_bytes m)) (mr_mac1 m), d, w)"
  by (simp add: wireguardif_check_response_message_def wireguard_is_under_load_def Let_def sizeofs WIREGUARD_COOKIE_LEN_def)

lemma send_response_keeps:
  assumes "wireguardif_send_handshake_response dh d p w = Some (d', w')"
  shows "keeps d d'"
proof -
  obtain ok m d1 w1 where c: "wireguard_create_handshake_response dh d p w = Some (ok, m, d1, w1)"
    using assms by (auto simp: wireguardif_send_handshake_response_def split: option.splits)
  note k = create_response_keeps [OF c]
  let ?s = "wireguard_start_session w1 (peer_at d1 p) False"
  have "keeps d (set_peer d1 p ?s)" if ok
  proof -
    have "keeps d1 (set_peer d1 p ?s)" if "device_wf d"
      using k(1) k(2) [OF \<open>ok\<close> that] that
      by (intro keeps_set_peer start_session_wf peer_at_wf) (simp_all add: keeps_def)
    then show ?thesis using k(1) by (auto simp: keeps_def same_identity_def)
  qed
  moreover have "d' = (if ok then set_peer d1 p ?s else d1)"
    using assms by (auto simp: wireguardif_send_handshake_response_def c Let_def split: prod.splits if_splits)
  ultimately show ?thesis using k(1) by simp
qed

lemma initiation_of_lengths:
  "length data = 148 \<Longrightarrow> length (mi_ephemeral (initiation_of data)) = 32 \<and> length (mi_enc_timestamp (initiation_of data)) = 28"
  by (simp add: initiation_of_def slice_def)

lemma response_of_lengths: "length data = 92 \<Longrightarrow> length (mr_ephemeral (response_of data)) = 32"
  by (simp add: response_of_def slice_def)

lemma cookie_of_lengths: "length data = 64 \<Longrightarrow> length (mc_enc_cookie (cookie_reply_of data)) = 32"
  by (simp add: cookie_reply_of_def slice_def)

text \<open>The receive callback by message type.\<close>

lemma network_rx_initiation:
  "wireguard_get_message_type data = MESSAGE_HANDSHAKE_INITIATION \<Longrightarrow>
   wireguardif_network_rx dh L d data addr port w =
   (let m = initiation_of data in
    if wireguard_check_mac1 d (take 116 (initiation_bytes m)) (mi_mac1 m) then
      case wireguard_process_initiation_message dh d m w of
        (None, d) \<Rightarrow> Some (d, w)
      | (Some p, d) \<Rightarrow> wireguardif_send_handshake_response dh (set_peer d p (update_peer_addr (peer_at d p) addr port)) p w
    else Some (d, w))"
  by (simp add: wireguardif_network_rx_def check_initiation_result Let_def split: option.split prod.split)

lemma network_rx_response:
  "wireguard_get_message_type data = MESSAGE_HANDSHAKE_RESPONSE \<Longrightarrow>
   wireguardif_network_rx dh L d data addr port w =
   (let m = response_of data in
    if wireguard_check_mac1 d (take 60 (response_bytes m)) (mr_mac1 m) then
      case peer_lookup_by_handshake d (mr_receiver m) of
        None \<Rightarrow> Some (d, w)
      | Some p \<Rightarrow> Some (wireguardif_process_response_message dh d p m addr port w)
    else Some (d, w))"
  by (simp add: wireguardif_network_rx_def check_response_result Let_def message_types)

lemma network_rx_cookie:
  "wireguard_get_message_type data = MESSAGE_COOKIE_REPLY \<Longrightarrow>
   wireguardif_network_rx dh L d data addr port w =
   (let m = cookie_reply_of data in
    case peer_lookup_by_handshake d (mc_receiver m) of
      None \<Rightarrow> Some (d, w)
    | Some p \<Rightarrow>
      (case wireguard_process_cookie_message (peer_at d p) m w of (ok, peer) \<Rightarrow>
       Some (set_peer d p (if ok then update_peer_addr peer addr port else peer), w)))"
  by (simp add: wireguardif_network_rx_def Let_def message_types split: option.split prod.split)

lemma network_rx_transport:
  "wireguard_get_message_type data = MESSAGE_TRANSPORT_DATA \<Longrightarrow>
   wireguardif_network_rx dh L d data addr port w =
   (let m = transport_of data in
    case peer_lookup_by_receiver d (mt_receiver m) of
      None \<Rightarrow> Some (d, w)
    | Some p \<Rightarrow> Some (wireguardif_process_data_message L d p m (length data - 16) addr port w))"
  by (simp add: wireguardif_network_rx_def Let_def message_types)

lemma network_rx_other:
  "wireguard_get_message_type data = MESSAGE_INVALID \<Longrightarrow> wireguardif_network_rx dh L d data addr port w = Some (d, w)"
  by (simp add: wireguardif_network_rx_def Let_def message_types)

lemma message_type_disj:
  "wireguard_get_message_type data = MESSAGE_HANDSHAKE_INITIATION \<and> length data = 148 \<or>
   wireguard_get_message_type data = MESSAGE_HANDSHAKE_RESPONSE \<and> length data = 92 \<or>
   wireguard_get_message_type data = MESSAGE_COOKIE_REPLY \<and> length data = 64 \<or>
   wireguard_get_message_type data = MESSAGE_TRANSPORT_DATA \<and> 32 \<le> length data \<or>
   wireguard_get_message_type data = MESSAGE_INVALID"
  by (simp add: wireguard_get_message_type_def Let_def sizeofs WIREGUARD_AUTHTAG_LEN_def)

lemma message_type_cases:
  obtains "wireguard_get_message_type data = MESSAGE_HANDSHAKE_INITIATION" "length data = 148"
    | "wireguard_get_message_type data = MESSAGE_HANDSHAKE_RESPONSE" "length data = 92"
    | "wireguard_get_message_type data = MESSAGE_COOKIE_REPLY" "length data = 64"
    | "wireguard_get_message_type data = MESSAGE_TRANSPORT_DATA" "32 \<le> length data"
    | "wireguard_get_message_type data = MESSAGE_INVALID"
  using message_type_disj [of data] by (elim disjE conjE) assumption+

lemma network_rx_keeps:
  assumes rx: "wireguardif_network_rx dh L d data addr port w = Some (d', w')"
  shows "keeps d d'"
proof (cases data rule: message_type_cases)
  case 1
  let ?m = "initiation_of data"
  obtain r d1 where r: "wireguard_process_initiation_message dh d ?m w = (r, d1)" by fastforce
  have k: "keeps d d1"
    using process_initiation_keeps [of ?m d dh w] initiation_of_lengths [OF 1(2)] r by simp
  have u: "keeps d1 (set_peer d1 p (update_peer_addr (peer_at d1 p) addr port))" for p
    by (intro keeps_set_peer) (simp add: update_peer_addr_def peer_at_wf)
  show ?thesis
  proof (cases r)
    case None
    with rx k show ?thesis by (auto simp: network_rx_initiation [OF 1(1)] Let_def r split: if_splits)
  next
    case (Some p)
    show ?thesis
    proof (cases "wireguard_check_mac1 d (take 116 (initiation_bytes ?m)) (mi_mac1 ?m)")
      case True
      with rx have "wireguardif_send_handshake_response dh
          (set_peer d1 p (update_peer_addr (peer_at d1 p) addr port)) p w = Some (d', w')"
        by (simp add: network_rx_initiation [OF 1(1)] Let_def r Some)
      from keeps_trans [OF keeps_trans [OF k u] send_response_keeps [OF this]] show ?thesis .
    qed (use rx in \<open>simp add: network_rx_initiation [OF 1(1)] Let_def\<close>)
  qed
next
  case 2
  have k: "keeps d (fst (wireguardif_process_response_message dh d p (response_of data) addr port w))" for p
    by (rule process_response_message_keeps [OF response_of_lengths [OF 2(2)]])
  consider "d' = d" | p where "wireguardif_process_response_message dh d p (response_of data) addr port w = (d', w')"
    using rx by (auto simp: network_rx_response [OF 2(1)] Let_def split: if_splits option.splits)
  then show ?thesis
  proof cases
    case 2
    with k [of p] show ?thesis by (simp add: 2)
  qed simp
next
  case 3
  have "keeps d (set_peer d p (if ok then update_peer_addr q addr port else q))"
    if "wireguard_process_cookie_message (peer_at d p) (cookie_reply_of data) w = (ok, q)" for p ok q
    using process_cookie_wf [OF peer_at_wf cookie_of_lengths [OF 3(2)], of d p w] that
    by (intro keeps_set_peer) (auto simp: update_peer_addr_def)
  then show ?thesis
    using rx by (auto simp: network_rx_cookie [OF 3(1)] Let_def split: option.splits prod.splits)
next
  case 4
  consider "d' = d" | p where
    "wireguardif_process_data_message L d p (transport_of data) (length data - 16) addr port w = (d', w')"
    using rx by (auto simp: network_rx_transport [OF 4(1)] Let_def split: option.splits)
  then show ?thesis
  proof cases
    case 2
    with process_data_keeps [of d L p "transport_of data" "length data - 16" addr port w] show ?thesis by (simp add: 2)
  qed simp
next
  case 5
  with rx show ?thesis by (simp add: network_rx_other)
qed

subsection \<open>Timer and management\<close>

lemma created_mac1_length:
  assumes "wireguard_create_handshake_initiation dh d p w = Some (True, m, d', w')" "device_wf d" "p < WIREGUARD_MAX_PEERS"
  shows "length (mi_mac1 m) = 16"
proof -
  have d: "length (pr_label_mac1_key (peer_at d' p)) = 32"
    using create_initiation_keeps [OF assms(1)] assms(2,3) peer_at_wf [of d' p]
    by (simp add: keeps_def peer_wf_def peer_sized_def)
  have "p < length (dv_peers d)" using assms(2,3) by (simp add: device_wf_def)
  from create_initiation_ok [OF assms(1) this] obtain dst where "m = initiation_macs (peer_at d' p) w' dst" by metis
  with d show ?thesis by (simp add: initiation_macs_def Let_def)
qed

lemma start_handshake_keeps:
  assumes "wireguard_start_handshake dh d p w = Some (err, d', w')"
  shows "keeps d d'"
proof -
  obtain ok m d1 w1 where c: "wireguard_create_handshake_initiation dh d p w = Some (ok, m, d1, w1)"
    using assms by (auto simp: wireguard_start_handshake_def wireguardif_initiate_handshake_def split: option.splits)
  have k: "keeps d d1" by (rule create_initiation_keeps [OF c])
  let ?q = "(peer_at d1 p)\<lparr>pr_send_handshake := False, pr_last_initiation_tx := w_now w', pr_handshake_mac1 := mi_mac1 m,
      pr_handshake_mac1_valid := True\<rparr>"
  have "keeps d (set_peer d1 p ?q)" if ok
  proof -
    have "peer_wf ?q" if "device_wf d" "device_wf d1" "p < WIREGUARD_MAX_PEERS"
      using peer_at_wf [OF that(2,3)] created_mac1_length [of dh d p w m d1 w1] c that \<open>ok\<close>
      by (simp add: peer_wf_def peer_sized_def all_slots)
    then have "keeps d1 (set_peer d1 p ?q)" if "device_wf d"
      using that k by (intro keeps_set_peer) (simp add: keeps_def)
    with k show ?thesis by (auto simp: keeps_def same_identity_def)
  qed
  moreover have "d' = d1 \<or> ok \<and> d' = set_peer d1 p ?q"
    using assms by (auto simp: wireguard_start_handshake_def wireguardif_initiate_handshake_def c Let_def
        wireguard_sys_now_def split: prod.splits if_splits)
  ultimately show ?thesis using k by auto
qed

lemma tmr_expire_wf: "peer_wf p \<Longrightarrow> peer_wf (tmr_expire w p)"
  by (auto simp: tmr_expire_def Let_def intro!: keypair_destroy_wf peer_wf_handshake handshake_destroy_wf peer_handshake_wf)

lemma tmr_peers_keeps: "tmr_peers dh xs b d w = Some (b', d', w') \<Longrightarrow> keeps d d'"
proof (induction dh xs b d w rule: tmr_peers.induct)
  case (2 dh x xs b d w)
  let ?d1 = "set_peer d x (tmr_expire w (peer_at d x))"
  show ?case
  proof (cases "pr_valid (peer_at d x)")
    case False
    with 2 show ?thesis by simp
  next
    case True
    obtain d2 w2 where d2: "(if should_send_keepalive w (peer_at ?d1 x) then wireguardif_send_keepalive ?d1 x w else (?d1, w)) = (d2, w2)"
      by fastforce
    have "keeps d ?d1" by (intro keeps_set_peer tmr_expire_wf peer_at_wf)
    moreover have "keeps ?d1 d2" using d2 send_keepalive_keeps [of ?d1 x w] by (auto split: if_splits)
    ultimately have k2: "keeps d d2" by (rule keeps_trans)
    from 2 obtain d3 w3 where d3: "(if should_send_initiation w2 (peer_at d2 x)
        then map_option snd (wireguard_start_handshake dh d2 x w2) else Some (d2, w2)) = Some (d3, w3)"
      and rest: "tmr_peers dh xs (if kp_valid (pr_curr_keypair (peer_at d3 x)) \<or> kp_valid (pr_prev_keypair (peer_at d3 x))
        then True else b) d3 w3 = Some (b', d', w')"
      using True d2 by (auto simp: Let_def split: option.splits)
    have "keeps d2 d3" using d3 start_handshake_keeps by (auto split: if_splits)
    moreover have "keeps d3 d'" using "2.IH"(1) [OF True refl d2 [symmetric] refl d3 refl refl refl rest]
      by simp
    ultimately show ?thesis using k2 keeps_trans by blast
  qed
qed simp

lemma tmr_keeps: "wireguardif_tmr dh d w = Some (d', w') \<Longrightarrow> keeps d d'"
  by (auto simp: wireguardif_tmr_def split: option.splits dest: tmr_peers_keeps)

lemma with_peer_keeps:
  assumes "\<And>p. peer_wf p \<Longrightarrow> peer_wf (snd (f p))"
  shows "keeps d (snd (with_peer d i f))"
  using assms by (auto simp: with_peer_def split_beta intro!: keeps_set_peer peer_at_wf split: option.split prod.split)

lemma zero_peer_wf [simp]: "peer_wf (zero_peer ip0)"
  by (simp add: peer_wf_def all_slots zero_peer_def peer_sized_def handshake_wf_def zero_handshake_def)

lemma management_keeps:
  "keeps d (snd (wireguardif_connect L d i))" "keeps d (snd (wireguardif_disconnect d i))"
  "keeps d (snd (wireguardif_remove_peer L d i))" "keeps d (snd (wireguardif_update_endpoint d i ip port))"
  unfolding wireguardif_connect_def wireguardif_disconnect_def wireguardif_remove_peer_def wireguardif_update_endpoint_def
  by (rule with_peer_keeps; auto intro!: keypair_destroy_wf)+

definition peer_config_wf :: "wireguardif_peer \<Rightarrow> bool" where
  "peer_config_wf p \<longleftrightarrow> length (wp_greatest_timestamp p) = 12 \<and>
     (case wp_preshared_key p of None \<Rightarrow> True | Some k \<Rightarrow> length k = 32)"

lemma peer_init_wf:
  assumes "dh_sized dh" "length pk = 32" "case psk of None \<Rightarrow> True | Some k \<Rightarrow> length k = 32"
  shows "peer_wf (snd (wireguard_peer_init dh ip0 d pk psk))"
proof -
  have dh: "length (snd (dh a b)) = 32" for a b using assms(1) by (simp add: dh_sized_def)
  show ?thesis
    using assms(2,3) zero_peer_wf [of ip0]
    by (auto simp: wireguard_peer_init_def Let_def split_beta peer_wf_def all_slots peer_sized_def dh handshake_wf_def
        zero_handshake_def WIREGUARD_COOKIE_LEN_def split: option.splits)
qed

lemma peer_add_ip_wf: "peer_wf p \<Longrightarrow> peer_wf (snd (peer_add_ip L p ip msk))"
  by (auto simp: peer_add_ip_def peer_wf_def all_slots peer_sized_def split: option.split)

lemma add_peer_keeps:
  assumes "dh_sized dh" "peer_config_wf c"
  shows "keeps d (snd (snd (wireguardif_add_peer dh L d c)))"
proof -
  obtain ok pk where b: "wireguard_base64_decode (wp_public_key c) 32 = (ok, pk)" by fastforce
  obtain r q where q: "wireguard_peer_init dh (lw_zero L) d pk (wp_preshared_key c) = (r, q)" by fastforce
  have wf: "peer_wf q" if "length pk = 32"
    using peer_init_wf [OF assms(1) that, of "wp_preshared_key c" "lw_zero L" d] assms(2) q
    by (simp add: peer_config_wf_def)
  have ts: "peer_wf (p\<lparr>pr_greatest_timestamp := wp_greatest_timestamp c\<rparr>)" if "peer_wf p" for p
    using that assms(2) by (simp add: peer_wf_def all_slots peer_sized_def peer_config_wf_def)
  have set: "keeps d (set_peer d x q')" if "peer_wf q'" for x q'
    using that by (intro keeps_set_peer)
  show ?thesis
    using wf by (auto simp: wireguardif_add_peer_def b q Let_def split_beta WIREGUARD_PUBLIC_KEY_LEN_def
        intro!: set ts peer_add_ip_wf split: option.split)
qed

subsection \<open>Runs\<close>

text \<open>
  One entry point of the interface, or a change of the surroundings that keeps the events
  so far.
\<close>

inductive wg_step ::
  "x25519_fn \<Rightarrow> lwip \<Rightarrow> wireguard_device \<times> world \<Rightarrow> wireguard_device \<times> world \<Rightarrow> bool" for dh L where
  Rx: "wireguardif_network_rx dh L d data addr port w = Some (d', w') \<Longrightarrow> wg_step dh L (d, w) (d', w')"
| Tmr: "wireguardif_tmr dh d w = Some (d', w') \<Longrightarrow> wg_step dh L (d, w) (d', w')"
| Output: "wireguardif_output L d q ip4 w = (err, d', w') \<Longrightarrow> wg_step dh L (d, w) (d', w')"
| Connect: "wireguardif_connect L d i = (err, d') \<Longrightarrow> wg_step dh L (d, w) (d', w)"
| Disconnect: "wireguardif_disconnect d i = (err, d') \<Longrightarrow> wg_step dh L (d, w) (d', w)"
| Remove: "wireguardif_remove_peer L d i = (err, d') \<Longrightarrow> wg_step dh L (d, w) (d', w)"
| Endpoint: "wireguardif_update_endpoint d i ip port = (err, d') \<Longrightarrow> wg_step dh L (d, w) (d', w)"
| Add: "wireguardif_add_peer dh L d c = (err, i, d') \<Longrightarrow> peer_config_wf c \<Longrightarrow> wg_step dh L (d, w) (d', w)"
| Surroundings: "w_events w' = w_events w \<Longrightarrow> wg_step dh L (d, w) (d, w')"

inductive_cases wg_stepE: "wg_step dh L (d, w) (d', w')"

lemma step_keeps: "wg_step dh L s s' \<Longrightarrow> dh_sized dh \<Longrightarrow> keeps (fst s) (fst s')"
proof (induction rule: wg_step.induct)
  case (Output d q ip4 w err d' w')
  then show ?case using output_keeps [of d L q ip4 w] by simp
next
  case (Connect d i err d' w)
  then show ?case using management_keeps(1) [of d L i] by simp
next
  case (Disconnect d i err d' w)
  then show ?case using management_keeps(2) [of d i] by simp
next
  case (Remove d i err d' w)
  then show ?case using management_keeps(3) [of d L i] by simp
next
  case (Endpoint d i ip port err d' w)
  then show ?case using management_keeps(4) [of d i ip port] by simp
next
  case (Add d c err i d' w)
  then show ?case using add_peer_keeps [of dh c d L] by simp
qed (auto intro: network_rx_keeps tmr_keeps)

lemma run_keeps: "(wg_step dh L)\<^sup>*\<^sup>* s s' \<Longrightarrow> dh_sized dh \<Longrightarrow> keeps (fst s) (fst s')"
  by (induction rule: rtranclp_induct) (auto intro: keeps_trans step_keeps)

lemma interface_init_ok:
  assumes "wireguardif_init dh L (Some i) w = (ERR_OK, Some d, w')" "dh_sized dh"
  shows "device_wf d \<and> dv_valid d"
proof -
  obtain k v u where k: "length k = 32" "wireguard_device_init dh (zero_device (lw_zero L)) k v = (True, d, u)"
    using assms(1) by (auto simp: wireguardif_init_def Let_def WIREGUARD_PRIVATE_KEY_LEN_def split: prod.splits if_splits)
  have "length (snd (dh k basepoint)) = 32" using assms(2) by (simp add: dh_sized_def)
  with device_init_True [OF k(2)] k(1) show ?thesis
    by (simp add: device_wf_def zero_device_def WIREGUARD_MAX_PEERS_def wireguard_clamp_private_key_def Let_def)
qed

subsection \<open>Properties\<close>

context sized_curve
begin

lemma reachable_wf:
  assumes "wireguardif_init dh L (Some i) w = (ERR_OK, Some d0, w0)" and "(wg_step dh L)\<^sup>*\<^sup>* (d0, w0) (d, w')"
  shows "device_wf d \<and> dv_valid d \<and> dv_private_key d = dv_private_key d0 \<and> dv_public_key d = dv_public_key d0"
proof -
  have dh: "dh_sized dh" by (simp add: dh_sized_def sized)
  from run_keeps [OF assms(2) dh] interface_init_ok [OF assms(1) dh] show ?thesis
    by (auto simp: keeps_def same_identity_def)
qed

end

text \<open>
  C14. The invariant of the interface: after a successful \<open>wireguardif_init\<close>, in every state
  that any sequence of datagrams, packets to send, timer ticks and management calls leads
  to, every buffer of the device and its peers has its declared length, a valid key pair
  can send and receive and has an index other than 0 and 0xFFFFFFFF, no sending counter
  is above \<open>REJECT_AFTER_MESSAGES\<close>, the next slot never holds a session we initiated, and
  the device is valid and keeps its keys.
\<close>

theorem interface_invariant:
  assumes "\<forall>a p. length (snd (dh a p)) = 32"
    and "wireguardif_init dh L (Some i) w = (ERR_OK, Some d0, w0)" and "(wg_step dh L)\<^sup>*\<^sup>* (d0, w0) (d, w')"
  shows "device_wf d \<and> dv_valid d \<and> dv_private_key d = dv_private_key d0 \<and> dv_public_key d = dv_public_key d0"
proof -
  have "sized_curve dh" using assms(1) by (simp add: sized_curve_def)
  from sized_curve.reachable_wf [OF this assms(2,3)] show ?thesis .
qed

definition toy_lwip :: lwip where
  "toy_lwip = \<lparr>lw_ipv4 = True, lw_ipv6 = True, lw_zero = zeros 4, lw_any = zeros 4, lw_isany = (\<lambda>a. a = zeros 4),
     lw_cmp = (=), lw_netcmp = (\<lambda>a n m. list_all (\<lambda>i. a ! i AND m ! i = n ! i AND m ! i) [0..<4]),
     lw_from_ip4 = (\<lambda>a. a), lw_is_v4 = (\<lambda>a. length a = 4), lw_is_v6 = (\<lambda>a. length a = 16),
     lw_ip4_u32 = (\<lambda>a. U8TO32_LITTLE (rev a)), lw_ip6_block = (\<lambda>a i. 0),
     lw_iph_v = (\<lambda>p. unat (drop_bit 4 (p ! 0))), lw_iph_len = (\<lambda>p. ucast (p ! 2) * 256 + ucast (p ! 3)),
     lw_iph_dest = (\<lambda>p. take 4 (drop 16 p))\<rparr>"

lemma toy_init:
  "\<exists>str d0 w0. wireguardif_init toy_dh1 toy_lwip (Some \<lparr>wi_private_key = Some str, wi_listen_port = 51820\<rparr>) quiet_world =
     (ERR_OK, Some d0, w0)"
proof -
  obtain str where str: "wireguard_base64_decode (Some str) 32 = (True, replicate 32 1)"
    using decode_encode [of "replicate 32 1" 45 32] by auto
  have "wireguard_generate_public_key toy_dh1 old (replicate 32 1) = (True, snd (toy_dh1 (replicate 32 1) basepoint))" for old
    by (simp add: wireguard_generate_public_key_def memcmp_eq_0 wg_lengths toy_dh1_def zeros_def)
  then have "\<exists>d v. wireguard_device_init toy_dh1 (zero_device (zeros 4)) (replicate 32 1) u = (True, d, v)" for u
    by (simp add: wireguard_device_init_def Let_def generate_cookie_secret_def split_beta)
  then obtain d v where "wireguard_device_init toy_dh1 (zero_device (zeros 4)) (replicate 32 1)
      (snd (take_alloc (emit (Udp_bound 51820) (snd (take_alloc quiet_world))))) = (True, d, v)" by blast
  then have "wireguardif_init toy_dh1 toy_lwip (Some \<lparr>wi_private_key = Some str, wi_listen_port = 51820\<rparr>) quiet_world =
     (ERR_OK, Some d, emit Timer_set v)"
    by (simp add: wireguardif_init_def str WIREGUARD_PRIVATE_KEY_LEN_def take_alloc_def quiet_world_def emit_def Let_def toy_lwip_def)
  then show ?thesis by blast
qed

theorem interface_invariant_witness:
  "\<exists>str d0 w0. wireguardif_init toy_dh1 toy_lwip (Some \<lparr>wi_private_key = Some str, wi_listen_port = 51820\<rparr>) quiet_world =
     (ERR_OK, Some d0, w0) \<and> device_wf (snd (wireguardif_disconnect d0 0))"
proof -
  obtain str d0 w0 where i: "wireguardif_init toy_dh1 toy_lwip (Some \<lparr>wi_private_key = Some str, wi_listen_port = 51820\<rparr>) quiet_world =
     (ERR_OK, Some d0, w0)" using toy_init by blast
  have dh: "\<forall>a p. length (snd (toy_dh1 a p)) = 32" by (simp add: toy_dh1_def)
  have "wg_step toy_dh1 toy_lwip (d0, w0) (snd (wireguardif_disconnect d0 0), w0)"
    by (rule wg_step.Disconnect) (rule prod.collapse [symmetric])
  from interface_invariant [OF dh i r_into_rtranclp [of "wg_step toy_dh1 toy_lwip", OF this]] i show ?thesis by blast
qed

end
