(* ===== verification/Wg_Transport.thy ===== *)
theory Wg_Transport
  imports Wg_Invariant
begin

text \<open>
  Transport through the interface: what one end sends, the other delivers to its IP stack;
  what is delivered was sealed under a live session; what a reception on the next slot
  leaves behind; and what the timer and the start of the interface do.
\<close>

unbundle bit_operations_syntax

subsection \<open>Packets\<close>

lemma padded_length: "n < 2 ^ 16 \<Longrightarrow> unat ((of_nat n + 15) AND 0xFFFFFFF0 :: u32) = n + (16 - n mod 16) mod 16"
proof -
  assume n: "n < 2 ^ 16"
  then have "unat (of_nat n + 15 :: u32) = n + 15" by (simp add: unat_add unat_of_nat)
  then show ?thesis by (simp add: unat_round_down round_up_16)
qed

text \<open>What is sealed: the packet, or nothing for a keepalive, padded to 16 bytes.\<close>

definition inner :: "bytes option \<Rightarrow> bytes" where
  "inner q = (case q of None \<Rightarrow> [] | Some d \<Rightarrow> pad16 d)"

definition sealed_message :: "wireguard_keypair \<Rightarrow> bytes option \<Rightarrow> message_transport_data" where
  "sealed_message k q = \<lparr>mt_type = MESSAGE_TRANSPORT_DATA, mt_reserved = zeros 3, mt_receiver = kp_remote_index k,
     mt_counter = U64TO8_LITTLE (kp_sending_counter k),
     mt_enc_packet = chacha20poly1305_encrypt (inner q) [] (kp_sending_counter k) (kp_sending_key k)\<rparr>"

lemma transport_packet_eq:
  assumes "case q of None \<Rightarrow> True | Some d \<Rightarrow> length d < 2 ^ 16"
  shows "transport_packet k q = (transport_bytes (sealed_message k q), k\<lparr>kp_sending_counter := kp_sending_counter k + 1\<rparr>)"
proof (cases q)
  case None
  have "unat ((0 + 15) AND 0xFFFFFFF0 :: u32) = 0" by simp
  then show ?thesis
    by (simp add: None transport_packet_def Let_def wireguard_encrypt_packet_def sealed_message_def inner_def zeros_def)
next
  case (Some d)
  note len = padded_length [of "length d"]
  have "buf_write (zeros (length d + (16 - length d mod 16) mod 16)) 0 d = pad16 d"
    by (simp add: buf_write_def zeros_def pad16_def)
  moreover have "length d + (16 - length d mod 16) mod 16 = 0 \<Longrightarrow> pad16 d = []"
    by (simp add: pad16_def)
  ultimately show ?thesis
    using assms len by (auto simp: Some transport_packet_def Let_def wireguard_encrypt_packet_def sealed_message_def
        inner_def zeros_def)
qed

lemma sealed_message_wf [simp]: "transport_wf (sealed_message k q)"
  by (simp add: transport_wf_def sealed_message_def)

lemma length_sealed: "length (transport_bytes (sealed_message k q)) = 32 + length (inner q)"
  by (simp add: length_transport_bytes sizeofs) (simp add: sealed_message_def)

lemma sealed_type: "wireguard_get_message_type (transport_bytes (sealed_message k q)) = MESSAGE_TRANSPORT_DATA"
proof -
  have "transport_bytes (sealed_message k q) = 4 # 0 # 0 # 0 # drop 4 (transport_bytes (sealed_message k q))"
    by (simp add: transport_bytes_def sealed_message_def message_types zeros_def numeral_3_eq_3)
  then obtain xs where x: "transport_bytes (sealed_message k q) = 4 # 0 # 0 # 0 # xs" by blast
  then have "28 \<le> length xs" using length_sealed [of k q] by simp
  then show ?thesis
    unfolding x by (simp add: wireguard_get_message_type_def Let_def message_types sizeofs WIREGUARD_AUTHTAG_LEN_def)
qed

subsection \<open>Reception\<close>

text \<open>Fields that a reception does not look at.\<close>

lemma check_replay_last_rx: "fst (wireguard_check_replay (k\<lparr>kp_last_rx := t\<rparr>) n) = fst (wireguard_check_replay k n)"
  by (simp add: wireguard_check_replay_def Let_def)

lemma inner_header_frame: "pr_allowed_source_ips p = pr_allowed_source_ips q \<Longrightarrow> inner_header L p pkt = inner_header L q pkt"
  by (simp add: inner_header_def)

text \<open>
  The state between the update of the slots and the replay check: \<open>received p sl t\<close> are the
  slots then. What the replay check looks at is the slot the packet came in on, which is
  empty if that was the next slot.
\<close>

definition received :: "wireguard_peer \<Rightarrow> slot \<Rightarrow> u32 \<Rightarrow> slot \<Rightarrow> wireguard_keypair" where
  "received p sl t s =
     (let k = (keypair_of sl p)\<lparr>kp_last_rx := t\<rparr> in
      if sl = NEXT then (case s of CURR \<Rightarrow> k | NEXT \<Rightarrow> zero_keypair | PREV \<Rightarrow> keypair_of CURR p)
      else if s = sl then k else keypair_of s p)"

lemma keypair_of_frame [simp]:
  "keypair_of s (p\<lparr>pr_last_rx := a, pr_rx_bytes := b\<rparr>) = keypair_of s p"
  "keypair_of s (p\<lparr>pr_last_rx := a\<rparr>) = keypair_of s p"
  "keypair_of s (p\<lparr>pr_send_handshake := c\<rparr>) = keypair_of s p"
  "keypair_of s (update_peer_addr p ip port) = keypair_of s p"
  by (cases s; simp add: update_peer_addr_def)+

lemma keypair_update_fields [simp]:
  "pr_allowed_source_ips (keypair_update p sl) = pr_allowed_source_ips p"
  "pr_ip (keypair_update p sl) = pr_ip p" "pr_port (keypair_update p sl) = pr_port p"
  "pr_valid (keypair_update p sl) = pr_valid p"
  by (simp_all add: keypair_update_def keypair_destroy_def Let_def)

lemma update_peer_addr_fields [simp]:
  "pr_allowed_source_ips (update_peer_addr p ip port) = pr_allowed_source_ips p"
  "pr_ip (update_peer_addr p ip port) = ip" "pr_port (update_peer_addr p ip port) = port"
  "pr_valid (update_peer_addr p ip port) = pr_valid p"
  by (simp_all add: update_peer_addr_def)

lemma register_reception_result:
  "keypair_of s (register_reception p sl len ip port w) = received p sl (w_now w) s"
  "pr_ip (register_reception p sl len ip port w) = ip" "pr_port (register_reception p sl len ip port w) = port"
  "pr_valid (register_reception p sl len ip port w) = pr_valid p"
  "pr_allowed_source_ips (register_reception p sl len ip port w) = pr_allowed_source_ips p"
  by (cases sl; cases s; simp add: register_reception_def Let_def keypair_update_def keypair_destroy_def
      update_peer_addr_def received_def wireguard_sys_now_def zero_keypair_def)+

lemma authentic_data_result:
  fixes L p sl n len pkt ip port w
  defines "r \<equiv> authentic_data L p sl n len pkt ip port w"
  shows "pr_ip (fst r) = ip" "pr_port (fst r) = port" "pr_valid (fst r) = pr_valid p"
    "pr_allowed_source_ips (fst r) = pr_allowed_source_ips p"
    "keypair_of s (fst r) =
      (if pkt \<noteq> [] \<and> s = sl then snd (wireguard_check_replay (received p sl (w_now w) sl) n) else received p sl (w_now w) s)"
    "w_events (snd r) = w_events w @ Link_up #
      (if pkt \<noteq> [] \<and> fst (wireguard_check_replay (received p sl (w_now w) sl) n) \<and> fst (inner_header L p pkt) \<and>
          unat (snd (inner_header L p pkt)) \<le> length pkt then [Ip_input pkt] else [])"
    "w_alloc (snd r) = w_alloc w" "w_allocs (snd r) = w_allocs w" "w_now (snd r) = w_now w"
proof -
  have ih: "inner_header L (set_keypair sl k (register_reception p sl len ip port w)) pkt = inner_header L p pkt" for k
    by (rule inner_header_frame) (simp add: register_reception_result)
  show "pr_ip (fst r) = ip" "pr_port (fst r) = port" "pr_valid (fst r) = pr_valid p"
    "pr_allowed_source_ips (fst r) = pr_allowed_source_ips p"
    "keypair_of s (fst r) =
      (if pkt \<noteq> [] \<and> s = sl then snd (wireguard_check_replay (received p sl (w_now w) sl) n) else received p sl (w_now w) s)"
    "w_events (snd r) = w_events w @ Link_up #
      (if pkt \<noteq> [] \<and> fst (wireguard_check_replay (received p sl (w_now w) sl) n) \<and> fst (inner_header L p pkt) \<and>
          unat (snd (inner_header L p pkt)) \<le> length pkt then [Ip_input pkt] else [])"
    "w_alloc (snd r) = w_alloc w" "w_allocs (snd r) = w_allocs w" "w_now (snd r) = w_now w"
    by (simp_all add: r_def authentic_data_def Let_def split_beta ih register_reception_result emit_def)
qed

text \<open>\<open>B\<close> holds, in slot \<open>sl\<close> of its peer \<open>b\<close>, a live session that \<open>k\<close> sends to.\<close>

definition receives :: "wireguard_device \<Rightarrow> nat \<Rightarrow> slot \<Rightarrow> wireguard_keypair \<Rightarrow> world \<Rightarrow> bool" where
  "receives B b sl k v \<longleftrightarrow>
     b < length (dv_peers B) \<and> peer_lookup_by_receiver B (kp_remote_index k) = Some b \<and>
     get_peer_keypair_for_idx (peer_at B b) (kp_remote_index k) = Some sl \<and>
     (let r = keypair_of sl (peer_at B b) in
        kp_receiving_key r = kp_sending_key k \<and> kp_receiving_valid r \<and>
        \<not> wireguard_expired v (kp_keypair_millis r) (seconds REJECT_AFTER_TIME) \<and>
        kp_sending_counter r < REJECT_AFTER_MESSAGES) \<and> w_alloc v (w_allocs v)"

lemma length_inner: "(case q of None \<Rightarrow> True | Some d \<Rightarrow> length d < 2 ^ 16) \<Longrightarrow> length (inner q) + 32 \<le> 2 ^ 32"
proof -
  have "(16 - n mod 16) mod 16 < 16" for n :: nat by (rule mod_less_divisor) simp
  from this [of "length d" for d] show "(case q of None \<Rightarrow> True | Some d \<Rightarrow> length d < 2 ^ 16) \<Longrightarrow> length (inner q) + 32 \<le> 2 ^ 32"
    by (cases q) (auto simp: inner_def pad16_def dest: spec intro: order_trans [OF add_mono [OF _ less_imp_le]])
qed

lemma rx_sealed:
  assumes r: "receives B b sl k v" and q: "case q of None \<Rightarrow> True | Some d \<Rightarrow> length d < 2 ^ 16"
  shows "wireguardif_network_rx dh L B (transport_bytes (sealed_message k q)) ip port v =
    (case authentic_data L (peer_at B b) sl (kp_sending_counter k) (length (inner q) + 16) (inner q) ip port
        (snd (take_alloc v)) of (p, v) \<Rightarrow> Some (set_peer B b p, v))"
proof -
  let ?m = "sealed_message k q" and ?r = "keypair_of sl (peer_at B b)"
  note R = r [unfolded receives_def Let_def]
  have f: "mt_receiver ?m = kp_remote_index k" "U8TO64_LITTLE (mt_counter ?m) = kp_sending_counter k"
    "mt_enc_packet ?m = chacha20poly1305_encrypt (inner q) [] (kp_sending_counter k) (kp_sending_key k)"
    using U8TO64_LITTLE_of_U64TO8 [of "kp_sending_counter k" "[]"] by (simp_all add: sealed_message_def)
  have "wireguard_decrypt_packet (mt_enc_packet ?m) (kp_sending_counter k) ?r = Some (inner q)"
    using R length_inner [OF q] by (simp add: wireguard_decrypt_packet_def f aead_fits_def decrypt_encrypt)
  moreover have "length (transport_bytes ?m) - 16 = length (mt_enc_packet ?m)"
    using length_sealed [of k q] by (simp add: f)
  ultimately show ?thesis
    unfolding network_rx_transport [OF sealed_type] Let_def transport_of_bytes [OF sealed_message_wf]
    using R by (simp add: f(1,2) wireguardif_process_data_message_def Let_def take_alloc_def)
      (simp add: f(3) split_beta)
qed

lemma alloc_frame [simp]: "w_events (snd (take_alloc v)) = w_events v" "w_now (snd (take_alloc v)) = w_now v"
  by (simp_all add: take_alloc_def)

text \<open>What the replay check then says.\<close>

definition not_replayed :: "wireguard_peer \<Rightarrow> slot \<Rightarrow> u64 \<Rightarrow> bool" where
  "not_replayed p sl n \<longleftrightarrow> n \<noteq> 0 \<and> (sl \<noteq> NEXT \<longrightarrow> fst (wireguard_check_replay (keypair_of sl p) n))"

lemma not_replayed_received: "not_replayed p sl n \<Longrightarrow> fst (wireguard_check_replay (received p sl t sl) n)"
proof (cases "sl = NEXT")
  case True
  moreover assume "not_replayed p sl n"
  ultimately show ?thesis
    by (simp add: not_replayed_def received_def wireguard_check_replay_def zero_keypair_def Let_def word_gt_0)
next
  case False
  then show "not_replayed p sl n \<Longrightarrow> ?thesis"
    by (simp add: not_replayed_def received_def Let_def check_replay_last_rx)
qed

lemma rx_delivers:
  assumes r: "receives B b sl k v" and q: "length q < 2 ^ 16" "q \<noteq> []"
    and n: "not_replayed (peer_at B b) sl (kp_sending_counter k)"
    and h: "inner_header L (peer_at B b) (pad16 q) = (True, h)" "unat h \<le> length (pad16 q)"
  shows "\<exists>p v'. wireguardif_network_rx dh L B (transport_bytes (sealed_message k (Some q))) ip port v = Some (set_peer B b p, v') \<and>
    w_events v' = w_events v @ [Link_up, Ip_input (pad16 q)] \<and> pr_ip p = ip \<and> pr_port p = port \<and>
    pr_valid p = pr_valid (peer_at B b) \<and> pr_allowed_source_ips p = pr_allowed_source_ips (peer_at B b) \<and>
    (\<forall>s. s \<noteq> sl \<longrightarrow> keypair_of s p = received (peer_at B b) sl (w_now v) s)"
proof -
  obtain p v' where a: "authentic_data L (peer_at B b) sl (kp_sending_counter k) (length (inner (Some q)) + 16) (inner (Some q))
      ip port (snd (take_alloc v)) = (p, v')" by fastforce
  note res = authentic_data_result [where L = L and p = "peer_at B b" and sl = sl and n = "kp_sending_counter k" and
      len = "length (inner (Some q)) + 16" and pkt = "inner (Some q)" and ip = ip and port = port and
      w = "snd (take_alloc v)", unfolded a fst_conv snd_conv]
  have "pad16 q \<noteq> []" using q(2) by (simp add: pad16_def)
  with res h not_replayed_received [OF n, of "w_now v"]
  have "w_events v' = w_events v @ [Link_up, Ip_input (pad16 q)]" by (simp add: inner_def)
  moreover have "wireguardif_network_rx dh L B (transport_bytes (sealed_message k (Some q))) ip port v = Some (set_peer B b p, v')"
    using rx_sealed [OF r, of "Some q"] q(1) by (simp add: a)
  ultimately show ?thesis using res by auto
qed

lemma output_sends:
  assumes "wireguardif_output_to_peer w q p = (ERR_OK, p', w')" "case q of None \<Rightarrow> True | Some d \<Rightarrow> length d < 2 ^ 16"
  shows "w_events w' = w_events w @ [Udp_sent (pr_ip p) (pr_port p) (transport_bytes (sealed_message (keypair_of (output_slot p) p) q))]"
  using assms(1) transport_packet_eq [OF assms(2), of "keypair_of (output_slot p) p"]
  by (auto simp: wireguardif_output_to_peer_def Let_def wireguardif_peer_output_def udp_sendto_def take_alloc_def emit_def
      split: if_splits)

lemma received_next_again:
  assumes r: "receives B 0 NEXT k v" and p: "pr_valid p" "\<forall>s. s \<noteq> NEXT \<longrightarrow> keypair_of s p = received (peer_at B 0) NEXT t s"
    and later: "w_alloc u (w_allocs u)"
      "\<not> wireguard_expired u (kp_keypair_millis (keypair_of NEXT (peer_at B 0))) (seconds REJECT_AFTER_TIME)"
  shows "receives (set_peer B 0 p) 0 CURR k u"
proof -
  note R = r [unfolded receives_def Let_def]
  have c: "keypair_of CURR p = (keypair_of NEXT (peer_at B 0))\<lparr>kp_last_rx := t\<rparr>"
    using spec [OF p(2), of CURR] by (simp add: received_def)
  have v: "kp_valid (keypair_of NEXT (peer_at B 0))" "kp_local_index (keypair_of NEXT (peer_at B 0)) = kp_remote_index k"
    using R idx_lookup by blast+
  then show ?thesis
    using R p(1) c later by (simp add: receives_def peer_lookup_by_receiver_def get_peer_keypair_for_idx_def
        WIREGUARD_MAX_PEERS_def)
qed

subsection \<open>Handlers that deliver nothing\<close>

definition quiet :: "world \<Rightarrow> world \<Rightarrow> bool" where
  "quiet w w' \<longleftrightarrow> (\<exists>es. w_events w' = w_events w @ es \<and> (\<forall>p. Ip_input p \<notin> set es))"

named_theorems quiet_intros

lemma quiet_same: "w_events w' = w_events w \<Longrightarrow> quiet w w'"
  by (auto simp: quiet_def intro: exI [of _ "[]"])

lemma quiet_refl [simp, quiet_intros]: "quiet w w"
  by (rule quiet_same) simp

lemma quiet_trans: "quiet a b \<Longrightarrow> quiet b c \<Longrightarrow> quiet a c"
  by (fastforce simp: quiet_def)

lemma quiet_emit [quiet_intros]: "(\<And>p. e \<noteq> Ip_input p) \<Longrightarrow> quiet w (emit e w)"
  by (auto simp: quiet_def emit_def)

lemma quiet_alloc [quiet_intros]: "quiet w (snd (take_alloc w))" "quiet w (snd (pbuf_take w))"
  by (rule quiet_same; simp add: take_alloc_def pbuf_take_def)+

lemma quiet_sendto [quiet_intros]: "quiet w (snd (udp_sendto w ip port d))"
  by (auto simp: udp_sendto_def Let_def quiet_def emit_def)

lemma quiet_output [quiet_intros]: "quiet w (snd (snd (wireguardif_output_to_peer w q p)))"
  using quiet_trans [OF quiet_alloc(1) quiet_sendto, of w]
  by (auto simp: wireguardif_output_to_peer_def Let_def split_beta wireguardif_peer_output_def intro: quiet_intros)

lemma quiet_keepalive [quiet_intros]: "quiet w (snd (wireguardif_send_keepalive d p w))"
  by (simp add: wireguardif_send_keepalive_def split_beta quiet_output)

lemma quiet_process_response [quiet_intros]:
  "quiet w (snd (wireguardif_process_response_message dh d p m addr port w))"
  by (auto simp: wireguardif_process_response_message_def Let_def split_beta
      intro: quiet_trans [OF quiet_keepalive quiet_emit])

text \<open>Drawing random bytes changes nothing else.\<close>

definition only_drawn :: "world \<Rightarrow> world \<Rightarrow> bool" where
  "only_drawn w w' \<longleftrightarrow> (\<exists>n. w' = w\<lparr>w_drawn := n\<rparr>)"

lemma only_drawn_refl [simp]: "only_drawn w w"
  by (auto simp: only_drawn_def intro: exI [of _ "w_drawn w"])

lemma only_drawn_trans: "only_drawn a b \<Longrightarrow> only_drawn b c \<Longrightarrow> only_drawn a c"
  by (auto simp: only_drawn_def)

lemma only_drawn_random: "only_drawn w (snd (wireguard_random_bytes n w))"
  by (auto simp: only_drawn_def wireguard_random_bytes_def)

lemma draw_index_drawn:
  assumes "draw_index w = Some (i, w')"
  shows "only_drawn w w'"
proof -
  have "only_drawn w (snd r)" if "draw_index w = Some r" for r
  proof (rule draw_index.raw_induct [OF _ that, where P = "\<lambda>w r. only_drawn w (snd r)"])
    fix draw and w :: world and r :: "u32 \<times> world"
    assume IH: "\<And>w r. draw w = Some r \<Longrightarrow> only_drawn w (snd r)"
      and body: "(case wireguard_random_bytes 4 w of (buf, w) \<Rightarrow>
        let result = U8TO32_LITTLE buf
        in if result = 0 \<or> result = 0xFFFFFFFF then draw w else Some (result, w)) = Some r"
    let ?w = "snd (wireguard_random_bytes 4 w)"
    have "only_drawn ?w (snd r)"
      using body IH [of ?w r] by (auto simp: Let_def split_beta split: if_splits)
    then show "only_drawn w (snd r)" by (rule only_drawn_trans [OF only_drawn_random])
  qed
  from this [OF assms] show ?thesis by simp
qed

lemma unique_index_drawn:
  assumes "wireguard_generate_unique_index d w = Some (i, w')"
  shows "only_drawn w w'"
proof -
  have "only_drawn w (snd r)" if "wireguard_generate_unique_index d w = Some r" for r
  proof (rule wireguard_generate_unique_index.raw_induct [OF _ that, where P = "\<lambda>_ w r. only_drawn w (snd r)"])
    fix gen and device :: wireguard_device and w :: world and r :: "u32 \<times> world"
    assume IH: "\<And>d w r. gen d w = Some r \<Longrightarrow> only_drawn w (snd r)"
      and body: "(draw_index w \<bind> (\<lambda>(result, w). if index_existing device result then gen device w else Some (result, w))) = Some r"
    then obtain i w' where i: "draw_index w = Some (i, w')"
      and r: "(if index_existing device i then gen device w' else Some (i, w')) = Some r"
      by (auto simp: bind_eq_Some_conv)
    from draw_index_drawn [OF i] r IH [of device w' r] show "only_drawn w (snd r)"
      by (auto split: if_splits intro: only_drawn_trans)
  qed
  from this [OF assms] show ?thesis by simp
qed

lemma noise_drawn:
  "only_drawn w (snd (snd (snd (initiation_noise dh d p w))))" "only_drawn w (snd (snd (snd (response_noise dh p w))))"
proof -
  have "only_drawn w (w\<lparr>w_drawn := n\<rparr>)" for n by (auto simp: only_drawn_def)
  then show "only_drawn w (snd (snd (snd (initiation_noise dh d p w))))" "only_drawn w (snd (snd (snd (response_noise dh p w))))"
    by (simp_all add: initiation_noise_def response_noise_def Let_def split_beta private_key_world)
qed

lemma create_drawn:
  "wireguard_create_handshake_initiation dh d p w = Some (ok, m, d', w') \<Longrightarrow> only_drawn w w'"
  "wireguard_create_handshake_response dh d p w = Some (ok, r, d', w') \<Longrightarrow> only_drawn w w'"
  using noise_drawn(1) [of w dh d "peer_at d p"] noise_drawn(2) [of w dh "peer_at d p"]
  by (auto simp: wireguard_create_handshake_initiation_def wireguard_create_handshake_response_def Let_def
      dest: unique_index_drawn intro: only_drawn_trans split: prod.splits if_splits option.splits)

lemma create_events:
  "wireguard_create_handshake_response dh d p w = Some (ok, r, d', w') \<Longrightarrow> w_events w' = w_events w"
  using create_drawn(2) by (fastforce simp: only_drawn_def)

lemma quiet_send_response:
  assumes "wireguardif_send_handshake_response dh d p w = Some (d', w')"
  shows "quiet w w'"
proof -
  obtain ok m d1 w1 where c: "wireguard_create_handshake_response dh d p w = Some (ok, m, d1, w1)"
    using assms by (auto simp: wireguardif_send_handshake_response_def split: option.splits)
  have 1: "quiet w w1" using create_events [OF c] by (rule quiet_same)
  have 2: "quiet w1 (snd (take_alloc w1))" by (rule quiet_alloc)
  have 3: "quiet (snd (take_alloc w1)) (snd (pbuf_take (snd (take_alloc w1))))" by (rule quiet_alloc)
  note q2 = quiet_trans [OF 1 2] and q3 = quiet_trans [OF quiet_trans [OF 1 2] 3]
  show ?thesis
    using assms 1 q2 q3 quiet_trans [OF q3 quiet_sendto]
    by (auto simp: wireguardif_send_handshake_response_def c Let_def split_beta wireguardif_peer_output_def
        split: if_splits)
qed

text \<open>So a delivery comes from a transport message on a live session.\<close>

lemma delivery_transport:
  assumes rx: "wireguardif_network_rx dh L d data addr port w = Some (d', w')" and e: "\<not> quiet w w'"
  obtains p where "32 \<le> length data" "peer_lookup_by_receiver d (mt_receiver (transport_of data)) = Some p"
    "wireguardif_process_data_message L d p (transport_of data) (length data - 16) addr port w = (d', w')"
proof (cases data rule: message_type_cases)
  case 1
  then show ?thesis
    using rx e by (auto simp: network_rx_initiation [OF 1(1)] Let_def dest: quiet_send_response
        split: if_splits prod.splits option.splits)
next
  case 2
  have "quiet w (snd (wireguardif_process_response_message dh d p (response_of data) addr port w))" for p
    by (rule quiet_process_response)
  then have "quiet w w'" using rx
    by (auto simp: network_rx_response [OF 2(1)] Let_def split: if_splits option.splits) (metis snd_conv)
  with e show ?thesis by simp
next
  case 3
  then show ?thesis
    using rx e by (auto simp: network_rx_cookie [OF 3(1)] Let_def split: option.splits prod.splits)
next
  case 4
  then show ?thesis
    using rx e that by (auto simp: network_rx_transport [OF 4(1)] Let_def split: option.splits)
next
  case 5
  with rx e show ?thesis by (simp add: network_rx_other)
qed

lemma data_delivery:
  assumes d: "wireguardif_process_data_message L d p m len addr port w = (d', w')"
    and e: "Ip_input pkt \<in> set (drop (length (w_events w)) (w_events w'))"
  shows "\<exists>sl. let k = keypair_of sl (peer_at d p) in
    get_peer_keypair_for_idx (peer_at d p) (mt_receiver m) = Some sl \<and>
    \<not> wireguard_expired w (kp_keypair_millis k) (seconds REJECT_AFTER_TIME) \<and>
    kp_sending_counter k < REJECT_AFTER_MESSAGES \<and>
    chacha20poly1305_decrypt (take len (mt_enc_packet m)) [] (U8TO64_LITTLE (mt_counter m)) (kp_receiving_key k) = Some pkt \<and>
    fst (inner_header L (peer_at d p) pkt) \<and> unat (snd (inner_header L (peer_at d p) pkt)) \<le> length pkt"
proof -
  obtain sl where sl: "get_peer_keypair_for_idx (peer_at d p) (mt_receiver m) = Some sl"
    using d e by (auto simp: wireguardif_process_data_message_def Let_def split: option.splits)
  let ?k = "keypair_of sl (peer_at d p)"
  have live: "\<not> wireguard_expired w (kp_keypair_millis ?k) (seconds REJECT_AFTER_TIME)" "kp_sending_counter ?k < REJECT_AFTER_MESSAGES"
    using d e by (auto simp: wireguardif_process_data_message_def Let_def sl split: if_splits)
  obtain x where x: "chacha20poly1305_decrypt (take len (mt_enc_packet m)) [] (U8TO64_LITTLE (mt_counter m)) (kp_receiving_key ?k) = Some x"
    and a: "authentic_data L (peer_at d p) sl (U8TO64_LITTLE (mt_counter m)) len x addr port (snd (take_alloc w)) = (peer_at d' p, w') \<or>
      snd (authentic_data L (peer_at d p) sl (U8TO64_LITTLE (mt_counter m)) len x addr port (snd (take_alloc w))) = w'"
    using d e by (auto simp: wireguardif_process_data_message_def Let_def sl wireguard_decrypt_packet_def take_alloc_def
        split: if_splits option.splits prod.splits)
  then have "snd (authentic_data L (peer_at d p) sl (U8TO64_LITTLE (mt_counter m)) len x addr port (snd (take_alloc w))) = w'"
    by auto
  with authentic_data_result(6) [of L "peer_at d p" sl "U8TO64_LITTLE (mt_counter m)" len x addr port "snd (take_alloc w)"] e
  have "x = pkt \<and> fst (inner_header L (peer_at d p) pkt) \<and> unat (snd (inner_header L (peer_at d p) pkt)) \<le> length pkt"
    by (auto split: if_splits)
  with sl live x show ?thesis by (auto simp: Let_def)
qed

subsection \<open>Properties of transport\<close>

text \<open>
  C15. Delivery: when \<open>wireguardif_output_to_peer\<close> reports success for a packet, it has sent one
  datagram to the endpoint of the peer. If the device that receives it holds a live session
  with the crossed key in one of its slots, has not seen the counter, and the packet is
  routed and not shorter than its header says, then \<open>wireguardif_network_rx\<close> hands exactly
  the packet, padded with zeros to 16 bytes, to the IP stack, and takes the source of the
  datagram for the endpoint of its peer.
\<close>

theorem packet_delivered:
  assumes "wireguardif_output_to_peer w (Some q) p = (ERR_OK, p', w')" and "length q < 2 ^ 16" and "q \<noteq> []"
    and "receives B b sl (keypair_of (output_slot p) p) v"
    and "not_replayed (peer_at B b) sl (kp_sending_counter (keypair_of (output_slot p) p))"
    and "inner_header L (peer_at B b) (pad16 q) = (True, h)" and "unat h \<le> length (pad16 q)"
  shows "\<exists>pkt B' v'. w_events w' = w_events w @ [Udp_sent (pr_ip p) (pr_port p) pkt] \<and>
    wireguardif_network_rx dh L B pkt ip port v = Some (B', v') \<and>
    w_events v' = w_events v @ [Link_up, Ip_input (pad16 q)] \<and>
    pr_ip (peer_at B' b) = ip \<and> pr_port (peer_at B' b) = port"
proof -
  have b: "b < length (dv_peers B)" using assms(4) by (simp add: receives_def)
  have "w_events w' = w_events w @ [Udp_sent (pr_ip p) (pr_port p)
      (transport_bytes (sealed_message (keypair_of (output_slot p) p) (Some q)))]"
    using output_sends [OF assms(1)] assms(2) by simp
  with rx_delivers [OF assms(4,2,3,5,6,7), of dh ip port] b show ?thesis by fastforce
qed

definition toy_session :: wireguard_keypair where
  "toy_session = zero_keypair\<lparr>kp_valid := True, kp_initiator := True, kp_keypair_millis := 4000, kp_sending_valid := True,
     kp_receiving_valid := True, kp_sending_counter := 1, kp_local_index := 7, kp_remote_index := 7\<rparr>"

definition toy_end :: "slot \<Rightarrow> wireguard_device" where
  "toy_end sl = set_peer (zero_device (zeros 4)) 0 (set_keypair sl toy_session ((zero_peer (zeros 4))\<lparr>pr_valid := True,
     pr_allowed_source_ips := replicate 2 \<lparr>ai_valid = True, ai_ip = zeros 4, ai_mask = zeros 4\<rparr>\<rparr>))"

definition toy_packet :: bytes where
  "toy_packet = 0x45 # 0 # 0 # 16 # replicate 12 5"

lemma toy_header: "inner_header toy_lwip (peer_at (toy_end sl) 0) (pad16 toy_packet) = (True, 16)" "pad16 toy_packet = toy_packet"
proof -
  have p: "pad16 toy_packet = toy_packet" by (simp add: pad16_def toy_packet_def)
  have a: "pr_allowed_source_ips (peer_at (toy_end sl) 0) = replicate 2 \<lparr>ai_valid = True, ai_ip = zeros 4, ai_mask = zeros 4\<rparr>"
    by (simp add: toy_end_def zero_device_def WIREGUARD_MAX_PEERS_def)
  have "lw_iph_v toy_lwip toy_packet = 4" by (simp add: toy_lwip_def toy_packet_def)
  then show "inner_header toy_lwip (peer_at (toy_end sl) 0) (pad16 toy_packet) = (True, 16)" "pad16 toy_packet = toy_packet"
    unfolding p by (simp_all add: inner_header_def a WIREGUARD_MAX_SRC_IPS_def upt_rec)
      (simp_all add: toy_lwip_def toy_packet_def zeros_def upt_rec)
qed

lemma toy_receives: "receives (toy_end sl) 0 sl toy_session quiet_world"
  by (cases sl) (simp_all add: receives_def toy_end_def zero_device_def WIREGUARD_MAX_PEERS_def toy_session_def
      peer_lookup_by_receiver_def get_peer_keypair_for_idx_def zero_peer_def zero_keypair_def quiet_world_def Let_def
      wireguard_expired_def wireguard_sys_now_def REJECT_AFTER_TIME_def REJECT_AFTER_MESSAGES_def)

theorem packet_delivered_witness:
  "\<exists>pkt B' v'. wireguardif_network_rx toy_dh toy_lwip (toy_end CURR) pkt [1, 2, 3, 4] 5 quiet_world = Some (B', v') \<and>
     w_events v' = [Link_up, Ip_input toy_packet]"
proof -
  let ?p = "peer_at (toy_end CURR) 0"
  have p: "keypair_of (output_slot ?p) ?p = toy_session"
    by (simp add: toy_end_def zero_device_def WIREGUARD_MAX_PEERS_def output_slot_def toy_session_def)
  have "fst (wireguardif_output_to_peer quiet_world (Some toy_packet) ?p) = ERR_OK"
    using toy_receives [of CURR]
    by (auto simp: wireguardif_output_to_peer_def p Let_def take_alloc_def quiet_world_def wireguardif_peer_output_def
        udp_sendto_def split_beta toy_session_def wireguard_expired_def wireguard_sys_now_def REJECT_AFTER_TIME_def
        REJECT_AFTER_MESSAGES_def)
  then obtain p' w' where o: "wireguardif_output_to_peer quiet_world (Some toy_packet) ?p = (ERR_OK, p', w')"
    by (metis prod.collapse)
  have n: "not_replayed ?p CURR (kp_sending_counter toy_session)"
    by (simp add: not_replayed_def toy_end_def zero_device_def WIREGUARD_MAX_PEERS_def toy_session_def zero_keypair_def
        wireguard_check_replay_def Let_def)
  have l: "length toy_packet < 2 ^ 16" "toy_packet \<noteq> []" "unat (16 :: u16) \<le> length (pad16 toy_packet)"
    by (simp_all add: toy_packet_def pad16_def)
  from packet_delivered [OF o l(1,2) toy_receives [of CURR, folded p] n [folded p] toy_header(1) l(3), of toy_dh "[1, 2, 3, 4]" 5]
  show ?thesis by (auto simp: toy_header(2) quiet_world_def)
qed

text \<open>
  C16. The first packet of a session that the other end initiated can be replayed once: its
  arrival moves the session from the next to the current slot, but the replay check is
  then made on the slot it came in on, which has just been wiped, so the window of the
  session does not record the counter. The same datagram, received again while the session
  lives, is delivered to the IP stack a second time.
\<close>

theorem next_slot_replay:
  assumes "receives B 0 NEXT k v" and "length q < 2 ^ 16" and "q \<noteq> []" and "kp_sending_counter k \<noteq> 0"
    and "kp_replay_counter (pr_next_keypair (peer_at B 0)) = 0"
    and "inner_header L (peer_at B 0) (pad16 q) = (True, h)" and "unat h \<le> length (pad16 q)"
    and "w_alloc u (w_allocs u)"
    and "\<not> wireguard_expired u (kp_keypair_millis (pr_next_keypair (peer_at B 0))) (seconds REJECT_AFTER_TIME)"
  shows "\<exists>B1 v1 B2 u2. let pkt = transport_bytes (sealed_message k (Some q)) in
    wireguardif_network_rx dh L B pkt ip port v = Some (B1, v1) \<and> Ip_input (pad16 q) \<in> set (drop (length (w_events v)) (w_events v1)) \<and>
    wireguardif_network_rx dh L B1 pkt ip port u = Some (B2, u2) \<and> Ip_input (pad16 q) \<in> set (drop (length (w_events u)) (w_events u2))"
proof -
  note R = assms(1) [unfolded receives_def Let_def]
  have n: "not_replayed (peer_at B 0) NEXT (kp_sending_counter k)" using assms(4) by (simp add: not_replayed_def)
  from rx_delivers [OF assms(1-3) n assms(6,7), of dh ip port] obtain p v' where
    1: "wireguardif_network_rx dh L B (transport_bytes (sealed_message k (Some q))) ip port v = Some (set_peer B 0 p, v')"
      "w_events v' = w_events v @ [Link_up, Ip_input (pad16 q)]"
    and p: "pr_valid p = pr_valid (peer_at B 0)" "pr_allowed_source_ips p = pr_allowed_source_ips (peer_at B 0)"
      "\<forall>s. s \<noteq> NEXT \<longrightarrow> keypair_of s p = received (peer_at B 0) NEXT (w_now v) s" by blast
  have valid: "pr_valid p" using R lookup_receiver_keypair p(1) by blast
  from received_next_again [OF assms(1) this p(3) assms(8)] assms(9)
  have r2: "receives (set_peer B 0 p) 0 CURR k u" by simp
  have at: "peer_at (set_peer B 0 p) 0 = p" using R by simp
  have "keypair_of CURR p = (keypair_of NEXT (peer_at B 0))\<lparr>kp_last_rx := w_now v\<rparr>"
    using spec [OF p(3), of CURR] by (simp add: received_def)
  then have n2: "not_replayed (peer_at (set_peer B 0 p) 0) CURR (kp_sending_counter k)"
    using assms(4,5) unfolding at by (simp add: not_replayed_def wireguard_check_replay_def Let_def word_gt_0)
  have "inner_header L (peer_at (set_peer B 0 p) 0) (pad16 q) = (True, h)"
    unfolding at using assms(6) inner_header_frame [OF p(2)] by simp
  from rx_delivers [OF r2 assms(2,3) n2 this assms(7), of dh ip port] obtain p2 u2 where
    "wireguardif_network_rx dh L (set_peer B 0 p) (transport_bytes (sealed_message k (Some q))) ip port u =
       Some (set_peer (set_peer B 0 p) 0 p2, u2)" "w_events u2 = w_events u @ [Link_up, Ip_input (pad16 q)]" by blast
  with 1 show ?thesis by (intro exI [of _ "set_peer B 0 p"] exI [of _ v'] exI [of _ "set_peer (set_peer B 0 p) 0 p2"] exI [of _ u2])
      (simp add: Let_def)
qed

theorem next_slot_replay_witness:
  "\<exists>B1 v1 B2 u2. let pkt = transport_bytes (sealed_message toy_session (Some toy_packet)) in
    wireguardif_network_rx toy_dh toy_lwip (toy_end NEXT) pkt [1, 2, 3, 4] 5 quiet_world = Some (B1, v1) \<and>
    wireguardif_network_rx toy_dh toy_lwip B1 pkt [1, 2, 3, 4] 5 quiet_world = Some (B2, u2) \<and>
    Ip_input toy_packet \<in> set (w_events v1) \<and> Ip_input toy_packet \<in> set (w_events u2)"
proof -
  have l: "length toy_packet < 2 ^ 16" "toy_packet \<noteq> []" "unat (16 :: u16) \<le> length (pad16 toy_packet)"
    by (simp_all add: toy_packet_def pad16_def)
  have s: "kp_sending_counter toy_session \<noteq> 0" "kp_replay_counter (pr_next_keypair (peer_at (toy_end NEXT) 0)) = 0"
    "w_alloc quiet_world (w_allocs quiet_world)"
    "\<not> wireguard_expired quiet_world (kp_keypair_millis (pr_next_keypair (peer_at (toy_end NEXT) 0))) (seconds REJECT_AFTER_TIME)"
    by (simp_all add: toy_end_def zero_device_def WIREGUARD_MAX_PEERS_def toy_session_def zero_keypair_def quiet_world_def
        wireguard_expired_def wireguard_sys_now_def REJECT_AFTER_TIME_def)
  from next_slot_replay [OF toy_receives l(1,2) s(1,2) toy_header(1) l(3) s(3,4), of toy_dh "[1, 2, 3, 4]" 5]
  show ?thesis by (auto simp: Let_def toy_header(2) quiet_world_def)
qed

text \<open>
  C17. Only authentic packets are delivered: if handling a datagram hands a packet to the IP
  stack, then the datagram names a valid key pair of a valid peer by its index, the session
  has neither expired nor used up its counters, the bytes after the header are exactly the
  encryption of the packet under the receiving key of that key pair and the counter in the
  header, and the packet is routed and at least as long as its header says.
\<close>

theorem delivered_authentic:
  assumes "wireguardif_network_rx dh L d data addr port w = Some (d', w')"
    and "Ip_input pkt \<in> set (drop (length (w_events w)) (w_events w'))" and "length data < 2 ^ 16"
  shows "\<exists>p sl. let k = keypair_of sl (peer_at d p) in
    p < WIREGUARD_MAX_PEERS \<and> pr_valid (peer_at d p) \<and> kp_valid k \<and> kp_local_index k = U8TO32_LITTLE (drop 4 data) \<and>
    \<not> wireguard_expired w (kp_keypair_millis k) (seconds REJECT_AFTER_TIME) \<and>
    kp_sending_counter k < REJECT_AFTER_MESSAGES \<and>
    drop 16 data = chacha20poly1305_encrypt pkt [] (U8TO64_LITTLE (take 8 (drop 8 data))) (kp_receiving_key k) \<and>
    fst (inner_header L (peer_at d p) pkt) \<and> unat (snd (inner_header L (peer_at d p) pkt)) \<le> length pkt"
proof -
  have "\<not> quiet w w'" using assms(2) by (auto simp: quiet_def)
  from delivery_transport [OF assms(1) this] obtain p where p: "32 \<le> length data"
    "peer_lookup_by_receiver d (mt_receiver (transport_of data)) = Some p"
    "wireguardif_process_data_message L d p (transport_of data) (length data - 16) addr port w = (d', w')" by metis
  have f: "mt_receiver (transport_of data) = U8TO32_LITTLE (drop 4 data)" "mt_counter (transport_of data) = take 8 (drop 8 data)"
    "take (length data - 16) (mt_enc_packet (transport_of data)) = drop 16 data"
    by (simp_all add: transport_of_def slice_def)
  from data_delivery [OF p(3) assms(2), unfolded f Let_def] obtain sl where
    sl: "get_peer_keypair_for_idx (peer_at d p) (U8TO32_LITTLE (drop 4 data)) = Some sl"
    "\<not> wireguard_expired w (kp_keypair_millis (keypair_of sl (peer_at d p))) (seconds REJECT_AFTER_TIME)"
    "kp_sending_counter (keypair_of sl (peer_at d p)) < REJECT_AFTER_MESSAGES"
    "chacha20poly1305_decrypt (drop 16 data) [] (U8TO64_LITTLE (take 8 (drop 8 data))) (kp_receiving_key (keypair_of sl (peer_at d p))) = Some pkt"
    "fst (inner_header L (peer_at d p) pkt)" "unat (snd (inner_header L (peer_at d p) pkt)) \<le> length pkt" by blast
  have "drop 16 data = chacha20poly1305_encrypt pkt [] (U8TO64_LITTLE (take 8 (drop 8 data))) (kp_receiving_key (keypair_of sl (peer_at d p)))"
    using assms(3) by (intro encrypt_decrypt [OF _ _ sl(4)]) (simp_all add: aead_fits_def)
  moreover have "p < WIREGUARD_MAX_PEERS" "pr_valid (peer_at d p)"
    using lookup_receiver_keypair p(2) by blast+
  ultimately show ?thesis
    using sl idx_lookup [OF sl(1)] unfolding Let_def by blast
qed

theorem delivered_authentic_witness:
  "\<exists>p sl. let k = keypair_of sl (peer_at (toy_end CURR) p); data = transport_bytes (sealed_message toy_session (Some toy_packet)) in
    kp_valid k \<and> drop 16 data = chacha20poly1305_encrypt toy_packet [] (U8TO64_LITTLE (take 8 (drop 8 data))) (kp_receiving_key k)"
proof -
  let ?data = "transport_bytes (sealed_message toy_session (Some toy_packet))"
  have l: "length toy_packet < 2 ^ 16" "toy_packet \<noteq> []" "unat (16 :: u16) \<le> length (pad16 toy_packet)"
    by (simp_all add: toy_packet_def pad16_def)
  have n: "not_replayed (peer_at (toy_end CURR) 0) CURR (kp_sending_counter toy_session)"
    by (simp add: not_replayed_def toy_end_def zero_device_def WIREGUARD_MAX_PEERS_def toy_session_def zero_keypair_def
        wireguard_check_replay_def Let_def)
  from rx_delivers [OF toy_receives l(1,2) n toy_header(1) l(3), of toy_dh "[1, 2, 3, 4]" 5] obtain d' v' where
    rx: "wireguardif_network_rx toy_dh toy_lwip (toy_end CURR) ?data [1, 2, 3, 4] 5 quiet_world = Some (d', v')"
    and ev: "Ip_input toy_packet \<in> set (drop (length (w_events quiet_world)) (w_events v'))"
    by (auto simp: toy_header(2))
  have "length ?data < 2 ^ 16" using length_sealed [of toy_session "Some toy_packet"]
    by (simp add: inner_def toy_header(2)) (simp add: toy_packet_def)
  from delivered_authentic [OF rx ev this] show ?thesis unfolding Let_def by blast
qed

end
