(* ===== verification/Wg_Timer.thy ===== *)
theory Wg_Timer
  imports Wg_Transport
begin

text \<open>
  What the timer, the start of an interface and the registration of peers achieve: expired
  sessions are gone after a tick, a peer that wants a session gets an initiation sent, a
  failed start leaves nothing behind, and registering a peer twice changes nothing.
\<close>

subsection \<open>Expiry\<close>

text \<open>A session that is live at the time of \<open>w\<close>, or none.\<close>

definition not_stale :: "world \<Rightarrow> wireguard_keypair \<Rightarrow> bool" where
  "not_stale w k \<longleftrightarrow> \<not> (kp_valid k \<and> wireguard_expired w (kp_keypair_millis k) (seconds REJECT_AFTER_TIME))"

lemma expire_not_stale: "not_stale w (pr_curr_keypair (tmr_expire w p))"
  by (simp add: tmr_expire_def Let_def should_destroy_current_keypair_def not_stale_def keypair_destroy_def zero_keypair_def)

lemma output_not_stale:
  "not_stale w (pr_curr_keypair p) \<Longrightarrow> not_stale w (pr_curr_keypair (fst (snd (wireguardif_output_to_peer u q p))))"
  by (cases "output_slot p")
    (auto simp: wireguardif_output_to_peer_def Let_def split_beta transport_packet_keypair not_stale_def
      keypair_destroy_def zero_keypair_def)

lemma start_handshake_slots:
  assumes "wireguard_start_handshake dh d p w = Some (err, d', w')" "p < length (dv_peers d)"
  shows "pr_curr_keypair (peer_at d' p) = pr_curr_keypair (peer_at d p)" "length (dv_peers d') = length (dv_peers d)"
  using assms
  by (auto simp: wireguard_start_handshake_def wireguardif_initiate_handshake_def wireguard_create_handshake_initiation_def
      Let_def split: option.splits prod.splits if_splits)

lemma tmr_one:
  "wireguardif_tmr dh d w =
   (case tmr_peers dh [0] False d (emit Timer_set w) of
      None \<Rightarrow> None | Some (link_up, device, w) \<Rightarrow> Some (device, if \<not> link_up then emit Link_down w else w))"
  by (simp add: wireguardif_tmr_def WIREGUARD_MAX_PEERS_def)

lemma expired_emit [simp]: "wireguard_expired (emit e w) = wireguard_expired w" "w_now (emit e w) = w_now w"
  by (simp_all add: wireguard_expired_def wireguard_sys_now_def emit_def fun_eq_iff)

lemma set_peer_Nil [simp]: "dv_peers (set_peer d p q) = [] \<longleftrightarrow> dv_peers d = []"
  by (simp add: set_peer_def)

lemma tmr_not_stale:
  assumes "wireguardif_tmr dh d w = Some (d', w')" "pr_valid (peer_at d 0)" "0 < length (dv_peers d)"
  shows "not_stale w (pr_curr_keypair (peer_at d' 0))"
proof -
  let ?w = "emit Timer_set w" and ?d1 = "set_peer d 0 (tmr_expire (emit Timer_set w) (peer_at d 0))"
  obtain d2 w2 where d2: "(if should_send_keepalive ?w (peer_at ?d1 0) then wireguardif_send_keepalive ?d1 0 ?w else (?d1, ?w)) = (d2, w2)"
    by fastforce
  have "not_stale ?w (pr_curr_keypair (peer_at ?d1 0))" using assms(3) expire_not_stale by simp
  then have "not_stale ?w (pr_curr_keypair (peer_at d2 0)) \<and> 0 < length (dv_peers d2)"
    using d2 assms(3) output_not_stale [of ?w "peer_at ?d1 0" ?w None]
    by (auto simp: wireguardif_send_keepalive_def split_beta split: if_splits)
  then have s: "not_stale w (pr_curr_keypair (peer_at d2 0))" "0 < length (dv_peers d2)" by (simp_all add: not_stale_def)
  have d': "(if should_send_initiation w2 (peer_at d2 0) then map_option snd (wireguard_start_handshake dh d2 0 w2)
      else Some (d2, w2)) = Some (d', v)" if "v = snd (the (if should_send_initiation w2 (peer_at d2 0)
        then map_option snd (wireguard_start_handshake dh d2 0 w2) else Some (d2, w2)))" for v
    using assms(1,2) that by (auto simp: tmr_one Let_def d2 split: option.splits if_splits)
  show ?thesis
  proof (cases "should_send_initiation w2 (peer_at d2 0)")
    case True
    with d' obtain err v where "wireguard_start_handshake dh d2 0 w2 = Some (err, d', v)"
      by fastforce
    from start_handshake_slots(1) [OF this s(2)] s(1) show ?thesis by simp
  next
    case False
    with d' s(1) show ?thesis by simp
  qed
qed

subsection \<open>Starting a session\<close>

lemma start_handshake_sends:
  assumes c: "wireguard_create_handshake_initiation dh d p w = Some (True, m, d1, w1)" and p: "p < length (dv_peers d)"
    and ok: "w_alloc w1 (w_allocs w1)" "w_take w1 (w_takes w1) = ERR_OK" "w_send w1 (w_sends w1) = ERR_OK"
  shows "\<exists>d' w'. wireguard_start_handshake dh d p w = Some (ERR_OK, d', w') \<and>
    w_events w' = w_events w @ [Udp_sent (pr_ip (peer_at d p)) (pr_port (peer_at d p)) (initiation_bytes m)] \<and>
    pr_last_initiation_tx (peer_at d' p) = w_now w \<and> \<not> pr_send_handshake (peer_at d' p) \<and>
    pr_handshake (peer_at d' p) = pr_handshake (peer_at d1 p)"
proof -
  from create_initiation_ok [OF c p] obtain hs where d1: "d1 = set_peer d p ((peer_at d p)\<lparr>pr_handshake := hs\<rparr>)" by metis
  from create_drawn(1) [OF c] obtain n where w1: "w1 = w\<lparr>w_drawn := n\<rparr>" by (auto simp: only_drawn_def)
  show ?thesis
    using ok p by (simp add: w1 wireguard_start_handshake_def wireguardif_initiate_handshake_def c take_alloc_def pbuf_take_def
        wireguardif_peer_output_def udp_sendto_def emit_def Let_def d1 wireguard_sys_now_def)
qed

text \<open>The conditions under which the timer starts a handshake for want of a session.\<close>

definition wants_session :: "world \<Rightarrow> wireguard_peer \<Rightarrow> bool" where
  "wants_session w p \<longleftrightarrow> pr_valid p \<and> pr_active p \<and> \<not> kp_valid (pr_curr_keypair p) \<and> \<not> kp_valid (pr_prev_keypair p) \<and>
     wireguardif_can_send_initiation w p"

lemma tmr_starts:
  assumes w: "wants_session w (peer_at d 0)" and len: "0 < length (dv_peers d)"
    and sh: "wireguard_start_handshake dh d 0 (emit Timer_set w) = Some (err, d', w')"
  shows "wireguardif_tmr dh d w = Some (d', w') \<or> wireguardif_tmr dh d w = Some (d', emit Link_down w')"
proof -
  have e: "tmr_expire (emit Timer_set w) (peer_at d 0) = peer_at d 0"
    using w by (simp add: wants_session_def tmr_expire_def should_reset_peer_def should_destroy_current_keypair_def Let_def)
  have s: "set_peer d 0 (peer_at d 0) = d" by (simp add: set_peer_def)
  have "should_send_initiation (emit Timer_set w) (peer_at d 0)" "\<not> should_send_keepalive (emit Timer_set w) (peer_at d 0)"
    using w by (simp_all add: wants_session_def should_send_initiation_def should_send_keepalive_def
        wireguardif_can_send_initiation_def)
  then show ?thesis
    using w by (simp add: tmr_one e s sh wants_session_def Let_def)
qed

subsection \<open>Properties\<close>

text \<open>
  C18. A tick of the timer removes expired sessions and starts missing ones: afterwards the
  current slot of a valid peer holds no session older than \<open>REJECT_AFTER_TIME\<close>. And if a
  peer is to be connected, has no session and has not just been tried, then whenever an
  initiation can be created, buffered and sent, the tick sends exactly it, to the endpoint
  of the peer, notes the time and keeps the handshake for the response.
\<close>

theorem timer_tick:
  assumes "0 < length (dv_peers d)"
  shows "(wireguardif_tmr dh d w = Some (d', w') \<and> pr_valid (peer_at d 0) \<longrightarrow>
      \<not> (kp_valid (pr_curr_keypair (peer_at d' 0)) \<and>
         wireguard_expired w (kp_keypair_millis (pr_curr_keypair (peer_at d' 0))) (seconds REJECT_AFTER_TIME))) \<and>
    (wants_session w (peer_at d 0) \<and>
       wireguard_create_handshake_initiation dh d 0 (emit Timer_set w) = Some (True, m, d1, w1) \<and>
       w_alloc w1 (w_allocs w1) \<and> w_take w1 (w_takes w1) = ERR_OK \<and> w_send w1 (w_sends w1) = ERR_OK \<longrightarrow>
     (\<exists>d2 w2 es. wireguardif_tmr dh d w = Some (d2, w2) \<and> set es \<subseteq> {Link_down} \<and>
        w_events w2 = w_events w @ [Timer_set,
          Udp_sent (pr_ip (peer_at d 0)) (pr_port (peer_at d 0)) (initiation_bytes m)] @ es \<and>
        pr_last_initiation_tx (peer_at d2 0) = w_now w \<and> pr_handshake (peer_at d2 0) = pr_handshake (peer_at d1 0)))"
proof (intro conjI impI; (elim conjE)?)
  show "\<not> (kp_valid (pr_curr_keypair (peer_at d' 0)) \<and>
         wireguard_expired w (kp_keypair_millis (pr_curr_keypair (peer_at d' 0))) (seconds REJECT_AFTER_TIME))"
    if "wireguardif_tmr dh d w = Some (d', w')" "pr_valid (peer_at d 0)"
    using tmr_not_stale [OF that assms] by (simp add: not_stale_def)
next
  assume w: "wants_session w (peer_at d 0)"
    and c: "wireguard_create_handshake_initiation dh d 0 (emit Timer_set w) = Some (True, m, d1, w1)"
    and ok: "w_alloc w1 (w_allocs w1)" "w_take w1 (w_takes w1) = ERR_OK" "w_send w1 (w_sends w1) = ERR_OK"
  from start_handshake_sends [OF c assms ok] obtain d2 w2 where
    sh: "wireguard_start_handshake dh d 0 (emit Timer_set w) = Some (ERR_OK, d2, w2)"
    and r: "w_events w2 = w_events (emit Timer_set w) @ [Udp_sent (pr_ip (peer_at d 0)) (pr_port (peer_at d 0)) (initiation_bytes m)]"
      "pr_last_initiation_tx (peer_at d2 0) = w_now w" "pr_handshake (peer_at d2 0) = pr_handshake (peer_at d1 0)" by auto
  from tmr_starts [OF w assms sh]
  show "\<exists>d2 w2 es. wireguardif_tmr dh d w = Some (d2, w2) \<and> set es \<subseteq> {Link_down} \<and>
        w_events w2 = w_events w @ [Timer_set,
          Udp_sent (pr_ip (peer_at d 0)) (pr_port (peer_at d 0)) (initiation_bytes m)] @ es \<and>
        pr_last_initiation_tx (peer_at d2 0) = w_now w \<and> pr_handshake (peer_at d2 0) = pr_handshake (peer_at d1 0)"
  proof
    assume "wireguardif_tmr dh d w = Some (d2, w2)"
    with r show ?thesis by (intro exI [of _ d2] exI [of _ w2] exI [of _ "[]"]) (simp add: emit_def)
  next
    assume "wireguardif_tmr dh d w = Some (d2, emit Link_down w2)"
    with r show ?thesis by (intro exI [of _ d2] exI [of _ "emit Link_down w2"] exI [of _ "[Link_down]"]) (simp add: emit_def)
  qed
qed

lemma toy_create_active:
  "\<exists>m A' w'. wireguard_create_handshake_initiation toy_dh (set_peer (toy_device a b) 0 ((peer_at (toy_device a b) 0)\<lparr>pr_active := True\<rparr>))
     0 (emit Timer_set quiet_world) = Some (True, m, A', w')"
proof -
  let ?d = "set_peer (toy_device a b) 0 ((peer_at (toy_device a b) 0)\<lparr>pr_active := True\<rparr>)"
  obtain x v where x: "wireguard_generate_private_key (emit Timer_set quiet_world) = (x, v)" by fastforce
  then have v: "v = (emit Timer_set quiet_world)\<lparr>w_drawn := 32\<rparr>"
    using private_key_world [of "emit Timer_set quiet_world"] by (simp add: quiet_world_def emit_def)
  have d: "nth_draw v 0 = 0xF6EFE8E1"
    by (simp add: v nth_draw_def quiet_world_def U8TO32_LITTLE_def upt_rec emit_def)
  have "index_ok ?d (nth_draw v 0)"
    by (simp add: d index_ok_def index_existing_def WIREGUARD_MAX_PEERS_def toy_device_def set_peer_def
        toy_peer_def zero_peer_def zero_keypair_def zero_handshake_def)
  then show ?thesis
    by (intro create_initiation_succeeds [OF x, where k = 0]) (simp_all add: toy_nonzero WIREGUARD_PUBLIC_KEY_LEN_def toy_dh_def [of x basepoint])
qed

theorem timer_tick_witness:
  "\<exists>m d2 w2 es. wireguardif_tmr toy_dh (set_peer (toy_device 3 5) 0 ((peer_at (toy_device 3 5) 0)\<lparr>pr_active := True\<rparr>)) quiet_world =
     Some (d2, w2) \<and> w_events w2 = [Timer_set, Udp_sent [] 0 (initiation_bytes m)] @ es"
proof -
  let ?d = "set_peer (toy_device 3 5) 0 ((peer_at (toy_device 3 5) 0)\<lparr>pr_active := True\<rparr>)"
  obtain m d1 w1 where c: "wireguard_create_handshake_initiation toy_dh ?d 0 (emit Timer_set quiet_world) = Some (True, m, d1, w1)"
    using toy_create_active by blast
  from create_drawn(1) [OF c] have ok: "w_alloc w1 (w_allocs w1)" "w_take w1 (w_takes w1) = ERR_OK" "w_send w1 (w_sends w1) = ERR_OK"
    by (auto simp: only_drawn_def emit_def quiet_world_def)
  have p: "0 < length (dv_peers ?d)" "wants_session quiet_world (peer_at ?d 0)" "pr_ip (peer_at ?d 0) = []" "pr_port (peer_at ?d 0) = 0"
    by (simp_all add: toy_device_def toy_peer_def zero_peer_def zero_keypair_def wants_session_def set_peer_def
        wireguardif_can_send_initiation_def)
  from timer_tick [OF p(1), of toy_dh quiet_world ?d quiet_world m d1 w1] c ok p(2-4)
  show ?thesis by (fastforce simp: quiet_world_def)
qed

text \<open>
  Starting an interface either succeeds or leaves nothing behind: the result is \<open>ERR_OK\<close>
  exactly if there is a device; then the port is bound and the timer set. Otherwise there
  is no device, no timer is set, and a control block that was bound has been removed.
\<close>

theorem init_all_or_nothing:
  "(case wireguardif_init dh L state w of (result, device, w') \<Rightarrow>
     (result = ERR_OK) = (device \<noteq> None) \<and>
     (device \<noteq> None \<and> state \<noteq> None \<and>
        w_events w' = w_events w @ [Udp_bound (wi_listen_port (the state)), Timer_set] \<or>
      device = None \<and> (\<exists>es. w_events w' = w_events w @ es \<and>
        (es = [] \<or> last es = Udp_removed \<and> set es \<subseteq> {Udp_removed, Udp_bound (wi_listen_port (the state))}))))"
proof -
  have ev: "w_events (snd (snd (wireguard_device_init dh d k u))) = w_events u" for d k u
    by (simp add: wireguard_device_init_def Let_def split_beta generate_cookie_secret_def wireguard_random_bytes_def)
  have ev2: "wireguard_device_init dh d k u = (b, d', u') \<Longrightarrow> w_events u' = w_events u" for d k u b d' u'
    using ev [of d k u] by simp
  show ?thesis
    by (auto simp: wireguardif_init_def Let_def take_alloc_def emit_def split: option.split prod.split dest!: ev2)
qed

lemma peer_index_of: "x < WIREGUARD_MAX_PEERS \<Longrightarrow> wireguard_peer_index d x = of_nat x"
  by (simp add: wireguard_peer_index_def WIREGUARD_MAX_PEERS_def)

lemma add_peer_known:
  assumes "wireguard_base64_decode (wp_public_key p) 32 = (True, pk)" "length pk = 32" "peer_lookup_by_pubkey d pk = Some x"
  shows "wireguardif_add_peer dh L d p = (ERR_OK, of_nat x, d)"
proof -
  have "x < WIREGUARD_MAX_PEERS" using assms(3) by (auto simp: peer_lookup_by_pubkey_def dest!: find_upt_Some)
  then show ?thesis using assms by (simp add: wireguardif_add_peer_def WIREGUARD_PUBLIC_KEY_LEN_def peer_index_of)
qed

lemma add_peer_new:
  assumes b: "wireguard_base64_decode (wp_public_key p) 32 = (True, pk)" "length pk = 32" "peer_lookup_by_pubkey d pk = None"
    and len: "length (dv_peers d) = WIREGUARD_MAX_PEERS" and r: "wireguardif_add_peer dh L d p = (ERR_OK, i, d')"
  shows "\<exists>x. i = of_nat x \<and> peer_lookup_by_pubkey d' pk = Some x"
proof -
  obtain x where x: "peer_alloc d = Some x"
    using r b by (cases "peer_alloc d") (auto simp: wireguardif_add_peer_def WIREGUARD_PUBLIC_KEY_LEN_def)
  then have x0: "x = 0" by (simp add: peer_alloc_def WIREGUARD_MAX_PEERS_def split: if_splits)
  obtain ok q where q: "wireguard_peer_init dh (lw_zero L) d pk (wp_preshared_key p) = (ok, q)" by fastforce
  have ok: ok using r b x q by (auto simp: wireguardif_add_peer_def WIREGUARD_PUBLIC_KEY_LEN_def split: if_splits)
  note q' = peer_init_True [OF q [unfolded ok [THEN eqTrueI]]]
  have "\<exists>p2. d' = set_peer d x p2 \<and> pr_valid p2 \<and> pr_public_key p2 = pk" and i: "i = of_nat x"
    using r b x q ok q' x0
    by (auto simp: wireguardif_add_peer_def WIREGUARD_PUBLIC_KEY_LEN_def Let_def split_beta peer_index_of
        WIREGUARD_MAX_PEERS_def peer_add_ip_def split: option.splits if_splits)
  then show ?thesis using len x0
    by (auto simp: peer_lookup_by_pubkey_def WIREGUARD_MAX_PEERS_def)
qed

text \<open>
  Registering a peer: a key that does not decode to 32 bytes is refused and nothing
  changes; after a success the peer is found by its key at the index that was returned, and
  registering the same key again gives the same index and changes nothing.
\<close>

theorem add_peer_outcome:
  assumes "length (dv_peers device) = WIREGUARD_MAX_PEERS" and "wireguardif_add_peer dh L device p = (result, i, device')"
    and "wireguard_base64_decode (wp_public_key p) 32 = (ok, pk)"
  shows "(\<not> (ok \<and> length pk = 32) \<longrightarrow> result = ERR_ARG \<and> i = WIREGUARDIF_INVALID_INDEX \<and> device' = device) \<and>
    (result = ERR_OK \<longrightarrow> (\<exists>x. peer_lookup_by_pubkey device' pk = Some x \<and> i = of_nat x) \<and>
       wireguardif_add_peer dh L device' p = (ERR_OK, i, device'))"
proof (intro conjI impI)
  assume "\<not> (ok \<and> length pk = 32)"
  then have "(result, i, device') = (ERR_ARG, WIREGUARDIF_INVALID_INDEX, device)"
    unfolding assms(2) [symmetric] wireguardif_add_peer_def WIREGUARD_PUBLIC_KEY_LEN_def assms(3) by auto
  then show "result = ERR_ARG" "i = WIREGUARDIF_INVALID_INDEX" "device' = device" by simp_all
next
  assume r: "result = ERR_OK"
  then have ok: "wireguard_base64_decode (wp_public_key p) 32 = (True, pk)" "length pk = 32"
    using assms(2,3) by (auto simp: wireguardif_add_peer_def WIREGUARD_PUBLIC_KEY_LEN_def split: if_splits)
  have "\<exists>x. i = of_nat x \<and> peer_lookup_by_pubkey device' pk = Some x"
  proof (cases "peer_lookup_by_pubkey device pk")
    case None
    from add_peer_new [OF ok None assms(1)] assms(2) r show ?thesis by simp
  next
    case (Some x)
    from add_peer_known [OF ok Some, of dh L] assms(2) Some show ?thesis by simp
  qed
  then obtain x where x: "i = of_nat x" "peer_lookup_by_pubkey device' pk = Some x" by blast
  from add_peer_known [OF ok x(2)] x show "\<exists>x. peer_lookup_by_pubkey device' pk = Some x \<and> i = of_nat x"
    "wireguardif_add_peer dh L device' p = (ERR_OK, i, device')" by auto
qed

theorem add_peer_outcome_witness:
  "fst (wireguardif_add_peer toy_dh toy_lwip (zero_device []) (wireguardif_peer_init toy_lwip)) = ERR_ARG"
proof -
  let ?p = "wireguardif_peer_init toy_lwip" and ?d = "zero_device []"
  obtain r i d' where a: "wireguardif_add_peer toy_dh toy_lwip ?d ?p = (r, i, d')" by (metis prod_cases3)
  have "wireguard_base64_decode (wp_public_key ?p) 32 = (False, [])"
    by (simp add: wireguardif_peer_init_def wireguard_base64_decode_def)
  moreover have "length (dv_peers ?d) = WIREGUARD_MAX_PEERS" by (simp add: zero_device_def)
  ultimately show ?thesis using add_peer_outcome [of ?d toy_dh toy_lwip ?p r i d' False "[]"] a by simp
qed

end
