(* ===== verification/Wg_Api.thy ===== *)
theory Wg_Api
  imports Wg_Timer
begin

text \<open>
  \<open>WireGuard.cpp\<close>: the class that puts an interface, its peer and the default route of the IP
  stack together, and takes them down again. The object, the static variables of the file and
  the one variable of lwIP they share, \<open>netif_default\<close>, are the record \<open>wgapi\<close>.
\<close>

subsection \<open>State\<close>

text \<open>The interfaces of the IP stack: the one of this file, and the others by number.\<close>

datatype netif_ref = Wg_netif | Other_netif nat

text \<open>\<open>ap_netif\<close> is \<open>wg_netif\<close> with its device; \<open>None\<close> is the null pointer.\<close>

record wgapi =
  ap_initialized :: bool
  ap_netif :: "wireguard_device option"
  ap_previous_default :: "netif_ref option"
  ap_peer_index :: u8
  ap_netif_default :: "netif_ref option"
  ap_addresses :: "ip_addr_t \<times> ip_addr_t \<times> ip_addr_t"

subsection \<open>The code\<close>

text \<open>
  The loop that resolves the endpoint, with the answers of \<open>lwip_getaddrinfo\<close> to the name at
  the attempts made so far: \<open>None\<close> is a failure.
\<close>

type_synonym resolver = "string \<Rightarrow> nat \<Rightarrow> bytes option"

fun endpoint_retry :: "resolver \<Rightarrow> string \<Rightarrow> nat \<Rightarrow> nat \<Rightarrow> bytes option" where
  "endpoint_retry resolve name retry 0 = None"
| "endpoint_retry resolve name retry (Suc n) =
     (case resolve name retry of
        None \<Rightarrow> endpoint_retry resolve name (Suc retry) n
      | Some ip \<Rightarrow> Some ip)"

text \<open>
  \<open>netif_add\<close> of lwIP calls the initialiser it is given and returns NULL unless that returned
  \<open>ERR_OK\<close>; \<open>netif_remove\<close> resets the default interface if it is the removed one.
\<close>

definition netif_add :: "err_t \<times> wireguard_device option \<times> world \<Rightarrow> wireguard_device option \<times> world" where
  "netif_add = (\<lambda>(err, state, w). (if err = ERR_OK then state else None, w))"

definition netif_remove :: "netif_ref option \<Rightarrow> netif_ref option" where
  "netif_remove netif_default =
     (if netif_default = Some Wg_netif then None else netif_default)"

text \<open>
  The peer, its default route and the connection, for the fresh interface. What
  \<open>wireguardif_add_peer\<close> and \<open>wireguardif_connect\<close> return is not looked at.
\<close>

definition begin_peer ::
  "x25519_fn \<Rightarrow> lwip \<Rightarrow> wireguardif_peer \<Rightarrow> wireguard_device \<Rightarrow> wgapi \<Rightarrow> wgapi" where
  "begin_peer dh L peer device a =
     (case wireguardif_add_peer dh L device peer of (result, peer_index, device) \<Rightarrow>
      let a = a\<lparr>ap_netif := Some device, ap_peer_index := peer_index\<rparr>
      in if peer_index \<noteq> WIREGUARDIF_INVALID_INDEX \<and> \<not> lw_isany L (wp_endpoint_ip peer) then
           a\<lparr>ap_netif := Some (snd (wireguardif_connect L device peer_index)),
             ap_previous_default := ap_netif_default a, ap_netif_default := Some Wg_netif\<rparr>
         else a)"

text \<open>\<open>None\<close>: an assertion fails and the program aborts. The strings are never null.\<close>

definition WireGuard_begin ::
  "x25519_fn \<Rightarrow> lwip \<Rightarrow> resolver \<Rightarrow> bytes \<Rightarrow> bytes \<Rightarrow> bytes \<Rightarrow> string \<Rightarrow> string \<Rightarrow> string \<Rightarrow> u16 \<Rightarrow> u16 \<Rightarrow>
   wgapi \<Rightarrow> world \<Rightarrow> (bool \<times> wgapi \<times> world) option" where
  "WireGuard_begin dh L resolve localIP Subnet Gateway privateKey remotePeerAddress remotePeerPublicKey
     remotePeerPort persistentKeepalive a w =
     (if remotePeerPort = 0 then None
      else Some
        (let wg = \<lparr>wi_private_key = Some privateKey, wi_listen_port = remotePeerPort\<rparr>;
             peer = wireguardif_peer_init L
         in case endpoint_retry resolve remotePeerAddress 0 5 of
              None \<Rightarrow> (False, a, w)
            | Some endpoint_ip \<Rightarrow>
              let peer = peer\<lparr>wp_endpoint_ip := lw_from_ip4 L endpoint_ip\<rparr>
              in case netif_add (wireguardif_init dh L (Some wg) w) of
                   (None, w) \<Rightarrow> (False, a\<lparr>ap_netif := None\<rparr>, w)
                 | (Some device, w) \<Rightarrow>
                   let a = a\<lparr>ap_addresses := (lw_from_ip4 L localIP, lw_from_ip4 L Subnet, lw_from_ip4 L Gateway)\<rparr>;
                       peer = peer\<lparr>wp_public_key := Some remotePeerPublicKey, wp_preshared_key := None,
                         wp_allowed_ip := lw_from_ip4 L (zeros 4), wp_allowed_mask := lw_from_ip4 L (zeros 4),
                         wp_endport_port := remotePeerPort, wp_keep_alive := persistentKeepalive\<rparr>;
                       a = begin_peer dh L peer device a
                   in (True, a\<lparr>ap_initialized := True\<rparr>, w)))"

definition WireGuard_begin_default ::
  "x25519_fn \<Rightarrow> lwip \<Rightarrow> resolver \<Rightarrow> bytes \<Rightarrow> string \<Rightarrow> string \<Rightarrow> string \<Rightarrow> u16 \<Rightarrow> u16 \<Rightarrow>
   wgapi \<Rightarrow> world \<Rightarrow> (bool \<times> wgapi \<times> world) option" where
  "WireGuard_begin_default dh L resolve localIP = WireGuard_begin dh L resolve localIP [255, 255, 255, 255] (zeros 4)"

text \<open>The interface is never null while the object is initialised.\<close>

definition WireGuard_end :: "lwip \<Rightarrow> wgapi \<Rightarrow> world \<Rightarrow> wgapi \<times> world" where
  "WireGuard_end L a w =
     (if \<not> ap_initialized a then (a, w)
      else
        let a = a\<lparr>ap_netif_default := ap_previous_default a\<rparr>;
            a = a\<lparr>ap_previous_default := None\<rparr>;
            device = the (ap_netif a);
            device = snd (wireguardif_disconnect device (ap_peer_index a));
            device = snd (wireguardif_remove_peer L device (ap_peer_index a));
            a = a\<lparr>ap_peer_index := WIREGUARDIF_INVALID_INDEX\<rparr>;
            (state, w) = wireguardif_shutdown device w;
            a = a\<lparr>ap_netif_default := netif_remove (ap_netif_default a)\<rparr>;
            a = a\<lparr>ap_netif := None\<rparr>
        in (a\<lparr>ap_initialized := False\<rparr>, w))"

definition WireGuard_isPeerUp :: "wgapi \<Rightarrow> bool" where
  "WireGuard_isPeerUp a =
     (if \<not> ap_initialized a \<or> ap_netif a = None \<or> ap_peer_index a = WIREGUARDIF_INVALID_INDEX then False
      else fst (wireguardif_peer_is_up (the (ap_netif a)) (ap_peer_index a)) = ERR_OK)"

text \<open>
  The three readings share their guards and the lookup: the peer that is read, if there is one.
\<close>

definition read_peer :: "wgapi \<Rightarrow> wireguard_peer option" where
  "read_peer a =
     (if \<not> ap_initialized a \<or> ap_netif a = None \<or> ap_peer_index a = WIREGUARDIF_INVALID_INDEX then None
      else
        let device = the (ap_netif a)
        in if \<not> dv_valid device then None
           else map_option (peer_at device) (peer_lookup_by_peer_index device (ap_peer_index a)))"

definition WireGuard_lastHandshakeMs :: "wgapi \<Rightarrow> u32" where
  "WireGuard_lastHandshakeMs a =
     (case read_peer a of
        None \<Rightarrow> 0
      | Some p \<Rightarrow>
        if kp_valid (pr_curr_keypair p) then kp_keypair_millis (pr_curr_keypair p)
        else if kp_valid (pr_prev_keypair p) then kp_keypair_millis (pr_prev_keypair p)
        else 0)"

definition WireGuard_rxBytes :: "wgapi \<Rightarrow> u64" where
  "WireGuard_rxBytes a = (case read_peer a of None \<Rightarrow> 0 | Some p \<Rightarrow> pr_rx_bytes p)"

definition WireGuard_txBytes :: "wgapi \<Rightarrow> u64" where
  "WireGuard_txBytes a = (case read_peer a of None \<Rightarrow> 0 | Some p \<Rightarrow> pr_tx_bytes p)"


subsection \<open>Properties\<close>

lemma begin_peer_facts:
  assumes "ap_netif_default a \<noteq> Some Wg_netif" and "begin_peer dh L peer device a = b"
  shows "ap_netif b \<noteq> None" and "ap_initialized b = ap_initialized a"
    and "ap_netif_default b = Some Wg_netif \<longleftrightarrow>
      ap_peer_index b \<noteq> WIREGUARDIF_INVALID_INDEX \<and> \<not> lw_isany L (wp_endpoint_ip peer)"
    and "ap_netif_default b = Some Wg_netif \<Longrightarrow> ap_previous_default b = ap_netif_default a"
    and "ap_netif_default b \<noteq> Some Wg_netif \<Longrightarrow>
      ap_netif_default b = ap_netif_default a \<and> ap_previous_default b = ap_previous_default a"
  using assms by (auto simp: begin_peer_def Let_def split: prod.splits if_splits)

lemma begin_True:
  assumes "WireGuard_begin dh L resolve ip net gw priv host pub port ka a w = Some (True, a1, w1)"
  obtains e peer device b where "endpoint_retry resolve host 0 5 = Some e"
    and "wp_endpoint_ip peer = lw_from_ip4 L e"
    and "b = begin_peer dh L peer device (a\<lparr>ap_addresses := (lw_from_ip4 L ip, lw_from_ip4 L net, lw_from_ip4 L gw)\<rparr>)"
    and "a1 = b\<lparr>ap_initialized := True\<rparr>"
proof -
  have port: "port \<noteq> 0" using assms by (auto simp: WireGuard_begin_def)
  obtain e where e: "endpoint_retry resolve host 0 5 = Some e"
    using assms port by (cases "endpoint_retry resolve host 0 5") (auto simp: WireGuard_begin_def Let_def)
  let ?add = "netif_add (wireguardif_init dh L (Some \<lparr>wi_private_key = Some priv, wi_listen_port = port\<rparr>) w)"
  obtain device v where d: "?add = (Some device, v)"
    using assms port e by (cases ?add; cases "fst ?add") (auto simp: WireGuard_begin_def Let_def)
  show thesis
    using assms port e d by (intro that [OF e _ refl]) (auto simp: WireGuard_begin_def Let_def)
qed

lemma end_facts:
  assumes "ap_initialized a" and "WireGuard_end L a w = (b, v)"
  shows "\<not> ap_initialized b" and "ap_netif b = None" and "ap_peer_index b = WIREGUARDIF_INVALID_INDEX"
    and "ap_previous_default b = None" and "ap_netif_default b = netif_remove (ap_previous_default a)"
    and "w_events v = w_events w @ [Timer_cleared, Udp_removed]"
  using assms by (auto simp: WireGuard_end_def wireguardif_shutdown_def Let_def emit_def)

text \<open>
  Taking the tunnel down undoes what putting it up did. After a successful \<open>begin\<close> the
  default interface is the tunnel exactly if the peer was registered and its endpoint is an
  address; whatever the interface did in between, \<open>end\<close> then leaves no interface, peer index or
  timer behind and makes the default interface what it was before \<open>begin\<close>. If the peer was
  refused, \<open>begin\<close> reports success all the same, and \<open>end\<close> leaves the IP stack without a
  default interface, since none was saved.
\<close>

theorem tunnel_begin_end:
  assumes "WireGuard_begin dh L resolve ip net gw priv host pub port ka a w = Some (True, a1, w1)"
    and "ap_netif_default a \<noteq> Some Wg_netif" and "ap_previous_default a = None"
    and "WireGuard_end L (a1\<lparr>ap_netif := Some d\<rparr>) v = (a2, v2)"
  shows "ap_initialized a1 \<and>
    (\<exists>e. endpoint_retry resolve host 0 5 = Some e \<and>
      (ap_netif_default a1 = Some Wg_netif \<longleftrightarrow>
        ap_peer_index a1 \<noteq> WIREGUARDIF_INVALID_INDEX \<and> \<not> lw_isany L (lw_from_ip4 L e))) \<and>
    \<not> ap_initialized a2 \<and> ap_netif a2 = None \<and> ap_peer_index a2 = WIREGUARDIF_INVALID_INDEX \<and>
    ap_previous_default a2 = None \<and> w_events v2 = w_events v @ [Timer_cleared, Udp_removed] \<and>
    ap_netif_default a2 = (if ap_netif_default a1 = Some Wg_netif then ap_netif_default a else None)"
proof -
  obtain e peer device b where e: "endpoint_retry resolve host 0 5 = Some e" "wp_endpoint_ip peer = lw_from_ip4 L e"
    and b: "b = begin_peer dh L peer device (a\<lparr>ap_addresses := (lw_from_ip4 L ip, lw_from_ip4 L net, lw_from_ip4 L gw)\<rparr>)"
    and a1: "a1 = b\<lparr>ap_initialized := True\<rparr>" by (rule begin_True [OF assms(1)])
  note f = begin_peer_facts [OF _ b [symmetric], simplified, OF assms(2)]
  have i: "ap_initialized (a1\<lparr>ap_netif := Some d\<rparr>)" by (simp add: a1)
  note g = end_facts [OF i assms(4)]
  have "ap_netif_default a2 = (if ap_netif_default a1 = Some Wg_netif then ap_netif_default a else None)"
    using g(5) f(4,5) assms(2,3) by (auto simp: a1 netif_remove_def)
  with g e f(3) show ?thesis by (auto simp: a1)
qed

text \<open>The tunnel of a peer whose key is refused: the interface comes up without a peer.\<close>

theorem tunnel_begin_end_witness:
  "\<exists>priv a1 w1. WireGuard_begin toy_dh1 toy_lwip (\<lambda>host n. Some [192, 0, 2, 1]) [10, 0, 0, 2] [255, 255, 255, 0] (zeros 4)
      priv ''vpn'' ''key'' 51820 25
      \<lparr>ap_initialized = False, ap_netif = None, ap_previous_default = None, ap_peer_index = 255,
       ap_netif_default = Some (Other_netif 1), ap_addresses = ([], [], [])\<rparr> quiet_world = Some (True, a1, w1) \<and>
    ap_netif_default (fst (WireGuard_end toy_lwip a1 w1)) = None"
proof -
  let ?a = "\<lparr>ap_initialized = False, ap_netif = None, ap_previous_default = None, ap_peer_index = 255,
       ap_netif_default = Some (Other_netif 1), ap_addresses = ([], [], [])\<rparr>"
  obtain priv d0 w0 where i: "wireguardif_init toy_dh1 toy_lwip (Some \<lparr>wi_private_key = Some priv, wi_listen_port = 51820\<rparr>) quiet_world =
     (ERR_OK, Some d0, w0)" using toy_init by blast
  let ?run = "WireGuard_begin toy_dh1 toy_lwip (\<lambda>host n. Some [192, 0, 2, 1]) [10, 0, 0, 2] [255, 255, 255, 0] (zeros 4)
      priv ''vpn'' ''key'' 51820 25 ?a quiet_world"
  have "wireguard_base64_decode (Some ''key'') 32 = (False, [])"
    by code_simp
  then have p: "wireguardif_add_peer toy_dh1 toy_lwip d p = (ERR_ARG, WIREGUARDIF_INVALID_INDEX, d)"
    if "wp_public_key p = Some ''key''" for d p
    using that by (simp add: wireguardif_add_peer_def WIREGUARD_PUBLIC_KEY_LEN_def)
  have "endpoint_retry (\<lambda>host n. Some [192, 0, 2, 1]) ''vpn'' 0 5 = Some [192, 0, 2, 1 :: u8]"
    by (simp add: eval_nat_numeral)
  then obtain a1 w1 where b: "?run = Some (True, a1, w1)"
    and n: "ap_netif a1 = Some d0" "ap_peer_index a1 = WIREGUARDIF_INVALID_INDEX"
    by (simp add: WireGuard_begin_def Let_def netif_add_def i begin_peer_def p)
  obtain a2 v2 where e: "WireGuard_end toy_lwip a1 w1 = (a2, v2)" by fastforce
  have "a1\<lparr>ap_netif := Some d0\<rparr> = a1" using n by simp
  then have e': "WireGuard_end toy_lwip (a1\<lparr>ap_netif := Some d0\<rparr>) w1 = (a2, v2)" by (simp only: e)
  have h: "ap_netif_default ?a \<noteq> Some Wg_netif" "ap_previous_default ?a = None" by simp_all
  from tunnel_begin_end [OF b h e'] n(2) have "ap_netif_default a2 = None" by auto
  then have "ap_netif_default (fst (WireGuard_end toy_lwip a1 w1)) = None" by (simp only: e fst_conv)
  with b show ?thesis by blast
qed

end
