(* ===== verification/Fw_Base.thy ===== *)
theory Fw_Base
  imports Complex_Main Prelude
begin

text \<open>
  What the firmware proper uses of the Arduino core: strings and numbers in them, and the
  settings store \<open>Preferences\<close>, which is a parameter with the laws its documentation gives.
  A \<open>String\<close> is a list of characters.
\<close>

unbundle bit_operations_syntax

subsection \<open>Strings\<close>

text \<open>\<open>indexOf\<close> and \<open>lastIndexOf\<close> of a character; \<open>None\<close> stands for -1.\<close>

definition index_of :: "char \<Rightarrow> string \<Rightarrow> nat option" where
  "index_of c s = find (\<lambda>i. s ! i = c) [0..<length s]"

definition last_index_of :: "char \<Rightarrow> string \<Rightarrow> nat option" where
  "last_index_of c s = find (\<lambda>i. s ! i = c) (rev [0..<length s])"

definition is_digit :: "char \<Rightarrow> bool" where
  "is_digit c \<longleftrightarrow> 48 \<le> (of_char c :: nat) \<and> (of_char c :: nat) \<le> 57"

definition is_space :: "char \<Rightarrow> bool" where
  "is_space c \<longleftrightarrow> (of_char c :: nat) \<in> {32, 9, 10, 11, 12, 13}"

fun digits_val :: "int \<Rightarrow> string \<Rightarrow> int" where
  "digits_val n [] = n"
| "digits_val n (c # cs) = (if is_digit c then digits_val (10 * n + (of_char c - 48)) cs else n)"

text \<open>
  \<open>atol\<close>, which \<open>toInt\<close> calls: white space, a sign, digits up to the first other character. A
  number outside 32 bits is returned in full here, and clipped to the range of \<open>long\<close> there.
\<close>

definition atol :: "string \<Rightarrow> int" where
  "atol s =
     (case dropWhile is_space s of
        [] \<Rightarrow> 0
      | c # cs \<Rightarrow> if c = CHR ''-'' then - digits_val 0 cs
                 else if c = CHR ''+'' then digits_val 0 cs
                 else digits_val 0 (c # cs))"

definition digit :: "nat \<Rightarrow> char" where
  "digit n = char_of (48 + n)"

text \<open>\<open>String(n)\<close>.\<close>

fun dec :: "nat \<Rightarrow> string" where
  "dec n = (if n < 10 then [digit n] else dec (n div 10) @ [digit (n mod 10)])"

declare dec.simps [simp del]

lemma index_of_append:
  assumes "c \<notin> set a"
  shows "index_of c (a @ c # b) = Some (length a)"
  using assms unfolding index_of_def find_Some_iff
  by (intro exI [of _ "length a"]) (auto simp: nth_append)

lemma index_of_None: "index_of c s = None \<longleftrightarrow> c \<notin> set s"
  by (auto simp: index_of_def find_None_iff in_set_conv_nth)

lemma of_char_digit: "n < 10 \<Longrightarrow> of_char (digit n) = 48 + n"
  by (simp add: digit_def of_char_of)

lemma of_char_digit_int: "n < 10 \<Longrightarrow> of_char (digit n) = (48 + int n)"
  using of_char_digit [of n] of_nat_of_char [of "digit n", where ?'a = int] by simp

lemma is_digit_digit: "n < 10 \<Longrightarrow> is_digit (digit n)"
  by (simp add: is_digit_def of_char_digit)

lemma digits_val_append: "list_all is_digit s \<Longrightarrow> digits_val n (s @ t) = digits_val (digits_val n s) t"
  by (induction n s rule: digits_val.induct) simp_all

lemma dec_digits: "list_all is_digit (dec n)"
proof (induction n rule: dec.induct)
  case (1 n)
  then show ?case by (subst dec.simps) (simp add: is_digit_digit)
qed

lemma dec_val: "digits_val 0 (dec n) = int n"
proof (induction n rule: dec.induct)
  case (1 n)
  show ?case
  proof (cases "n < 10")
    case True
    then show ?thesis by (subst dec.simps) (simp add: is_digit_digit of_char_digit_int)
  next
    case False
    then have "digits_val 0 (dec n) = digits_val (int (n div 10)) [digit (n mod 10)]"
      using 1 by (subst dec.simps) (simp add: digits_val_append dec_digits)
    also have "\<dots> = 10 * int (n div 10) + int (n mod 10)" by (simp add: is_digit_digit of_char_digit_int)
    also have "\<dots> = int n" using mult_div_mod_eq [of 10 "int n"] by (simp only: zdiv_int zmod_int of_nat_numeral)
    finally show ?thesis .
  qed
qed

lemma dec_not_empty [simp]: "dec n \<noteq> []"
  by (subst dec.simps) simp

text \<open>Reading a printed number gives it back.\<close>

lemma atol_dec: "atol (dec n) = int n"
proof -
  obtain c cs where c: "dec n = c # cs" by (cases "dec n") auto
  then have d: "is_digit c" using dec_digits [of n] by simp
  then have "\<not> is_space c" "c \<noteq> CHR ''-''" "c \<noteq> CHR ''+''"
    by (auto simp: is_digit_def is_space_def)
  with c show ?thesis using dec_val [of n] by (simp add: atol_def)
qed

subsection \<open>The settings store\<close>

text \<open>
  \<open>Preferences\<close> keeps typed values by key in a namespace. A getter has a default, which it
  returns when there is no value of its type under the key. A float is the rational it stands
  for.
\<close>

datatype pref_value =
    PBool bool
  | PString string
  | PUChar u8
  | PUShort u16
  | PUInt u32
  | PFloat rat

record 'n prefs =
  pf_get :: "string \<Rightarrow> pref_value \<Rightarrow> 'n \<Rightarrow> pref_value"
  pf_put :: "string \<Rightarrow> pref_value \<Rightarrow> 'n \<Rightarrow> 'n"
  pf_clear :: "'n \<Rightarrow> 'n"

fun same_type :: "pref_value \<Rightarrow> pref_value \<Rightarrow> bool" where
  "same_type (PBool _) (PBool _) = True"
| "same_type (PString _) (PString _) = True"
| "same_type (PUChar _) (PUChar _) = True"
| "same_type (PUShort _) (PUShort _) = True"
| "same_type (PUInt _) (PUInt _) = True"
| "same_type (PFloat _) (PFloat _) = True"
| "same_type _ _ = False"

definition prefs_laws :: "'n prefs \<Rightarrow> bool" where
  "prefs_laws P \<longleftrightarrow>
     (\<forall>k d v n. same_type d v \<longrightarrow> pf_get P k d (pf_put P k v n) = v) \<and>
     (\<forall>k k' d v n. k \<noteq> k' \<longrightarrow> pf_get P k d (pf_put P k' v n) = pf_get P k d n) \<and>
     (\<forall>k d n. pf_get P k d (pf_clear P n) = d)"

definition getBool :: "'n prefs \<Rightarrow> string \<Rightarrow> bool \<Rightarrow> 'n \<Rightarrow> bool" where
  "getBool P k d n = (case pf_get P k (PBool d) n of PBool b \<Rightarrow> b | _ \<Rightarrow> d)"

definition getString :: "'n prefs \<Rightarrow> string \<Rightarrow> string \<Rightarrow> 'n \<Rightarrow> string" where
  "getString P k d n = (case pf_get P k (PString d) n of PString b \<Rightarrow> b | _ \<Rightarrow> d)"

definition getUChar :: "'n prefs \<Rightarrow> string \<Rightarrow> u8 \<Rightarrow> 'n \<Rightarrow> u8" where
  "getUChar P k d n = (case pf_get P k (PUChar d) n of PUChar b \<Rightarrow> b | _ \<Rightarrow> d)"

definition getUShort :: "'n prefs \<Rightarrow> string \<Rightarrow> u16 \<Rightarrow> 'n \<Rightarrow> u16" where
  "getUShort P k d n = (case pf_get P k (PUShort d) n of PUShort b \<Rightarrow> b | _ \<Rightarrow> d)"

definition getUInt :: "'n prefs \<Rightarrow> string \<Rightarrow> u32 \<Rightarrow> 'n \<Rightarrow> u32" where
  "getUInt P k d n = (case pf_get P k (PUInt d) n of PUInt b \<Rightarrow> b | _ \<Rightarrow> d)"

definition getFloat :: "'n prefs \<Rightarrow> string \<Rightarrow> rat \<Rightarrow> 'n \<Rightarrow> rat" where
  "getFloat P k d n = (case pf_get P k (PFloat d) n of PFloat b \<Rightarrow> b | _ \<Rightarrow> d)"

lemmas getter_defs = getBool_def getString_def getUChar_def getUShort_def getUInt_def getFloat_def

lemma prefs_lawsD:
  assumes "prefs_laws P"
  shows "same_type d v \<Longrightarrow> pf_get P k d (pf_put P k v n) = v"
    and "k \<noteq> k' \<Longrightarrow> pf_get P k d (pf_put P k' v n) = pf_get P k d n"
    and "pf_get P k d (pf_clear P n) = d"
  using assms unfolding prefs_laws_def by blast+

text \<open>A store that meets the laws.\<close>

definition map_prefs :: "(string \<rightharpoonup> pref_value) prefs" where
  "map_prefs =
     \<lparr>pf_get = (\<lambda>k d n. case n k of Some v \<Rightarrow> if same_type d v then v else d | None \<Rightarrow> d),
      pf_put = (\<lambda>k v n. n(k \<mapsto> v)), pf_clear = (\<lambda>n. Map.empty)\<rparr>"

lemma map_prefs_laws: "prefs_laws map_prefs"
  by (simp add: prefs_laws_def map_prefs_def)

end
