(* ===== verification/Wg_Manager.thy ===== *)
theory Wg_Manager
  imports Wg_Api Fw_Base
begin

text \<open>
  \<open>WireGuardManager.cpp\<close>: the configuration of the tunnel, the state machine the main loop
  ticks, and the task that resolves the endpoint beside it. The static variables of the file
  are the record \<open>manager\<close>, with the local state of the running task. What is printed is not
  modelled, and the clock stands still during one call.
\<close>

unbundle bit_operations_syntax

subsection \<open>State\<close>

datatype WgState = WG_DISABLED | WG_WAIT_TIME | WG_WAIT_WIFI | WG_CONNECTING | WG_UP

text \<open>
  Where the task is: \<open>Dns_check\<close> and \<open>Dns_recheck\<close> are the tests before and after the call of
  the resolver, \<open>Dns_publish\<close> the test before the result is published.
\<close>

datatype dns_pc =
    Dns_sleep nat
  | Dns_check
  | Dns_resolve
  | Dns_recheck
  | Dns_publish
  | Dns_set_done
  | Dns_set_failed
  | Dns_cleanup

record dns_task =
  dt_gen :: u8
  dt_retry :: nat
  dt_success :: bool
  dt_pc :: dns_pc

text \<open>\<open>s_dnsTaskHandle\<close> tells whether the handle is not null; \<open>wgPrefs\<close> is the namespace.\<close>

record 'n manager =
  s_enabled :: bool
  s_privateKey :: string
  s_serverPublicKey :: string
  s_endpointHost :: string
  s_endpointPort :: u16
  s_tunnelAddress :: string
  s_keepalive :: u16
  s_wg :: wgapi
  s_state :: WgState
  s_tunnelIP :: bytes
  s_tunnelMask :: bytes
  s_lastAttemptMs :: u32
  s_backoffMs :: u32
  s_wasUp :: bool
  s_dnsTaskHandle :: bool
  s_resolvedEndpointIP :: string
  s_dnsDone :: bool
  s_dnsFailed :: bool
  s_dnsGeneration :: u8
  s_dnsTask :: "dns_task option"
  wgPrefs :: 'n
  mg_world :: world

text \<open>
  What the manager calls: the curve and the IP stack, the resolver of \<open>WireGuard::begin\<close>,
  \<open>IPAddress::fromString\<close> (success, and the address written), and the store.
\<close>

record 'n externals =
  ex_dh :: x25519_fn
  ex_lwip :: lwip
  ex_resolve :: resolver
  ex_fromString :: "string \<Rightarrow> bytes \<Rightarrow> bool \<times> bytes"
  ex_prefs :: "'n prefs"

text \<open>What a call reads: \<open>millis()\<close>, \<open>time()\<close>, the WiFi, and whether a task can be created.\<close>

record env =
  en_millis :: u32
  en_time :: int
  en_wifi :: bool
  en_task :: bool

subsection \<open>Addresses\<close>

definition parseTunnelAddress ::
  "(string \<Rightarrow> bytes \<Rightarrow> bool \<times> bytes) \<Rightarrow> string \<Rightarrow> bytes \<Rightarrow> bytes \<Rightarrow> bool \<times> bytes \<times> bytes" where
  "parseTunnelAddress fromString cidr ip net_mask =
     (case index_of (CHR ''/'') cidr of
        None \<Rightarrow> (False, ip, net_mask)
      | Some slash \<Rightarrow>
        let ipStr = take slash cidr;
            prefix = atol (drop (slash + 1) cidr)
        in if prefix < 1 \<or> prefix > 32 then (False, ip, net_mask)
           else case fromString ipStr ip of (ok, ip) \<Rightarrow>
             if \<not> ok then (False, ip, net_mask)
             else
               let m = (if prefix = 32 then 0xFFFFFFFF else NOT (push_bit (nat (32 - prefix)) 1 - 1)) :: u32
               in (True, ip, [ucast (drop_bit 24 m), ucast (drop_bit 16 m AND 0xFF),
                    ucast (drop_bit 8 m AND 0xFF), ucast (m AND 0xFF)]))"

subsection \<open>Starting and stopping\<close>

definition raise_backoff :: "'n manager \<Rightarrow> 'n manager" where
  "raise_backoff m = (if s_backoffMs m < 30000 then m\<lparr>s_backoffMs := s_backoffMs m + 5000\<rparr> else m)"

text \<open>\<open>None\<close>: an assertion of \<open>WireGuard::begin\<close> fails.\<close>

definition startTunnelWithIP :: "'n externals \<Rightarrow> env \<Rightarrow> string \<Rightarrow> 'n manager \<Rightarrow> 'n manager option" where
  "startTunnelWithIP X e resolvedIP m =
     (case parseTunnelAddress (ex_fromString X) (s_tunnelAddress m) (s_tunnelIP m) (s_tunnelMask m) of
        (parsed, ip, net_mask) \<Rightarrow>
        let m = m\<lparr>s_tunnelIP := ip, s_tunnelMask := net_mask\<rparr>
        in if \<not> parsed then Some m
           else case WireGuard_begin (ex_dh X) (ex_lwip X) (ex_resolve X) (s_tunnelIP m) (s_tunnelMask m) (zeros 4)
                  (s_privateKey m) resolvedIP (s_serverPublicKey m) (s_endpointPort m) (s_keepalive m)
                  (s_wg m) (mg_world m) of
               None \<Rightarrow> None
             | Some (ok, a, w) \<Rightarrow>
               let m = m\<lparr>s_wg := a, mg_world := w\<rparr>
               in if ok then Some (m\<lparr>s_lastAttemptMs := en_millis e\<rparr>)
                  else Some (raise_backoff (m\<lparr>s_lastAttemptMs := en_millis e\<rparr>)))"

definition cancelDNS :: "'n manager \<Rightarrow> 'n manager" where
  "cancelDNS m =
     (if s_dnsTaskHandle m then m\<lparr>s_dnsGeneration := s_dnsGeneration m + 1\<rparr>
      else m\<lparr>s_dnsDone := False, s_dnsFailed := False, s_resolvedEndpointIP := []\<rparr>)"

definition end_tunnel :: "'n externals \<Rightarrow> 'n manager \<Rightarrow> 'n manager" where
  "end_tunnel X m =
     (if ap_initialized (s_wg m) then
        case WireGuard_end (ex_lwip X) (s_wg m) (mg_world m) of (a, w) \<Rightarrow> m\<lparr>s_wg := a, mg_world := w\<rparr>
      else m)"

definition wg_stop :: "'n externals \<Rightarrow> 'n manager \<Rightarrow> 'n manager" where
  "wg_stop X m =
     (let m = cancelDNS m;
          m = end_tunnel X m;
          m = m\<lparr>s_state := (if s_enabled m then WG_WAIT_TIME else WG_DISABLED)\<rparr>
      in m\<lparr>s_wasUp := False\<rparr>)"

text \<open>
  A created task has its handle stored before it first runs; it gets the generation as its
  parameter.
\<close>

definition create_dns_task :: "env \<Rightarrow> 'n manager \<Rightarrow> 'n manager" where
  "create_dns_task e m =
     (if en_task e then
        m\<lparr>s_dnsTaskHandle := True,
          s_dnsTask := Some \<lparr>dt_gen = s_dnsGeneration m, dt_retry = 0, dt_success = False, dt_pc = Dns_sleep 0\<rparr>\<rparr>
      else m)"

definition wg_begin :: "'n externals \<Rightarrow> env \<Rightarrow> 'n manager \<Rightarrow> 'n manager option" where
  "wg_begin X e m =
     (if ap_initialized (s_wg m) then Some m
      else if length (s_privateKey m) = 0 \<or> length (s_serverPublicKey m) = 0 then Some m
      else if length (s_endpointHost m) = 0 then Some m
      else if length (s_tunnelAddress m) = 0 then Some m
      else if s_dnsTaskHandle m then Some m
      else if s_dnsDone m then
        let failed = s_dnsFailed m;
            ip = s_resolvedEndpointIP m;
            m = m\<lparr>s_dnsDone := False, s_dnsFailed := False, s_resolvedEndpointIP := []\<rparr>
        in if failed \<or> length ip = 0 then Some (raise_backoff (m\<lparr>s_lastAttemptMs := en_millis e\<rparr>))
           else startTunnelWithIP X e ip m
      else
        let m = m\<lparr>s_dnsGeneration := s_dnsGeneration m + 1\<rparr>;
            m = create_dns_task e m;
            m = (if \<not> s_dnsTaskHandle m then m\<lparr>s_lastAttemptMs := en_millis e\<rparr> else m)
        in Some (m\<lparr>s_state := WG_CONNECTING\<rparr>))"

definition cancel_if_running :: "'n manager \<Rightarrow> 'n manager" where
  "cancel_if_running m = (if s_dnsTaskHandle m then cancelDNS m else m)"

definition stop_if_initialized :: "'n externals \<Rightarrow> 'n manager \<Rightarrow> 'n manager" where
  "stop_if_initialized X m = (if ap_initialized (s_wg m) then wg_stop X m else m)"

text \<open>The last part of \<open>wg_tick\<close>, for a tunnel that exists.\<close>

definition tick_up :: "'n externals \<Rightarrow> env \<Rightarrow> 'n manager \<Rightarrow> 'n manager" where
  "tick_up X e m =
     (if WireGuard_isPeerUp (s_wg m) then
        let m = (if \<not> s_wasUp m then m\<lparr>s_wasUp := True, s_backoffMs := 5000\<rparr> else m)
        in m\<lparr>s_state := WG_UP\<rparr>
      else
        let m = (if s_wasUp m then m\<lparr>s_wasUp := False\<rparr> else m);
            m = m\<lparr>s_state := WG_CONNECTING\<rparr>
        in if en_millis e - s_lastAttemptMs m > 30000 then
             raise_backoff ((wg_stop X m)\<lparr>s_lastAttemptMs := en_millis e\<rparr>)
           else m)"

definition wg_tick :: "'n externals \<Rightarrow> env \<Rightarrow> 'n manager \<Rightarrow> 'n manager option" where
  "wg_tick X e m =
     (if \<not> s_enabled m then
        let m = (if s_state m \<noteq> WG_DISABLED then stop_if_initialized X (cancel_if_running m) else m)
        in Some (m\<lparr>s_state := WG_DISABLED\<rparr>)
      else if en_time e < 100000 then
        if s_state m = WG_WAIT_TIME then Some m
        else Some (stop_if_initialized X (cancel_if_running (m\<lparr>s_state := WG_WAIT_TIME\<rparr>)))
      else if \<not> en_wifi e then
        Some ((stop_if_initialized X (cancel_if_running m))\<lparr>s_state := WG_WAIT_WIFI\<rparr>)
      else if \<not> ap_initialized (s_wg m) then
        if s_dnsDone m \<and> \<not> s_dnsFailed m then wg_begin X e m
        else if s_dnsTaskHandle m then Some (m\<lparr>s_state := WG_CONNECTING\<rparr>)
        else if en_millis e - s_lastAttemptMs m < s_backoffMs m then Some m
        else wg_begin X e m
      else Some (tick_up X e m))"

subsection \<open>The resolving task\<close>

definition delays :: "nat list" where "delays = [0, 500, 500, 1000, 2000]"

text \<open>
  One step of the task, up to the next point where the other core can interfere. \<open>lookup\<close>
  answers the name at the attempt with the address as text. The task is gone when the handle
  is null: only the task itself clears it, as its last action.
\<close>

definition dns_step :: "(string \<Rightarrow> nat \<Rightarrow> string option) \<Rightarrow> 'n manager \<Rightarrow> 'n manager" where
  "dns_step lookup m =
     (case s_dnsTask m of
        None \<Rightarrow> m
      | Some t \<Rightarrow>
        let live = (dt_gen t = s_dnsGeneration m);
            next = (\<lambda>t pc. m\<lparr>s_dnsTask := Some (t\<lparr>dt_pc := pc\<rparr>)\<rparr>)
        in case dt_pc t of
             Dns_sleep waited \<Rightarrow>
               if waited < delays ! dt_retry t \<and> live then next t (Dns_sleep (waited + 100)) else next t Dns_check
           | Dns_check \<Rightarrow>
               if \<not> live then next t Dns_cleanup
               else if \<not> s_dnsTaskHandle m then next t Dns_cleanup
               else next t Dns_resolve
           | Dns_resolve \<Rightarrow>
               (case lookup (s_endpointHost m) (dt_retry t) of
                  None \<Rightarrow> next t Dns_recheck
                | Some ip \<Rightarrow> (next (t\<lparr>dt_success := True\<rparr>) Dns_recheck)\<lparr>s_resolvedEndpointIP := ip\<rparr>)
           | Dns_recheck \<Rightarrow>
               if \<not> live then next t Dns_cleanup
               else
                 let t = t\<lparr>dt_retry := dt_retry t + 1\<rparr>
                 in if dt_retry t < 5 \<and> \<not> dt_success t then next t (Dns_sleep 0) else next t Dns_publish
           | Dns_publish \<Rightarrow> if live \<and> s_dnsTaskHandle m then next t Dns_set_done else next t Dns_cleanup
           | Dns_set_done \<Rightarrow> (next t Dns_set_failed)\<lparr>s_dnsDone := True\<rparr>
           | Dns_set_failed \<Rightarrow> (next t Dns_cleanup)\<lparr>s_dnsFailed := \<not> dt_success t\<rparr>
           | Dns_cleanup \<Rightarrow> m\<lparr>s_dnsTaskHandle := False, s_dnsTask := None\<rparr>)"

subsection \<open>Configuration\<close>

definition wg_load :: "'n externals \<Rightarrow> 'n manager \<Rightarrow> 'n manager" where
  "wg_load X m =
     (let P = ex_prefs X; n = wgPrefs m;
          m = m\<lparr>s_enabled := getBool P ''en'' False n,
                s_privateKey := getString P ''priv'' [] n,
                s_serverPublicKey := getString P ''srvpub'' [] n,
                s_endpointHost := getString P ''endhost'' [] n,
                s_endpointPort := getUShort P ''endport'' 51820 n,
                s_tunnelAddress := getString P ''tunaddr'' [] n,
                s_keepalive := getUShort P ''keepalive'' 25 n\<rparr>
      in if s_enabled m then m\<lparr>s_state := WG_WAIT_TIME\<rparr> else m\<lparr>s_state := WG_DISABLED\<rparr>)"

definition wg_save :: "'n externals \<Rightarrow> 'n manager \<Rightarrow> 'n manager" where
  "wg_save X m =
     (let put = pf_put (ex_prefs X); n = wgPrefs m;
          n = put ''en'' (PBool (s_enabled m)) n;
          n = put ''priv'' (PString (s_privateKey m)) n;
          n = put ''srvpub'' (PString (s_serverPublicKey m)) n;
          n = put ''endhost'' (PString (s_endpointHost m)) n;
          n = put ''endport'' (PUShort (s_endpointPort m)) n;
          n = put ''tunaddr'' (PString (s_tunnelAddress m)) n;
          n = put ''keepalive'' (PUShort (s_keepalive m)) n
      in m\<lparr>wgPrefs := n\<rparr>)"

definition wg_setEnabled :: "'n externals \<Rightarrow> bool \<Rightarrow> 'n manager \<Rightarrow> 'n manager" where
  "wg_setEnabled X en m =
     (let m = m\<lparr>s_enabled := en\<rparr>;
          m = wg_save X m
      in if \<not> en then wg_stop X (cancel_if_running m)
         else (cancelDNS m)\<lparr>s_state := WG_WAIT_TIME, s_lastAttemptMs := 0\<rparr>)"

definition wg_setPrivateKey :: "'n externals \<Rightarrow> string \<Rightarrow> 'n manager \<Rightarrow> 'n manager" where
  "wg_setPrivateKey X key m = stop_if_initialized X (cancelDNS (wg_save X (m\<lparr>s_privateKey := key\<rparr>)))"

definition wg_setServerPublicKey :: "'n externals \<Rightarrow> string \<Rightarrow> 'n manager \<Rightarrow> 'n manager" where
  "wg_setServerPublicKey X key m = stop_if_initialized X (cancelDNS (wg_save X (m\<lparr>s_serverPublicKey := key\<rparr>)))"

definition wg_setEndpoint :: "'n externals \<Rightarrow> string \<Rightarrow> u16 \<Rightarrow> 'n manager \<Rightarrow> 'n manager" where
  "wg_setEndpoint X host port m =
     stop_if_initialized X (cancelDNS (wg_save X (m\<lparr>s_endpointHost := host, s_endpointPort := port\<rparr>)))"

definition wg_setTunnelAddress :: "'n externals \<Rightarrow> string \<Rightarrow> 'n manager \<Rightarrow> 'n manager" where
  "wg_setTunnelAddress X addr m = stop_if_initialized X (cancelDNS (wg_save X (m\<lparr>s_tunnelAddress := addr\<rparr>)))"

definition wg_setKeepalive :: "'n externals \<Rightarrow> u16 \<Rightarrow> 'n manager \<Rightarrow> 'n manager" where
  "wg_setKeepalive X secs m = stop_if_initialized X (cancelDNS (wg_save X (m\<lparr>s_keepalive := secs\<rparr>)))"

definition wg_clear :: "'n externals \<Rightarrow> 'n manager \<Rightarrow> 'n manager" where
  "wg_clear X m =
     (let m = m\<lparr>wgPrefs := pf_clear (ex_prefs X) (wgPrefs m)\<rparr>;
          m = cancel_if_running m;
          m = end_tunnel X m
      in m\<lparr>s_enabled := False, s_privateKey := [], s_serverPublicKey := [], s_endpointHost := [],
           s_endpointPort := 51820, s_tunnelAddress := [], s_keepalive := 25, s_state := WG_DISABLED,
           s_wasUp := False, s_lastAttemptMs := 0, s_backoffMs := 5000\<rparr>)"

subsection \<open>What the web pages read\<close>

fun wg_stateStr :: "WgState \<Rightarrow> string" where
  "wg_stateStr WG_DISABLED = ''disabled''"
| "wg_stateStr WG_WAIT_TIME = ''waiting_time''"
| "wg_stateStr WG_WAIT_WIFI = ''waiting_wifi''"
| "wg_stateStr WG_CONNECTING = ''connecting''"
| "wg_stateStr WG_UP = ''up''"

definition wg_tunnelIp :: "'n manager \<Rightarrow> string" where
  "wg_tunnelIp m =
     (if length (s_tunnelAddress m) = 0 then []
      else case index_of (CHR ''/'') (s_tunnelAddress m) of
             None \<Rightarrow> []
           | Some slash \<Rightarrow> take slash (s_tunnelAddress m))"

definition wg_endpointStr :: "'n manager \<Rightarrow> string" where
  "wg_endpointStr m = s_endpointHost m @ '':'' @ dec (unat (s_endpointPort m))"

definition wg_isEnabled :: "'n manager \<Rightarrow> bool" where "wg_isEnabled m = s_enabled m"
definition wg_tunnelAddress :: "'n manager \<Rightarrow> string" where "wg_tunnelAddress m = s_tunnelAddress m"
definition wg_lastHandshakeMs :: "'n manager \<Rightarrow> u32" where "wg_lastHandshakeMs m = WireGuard_lastHandshakeMs (s_wg m)"
definition wg_rxBytes :: "'n manager \<Rightarrow> u64" where "wg_rxBytes m = WireGuard_rxBytes (s_wg m)"
definition wg_txBytes :: "'n manager \<Rightarrow> u64" where "wg_txBytes m = WireGuard_txBytes (s_wg m)"
definition wg_keepalive :: "'n manager \<Rightarrow> u16" where "wg_keepalive m = s_keepalive m"
definition wg_privateKey :: "'n manager \<Rightarrow> string" where "wg_privateKey m = s_privateKey m"
definition wg_serverPublicKey :: "'n manager \<Rightarrow> string" where "wg_serverPublicKey m = s_serverPublicKey m"

end
