(* ===== verification/Wg_Manager_Props.thy ===== *)
theory Wg_Manager_Props
  imports Wg_Manager
begin

text \<open>
  The properties of the manager: the invariant of its state machine, what a tick does, that
  the resolving task ends and what it leaves, the round trip of the configuration through the
  store, the tunnel address, and the pauses between attempts.
\<close>

unbundle bit_operations_syntax

subsection \<open>The invariant\<close>

text \<open>
  A step of the firmware as far as the manager is concerned: a tick, a change of the
  configuration by the web pages, a step of the resolving task on the other core, and whatever
  the interface does to its device and the world. The port the web pages pass is not 0.
\<close>

inductive mg_step :: "'n externals \<Rightarrow> 'n manager \<Rightarrow> 'n manager \<Rightarrow> bool" for X where
  tick: "wg_tick X e m = Some m' \<Longrightarrow> mg_step X m m'"
| dns: "mg_step X m (dns_step lookup m)"
| setEnabled: "mg_step X m (wg_setEnabled X en m)"
| setPrivateKey: "mg_step X m (wg_setPrivateKey X key m)"
| setServerPublicKey: "mg_step X m (wg_setServerPublicKey X key m)"
| setEndpoint: "port \<noteq> 0 \<Longrightarrow> mg_step X m (wg_setEndpoint X host port m)"
| setTunnelAddress: "mg_step X m (wg_setTunnelAddress X addr m)"
| setKeepalive: "mg_step X m (wg_setKeepalive X secs m)"
| clear: "mg_step X m (wg_clear X m)"
| interface: "ap_netif (s_wg m) = Some d \<Longrightarrow>
    mg_step X m (m\<lparr>s_wg := (s_wg m)\<lparr>ap_netif := Some d'\<rparr>, mg_world := w\<rparr>)"

text \<open>The pause between attempts: a multiple of five seconds, at most thirty.\<close>

definition backoff_ok :: "u32 \<Rightarrow> bool" where
  "backoff_ok b \<longleftrightarrow> b \<in> {5000, 10000, 15000, 20000, 25000, 30000}"

definition manager_ok :: "'n manager \<Rightarrow> bool" where
  "manager_ok m \<longleftrightarrow>
     backoff_ok (s_backoffMs m) \<and>
     (s_dnsTaskHandle m \<longleftrightarrow> s_dnsTask m \<noteq> None) \<and>
     (ap_initialized (s_wg m) \<longrightarrow> ap_netif (s_wg m) \<noteq> None) \<and>
     (s_state m = WG_UP \<longrightarrow> ap_initialized (s_wg m)) \<and>
     (s_state m = WG_DISABLED \<longrightarrow> \<not> ap_initialized (s_wg m)) \<and>
     (s_state m = WG_DISABLED \<longleftrightarrow> \<not> s_enabled m) \<and>
     s_endpointPort m \<noteq> 0"

named_theorems manager_frame "what an operation leaves alone"

lemma end_uninitialized [simp]: "\<not> ap_initialized (fst (WireGuard_end L a w))"
  using end_facts(1) [of a L w] by (cases "ap_initialized a"; cases "WireGuard_end L a w") (auto simp: WireGuard_end_def)

lemma end_tunnel_frame [manager_frame]:
  "\<not> ap_initialized (s_wg (end_tunnel X m))"
  "s_backoffMs (end_tunnel X m) = s_backoffMs m" "s_dnsTaskHandle (end_tunnel X m) = s_dnsTaskHandle m"
  "s_dnsTask (end_tunnel X m) = s_dnsTask m" "s_state (end_tunnel X m) = s_state m"
  "s_enabled (end_tunnel X m) = s_enabled m" "s_endpointPort (end_tunnel X m) = s_endpointPort m"
  using end_uninitialized [of "ex_lwip X" "s_wg m" "mg_world m"]
  by (auto simp: end_tunnel_def split_beta)

lemma cancelDNS_frame [manager_frame]:
  "s_wg (cancelDNS m) = s_wg m" "s_backoffMs (cancelDNS m) = s_backoffMs m"
  "s_dnsTaskHandle (cancelDNS m) = s_dnsTaskHandle m" "s_dnsTask (cancelDNS m) = s_dnsTask m"
  "s_state (cancelDNS m) = s_state m" "s_enabled (cancelDNS m) = s_enabled m"
  "s_endpointPort (cancelDNS m) = s_endpointPort m"
  by (simp_all add: cancelDNS_def)

lemma cancel_if_running_frame [manager_frame]:
  "s_wg (cancel_if_running m) = s_wg m" "s_backoffMs (cancel_if_running m) = s_backoffMs m"
  "s_dnsTaskHandle (cancel_if_running m) = s_dnsTaskHandle m" "s_dnsTask (cancel_if_running m) = s_dnsTask m"
  "s_state (cancel_if_running m) = s_state m" "s_enabled (cancel_if_running m) = s_enabled m"
  "s_endpointPort (cancel_if_running m) = s_endpointPort m"
  by (simp_all add: cancel_if_running_def cancelDNS_frame)

lemma wg_stop_frame [manager_frame]:
  "\<not> ap_initialized (s_wg (wg_stop X m))" "s_backoffMs (wg_stop X m) = s_backoffMs m"
  "s_dnsTaskHandle (wg_stop X m) = s_dnsTaskHandle m" "s_dnsTask (wg_stop X m) = s_dnsTask m"
  "s_enabled (wg_stop X m) = s_enabled m" "s_endpointPort (wg_stop X m) = s_endpointPort m"
  "s_state (wg_stop X m) = (if s_enabled m then WG_WAIT_TIME else WG_DISABLED)"
  by (simp_all add: wg_stop_def Let_def end_tunnel_frame cancelDNS_frame)

lemma stop_if_initialized_frame [manager_frame]:
  "\<not> ap_initialized (s_wg (stop_if_initialized X m))" "s_backoffMs (stop_if_initialized X m) = s_backoffMs m"
  "s_dnsTaskHandle (stop_if_initialized X m) = s_dnsTaskHandle m" "s_dnsTask (stop_if_initialized X m) = s_dnsTask m"
  "s_enabled (stop_if_initialized X m) = s_enabled m" "s_endpointPort (stop_if_initialized X m) = s_endpointPort m"
  "s_state (stop_if_initialized X m) =
     (if ap_initialized (s_wg m) then if s_enabled m then WG_WAIT_TIME else WG_DISABLED else s_state m)"
  by (simp_all add: stop_if_initialized_def wg_stop_frame)

lemma wg_save_frame [manager_frame]:
  "s_wg (wg_save X m) = s_wg m" "s_backoffMs (wg_save X m) = s_backoffMs m"
  "s_dnsTaskHandle (wg_save X m) = s_dnsTaskHandle m" "s_dnsTask (wg_save X m) = s_dnsTask m"
  "s_state (wg_save X m) = s_state m" "s_enabled (wg_save X m) = s_enabled m"
  "s_endpointPort (wg_save X m) = s_endpointPort m"
  by (simp_all add: wg_save_def Let_def)

lemma raise_backoff_frame [manager_frame]:
  "s_wg (raise_backoff m) = s_wg m" "s_dnsTaskHandle (raise_backoff m) = s_dnsTaskHandle m"
  "s_dnsTask (raise_backoff m) = s_dnsTask m" "s_state (raise_backoff m) = s_state m"
  "s_enabled (raise_backoff m) = s_enabled m" "s_endpointPort (raise_backoff m) = s_endpointPort m"
  by (simp_all add: raise_backoff_def)

lemma backoff_raised: "backoff_ok (s_backoffMs m) \<Longrightarrow> backoff_ok (s_backoffMs (raise_backoff m))"
  by (auto simp: backoff_ok_def raise_backoff_def)

lemma backoff_first [simp]: "backoff_ok 5000"
  by (simp add: backoff_ok_def)

lemma begin_initialized:
  assumes "WireGuard_begin dh L resolve ip net gw priv host pub port ka a w = Some (ok, b, v)"
    and "\<not> ap_initialized a"
  shows "ap_initialized b \<longleftrightarrow> ok" and "ap_initialized b \<longrightarrow> ap_netif b \<noteq> None"
proof -
  have n: "ap_netif (begin_peer dh L p d c) \<noteq> None" for p d c
    by (simp add: begin_peer_def Let_def split_beta)
  then have "(ap_initialized b \<longleftrightarrow> ok) \<and> (ap_initialized b \<longrightarrow> ap_netif b \<noteq> None)"
    using assms by (auto simp: WireGuard_begin_def Let_def split: option.splits prod.splits if_splits)
  then show "ap_initialized b \<longleftrightarrow> ok" "ap_initialized b \<longrightarrow> ap_netif b \<noteq> None" by auto
qed

lemma start_ok:
  assumes "startTunnelWithIP X e ip m = Some m'" and "manager_ok m" and "\<not> ap_initialized (s_wg m)"
    and "s_state m \<noteq> WG_DISABLED"
  shows "manager_ok m'"
proof -
  obtain parsed i n where p: "parseTunnelAddress (ex_fromString X) (s_tunnelAddress m) (s_tunnelIP m) (s_tunnelMask m) = (parsed, i, n)"
    by (metis prod_cases3)
  let ?m = "m\<lparr>s_tunnelIP := i, s_tunnelMask := n\<rparr>"
  show ?thesis
  proof (cases parsed)
    case False
    with assms(1,2) p show ?thesis by (auto simp: startTunnelWithIP_def manager_ok_def)
  next
    case True
    with assms(1) p obtain ok a w where
      b: "WireGuard_begin (ex_dh X) (ex_lwip X) (ex_resolve X) i n (zeros 4) (s_privateKey m) ip
        (s_serverPublicKey m) (s_endpointPort m) (s_keepalive m) (s_wg m) (mg_world m) = Some (ok, a, w)"
      by (auto simp: startTunnelWithIP_def Let_def split: option.splits)
    note f = begin_initialized [OF b assms(3)]
    have m': "m' = (if ok then ?m\<lparr>s_wg := a, mg_world := w, s_lastAttemptMs := en_millis e\<rparr>
        else raise_backoff (?m\<lparr>s_wg := a, mg_world := w, s_lastAttemptMs := en_millis e\<rparr>))"
      using assms(1) p True b by (auto simp: startTunnelWithIP_def Let_def)
    have "backoff_ok (s_backoffMs m')"
      using assms(2) by (simp add: m' manager_ok_def backoff_raised)
    with assms(2-4) f show ?thesis by (auto simp: m' manager_ok_def raise_backoff_frame)
  qed
qed

lemma create_frame [manager_frame]:
  "s_wg (create_dns_task e m) = s_wg m" "s_backoffMs (create_dns_task e m) = s_backoffMs m"
  "s_enabled (create_dns_task e m) = s_enabled m" "s_endpointPort (create_dns_task e m) = s_endpointPort m"
  by (simp_all add: create_dns_task_def)

lemma begin_ok:
  assumes "wg_begin X e m = Some m'" and "manager_ok m" and "\<not> ap_initialized (s_wg m)" and "s_state m \<noteq> WG_DISABLED"
  shows "manager_ok m'"
proof -
  let ?idle = "length (s_privateKey m) = 0 \<or> length (s_serverPublicKey m) = 0 \<or> length (s_endpointHost m) = 0 \<or>
    length (s_tunnelAddress m) = 0 \<or> s_dnsTaskHandle m"
  let ?c = "m\<lparr>s_dnsDone := False, s_dnsFailed := False, s_resolvedEndpointIP := []\<rparr>"
  show ?thesis
  proof (cases ?idle)
    case True
    then have "wg_begin X e m = Some m" unfolding wg_begin_def by (elim disjE) simp_all
    then have "m' = m" using assms(1) by simp
    with assms(2) show ?thesis by simp
  next
    case False
    show ?thesis
    proof (cases "s_dnsDone m")
      case True
      show ?thesis
      proof (cases "s_dnsFailed m \<or> length (s_resolvedEndpointIP m) = 0")
        case failed: True
        then have m': "m' = raise_backoff (?c\<lparr>s_lastAttemptMs := en_millis e\<rparr>)"
          using assms(1,3) False True by (simp add: wg_begin_def Let_def)
        have "backoff_ok (s_backoffMs m')" using assms(2) by (simp add: m' manager_ok_def backoff_raised)
        with assms(2-4) show ?thesis by (simp add: m' manager_ok_def raise_backoff_frame)
      next
        case ok: False
        then have "startTunnelWithIP X e (s_resolvedEndpointIP m) ?c = Some m'"
          using assms(1,3) False True by (simp add: wg_begin_def Let_def)
        then show ?thesis
          by (rule start_ok) (use assms(2-4) in \<open>simp_all add: manager_ok_def\<close>)
      qed
    next
      case notdone: False
      let ?d = "create_dns_task e (m\<lparr>s_dnsGeneration := s_dnsGeneration m + 1\<rparr>)"
      have m': "m' = (if \<not> s_dnsTaskHandle ?d then ?d\<lparr>s_lastAttemptMs := en_millis e\<rparr> else ?d)\<lparr>s_state := WG_CONNECTING\<rparr>"
        using assms(1,3) False notdone by (simp add: wg_begin_def Let_def)
      with assms(2-4) show ?thesis by (simp add: manager_ok_def create_dns_task_def)
    qed
  qed
qed

lemma tick_up_ok: "manager_ok m \<Longrightarrow> s_enabled m \<Longrightarrow> ap_initialized (s_wg m) \<Longrightarrow> manager_ok (tick_up X e m)"
  by (simp add: tick_up_def Let_def manager_ok_def raise_backoff_frame wg_stop_frame backoff_raised)

lemma tick_ok:
  assumes "wg_tick X e m = Some m'" and ok: "manager_ok m"
  shows "manager_ok m'"
proof (cases "s_enabled m")
  case False
  then have "s_state m = WG_DISABLED" using ok by (simp add: manager_ok_def)
  with False assms show ?thesis by (auto simp: wg_tick_def manager_ok_def)
next
  case en: True
  show ?thesis
  proof (cases "en_time e < 100000")
    case True
    with en assms show ?thesis
      by (auto simp: wg_tick_def manager_ok_def stop_if_initialized_frame cancel_if_running_frame split: if_splits)
  next
    case time: False
    show ?thesis
    proof (cases "en_wifi e")
      case False
      with en time assms show ?thesis
        by (auto simp: wg_tick_def manager_ok_def stop_if_initialized_frame cancel_if_running_frame)
    next
      case wifi: True
      show ?thesis
      proof (cases "ap_initialized (s_wg m)")
        case True
        with en time wifi assms show ?thesis by (auto simp: wg_tick_def tick_up_ok)
      next
        case False
        have "s_state m \<noteq> WG_DISABLED" using en ok by (simp add: manager_ok_def)
        with False en time wifi assms begin_ok [OF _ ok False] show ?thesis
          by (auto simp: wg_tick_def manager_ok_def split: if_splits)
      qed
    qed
  qed
qed

lemma dns_step_ok: "manager_ok m \<Longrightarrow> manager_ok (dns_step lookup m)"
  by (simp add: dns_step_def manager_ok_def Let_def split: option.split dns_pc.split)

lemma manager_step_ok: "mg_step X m m' \<Longrightarrow> manager_ok m \<Longrightarrow> manager_ok m'"
proof (induction rule: mg_step.induct)
  case (tick m e m')
  then show ?case by (rule tick_ok)
next
  case (dns m lookup)
  then show ?case by (rule dns_step_ok)
next
  case (setEnabled m en)
  then show ?case
    by (cases en) (simp_all add: wg_setEnabled_def Let_def manager_ok_def wg_stop_frame cancel_if_running_frame
        cancelDNS_frame wg_save_frame)
next
  case (clear m)
  then show ?case
    by (simp add: wg_clear_def Let_def manager_ok_def cancel_if_running_frame end_tunnel_frame)
next
  case (interface m d d' w)
  then show ?case by (simp add: manager_ok_def)
qed (auto simp: wg_setPrivateKey_def wg_setServerPublicKey_def wg_setEndpoint_def wg_setTunnelAddress_def
    wg_setKeepalive_def manager_ok_def stop_if_initialized_frame cancelDNS_frame wg_save_frame)

lemma wg_begin_total: "s_endpointPort m \<noteq> 0 \<Longrightarrow> wg_begin X e m \<noteq> None"
  by (simp add: wg_begin_def startTunnelWithIP_def WireGuard_begin_def Let_def
      split: prod.split option.split)

lemma wg_tick_total: "s_endpointPort m \<noteq> 0 \<Longrightarrow> wg_tick X e m \<noteq> None"
  using wg_begin_total [of m X e] by (simp add: wg_tick_def)

text \<open>The statics of the file before \<open>wg_load\<close>, with what is in the store.\<close>

definition boot :: "'n \<Rightarrow> netif_ref option \<Rightarrow> world \<Rightarrow> 'n manager" where
  "boot n def_netif w =
     \<lparr>s_enabled = False, s_privateKey = [], s_serverPublicKey = [], s_endpointHost = [], s_endpointPort = 51820,
      s_tunnelAddress = [], s_keepalive = 25,
      s_wg = \<lparr>ap_initialized = False, ap_netif = None, ap_previous_default = None,
        ap_peer_index = WIREGUARDIF_INVALID_INDEX, ap_netif_default = def_netif, ap_addresses = ([], [], [])\<rparr>,
      s_state = WG_DISABLED, s_tunnelIP = zeros 4, s_tunnelMask = zeros 4, s_lastAttemptMs = 0, s_backoffMs = 5000,
      s_wasUp = False, s_dnsTaskHandle = False, s_resolvedEndpointIP = [], s_dnsDone = False, s_dnsFailed = False,
      s_dnsGeneration = 0, s_dnsTask = None, wgPrefs = n, mg_world = w\<rparr>"

lemma boot_ok: "getUShort (ex_prefs X) ''endport'' 51820 n \<noteq> 0 \<Longrightarrow> manager_ok (wg_load X (boot n d w))"
  by (simp add: manager_ok_def wg_load_def boot_def Let_def)

lemma run_ok: "(mg_step X)\<^sup>*\<^sup>* m m' \<Longrightarrow> manager_ok m \<Longrightarrow> manager_ok m'"
  by (induction rule: rtranclp_induct) (auto dest: manager_step_ok)

subsection \<open>Properties\<close>

text \<open>
  C19. The state machine of the manager: whatever the web pages, the main loop, the resolving
  task and the interface do after \<open>wg_load\<close>, in any order, the pause between attempts stays
  between 5 and 30 seconds in steps of five, there is a task exactly while the handle is not
  null, the tunnel is reported up only while there is an interface, it is disabled exactly if
  the configuration says so, and then there is no interface. The next tick never fails an
  assertion.
\<close>

theorem manager_invariant:
  assumes "getUShort (ex_prefs X) ''endport'' 51820 n \<noteq> 0"
    and "(mg_step X)\<^sup>*\<^sup>* (wg_load X (boot n d w)) m"
  shows "s_backoffMs m \<in> {5000, 10000, 15000, 20000, 25000, 30000} \<and>
    (s_dnsTaskHandle m \<longleftrightarrow> s_dnsTask m \<noteq> None) \<and>
    (s_state m = WG_UP \<longrightarrow> ap_initialized (s_wg m)) \<and>
    (s_state m = WG_DISABLED \<longleftrightarrow> \<not> s_enabled m) \<and>
    (\<not> s_enabled m \<longrightarrow> \<not> ap_initialized (s_wg m)) \<and>
    wg_tick X e m \<noteq> None"
proof -
  have "manager_ok m" using run_ok [OF assms(2) boot_ok [OF assms(1)]] .
  then show ?thesis using wg_tick_total [of m X e] by (simp add: manager_ok_def backoff_ok_def)
qed

definition toy_externals :: "(string \<rightharpoonup> pref_value) externals" where
  "toy_externals = \<lparr>ex_dh = toy_dh1, ex_lwip = toy_lwip, ex_resolve = (\<lambda>host n. Some [192, 0, 2, 1]),
     ex_fromString = (\<lambda>s ip. (True, [10, 0, 0, 2])), ex_prefs = map_prefs\<rparr>"

theorem manager_invariant_witness:
  "let m = wg_setEnabled toy_externals True (wg_load toy_externals (boot Map.empty None quiet_world))
   in s_state m = WG_WAIT_TIME \<and> s_backoffMs m \<in> {5000, 10000, 15000, 20000, 25000, 30000} \<and>
     wg_tick toy_externals \<lparr>en_millis = 0, en_time = 0, en_wifi = False, en_task = False\<rparr> m \<noteq> None"
proof -
  let ?m0 = "wg_load toy_externals (boot Map.empty None quiet_world)"
  have "getUShort (ex_prefs toy_externals) ''endport'' 51820 Map.empty \<noteq> 0"
    by (simp add: toy_externals_def map_prefs_def getUShort_def)
  moreover have "(mg_step toy_externals)\<^sup>*\<^sup>* ?m0 (wg_setEnabled toy_externals True ?m0)"
    by (intro r_into_rtranclp mg_step.setEnabled)
  ultimately show ?thesis
    using manager_invariant [of toy_externals Map.empty None quiet_world "wg_setEnabled toy_externals True ?m0"
        "\<lparr>en_millis = 0, en_time = 0, en_wifi = False, en_task = False\<rparr>"]
    by (simp add: Let_def wg_setEnabled_def)
qed

text \<open>
  What a tick does, by the conditions it finds: disabled, without the time or without WiFi
  there is no tunnel afterwards and the state says why; with a tunnel whose peer is up the
  state is up and the pause is back at five seconds when it was down before; a tunnel whose
  peer stays down is given up 30 seconds after it was started; and without a tunnel nothing is
  started while a resolution runs or before the pause is over, unless a result has arrived.
\<close>

theorem tick_outcome:
  assumes "manager_ok m" and "wg_tick X e m = Some m'"
  shows "(\<not> s_enabled m \<longrightarrow> s_state m' = WG_DISABLED \<and> \<not> ap_initialized (s_wg m')) \<and>
    (s_enabled m \<and> en_time e < 100000 \<and> s_state m \<noteq> WG_WAIT_TIME \<longrightarrow>
      s_state m' = WG_WAIT_TIME \<and> \<not> ap_initialized (s_wg m')) \<and>
    (s_enabled m \<and> 100000 \<le> en_time e \<and> \<not> en_wifi e \<longrightarrow> s_state m' = WG_WAIT_WIFI \<and> \<not> ap_initialized (s_wg m')) \<and>
    (s_enabled m \<and> 100000 \<le> en_time e \<and> en_wifi e \<longrightarrow>
      (ap_initialized (s_wg m) \<and> WireGuard_isPeerUp (s_wg m) \<longrightarrow>
        s_state m' = WG_UP \<and> s_wasUp m' \<and> (\<not> s_wasUp m \<longrightarrow> s_backoffMs m' = 5000)) \<and>
      (ap_initialized (s_wg m) \<and> \<not> WireGuard_isPeerUp (s_wg m) \<longrightarrow> \<not> s_wasUp m' \<and>
        (if 30000 < en_millis e - s_lastAttemptMs m
         then \<not> ap_initialized (s_wg m') \<and> s_state m' = WG_WAIT_TIME \<and> s_lastAttemptMs m' = en_millis e
         else ap_initialized (s_wg m') \<and> s_state m' = WG_CONNECTING)) \<and>
      (\<not> ap_initialized (s_wg m) \<and> \<not> (s_dnsDone m \<and> \<not> s_dnsFailed m) \<and>
        (s_dnsTaskHandle m \<or> en_millis e - s_lastAttemptMs m < s_backoffMs m) \<longrightarrow>
        \<not> ap_initialized (s_wg m') \<and> s_dnsTask m' = s_dnsTask m))"
proof (cases "s_enabled m")
  case False
  then have "s_state m = WG_DISABLED" "\<not> ap_initialized (s_wg m)" using assms(1) by (simp_all add: manager_ok_def)
  with False assms(2) show ?thesis by (auto simp: wg_tick_def)
next
  case en: True
  show ?thesis
  proof (cases "en_time e < 100000 \<or> \<not> en_wifi e")
    case True
    with en assms(2) show ?thesis
      by (auto simp: wg_tick_def stop_if_initialized_frame cancel_if_running_frame split: if_splits)
  next
    case ready: False
    show ?thesis
    proof (cases "ap_initialized (s_wg m)")
      case True
      then have "m' = tick_up X e m" using assms(2) en ready by (simp add: wg_tick_def)
      with True en ready show ?thesis
        by (simp add: tick_up_def Let_def wg_stop_frame raise_backoff_frame)
          (simp add: raise_backoff_def wg_stop_def Let_def)
    next
      case False
      with assms(2) en ready show ?thesis by (auto simp: wg_tick_def split: if_splits)
    qed
  qed
qed

theorem tick_outcome_witness:
  "let m = wg_setEnabled toy_externals True (wg_load toy_externals (boot Map.empty None quiet_world))
   in \<exists>m'. wg_tick toy_externals \<lparr>en_millis = 0, en_time = 100000, en_wifi = False, en_task = False\<rparr> m = Some m' \<and>
        s_state m' = WG_WAIT_WIFI \<and> \<not> ap_initialized (s_wg m')"
proof -
  let ?b = "wg_load toy_externals (boot Map.empty None quiet_world)"
  let ?m = "wg_setEnabled toy_externals True ?b"
  let ?e = "\<lparr>en_millis = 0, en_time = 100000, en_wifi = False, en_task = False\<rparr> :: env"
  have "manager_ok ?b"
    by (rule boot_ok) (simp add: toy_externals_def map_prefs_def getUShort_def)
  moreover have "mg_step toy_externals ?b ?m" by (rule mg_step.setEnabled)
  ultimately have ok: "manager_ok ?m" using manager_step_ok by metis
  have "s_enabled ?m" by (simp add: wg_setEnabled_def wg_save_def cancelDNS_def Let_def)
  moreover have "wg_tick toy_externals ?e ?m = Some ((stop_if_initialized toy_externals (cancel_if_running ?m))\<lparr>s_state := WG_WAIT_WIFI\<rparr>)"
    using \<open>s_enabled ?m\<close> by (simp add: wg_tick_def)
  ultimately show ?thesis
    using tick_outcome [OF ok, of toy_externals ?e] unfolding Let_def by fastforce
qed

subsection \<open>The resolving task\<close>

text \<open>The first answer of the resolver from attempt \<open>r\<close> on, in \<open>n\<close> attempts.\<close>

fun first_answer :: "(nat \<Rightarrow> 'a option) \<Rightarrow> nat \<Rightarrow> nat \<Rightarrow> 'a option" where
  "first_answer f r 0 = None"
| "first_answer f r (Suc n) = (case f r of None \<Rightarrow> first_answer f (Suc r) n | Some x \<Rightarrow> Some x)"

text \<open>The manager with its task, of the current generation, at a point.\<close>

definition dns_at :: "'n manager \<Rightarrow> nat \<Rightarrow> bool \<Rightarrow> dns_pc \<Rightarrow> 'n manager" where
  "dns_at m r s pc =
     m\<lparr>s_dnsTask := Some \<lparr>dt_gen = s_dnsGeneration m, dt_retry = r, dt_success = s, dt_pc = pc\<rparr>\<rparr>"

lemma dns_at_step:
  "w < delays ! r \<Longrightarrow> dns_step lookup (dns_at m r s (Dns_sleep w)) = dns_at m r s (Dns_sleep (w + 100))"
  "\<not> w < delays ! r \<Longrightarrow> dns_step lookup (dns_at m r s (Dns_sleep w)) = dns_at m r s Dns_check"
  "s_dnsTaskHandle m \<Longrightarrow> dns_step lookup (dns_at m r s Dns_check) = dns_at m r s Dns_resolve"
  "lookup (s_endpointHost m) r = None \<Longrightarrow> dns_step lookup (dns_at m r s Dns_resolve) = dns_at m r s Dns_recheck"
  "lookup (s_endpointHost m) r = Some ip \<Longrightarrow>
     dns_step lookup (dns_at m r s Dns_resolve) = dns_at (m\<lparr>s_resolvedEndpointIP := ip\<rparr>) r True Dns_recheck"
  "r + 1 < 5 \<Longrightarrow> dns_step lookup (dns_at m r False Dns_recheck) = dns_at m (r + 1) False (Dns_sleep 0)"
  "\<not> r + 1 < 5 \<or> s \<Longrightarrow> dns_step lookup (dns_at m r s Dns_recheck) = dns_at m (r + 1) s Dns_publish"
  "s_dnsTaskHandle m \<Longrightarrow> dns_step lookup (dns_at m r s Dns_publish) = dns_at m r s Dns_set_done"
  "dns_step lookup (dns_at m r s Dns_set_done) = dns_at (m\<lparr>s_dnsDone := True\<rparr>) r s Dns_set_failed"
  "dns_step lookup (dns_at m r s Dns_set_failed) = dns_at (m\<lparr>s_dnsFailed := \<not> s\<rparr>) r s Dns_cleanup"
  "dns_step lookup (dns_at m r s Dns_cleanup) = m\<lparr>s_dnsTaskHandle := False, s_dnsTask := None\<rparr>"
  by (auto simp: dns_step_def dns_at_def Let_def)

lemma funpow_4: "(f ^^ 4) x = f (f (f (f x)))"
  by (simp add: eval_nat_numeral)

lemma sleep_run:
  "w + 100 * k \<le> delays ! r \<Longrightarrow>
   (dns_step lookup ^^ k) (dns_at m r s (Dns_sleep w)) = dns_at m r s (Dns_sleep (w + 100 * k))"
proof (induction k)
  case (Suc k)
  then have "w + 100 * k < delays ! r" by simp
  with Suc show ?case by (simp add: dns_at_step(1) add.commute add.left_commute)
qed simp

lemma delays_100: "r < 5 \<Longrightarrow> 100 * (delays ! r div 100) = delays ! r"
proof -
  assume "r < 5"
  then have "r = 0 \<or> r = 1 \<or> r = 2 \<or> r = 3 \<or> r = 4" by arith
  then show ?thesis by (elim disjE) (simp_all add: delays_def)
qed

definition attempt_steps :: "nat \<Rightarrow> nat" where
  "attempt_steps r = 4 + delays ! r div 100"

lemma attempt_run:
  assumes h: "s_dnsTaskHandle m" and r: "r < 5"
  shows "(dns_step lookup ^^ attempt_steps r) (dns_at m r False (Dns_sleep 0)) =
    (case lookup (s_endpointHost m) r of
       Some ip \<Rightarrow> dns_at (m\<lparr>s_resolvedEndpointIP := ip\<rparr>) (r + 1) True Dns_publish
     | None \<Rightarrow> dns_at m (r + 1) False (if r + 1 < 5 then Dns_sleep 0 else Dns_publish))"
proof -
  have "(dns_step lookup ^^ (delays ! r div 100)) (dns_at m r False (Dns_sleep 0)) = dns_at m r False (Dns_sleep (delays ! r))"
    using sleep_run [of 0 "delays ! r div 100" r] delays_100 [OF r] by simp
  then have run: "(dns_step lookup ^^ attempt_steps r) (dns_at m r False (Dns_sleep 0)) =
      (dns_step lookup ^^ 4) (dns_at m r False (Dns_sleep (delays ! r)))"
    by (simp only: attempt_steps_def funpow_add o_apply)
  have "dns_step lookup (dns_step lookup (dns_at m r False (Dns_sleep (delays ! r)))) = dns_at m r False Dns_resolve"
    by (subst dns_at_step(2)) (simp_all add: dns_at_step(3) h)
  then have "(dns_step lookup ^^ 4) (dns_at m r False (Dns_sleep (delays ! r))) =
      dns_step lookup (dns_step lookup (dns_at m r False Dns_resolve))" by (simp only: funpow_4)
  also have "\<dots> = (case lookup (s_endpointHost m) r of
       Some ip \<Rightarrow> dns_at (m\<lparr>s_resolvedEndpointIP := ip\<rparr>) (r + 1) True Dns_publish
     | None \<Rightarrow> dns_at m (r + 1) False (if r + 1 < 5 then Dns_sleep 0 else Dns_publish))"
    by (cases "lookup (s_endpointHost m) r") (simp_all add: dns_at_step(4-7))
  finally show ?thesis by (simp only: run)
qed

lemma attempts_run:
  "r + Suc n = 5 \<Longrightarrow> s_dnsTaskHandle m \<Longrightarrow>
   \<exists>k r'. k \<le> sum_list (map attempt_steps [r..<5]) \<and>
     (dns_step lookup ^^ k) (dns_at m r False (Dns_sleep 0)) =
       (case first_answer (lookup (s_endpointHost m)) r (Suc n) of
          Some ip \<Rightarrow> dns_at (m\<lparr>s_resolvedEndpointIP := ip\<rparr>) r' True Dns_publish
        | None \<Rightarrow> dns_at m r' False Dns_publish)"
proof (induction n arbitrary: r)
  case 0
  then have r: "r = 4" by simp
  with attempt_run [OF 0(2), of 4 lookup] show ?case
    by (intro exI [of _ "attempt_steps r"] exI [of _ 5]) (simp add: upt_rec split: option.split)
next
  case (Suc n)
  have r: "r < 5" "r + 1 < 5" "Suc r + Suc n = 5" using Suc.prems(1) by simp_all
  have b: "sum_list (map attempt_steps [r..<5]) = attempt_steps r + sum_list (map attempt_steps [Suc r..<5])"
    using r(1) by (simp add: upt_conv_Cons)
  note a = attempt_run [OF Suc.prems(2) r(1), of lookup]
  show ?case
  proof (cases "lookup (s_endpointHost m) r")
    case (Some ip)
    with a b show ?thesis by (intro exI [of _ "attempt_steps r"] exI [of _ "r + 1"]) simp
  next
    case None
    then have "(dns_step lookup ^^ attempt_steps r) (dns_at m r False (Dns_sleep 0)) = dns_at m (Suc r) False (Dns_sleep 0)"
      using a r(2) by simp
    then have "(dns_step lookup ^^ (k + attempt_steps r)) (dns_at m r False (Dns_sleep 0)) =
        (dns_step lookup ^^ k) (dns_at m (Suc r) False (Dns_sleep 0))" for k
      by (simp only: funpow_add o_apply)
    moreover from Suc.IH [OF r(3) Suc.prems(2)] obtain k r' where "k \<le> sum_list (map attempt_steps [Suc r..<5])"
      "(dns_step lookup ^^ k) (dns_at m (Suc r) False (Dns_sleep 0)) =
       (case first_answer (lookup (s_endpointHost m)) (Suc r) (Suc n) of
          Some ip \<Rightarrow> dns_at (m\<lparr>s_resolvedEndpointIP := ip\<rparr>) r' True Dns_publish
        | None \<Rightarrow> dns_at m r' False Dns_publish)" by blast
    moreover have "first_answer (lookup (s_endpointHost m)) r (Suc (Suc n)) = first_answer (lookup (s_endpointHost m)) (Suc r) (Suc n)"
      using None by (simp only: first_answer.simps(2) [of _ r] option.case)
    ultimately show ?thesis
      using b by (intro exI [of _ "k + attempt_steps r"] exI [of _ r']) simp
  qed
qed

lemma publish_run:
  "s_dnsTaskHandle m \<Longrightarrow> (dns_step lookup ^^ 4) (dns_at m r s Dns_publish) =
     m\<lparr>s_dnsDone := True, s_dnsFailed := \<not> s, s_dnsTaskHandle := False, s_dnsTask := None\<rparr>"
  by (simp add: funpow_4 dns_at_step)

text \<open>
  C20. The resolving task ends: if nothing interferes, within 64 steps it has tried at most five
  times, published whether one of them succeeded, with the first answer as the address, and
  cleared the handle.
\<close>

theorem dns_task_outcome:
  assumes "s_dnsTask m = Some \<lparr>dt_gen = s_dnsGeneration m, dt_retry = 0, dt_success = False, dt_pc = Dns_sleep 0\<rparr>"
    and "s_dnsTaskHandle m"
  shows "\<exists>n \<le> 64. (dns_step lookup ^^ n) m =
    (case first_answer (lookup (s_endpointHost m)) 0 5 of
       Some ip \<Rightarrow> m\<lparr>s_resolvedEndpointIP := ip, s_dnsDone := True, s_dnsFailed := False, s_dnsTaskHandle := False, s_dnsTask := None\<rparr>
     | None \<Rightarrow> m\<lparr>s_dnsDone := True, s_dnsFailed := True, s_dnsTaskHandle := False, s_dnsTask := None\<rparr>)"
proof -
  have m: "dns_at m 0 False (Dns_sleep 0) = m" using assms(1) by (simp add: dns_at_def)
  have five: "Suc 4 = (5 :: nat)" "0 + Suc 4 = (5 :: nat)" by simp_all
  from attempts_run [OF five(2) assms(2), of lookup] obtain k r' where k: "k \<le> sum_list (map attempt_steps [0..<5])"
    and e: "(dns_step lookup ^^ k) m =
       (case first_answer (lookup (s_endpointHost m)) 0 5 of
          Some ip \<Rightarrow> dns_at (m\<lparr>s_resolvedEndpointIP := ip\<rparr>) r' True Dns_publish
        | None \<Rightarrow> dns_at m r' False Dns_publish)"
    unfolding m five(1) by blast
  have "sum_list (map attempt_steps [0..<5]) = 60" by (simp add: attempt_steps_def delays_def upt_rec)
  then have "4 + k \<le> 64" using k by simp
  moreover have "(dns_step lookup ^^ (4 + k)) m = (dns_step lookup ^^ 4) ((dns_step lookup ^^ k) m)"
    by (simp only: funpow_add o_apply)
  ultimately show ?thesis
    using publish_run [of "m\<lparr>s_resolvedEndpointIP := _\<rparr>" lookup r' True] publish_run [OF assms(2), of lookup r' False] assms(2) e
    by (intro exI [of _ "4 + k"]) (simp del: funpow.simps split: option.split)
qed

theorem dns_task_outcome_witness:
  "\<exists>n \<le> 64. (dns_step (\<lambda>host i. if i = 2 then Some ''192.0.2.1'' else None) ^^ n)
      ((boot Map.empty None quiet_world :: (string \<rightharpoonup> pref_value) manager)
         \<lparr>s_dnsTaskHandle := True, s_dnsTask := Some \<lparr>dt_gen = 0, dt_retry = 0, dt_success = False, dt_pc = Dns_sleep 0\<rparr>\<rparr>) =
    (boot Map.empty None quiet_world)\<lparr>s_resolvedEndpointIP := ''192.0.2.1'', s_dnsDone := True\<rparr>"
  using dns_task_outcome [of "(boot Map.empty None quiet_world :: (string \<rightharpoonup> pref_value) manager)
         \<lparr>s_dnsTaskHandle := True, s_dnsTask := Some \<lparr>dt_gen = 0, dt_retry = 0, dt_success = False, dt_pc = Dns_sleep 0\<rparr>\<rparr>"
       "\<lambda>host i. if i = 2 then Some ''192.0.2.1'' else None"]
  by (simp add: boot_def eval_nat_numeral)

text \<open>
  Cancelling the resolution. A task whose generation has passed publishes nothing if it had
  not reached the two stores that publish: it only clears the handle, within four steps. But the
  test before those stores and the stores are not one action: if the configuration is changed
  between them, the result of the old configuration is published all the same, and the next
  tick starts the tunnel to the address of the old endpoint.
\<close>

theorem dns_cancelled:
  assumes "s_dnsTask m = Some t" and "dt_gen t \<noteq> s_dnsGeneration m"
  shows "(dt_pc t \<notin> {Dns_set_done, Dns_set_failed} \<longrightarrow>
      (\<exists>n \<le> 4. let m' = (dns_step lookup ^^ n) m in s_dnsTask m' = None \<and> \<not> s_dnsTaskHandle m' \<and>
         s_dnsDone m' = s_dnsDone m \<and> s_dnsFailed m' = s_dnsFailed m)) \<and>
    (dt_pc t = Dns_set_done \<and> dt_success t \<and> \<not> ap_initialized (s_wg m) \<and> s_enabled m \<and> 100000 \<le> en_time e \<and> en_wifi e \<and>
       s_privateKey m \<noteq> [] \<and> s_serverPublicKey m \<noteq> [] \<and> s_endpointHost m \<noteq> [] \<and> s_tunnelAddress m \<noteq> [] \<and>
       s_resolvedEndpointIP m \<noteq> [] \<longrightarrow>
     wg_tick X e ((dns_step lookup ^^ 3) m) = startTunnelWithIP X e (s_resolvedEndpointIP m)
       (m\<lparr>s_dnsTaskHandle := False, s_dnsTask := None, s_dnsDone := False, s_dnsFailed := False, s_resolvedEndpointIP := []\<rparr>))"
proof (intro conjI impI)
  have three: "(f ^^ 3) x = f (f (f x))" for f :: "'a manager \<Rightarrow> 'a manager" and x
    by (simp add: eval_nat_numeral)
  obtain g r s pc where t: "t = \<lparr>dt_gen = g, dt_retry = r, dt_success = s, dt_pc = pc\<rparr>" by (cases t)
  have g: "g \<noteq> s_dnsGeneration m" using assms(2) t by simp
  define pt where "pt = (\<lambda>(x :: 'a manager) s pc. x\<lparr>s_dnsTask := Some \<lparr>dt_gen = g, dt_retry = r, dt_success = s, dt_pc = pc\<rparr>\<rparr>)"
  have m: "m = pt m s pc" using assms(1) by (simp add: pt_def t)
  have step: "dns_step lookup (pt x s Dns_cleanup) = x\<lparr>s_dnsTaskHandle := False, s_dnsTask := None\<rparr>"
    "s_dnsGeneration x \<noteq> g \<Longrightarrow> dns_step lookup (pt x s Dns_check) = pt x s Dns_cleanup"
    "s_dnsGeneration x \<noteq> g \<Longrightarrow> dns_step lookup (pt x s (Dns_sleep w)) = pt x s Dns_check"
    "s_dnsGeneration x \<noteq> g \<Longrightarrow> dns_step lookup (pt x s Dns_publish) = pt x s Dns_cleanup"
    "s_dnsGeneration x \<noteq> g \<Longrightarrow> dns_step lookup (pt x s Dns_recheck) = pt x s Dns_cleanup"
    "dns_step lookup (pt x s Dns_resolve) = (case lookup (s_endpointHost x) r of
       None \<Rightarrow> pt x s Dns_recheck | Some ip \<Rightarrow> pt (x\<lparr>s_resolvedEndpointIP := ip\<rparr>) True Dns_recheck)"
    "dns_step lookup (pt x s Dns_set_done) = pt (x\<lparr>s_dnsDone := True\<rparr>) s Dns_set_failed"
    "dns_step lookup (pt x s Dns_set_failed) = pt (x\<lparr>s_dnsFailed := \<not> s\<rparr>) s Dns_cleanup" for x s w
    by (auto simp: dns_step_def pt_def split: option.split)
  have "\<exists>n \<le> 4. let m' = (dns_step lookup ^^ n) (pt m s pc) in s_dnsTask m' = None \<and> \<not> s_dnsTaskHandle m' \<and>
      s_dnsDone m' = s_dnsDone m \<and> s_dnsFailed m' = s_dnsFailed m" if "pc \<noteq> Dns_set_done" "pc \<noteq> Dns_set_failed"
  proof (cases pc)
    case (Dns_sleep w)
    then show ?thesis using g by (intro exI [of _ 3]) (simp add: three step)
  next
    case Dns_check
    then show ?thesis using g by (intro exI [of _ 2]) (simp add: numeral_2_eq_2 step)
  next
    case Dns_resolve
    then show ?thesis using g by (intro exI [of _ 3]) (simp add: three step split: option.split)
  next
    case Dns_recheck
    then show ?thesis using g by (intro exI [of _ 2]) (simp add: numeral_2_eq_2 step)
  next
    case Dns_publish
    then show ?thesis using g by (intro exI [of _ 2]) (simp add: numeral_2_eq_2 step)
  next
    case Dns_cleanup
    then show ?thesis by (intro exI [of _ 1]) (simp add: step)
  qed (use that in simp_all)
  then show "\<exists>n \<le> 4. let m' = (dns_step lookup ^^ n) m in s_dnsTask m' = None \<and> \<not> s_dnsTaskHandle m' \<and>
      s_dnsDone m' = s_dnsDone m \<and> s_dnsFailed m' = s_dnsFailed m" if "dt_pc t \<notin> {Dns_set_done, Dns_set_failed}"
    using that unfolding m [symmetric] by (simp add: t)
  show "wg_tick X e ((dns_step lookup ^^ 3) m) = startTunnelWithIP X e (s_resolvedEndpointIP m)
       (m\<lparr>s_dnsTaskHandle := False, s_dnsTask := None, s_dnsDone := False, s_dnsFailed := False, s_resolvedEndpointIP := []\<rparr>)"
    if c: "dt_pc t = Dns_set_done \<and> dt_success t \<and> \<not> ap_initialized (s_wg m) \<and> s_enabled m \<and> 100000 \<le> en_time e \<and> en_wifi e \<and>
       s_privateKey m \<noteq> [] \<and> s_serverPublicKey m \<noteq> [] \<and> s_endpointHost m \<noteq> [] \<and> s_tunnelAddress m \<noteq> [] \<and>
       s_resolvedEndpointIP m \<noteq> []"
  proof -
    have "m = pt m True Dns_set_done" using m c by (simp add: t)
    then have "(dns_step lookup ^^ 3) m = (dns_step lookup ^^ 3) (pt m True Dns_set_done)" by (rule arg_cong)
    also have "\<dots> = m\<lparr>s_dnsDone := True, s_dnsFailed := False, s_dnsTaskHandle := False, s_dnsTask := None\<rparr>"
      by (simp add: three step)
    finally show ?thesis using c by (simp add: wg_tick_def wg_begin_def Let_def)
  qed
qed

theorem dns_cancelled_witness:
  "\<exists>n \<le> 4. s_dnsTask ((dns_step (\<lambda>host i. None) ^^ n)
      ((boot Map.empty None quiet_world :: (string \<rightharpoonup> pref_value) manager)
         \<lparr>s_dnsTaskHandle := True, s_dnsTask := Some \<lparr>dt_gen = 7, dt_retry = 0, dt_success = False, dt_pc = Dns_sleep 0\<rparr>\<rparr>)) = None"
  using dns_cancelled [of "(boot Map.empty None quiet_world :: (string \<rightharpoonup> pref_value) manager)
         \<lparr>s_dnsTaskHandle := True, s_dnsTask := Some \<lparr>dt_gen = 7, dt_retry = 0, dt_success = False, dt_pc = Dns_sleep 0\<rparr>\<rparr>"
       "\<lparr>dt_gen = 7, dt_retry = 0, dt_success = False, dt_pc = Dns_sleep 0\<rparr>" "\<lambda>host i. None"]
  by (auto simp: boot_def Let_def)

subsection \<open>Configuration\<close>

definition config :: "'n manager \<Rightarrow> bool \<times> string \<times> string \<times> string \<times> u16 \<times> string \<times> u16" where
  "config m = (s_enabled m, s_privateKey m, s_serverPublicKey m, s_endpointHost m, s_endpointPort m,
     s_tunnelAddress m, s_keepalive m)"

definition default_config :: "bool \<times> string \<times> string \<times> string \<times> u16 \<times> string \<times> u16" where
  "default_config = (False, [], [], [], 51820, [], 25)"

lemma load_clear: "prefs_laws (ex_prefs X) \<Longrightarrow> config (wg_load X (m\<lparr>wgPrefs := pf_clear (ex_prefs X) n\<rparr>)) = default_config"
  by (simp add: config_def default_config_def wg_load_def Let_def getter_defs prefs_lawsD(3))

text \<open>
  The configuration survives a restart: what \<open>wg_save\<close> puts in the store, \<open>wg_load\<close> reads
  back, whatever the manager held before, and the state follows the enabled flag. After
  \<open>wg_clear\<close> both the manager and the next \<open>wg_load\<close> have the defaults, and there is no tunnel.
\<close>

theorem config_roundtrip:
  assumes "prefs_laws (ex_prefs X)"
  shows "config (wg_load X (m'\<lparr>wgPrefs := wgPrefs (wg_save X m)\<rparr>)) = config m \<and>
    s_state (wg_load X (m'\<lparr>wgPrefs := wgPrefs (wg_save X m)\<rparr>)) = (if s_enabled m then WG_WAIT_TIME else WG_DISABLED) \<and>
    config (wg_clear X m) = default_config \<and> \<not> ap_initialized (s_wg (wg_clear X m)) \<and>
    config (wg_load X (m'\<lparr>wgPrefs := wgPrefs (wg_clear X m)\<rparr>)) = default_config"
proof -
  note P = prefs_lawsD [OF assms]
  let ?n = "wgPrefs (wg_save X m)"
  have n: "pf_get (ex_prefs X) ''en'' (PBool False) ?n = PBool (s_enabled m)"
    "pf_get (ex_prefs X) ''priv'' (PString []) ?n = PString (s_privateKey m)"
    "pf_get (ex_prefs X) ''srvpub'' (PString []) ?n = PString (s_serverPublicKey m)"
    "pf_get (ex_prefs X) ''endhost'' (PString []) ?n = PString (s_endpointHost m)"
    "pf_get (ex_prefs X) ''endport'' (PUShort 51820) ?n = PUShort (s_endpointPort m)"
    "pf_get (ex_prefs X) ''tunaddr'' (PString []) ?n = PString (s_tunnelAddress m)"
    "pf_get (ex_prefs X) ''keepalive'' (PUShort 25) ?n = PUShort (s_keepalive m)"
    by (simp_all add: wg_save_def Let_def P)
  have "wgPrefs (end_tunnel X x) = wgPrefs x" "wgPrefs (cancel_if_running x) = wgPrefs x" for x
    by (simp_all add: end_tunnel_def split_beta cancel_if_running_def cancelDNS_def)
  then have "wgPrefs (wg_clear X m) = pf_clear (ex_prefs X) (wgPrefs m)"
    by (simp add: wg_clear_def Let_def)
  moreover have "config (wg_clear X m) = default_config" "\<not> ap_initialized (s_wg (wg_clear X m))"
    by (simp_all add: wg_clear_def Let_def config_def default_config_def end_tunnel_frame)
  moreover have "config (wg_load X (m'\<lparr>wgPrefs := ?n\<rparr>)) = config m"
    "s_state (wg_load X (m'\<lparr>wgPrefs := ?n\<rparr>)) = (if s_enabled m then WG_WAIT_TIME else WG_DISABLED)"
    using n by (simp_all add: wg_load_def Let_def getter_defs config_def)
  ultimately show ?thesis using load_clear [OF assms] by simp
qed

theorem config_roundtrip_witness:
  "let m = (boot Map.empty None quiet_world)\<lparr>s_enabled := True, s_endpointHost := ''vpn'', s_endpointPort := 1\<rparr>;
       m' = wg_load toy_externals ((boot Map.empty None quiet_world)\<lparr>wgPrefs := wgPrefs (wg_save toy_externals m)\<rparr>)
   in config m' = (True, [], [], ''vpn'', 1, [], 25) \<and> s_state m' = WG_WAIT_TIME"
proof -
  let ?m = "(boot (Map.empty :: string \<rightharpoonup> pref_value) None quiet_world)\<lparr>s_enabled := True, s_endpointHost := ''vpn'', s_endpointPort := 1\<rparr>"
  have c: "config ?m = (True, [], [], ''vpn'', 1, [], 25)" "s_enabled ?m" by (simp_all add: config_def boot_def)
  have P: "prefs_laws (ex_prefs toy_externals)" by (simp add: toy_externals_def map_prefs_laws)
  note r = config_roundtrip [OF P, where m' = "boot Map.empty None quiet_world" and m = ?m]
  show ?thesis unfolding Let_def r [THEN conjunct1] r [THEN conjunct2, THEN conjunct1] using c by (simp only: if_True simp_thms)
qed

subsection \<open>Addresses and retries\<close>

lemma mask_bytes_val:
  "be_val [ucast (drop_bit 24 m), ucast (drop_bit 16 m AND 0xFF), ucast (drop_bit 8 m AND 0xFF), ucast (m AND 0xFF)] = unat (m :: u32)"
proof -
  have b: "ucast (x AND 0xFF) = (ucast x :: u8)" for x :: u32
    by (rule bit_word_eqI) (auto simp: bit_simps less_Suc_eq eval_nat_numeral)
  have u: "unat (ucast (drop_bit n m) :: u8) = unat m div 2 ^ n mod 256" "unat (ucast m :: u8) = unat m mod 256" for n
    by (simp_all add: unat_ucast_mod unat_drop_bit)
  have "unat m div 2 ^ 24 < 256" using unat_u32_less [of m] by (simp add: less_mult_imp_div_less)
  moreover have "unat m = unat m mod 256 + 256 * (unat m div 256 mod 256 + 256 * (unat m div 256 div 256 mod 256 + 256 * (unat m div 256 div 256 div 256)))"
    by (simp add: mod_mult_div_eq div_mod_decomp)
  ultimately show ?thesis
    by (simp add: be_val_def b u div_mult2_eq [symmetric])
qed

lemma prefix_mask_val:
  assumes "k < 32"
  shows "unat (NOT (push_bit k 1 - 1) :: u32) = 2 ^ 32 - 2 ^ k"
proof -
  have p: "(2 :: int) ^ k < 2 ^ 32" using assms by (intro power_strict_increasing) simp_all
  then have p': "(2 :: int) ^ k < 4294967296" by simp
  have k: "uint (push_bit k 1 :: u32) = 2 ^ k"
  proof -
    have "(2 :: nat) ^ k < 2 ^ 32" using assms by (intro power_strict_increasing) simp_all
    then have "unat (push_bit k 1 :: u32) = 2 ^ k" by (simp only: unat_push_bit) simp
    then have "int (unat (push_bit k 1 :: u32)) = 2 ^ k" by (simp only: of_nat_power of_nat_numeral)
    then show ?thesis by simp
  qed
  have "uint (- push_bit k 1 :: u32) = (- (2 ^ k)) mod 2 ^ 32"
    by (simp only: uint_word_ariths k) simp
  also have "\<dots> = (2 ^ 32 - 2 ^ k) mod 2 ^ 32"
    by (metis add_uminus_conv_diff mod_add_self1)
  also have "\<dots> = 2 ^ 32 - 2 ^ k" using p by (intro mod_pos_pos_trivial) simp_all
  finally have "uint (- push_bit k 1 :: u32) = 2 ^ 32 - 2 ^ k" .
  then have "int (unat (- push_bit k 1 :: u32)) = int (2 ^ 32 - 2 ^ k)"
  proof -
    have "(2 :: nat) ^ k \<le> 2 ^ 32" using assms by (intro power_increasing) simp_all
    then have "int (2 ^ 32 - 2 ^ k) = 2 ^ 32 - 2 ^ k" by (simp only: of_nat_diff of_nat_power of_nat_numeral)
    with \<open>uint (- push_bit k 1 :: u32) = 2 ^ 32 - 2 ^ k\<close> show ?thesis by (simp only: of_nat_unat)
  qed
  then have "unat (- push_bit k 1 :: u32) = 2 ^ 32 - 2 ^ k" by (simp only: of_nat_eq_iff)
  moreover have "NOT (push_bit k 1 - 1) = (- push_bit k 1 :: u32)"
    by (simp only: minus_eq_not_minus_1)
  ultimately show ?thesis by simp
qed

text \<open>
  A tunnel address \<open>host/n\<close> is accepted exactly if n is between 1 and 32 and the host part
  is an address; the mask then has the n highest bits set. Without a slash it is refused, and
  nothing is stored.
\<close>

theorem tunnel_address_parsed:
  assumes "CHR ''/'' \<notin> set host"
  shows "(case parseTunnelAddress fromString (host @ CHR ''/'' # dec n) ip net_mask of (ok, ip', mask') \<Rightarrow>
      (ok \<longleftrightarrow> 1 \<le> n \<and> n \<le> 32 \<and> fst (fromString host ip)) \<and>
      (if ok then ip' = snd (fromString host ip) \<and> length mask' = 4 \<and> be_val mask' = 2 ^ 32 - 2 ^ (32 - n)
       else mask' = net_mask)) \<and>
    parseTunnelAddress fromString host ip net_mask = (False, ip, net_mask)"
proof -
  have i: "index_of (CHR ''/'') (host @ CHR ''/'' # dec n) = Some (length host)"
    by (rule index_of_append [OF assms])
  have none: "index_of (CHR ''/'') host = None" using assms by (intro index_of_None [THEN iffD2])
  have a: "atol (drop (length host + 1) (host @ CHR ''/'' # dec n)) = int n" by (simp add: atol_dec)
  obtain ok ip' where f: "fromString host ip = (ok, ip')" by fastforce
  let ?m = "(if int n = 32 then 0xFFFFFFFF else NOT (push_bit (nat (32 - int n)) 1 - 1)) :: u32"
  let ?bytes = "[ucast (drop_bit 24 ?m), ucast (drop_bit 16 ?m AND 0xFF), ucast (drop_bit 8 ?m AND 0xFF), ucast (?m AND 0xFF)] :: bytes"
  have v: "be_val ?bytes = 2 ^ 32 - 2 ^ (32 - n)" if "1 \<le> n" "n \<le> 32"
  proof (cases "n = 32")
    case True
    then have "unat ?m = 2 ^ 32 - 2 ^ (32 - n)" by simp
    then show ?thesis by (simp only: mask_bytes_val)
  next
    case False
    then have "nat (32 - int n) = 32 - n" "32 - n < 32" using that by auto
    moreover have "int n \<noteq> 32" using False by simp
    ultimately have "unat ?m = 2 ^ 32 - 2 ^ (32 - n)" by (simp only: prefix_mask_val if_False)
    then show ?thesis by (simp only: mask_bytes_val)
  qed
  have "parseTunnelAddress fromString (host @ CHR ''/'' # dec n) ip net_mask =
      (if int n < 1 \<or> int n > 32 then (False, ip, net_mask)
       else if \<not> ok then (False, ip', net_mask) else (True, ip', ?bytes))"
    by (simp only: parseTunnelAddress_def i option.case a Let_def) (simp only: take_append f split append.simps take_all order_refl diff_self_eq_0 take_0 append_Nil2)
  moreover have "length ?bytes = 4" by simp
  ultimately show ?thesis
    using v none by (simp del: One_nat_def add: f parseTunnelAddress_def)
qed

theorem tunnel_address_parsed_witness:
  "CHR ''/'' \<notin> set ''10.0.0.2'' \<and>
   fst (parseTunnelAddress (\<lambda>s ip. (True, [10, 0, 0, 2])) (''10.0.0.2'' @ CHR ''/'' # dec 24) (zeros 4) (zeros 4)) \<and>
   fst (snd (parseTunnelAddress (\<lambda>s ip. (True, [10, 0, 0, 2])) (''10.0.0.2'' @ CHR ''/'' # dec 24) (zeros 4) (zeros 4))) = [10, 0, 0, 2]"
proof -
  have "CHR ''/'' \<notin> set ''10.0.0.2''" by simp
  from tunnel_address_parsed [OF this, where fromString = "\<lambda>s ip. (True, [10, 0, 0, 2])" and n = 24 and ip = "zeros 4" and net_mask = "zeros 4"] this
  show ?thesis by (auto split: prod.splits if_splits)
qed

text \<open>What \<open>wg_tick\<close> needs to try, besides the pause.\<close>

definition ready_to_connect :: "env \<Rightarrow> 'n manager \<Rightarrow> bool" where
  "ready_to_connect e m \<longleftrightarrow> s_enabled m \<and> 100000 \<le> en_time e \<and> en_wifi e \<and> \<not> ap_initialized (s_wg m) \<and>
     s_privateKey m \<noteq> [] \<and> s_serverPublicKey m \<noteq> [] \<and> s_endpointHost m \<noteq> [] \<and> s_tunnelAddress m \<noteq> [] \<and>
     \<not> s_dnsTaskHandle m"

text \<open>
  C21. The retries. A failed resolution notes the time and lengthens the pause, and until the
  pause is over no tick starts another one. But when the name resolves and the tunnel address
  is refused, neither is done: the pause counts from the attempt before, so once it is over
  every tick that finds a result drops it and the next one resolves the name again at once.
\<close>

theorem retry_pause:
  assumes "ready_to_connect e m" and "s_dnsDone m"
  shows "(s_dnsFailed m \<and> s_backoffMs m \<le> en_millis e - s_lastAttemptMs m \<longrightarrow>
      (\<exists>m'. wg_tick X e m = Some m' \<and> s_lastAttemptMs m' = en_millis e \<and>
         s_backoffMs m' = (if s_backoffMs m < 30000 then s_backoffMs m + 5000 else s_backoffMs m) \<and>
         (\<forall>e'. en_time e' \<ge> 100000 \<and> en_wifi e' \<and> en_millis e' - en_millis e < s_backoffMs m' \<longrightarrow>
            wg_tick X e' m' = Some m'))) \<and>
    (\<not> s_dnsFailed m \<and> s_resolvedEndpointIP m \<noteq> [] \<and>
     \<not> fst (parseTunnelAddress (ex_fromString X) (s_tunnelAddress m) (s_tunnelIP m) (s_tunnelMask m)) \<longrightarrow>
      (\<exists>m'. wg_tick X e m = Some m' \<and> \<not> ap_initialized (s_wg m') \<and>
         s_lastAttemptMs m' = s_lastAttemptMs m \<and> s_backoffMs m' = s_backoffMs m \<and>
         (\<forall>e'. en_time e' \<ge> 100000 \<and> en_wifi e' \<and> en_task e' \<and> s_backoffMs m \<le> en_millis e' - s_lastAttemptMs m \<longrightarrow>
            (\<exists>m2. wg_tick X e' m' = Some m2 \<and> s_dnsTaskHandle m2 \<and> s_state m2 = WG_CONNECTING))))"
proof (intro conjI impI; (elim conjE)?)
  assume f: "s_dnsFailed m" "s_backoffMs m \<le> en_millis e - s_lastAttemptMs m"
  let ?m = "raise_backoff (m\<lparr>s_dnsDone := False, s_dnsFailed := False, s_resolvedEndpointIP := [], s_lastAttemptMs := en_millis e\<rparr>)"
  have "wg_tick X e m = Some ?m"
    using assms f by (simp add: ready_to_connect_def wg_tick_def wg_begin_def Let_def not_less)
  moreover have fields: "s_lastAttemptMs ?m = en_millis e"
    "s_backoffMs ?m = (if s_backoffMs m < 30000 then s_backoffMs m + 5000 else s_backoffMs m)"
    "s_enabled ?m" "\<not> ap_initialized (s_wg ?m)" "\<not> s_dnsDone ?m" "\<not> s_dnsTaskHandle ?m"
    using assms by (simp_all add: raise_backoff_def ready_to_connect_def)
  moreover have "wg_tick X e' ?m = Some ?m"
    if "en_time e' \<ge> 100000" "en_wifi e'" "en_millis e' - en_millis e < s_backoffMs ?m" for e'
    unfolding wg_tick_def using that fields(1,3-6) by simp
  ultimately show "\<exists>m'. wg_tick X e m = Some m' \<and> s_lastAttemptMs m' = en_millis e \<and>
         s_backoffMs m' = (if s_backoffMs m < 30000 then s_backoffMs m + 5000 else s_backoffMs m) \<and>
         (\<forall>e'. en_time e' \<ge> 100000 \<and> en_wifi e' \<and> en_millis e' - en_millis e < s_backoffMs m' \<longrightarrow>
            wg_tick X e' m' = Some m')" by blast
next
  assume s: "\<not> s_dnsFailed m" "s_resolvedEndpointIP m \<noteq> []"
    and p: "\<not> fst (parseTunnelAddress (ex_fromString X) (s_tunnelAddress m) (s_tunnelIP m) (s_tunnelMask m))"
  obtain ip net where parse: "parseTunnelAddress (ex_fromString X) (s_tunnelAddress m) (s_tunnelIP m) (s_tunnelMask m) = (False, ip, net)"
    using p by (metis (full_types) fst_conv prod_cases3)
  let ?m = "m\<lparr>s_dnsDone := False, s_dnsFailed := False, s_resolvedEndpointIP := [], s_tunnelIP := ip, s_tunnelMask := net\<rparr>"
  have "wg_tick X e m = Some ?m"
    using assms s parse by (simp add: ready_to_connect_def wg_tick_def wg_begin_def startTunnelWithIP_def Let_def)
  moreover have "\<exists>m2. wg_tick X e' ?m = Some m2 \<and> s_dnsTaskHandle m2 \<and> s_state m2 = WG_CONNECTING"
    if "en_time e' \<ge> 100000" "en_wifi e'" "en_task e'" "s_backoffMs m \<le> en_millis e' - s_lastAttemptMs m" for e'
  proof -
    have "\<not> en_millis e' - s_lastAttemptMs m < s_backoffMs m"
      using that by (simp add: not_less)
    then show ?thesis
      using assms(1) that(1-3)
      by (simp add: ready_to_connect_def wg_tick_def wg_begin_def create_dns_task_def Let_def del: not_less linorder_not_less)
  qed
  ultimately show "\<exists>m'. wg_tick X e m = Some m' \<and> \<not> ap_initialized (s_wg m') \<and>
         s_lastAttemptMs m' = s_lastAttemptMs m \<and> s_backoffMs m' = s_backoffMs m \<and>
         (\<forall>e'. en_time e' \<ge> 100000 \<and> en_wifi e' \<and> en_task e' \<and> s_backoffMs m \<le> en_millis e' - s_lastAttemptMs m \<longrightarrow>
            (\<exists>m2. wg_tick X e' m' = Some m2 \<and> s_dnsTaskHandle m2 \<and> s_state m2 = WG_CONNECTING))"
    using assms by (intro exI [of _ ?m]) (simp add: ready_to_connect_def)
qed

theorem retry_pause_witness:
  "let m = (boot Map.empty None quiet_world :: (string \<rightharpoonup> pref_value) manager)
         \<lparr>s_enabled := True, s_privateKey := ''k'', s_serverPublicKey := ''k'', s_endpointHost := ''vpn'',
          s_tunnelAddress := ''10.0.0.2'', s_dnsDone := True, s_resolvedEndpointIP := ''192.0.2.1'', s_lastAttemptMs := 1000\<rparr>
   in \<exists>m'. wg_tick toy_externals \<lparr>en_millis = 9000, en_time = 100000, en_wifi = True, en_task = True\<rparr> m = Some m' \<and>
        s_lastAttemptMs m' = 1000 \<and> s_backoffMs m' = 5000"
proof -
  let ?m = "(boot Map.empty None quiet_world :: (string \<rightharpoonup> pref_value) manager)
         \<lparr>s_enabled := True, s_privateKey := ''k'', s_serverPublicKey := ''k'', s_endpointHost := ''vpn'',
          s_tunnelAddress := ''10.0.0.2'', s_dnsDone := True, s_resolvedEndpointIP := ''192.0.2.1'', s_lastAttemptMs := 1000\<rparr>"
  let ?e = "\<lparr>en_millis = 9000, en_time = 100000, en_wifi = True, en_task = True\<rparr>"
  have "index_of (CHR ''/'') ''10.0.0.2'' = None" by (simp add: index_of_None)
  then have "\<not> fst (parseTunnelAddress (ex_fromString toy_externals) (s_tunnelAddress ?m) (s_tunnelIP ?m) (s_tunnelMask ?m))"
    by (simp add: parseTunnelAddress_def)
  moreover have "ready_to_connect ?e ?m" "s_dnsDone ?m" by (simp_all add: ready_to_connect_def boot_def)
  moreover have "\<not> s_dnsFailed ?m" "s_resolvedEndpointIP ?m \<noteq> []" "s_lastAttemptMs ?m = 1000" "s_backoffMs ?m = 5000"
    by (simp_all add: boot_def)
  ultimately show ?thesis
    using retry_pause [of ?e ?m toy_externals] unfolding Let_def by metis
qed

end
