(* ===== verification/Fw_Stream.thy ===== *)
theory Fw_Stream
  imports Prelude
begin

text \<open>
  The sketch \<open>esp32_rtsp_mic_birdnetgo.ino\<close>: how the main loop and the audio task share the
  client's socket. The loop hands the socket over on PLAY and asks for it back through two
  flags and a deadline; the task is created and stopped through its handle and a semaphore.

  Each transition is one access of a core to a shared variable, in the order of the code, and
  the two interleave freely. What a core does between accesses is the input of its transition:
  the clock, the outcome of a call, the command that arrives. The HTTP handlers run in the
  main loop.
\<close>

subsection \<open>State\<close>

text \<open>Where the audio task is, in \<open>audioCaptureTask\<close> and \<open>sendRTPPacket\<close>.\<close>

datatype task_pc =
    T_start | T_alloc | T_alloc_failed
  | T_while | T_check
  | T_stop_load | T_stop_close | T_stop_client | T_stop_streaming | T_stop_led | T_stop_done | T_stop_wait
  | T_streaming | T_client | T_load | T_read | T_send
  | T_drop_client | T_drop_streaming | T_drop_led
  | T_rtsp | T_command
  | T_end_client | T_end_streaming | T_end_led
  | T_exit_led | T_exit_running | T_exit_give

text \<open>The size its buffers were allocated with, and whether its copy of the pointer is not null.\<close>

record audio_task =
  t_pc :: task_pc
  t_size :: u16
  t_client :: bool

text \<open>What follows a stop of the stream: nothing, the end of the task, or the rest of \<open>restartI2S\<close>.\<close>

datatype after_stop = Then_return | Then_stop_task | Then_restart bool

text \<open>
  Where the main loop is: \<open>L_idle\<close> between two actions, \<open>L_client\<close> in the part of \<open>loop\<close> that
  uses the socket, then the accesses of PLAY, of \<open>requestStreamStop\<close>, of
  \<open>stopAudioCaptureTask\<close> and of the end of \<open>restartI2S\<close>.
\<close>

datatype loop_pc =
    L_idle | L_client
  | P_requested | P_done | P_led | P_client | P_streaming | P_start
  | L_restart | L_restart_stop bool
  | S_check after_stop | S_check_client after_stop | S_request after_stop
  | S_poll u32 after_stop | S_test after_stop
  | S_clean_streaming after_stop | S_clean_client after_stop | S_clean_requested after_stop | S_clean_done after_stop
  | S_force_streaming after_stop | S_force_client after_stop | S_force_requested after_stop
  | S_force_done after_stop | S_force_led after_stop
  | K_handle "bool option" | K_take "bool option" | K_null "bool option"
  | R_resume bool | R_streaming | R_start

text \<open>\<open>streamClient\<close> and the handle tell whether the pointer is not null; the socket is \<open>client_open\<close>.\<close>

record stream =
  isStreaming :: bool
  streamClient :: bool
  stopStreamRequested :: bool
  streamCleanupDone :: bool
  audioTaskRunning :: bool
  audioCaptureTaskHandle :: bool
  taskExitSemaphore :: bool
  core1OwnsLED :: bool
  currentBufferSize :: u16
  client_open :: bool
  st_tasks :: "audio_task list"
  st_loop :: loop_pc

subsection \<open>The audio task\<close>

datatype command = TEARDOWN | GET_PARAMETER | Other_command

record task_input =
  ti_alloc :: bool
  ti_data :: bool
  ti_connected :: bool
  ti_give_up :: bool
  ti_command :: "command option"

text \<open>
  One access of the task; \<open>None\<close> as the task: it has deleted itself. \<open>ti_data\<close>: the microphone
  was read without an error and gave some bytes; \<open>ti_give_up\<close>: this was the hundredth write in
  a row that failed; \<open>ti_command\<close>: there is a request and 200 ms have passed since the last look.
\<close>

definition task_step :: "task_input \<Rightarrow> audio_task \<Rightarrow> stream \<Rightarrow> audio_task option \<times> stream" where
  "task_step i t s =
     (let goto = (\<lambda>pc. Some (t\<lparr>t_pc := pc\<rparr>))
      in case t_pc t of
           T_start \<Rightarrow> (goto T_alloc, s\<lparr>audioTaskRunning := True\<rparr>)
         | T_alloc \<Rightarrow>
             if ti_alloc i then (Some (t\<lparr>t_size := currentBufferSize s, t_pc := T_while\<rparr>), s)
             else (goto T_alloc_failed, s)
         | T_alloc_failed \<Rightarrow> (None, s\<lparr>audioTaskRunning := False\<rparr>)
         | T_while \<Rightarrow> (goto (if audioTaskRunning s then T_check else T_exit_led), s)
         | T_check \<Rightarrow> (goto (if stopStreamRequested s then T_stop_load else T_streaming), s)
         | T_stop_load \<Rightarrow>
             (Some (t\<lparr>t_client := streamClient s, t_pc := (if streamClient s then T_stop_close else T_stop_client)\<rparr>), s)
         | T_stop_close \<Rightarrow> (goto T_stop_client, s\<lparr>client_open := False\<rparr>)
         | T_stop_client \<Rightarrow> (goto T_stop_streaming, s\<lparr>streamClient := False\<rparr>)
         | T_stop_streaming \<Rightarrow> (goto T_stop_led, s\<lparr>isStreaming := False\<rparr>)
         | T_stop_led \<Rightarrow> (goto T_stop_done, s\<lparr>core1OwnsLED := False\<rparr>)
         | T_stop_done \<Rightarrow> (goto T_stop_wait, s\<lparr>streamCleanupDone := True\<rparr>)
         | T_stop_wait \<Rightarrow> (goto (if stopStreamRequested s \<and> audioTaskRunning s then T_stop_wait else T_while), s)
         | T_streaming \<Rightarrow> (goto (if \<not> isStreaming s then T_while else T_client), s)
         | T_client \<Rightarrow> (goto (if \<not> streamClient s then T_while else T_load), s)
         | T_load \<Rightarrow> (Some (t\<lparr>t_client := streamClient s, t_pc := T_read\<rparr>), s)
         | T_read \<Rightarrow> (goto (if \<not> ti_data i then T_while else T_send), s)
         | T_send \<Rightarrow>
             if \<not> (client_open s \<and> ti_connected i) then (goto T_drop_client, s\<lparr>client_open := False\<rparr>)
             else if ti_give_up i then (goto T_drop_client, s\<lparr>client_open := False\<rparr>)
             else (goto T_rtsp, s)
         | T_drop_client \<Rightarrow> (goto T_drop_streaming, s\<lparr>streamClient := False\<rparr>)
         | T_drop_streaming \<Rightarrow> (goto T_drop_led, s\<lparr>isStreaming := False\<rparr>)
         | T_drop_led \<Rightarrow> (goto T_rtsp, s\<lparr>core1OwnsLED := False\<rparr>)
         | T_rtsp \<Rightarrow> (goto (if t_client t \<and> isStreaming s \<and> ti_command i \<noteq> None then T_command else T_while), s)
         | T_command \<Rightarrow>
             if ti_command i = Some TEARDOWN then (goto T_end_client, s\<lparr>client_open := False\<rparr>)
             else (goto T_while, s)
         | T_end_client \<Rightarrow> (goto T_end_streaming, s\<lparr>streamClient := False\<rparr>)
         | T_end_streaming \<Rightarrow> (goto T_end_led, s\<lparr>isStreaming := False\<rparr>)
         | T_end_led \<Rightarrow> (goto T_while, s\<lparr>core1OwnsLED := False\<rparr>)
         | T_exit_led \<Rightarrow> (goto T_exit_running, s\<lparr>core1OwnsLED := False\<rparr>)
         | T_exit_running \<Rightarrow> (goto T_exit_give, s\<lparr>audioTaskRunning := False\<rparr>)
         | T_exit_give \<Rightarrow> (None, s\<lparr>taskExitSemaphore := True\<rparr>))"

text \<open>The step of the task at a position; the tasks are in the order they were created in.\<close>

definition core1_step :: "task_input \<Rightarrow> nat \<Rightarrow> stream \<Rightarrow> stream" where
  "core1_step i k s =
     (case task_step i (st_tasks s ! k) s of
        (Some t, s) \<Rightarrow> s\<lparr>st_tasks := (st_tasks s)[k := t]\<rparr>
      | (None, s) \<Rightarrow> s\<lparr>st_tasks := take k (st_tasks s) @ drop (Suc k) (st_tasks s)\<rparr>)"

subsection \<open>The main loop\<close>

text \<open>
  What the loop does next: look after the client; in that part accept a connection, answer a
  request, answer PLAY, drop an idle client, or leave; a stop from the page, from the loss of
  WiFi, from the server being disabled, from overheating; a restart of the microphone; and a
  new buffer size from the page, which restarts it.
\<close>

datatype action =
    Serve_client | Accept | Answer | Play | Drop_idle | Leave
  | Server_stop | Wifi_lost | Server_disabled | Overheat
  | Restart_i2s | Set_buffer u16

text \<open>\<open>li_expired\<close>: two seconds passed without the semaphore; \<open>li_created\<close>: a task can be made.\<close>

record loop_input =
  li_action :: action
  li_now :: u32
  li_expired :: bool
  li_created :: bool

definition startAudioCaptureTask :: "loop_input \<Rightarrow> stream \<Rightarrow> stream" where
  "startAudioCaptureTask i s =
     (if audioCaptureTaskHandle s then s
      else if li_created i then
        s\<lparr>audioCaptureTaskHandle := True,
          st_tasks := st_tasks s @ [\<lparr>t_pc = T_start, t_size = 0, t_client = False\<rparr>]\<rparr>
      else s)"

fun loop_after :: "after_stop \<Rightarrow> loop_pc" where
  "loop_after Then_return = L_idle"
| "loop_after Then_stop_task = K_handle None"
| "loop_after (Then_restart was) = K_handle (Some was)"

fun task_stopped :: "bool option \<Rightarrow> loop_pc" where
  "task_stopped None = L_idle"
| "task_stopped (Some was) = R_resume was"

definition loop_idle :: "loop_input \<Rightarrow> stream \<Rightarrow> stream" where
  "loop_idle i s =
     (let goto = (\<lambda>pc. s\<lparr>st_loop := pc\<rparr>)
      in case li_action i of
           Serve_client \<Rightarrow> if \<not> isStreaming s then goto L_client else s
         | Server_stop \<Rightarrow> if isStreaming s then goto (S_check Then_return) else s
         | Wifi_lost \<Rightarrow> if isStreaming s then goto (S_check Then_stop_task) else s
         | Server_disabled \<Rightarrow> if isStreaming s then goto (S_check Then_stop_task) else s
         | Overheat \<Rightarrow> if isStreaming s then goto (S_check Then_stop_task) else goto (K_handle None)
         | Restart_i2s \<Rightarrow> goto L_restart
         | Set_buffer n \<Rightarrow> (goto L_restart)\<lparr>currentBufferSize := n\<rparr>
         | _ \<Rightarrow> s)"

definition loop_client :: "loop_input \<Rightarrow> stream \<Rightarrow> stream" where
  "loop_client i s =
     (case li_action i of
        Accept \<Rightarrow> if \<not> client_open s then s\<lparr>client_open := True\<rparr> else s
      | Answer \<Rightarrow> s
      | Play \<Rightarrow> if client_open s then s\<lparr>st_loop := P_requested\<rparr> else s
      | Drop_idle \<Rightarrow> s\<lparr>client_open := False\<rparr>
      | Leave \<Rightarrow> s\<lparr>st_loop := L_idle\<rparr>
      | _ \<Rightarrow> s)"

text \<open>The deadline is computed and compared in 32 bits.\<close>

definition loop_step :: "loop_input \<Rightarrow> stream \<Rightarrow> stream" where
  "loop_step i s =
     (let goto = (\<lambda>pc s. s\<lparr>st_loop := pc\<rparr>)
      in case st_loop s of
           L_idle \<Rightarrow> loop_idle i s
         | L_client \<Rightarrow> loop_client i s
         | P_requested \<Rightarrow> goto P_done (s\<lparr>stopStreamRequested := False\<rparr>)
         | P_done \<Rightarrow> goto P_led (s\<lparr>streamCleanupDone := False\<rparr>)
         | P_led \<Rightarrow> goto P_client (s\<lparr>core1OwnsLED := True\<rparr>)
         | P_client \<Rightarrow> goto P_streaming (s\<lparr>streamClient := True\<rparr>)
         | P_streaming \<Rightarrow> goto P_start (s\<lparr>isStreaming := True\<rparr>)
         | P_start \<Rightarrow> goto L_idle (startAudioCaptureTask i s)
         | L_restart \<Rightarrow> goto (L_restart_stop (isStreaming s)) s
         | L_restart_stop was \<Rightarrow>
             goto (if isStreaming s then S_check (Then_restart was) else K_handle (Some was)) s
         | S_check k \<Rightarrow> goto (if \<not> isStreaming s then S_check_client k else S_request k) s
         | S_check_client k \<Rightarrow> goto (if \<not> streamClient s then loop_after k else S_request k) s
         | S_request k \<Rightarrow> goto (S_poll (li_now i + 3000) k) (s\<lparr>stopStreamRequested := True\<rparr>)
         | S_poll deadline k \<Rightarrow>
             if streamCleanupDone s \<or> \<not> li_now i < deadline then goto (S_test k) s else s
         | S_test k \<Rightarrow> goto (if streamCleanupDone s then S_clean_streaming k else S_force_streaming k) s
         | S_clean_streaming k \<Rightarrow> goto (S_clean_client k) (s\<lparr>isStreaming := False\<rparr>)
         | S_clean_client k \<Rightarrow> goto (S_clean_requested k) (s\<lparr>streamClient := False\<rparr>)
         | S_clean_requested k \<Rightarrow> goto (S_clean_done k) (s\<lparr>stopStreamRequested := False\<rparr>)
         | S_clean_done k \<Rightarrow> goto (loop_after k) (s\<lparr>streamCleanupDone := False\<rparr>)
         | S_force_streaming k \<Rightarrow> goto (S_force_client k) (s\<lparr>isStreaming := False\<rparr>)
         | S_force_client k \<Rightarrow> goto (S_force_requested k) (s\<lparr>streamClient := False\<rparr>)
         | S_force_requested k \<Rightarrow> goto (S_force_done k) (s\<lparr>stopStreamRequested := False\<rparr>)
         | S_force_done k \<Rightarrow> goto (S_force_led k) (s\<lparr>streamCleanupDone := False\<rparr>)
         | S_force_led k \<Rightarrow> goto (loop_after k) (s\<lparr>core1OwnsLED := False\<rparr>)
         | K_handle k \<Rightarrow>
             if audioCaptureTaskHandle s then goto (K_take k) (s\<lparr>audioTaskRunning := False\<rparr>)
             else goto (task_stopped k) s
         | K_take k \<Rightarrow>
             if taskExitSemaphore s then goto (K_null k) (s\<lparr>taskExitSemaphore := False\<rparr>)
             else if li_expired i then goto (K_null k) s
             else s
         | K_null k \<Rightarrow> goto (task_stopped k) (s\<lparr>audioCaptureTaskHandle := False\<rparr>)
         | R_resume was \<Rightarrow>
             if was \<and> client_open s then goto R_streaming (s\<lparr>streamClient := True\<rparr>) else goto L_idle s
         | R_streaming \<Rightarrow> goto R_start (s\<lparr>isStreaming := True\<rparr>)
         | R_start \<Rightarrow> goto L_idle (startAudioCaptureTask i s))"

subsection \<open>Runs\<close>

text \<open>
  A wait that gives up: the deadline of \<open>requestStreamStop\<close> is over without a confirmation, or
  the two seconds of \<open>stopAudioCaptureTask\<close> are.
\<close>

definition gives_up :: "loop_input \<Rightarrow> stream \<Rightarrow> bool" where
  "gives_up i s =
     (case st_loop s of
        S_poll deadline k \<Rightarrow> \<not> streamCleanupDone s \<and> \<not> li_now i < deadline
      | K_take k \<Rightarrow> \<not> taskExitSemaphore s \<and> li_expired i
      | _ \<Rightarrow> False)"

text \<open>A step of either core; in a patient one the main loop does not give up.\<close>

inductive handoff_step :: "bool \<Rightarrow> stream \<Rightarrow> stream \<Rightarrow> bool" for patient where
  core1: "k < length (st_tasks s) \<Longrightarrow> handoff_step patient s (core1_step i k s)"
| core0: "(patient \<longrightarrow> \<not> gives_up i s) \<Longrightarrow> handoff_step patient s (loop_step i s)"

definition stream_boot :: "u16 \<Rightarrow> stream" where
  "stream_boot n =
     \<lparr>isStreaming = False, streamClient = False, stopStreamRequested = False, streamCleanupDone = False,
      audioTaskRunning = False, audioCaptureTaskHandle = False, taskExitSemaphore = False, core1OwnsLED = False,
      currentBufferSize = n, client_open = False, st_tasks = [], st_loop = L_idle\<rparr>"

end
