(* ===== verification/Fw_Stream_Props.thy ===== *)
theory Fw_Stream_Props
  imports Fw_Stream
begin

text \<open>
  The handoff of the socket between the main loop and the audio task: the invariant of the runs
  in which the loop is patient, what follows from it for the socket, the buffers and the
  restart, and the schedules that show what happens when the loop gives up. A schedule is a
  list of moves that is executed; \<open>starting\<close> and \<open>playing\<close> bring a client to the stream.
\<close>

subsection \<open>The invariant\<close>

text \<open>The places where the task uses the socket, or is bound to do so before it looks again.\<close>

definition owning :: "task_pc \<Rightarrow> bool" where
  "owning pc \<longleftrightarrow> pc \<in> {T_client, T_load, T_read, T_send, T_drop_client, T_drop_streaming,
     T_command, T_end_client, T_end_streaming}"

definition stopping :: "task_pc \<Rightarrow> bool" where
  "stopping pc \<longleftrightarrow> pc \<in> {T_stop_load, T_stop_close, T_stop_client, T_stop_streaming, T_stop_led, T_stop_done}"

fun asked :: "loop_pc \<Rightarrow> bool" where
  "asked (S_poll d k) = True"
| "asked (S_test k) = True"
| "asked (S_clean_streaming k) = True"
| "asked (S_clean_client k) = True"
| "asked (S_clean_requested k) = True"
| "asked _ = False"

fun polling :: "loop_pc \<Rightarrow> bool" where
  "polling (S_poll d k) = True"
| "polling _ = False"

fun taking :: "loop_pc \<Rightarrow> bool" where
  "taking (K_take k) = True"
| "taking _ = False"

fun confirmed :: "loop_pc \<Rightarrow> bool" where
  "confirmed (S_test k) = True"
| "confirmed (S_clean_streaming k) = True"
| "confirmed (S_clean_client k) = True"
| "confirmed (S_clean_requested k) = True"
| "confirmed (S_clean_done k) = True"
| "confirmed _ = False"

text \<open>The places of the loop at which the stream may run.\<close>

fun may_stream :: "loop_pc \<Rightarrow> bool" where
  "may_stream L_idle = True"
| "may_stream P_start = True"
| "may_stream R_start = True"
| "may_stream L_restart = True"
| "may_stream (L_restart_stop w) = True"
| "may_stream (S_check k) = True"
| "may_stream (S_request k) = True"
| "may_stream (S_poll d k) = True"
| "may_stream _ = False"

fun linking :: "loop_pc \<Rightarrow> bool" where
  "linking P_streaming = True"
| "linking R_streaming = True"
| "linking _ = False"

fun forcing :: "loop_pc \<Rightarrow> bool" where
  "forcing (S_force_streaming k) = True"
| "forcing (S_force_client k) = True"
| "forcing (S_force_requested k) = True"
| "forcing (S_force_done k) = True"
| "forcing (S_force_led k) = True"
| "forcing _ = False"

text \<open>The places in a stop or restart at which a stream that ran has a closed socket.\<close>

fun after_stream :: "loop_pc \<Rightarrow> bool" where
  "after_stream (L_restart_stop was) = was"
| "after_stream (S_check k) = True"
| "after_stream (S_check_client k) = True"
| "after_stream (S_request k) = True"
| "after_stream (S_poll d k) = True"
| "after_stream (S_test k) = True"
| "after_stream (S_clean_streaming k) = True"
| "after_stream (S_clean_client k) = True"
| "after_stream (S_clean_requested k) = True"
| "after_stream (S_clean_done k) = True"
| "after_stream (K_handle (Some was)) = was"
| "after_stream (K_take (Some was)) = was"
| "after_stream (K_null (Some was)) = was"
| "after_stream (R_resume was) = was"
| "after_stream _ = False"

text \<open>
  The places at which the task's copy of the pointer is not null, at which the shared one is
  not, at which the socket is closed, and at which the task is about to end.
\<close>

definition holding :: "task_pc \<Rightarrow> bool" where
  "holding pc \<longleftrightarrow> pc \<in> {T_read, T_send, T_drop_client, T_drop_streaming, T_drop_led, T_rtsp, T_command, T_stop_close}"

definition linked :: "task_pc \<Rightarrow> bool" where
  "linked pc \<longleftrightarrow> pc \<in> {T_load, T_read, T_send}"

definition closed :: "task_pc \<Rightarrow> bool" where
  "closed pc \<longleftrightarrow> pc \<in> {T_drop_client, T_drop_streaming, T_end_client, T_end_streaming,
     T_stop_client, T_stop_streaming, T_stop_led, T_stop_done}"

definition cleared :: "task_pc \<Rightarrow> bool" where
  "cleared pc \<longleftrightarrow> pc \<in> {T_stop_led, T_stop_done}"

definition unlinked :: "task_pc \<Rightarrow> bool" where
  "unlinked pc \<longleftrightarrow> pc \<in> {T_stop_streaming, T_stop_led, T_stop_done}"

definition exiting :: "task_pc \<Rightarrow> bool" where
  "exiting pc \<longleftrightarrow> pc \<in> {T_exit_led, T_exit_running, T_exit_give}"

lemmas places = owning_def stopping_def holding_def linked_def closed_def cleared_def unlinked_def exiting_def

definition task_ok :: "stream \<Rightarrow> audio_task \<Rightarrow> bool" where
  "task_ok s t \<longleftrightarrow>
     (owning (t_pc t) \<longrightarrow> isStreaming s) \<and>
     (stopping (t_pc t) \<longrightarrow> polling (st_loop s) \<and> \<not> streamCleanupDone s) \<and>
     (polling (st_loop s) \<and> streamCleanupDone s \<longrightarrow> t_pc t = T_stop_wait) \<and>
     (asked (st_loop s) \<and> confirmed (st_loop s) \<longrightarrow> t_pc t = T_stop_wait) \<and>
     (linked (t_pc t) \<longrightarrow> streamClient s) \<and>
     (holding (t_pc t) \<longrightarrow> t_client t) \<and>
     (closed (t_pc t) \<longrightarrow> \<not> client_open s) \<and>
     (cleared (t_pc t) \<longrightarrow> \<not> isStreaming s) \<and>
     (unlinked (t_pc t) \<longrightarrow> \<not> streamClient s) \<and>
     (exiting (t_pc t) \<longrightarrow> taking (st_loop s)) \<and>
     (t_pc t \<noteq> T_start \<and> \<not> taking (st_loop s) \<longrightarrow> audioTaskRunning s)"

definition handoff_ok :: "stream \<Rightarrow> bool" where
  "handoff_ok s \<longleftrightarrow>
     (\<forall>t \<in> set (st_tasks s). task_ok s t) \<and>
     length (st_tasks s) \<le> 1 \<and>
     (\<not> audioCaptureTaskHandle s \<longrightarrow> st_tasks s = []) \<and>
     (taskExitSemaphore s \<longrightarrow> st_tasks s = [] \<and> taking (st_loop s)) \<and>
     (\<forall>k. st_loop s = K_null k \<longrightarrow> st_tasks s = []) \<and>
     (stopStreamRequested s \<longleftrightarrow> asked (st_loop s)) \<and>
     (streamCleanupDone s \<longrightarrow> polling (st_loop s) \<or> confirmed (st_loop s)) \<and>
     (confirmed (st_loop s) \<longrightarrow> streamCleanupDone s) \<and>
     (polling (st_loop s) \<and> streamCleanupDone s \<longrightarrow> \<not> isStreaming s \<and> \<not> streamClient s) \<and>
     (isStreaming s \<longrightarrow> may_stream (st_loop s)) \<and>
     \<not> forcing (st_loop s) \<and>
     (linking (st_loop s) \<longrightarrow> streamClient s) \<and>
     (isStreaming s \<and> client_open s \<longrightarrow> streamClient s) \<and>
     (after_stream (st_loop s) \<and> client_open s \<longrightarrow> isStreaming s)"

lemma place_kinds:
  "linked pc \<Longrightarrow> owning pc" "cleared pc \<Longrightarrow> stopping pc" "unlinked pc \<Longrightarrow> stopping pc"
  "closed pc \<Longrightarrow> owning pc \<or> stopping pc"
  by (auto simp: places)

lemma place_facts [simp]:
  "\<not> owning T_stop_wait" "\<not> stopping T_stop_wait" "\<not> holding T_stop_wait" "\<not> exiting T_stop_wait"
  "\<not> owning T_start" "\<not> stopping T_start" "\<not> holding T_start" "\<not> exiting T_start"
  "\<not> linked T_start" "\<not> closed T_start" "\<not> cleared T_start" "\<not> unlinked T_start"
  by (simp_all add: places)

lemma loop_places:
  "polling pc \<Longrightarrow> asked pc \<and> \<not> confirmed pc \<and> after_stream pc \<and> \<not> taking pc \<and> \<not> linking pc"
  "asked pc \<Longrightarrow> after_stream pc \<and> \<not> taking pc \<and> polling pc \<noteq> confirmed pc"
  "linking pc \<Longrightarrow> \<not> may_stream pc \<and> \<not> taking pc"
  by (cases pc; simp)+

lemma single_task: "length ts \<le> 1 \<longleftrightarrow> ts = [] \<or> (\<exists>t. ts = [t])"
  by (cases ts rule: remdups_adj.cases) auto

lemma core1_ok:
  assumes "handoff_ok s" and "k < length (st_tasks s)"
  shows "handoff_ok (core1_step i k s)"
proof -
  obtain t where t: "st_tasks s = [t]" "k = 0"
    using assms by (cases "st_tasks s" rule: remdups_adj.cases) (auto simp: handoff_ok_def)
  have ok: "task_ok s t" using assms(1) t(1) by (simp add: handoff_ok_def)
  note p = loop_places [of "st_loop s"]
  show ?thesis
    using assms(1) ok
    apply (simp add: core1_step_def t)
    apply (cases "t_pc t")
    apply (simp_all add: handoff_ok_def task_step_def task_ok_def places t)
    using p apply sat+
    done
qed

lemma loop_after_places:
  "may_stream (loop_after k) \<longleftrightarrow> k = Then_return" "\<not> asked (loop_after k)" "\<not> polling (loop_after k)"
  "\<not> confirmed (loop_after k)" "\<not> taking (loop_after k)" "\<not> forcing (loop_after k)" "loop_after k \<noteq> K_null n"
  "after_stream (loop_after k) \<longleftrightarrow> k = Then_restart True" "\<not> linking (loop_after k)"
  by (cases k; simp; fail)+

lemma task_stopped_places:
  "may_stream (task_stopped k) \<longleftrightarrow> k = None" "\<not> asked (task_stopped k)" "\<not> polling (task_stopped k)"
  "\<not> confirmed (task_stopped k)" "\<not> taking (task_stopped k)" "\<not> forcing (task_stopped k)" "task_stopped k \<noteq> K_null n"
  "after_stream (task_stopped k) \<longleftrightarrow> k = Some True" "\<not> linking (task_stopped k)"
  by (cases k; simp; fail)+

lemma handle_places:
  "after_stream (K_handle k) \<longleftrightarrow> k = Some True" "after_stream (K_take k) \<longleftrightarrow> k = Some True"
  "after_stream (K_null k) \<longleftrightarrow> k = Some True"
  by (cases k; simp; fail)+

lemmas all_places = loop_after_places task_stopped_places handle_places

lemmas loop_defs = loop_step_def handoff_ok_def task_ok_def all_places startAudioCaptureTask_def

lemma tasks_cases:
  assumes "handoff_ok s"
  obtains "st_tasks s = []" | t where "st_tasks s = [t]"
proof -
  have "length (st_tasks s) \<le> 1" using assms unfolding handoff_ok_def by blast
  then show thesis using that by (cases "st_tasks s" rule: remdups_adj.cases) simp_all
qed

lemma poll_ok:
  assumes "handoff_ok s" and "st_loop s = S_poll d k" and "\<not> gives_up i s"
  shows "handoff_ok (loop_step i s)"
proof (cases "streamCleanupDone s")
  case True
  then have "loop_step i s = s\<lparr>st_loop := S_test k\<rparr>" using assms(2) by (simp add: loop_step_def)
  with True assms(1,2) show ?thesis by (auto simp add: handoff_ok_def task_ok_def)
next
  case False
  then have "loop_step i s = s" using assms(2,3) by (simp add: loop_step_def gives_up_def)
  with assms(1) show ?thesis by simp
qed

lemma take_ok:
  assumes "handoff_ok s" and "st_loop s = K_take k" and "\<not> gives_up i s"
  shows "handoff_ok (loop_step i s)"
proof (cases "taskExitSemaphore s")
  case True
  with assms(1) have "st_tasks s = []" by (simp add: handoff_ok_def)
  with True assms(1,2) show ?thesis by (simp add: loop_defs, sat?)
next
  case False
  then have "loop_step i s = s" using assms(2,3) by (simp add: loop_step_def gives_up_def)
  with assms(1) show ?thesis by simp
qed

lemma loop_ok:
  assumes "handoff_ok s" and "\<not> gives_up i s"
  shows "handoff_ok (loop_step i s)"
proof (rule tasks_cases [OF assms(1)])
  assume none: "st_tasks s = []"
  show ?thesis
  proof (cases "st_loop s")
    case L_idle
    with none assms(1) show ?thesis
      by (cases "li_action i") ((simp add: loop_idle_def loop_defs, sat?)[])+
  next
    case L_client
    with none assms(1) show ?thesis
      by (cases "li_action i") ((simp add: loop_client_def loop_defs, sat?)[])+
  next
    case (S_poll d k)
    with assms show ?thesis by (intro poll_ok)
  next
    case (K_take k)
    with assms show ?thesis by (intro take_ok)
  qed (use none assms(1) in \<open>(simp add: loop_defs, sat?)[]\<close>)+
next
  fix t assume one: "st_tasks s = [t]"
  note k = place_kinds [of "t_pc t"]
  show ?thesis
  proof (cases "st_loop s")
    case L_idle
    with one assms(1) k show ?thesis
      by (cases "li_action i") ((simp add: loop_idle_def loop_defs, sat?)[])+
  next
    case L_client
    with one assms(1) k show ?thesis
      by (cases "li_action i") ((simp add: loop_client_def loop_defs, sat?)[])+
  next
    case (S_poll d k)
    with assms show ?thesis by (intro poll_ok)
  next
    case (K_take k)
    with assms show ?thesis by (intro take_ok)
  qed (use one assms(1) k in \<open>(simp add: loop_defs, sat?)[]\<close>)+
qed

lemma stream_boot_ok: "handoff_ok (stream_boot n)"
  by (simp add: handoff_ok_def stream_boot_def)

lemma patient_run_ok:
  assumes "(handoff_step True)\<^sup>*\<^sup>* (stream_boot n) s"
  shows "handoff_ok s"
  using assms
proof (induction rule: rtranclp_induct)
  case base
  show ?case by (rule stream_boot_ok)
next
  case (step s s')
  then show ?case by (auto elim!: handoff_step.cases intro: core1_ok loop_ok)
qed

subsection \<open>Schedules\<close>

text \<open>A schedule chooses the core that moves and its input.\<close>

datatype move = Loop loop_input | Task task_input

fun run_move :: "move \<Rightarrow> stream \<Rightarrow> stream" where
  "run_move (Loop i) s = loop_step i s"
| "run_move (Task i) s = (if st_tasks s = [] then s else core1_step i 0 s)"

fun patient_move :: "move \<Rightarrow> stream \<Rightarrow> bool" where
  "patient_move (Loop i) s \<longleftrightarrow> \<not> gives_up i s"
| "patient_move (Task i) s \<longleftrightarrow> True"

fun run_moves :: "move list \<Rightarrow> stream \<Rightarrow> stream" where
  "run_moves [] s = s"
| "run_moves (m # ms) s = run_moves ms (run_move m s)"

fun patient_moves :: "move list \<Rightarrow> stream \<Rightarrow> bool" where
  "patient_moves [] s \<longleftrightarrow> True"
| "patient_moves (m # ms) s \<longleftrightarrow> patient_move m s \<and> patient_moves ms (run_move m s)"

lemma run_moves_reachable:
  "(patient \<longrightarrow> patient_moves ms s) \<Longrightarrow> (handoff_step patient)\<^sup>*\<^sup>* s (run_moves ms s)"
proof (induction ms arbitrary: s)
  case (Cons m ms)
  have "(handoff_step patient)\<^sup>*\<^sup>* s (run_move m s)"
  proof (cases m)
    case (Loop i)
    then have "handoff_step patient s (loop_step i s)" using Cons.prems by (intro core0) simp
    with Loop show ?thesis by simp
  next
    case (Task i)
    have "handoff_step patient s (core1_step i 0 s)" if "st_tasks s \<noteq> []" using that by (intro core1) simp
    with Task show ?thesis by (cases "st_tasks s = []") auto
  qed
  moreover have "(handoff_step patient)\<^sup>*\<^sup>* (run_move m s) (run_moves ms (run_move m s))"
    using Cons by auto
  ultimately show ?case by simp
qed simp

lemma run_moves_append: "run_moves (a @ b) s = run_moves b (run_moves a s)"
  by (induction a arbitrary: s) simp_all

lemma patient_moves_append: "patient_moves (a @ b) s \<longleftrightarrow> patient_moves a s \<and> patient_moves b (run_moves a s)"
  by (induction a arbitrary: s) simp_all

definition act :: "action \<Rightarrow> move" where
  "act a = Loop \<lparr>li_action = a, li_now = 0, li_expired = False, li_created = True\<rparr>"

definition at_time :: "u32 \<Rightarrow> move" where
  "at_time now = Loop \<lparr>li_action = Leave, li_now = now, li_expired = False, li_created = True\<rparr>"

definition work :: move where
  "work = Task \<lparr>ti_alloc = True, ti_data = True, ti_connected = True, ti_give_up = False, ti_command = None\<rparr>"

text \<open>
  A client connects and asks to play; the task runs up to the copy of the pointer, and then to
  the call that reads the microphone.
\<close>

definition starting :: "move list" where
  "starting = [act Serve_client, act Accept, act Play] @ replicate 6 (act Leave) @ replicate 6 work"

definition playing :: "move list" where
  "playing = starting @ [work]"

definition live :: "audio_task \<Rightarrow> u16 \<Rightarrow> stream" where
  "live t n =
     \<lparr>isStreaming = True, streamClient = True, stopStreamRequested = False, streamCleanupDone = False,
      audioTaskRunning = True, audioCaptureTaskHandle = True, taskExitSemaphore = False, core1OwnsLED = True,
      currentBufferSize = n, client_open = True, st_tasks = [t], st_loop = L_idle\<rparr>"

lemmas move_defs = act_def at_time_def work_def loop_step_def loop_idle_def
  loop_client_def startAudioCaptureTask_def core1_step_def task_step_def gives_up_def

lemma starting_state:
  "run_moves starting (stream_boot n) = live \<lparr>t_pc = T_load, t_size = n, t_client = False\<rparr> n"
  "patient_moves starting (stream_boot n)"
  by (simp_all add: starting_def live_def stream_boot_def move_defs eval_nat_numeral)

lemma playing_state:
  "run_moves playing (stream_boot n) = live \<lparr>t_pc = T_read, t_size = n, t_client = True\<rparr> n"
  "patient_moves playing (stream_boot n)"
  by (simp_all add: playing_def run_moves_append patient_moves_append starting_state)
    (simp_all add: live_def move_defs)

lemma handoff_okD:
  assumes "handoff_ok s"
  shows "t \<in> set (st_tasks s) \<Longrightarrow> st_tasks s = [t] \<and> task_ok s t"
    and "isStreaming s \<Longrightarrow> may_stream (st_loop s)"
    and "after_stream (st_loop s) \<Longrightarrow> client_open s \<Longrightarrow> isStreaming s"
    and "asked (st_loop s) \<Longrightarrow> stopStreamRequested s"
    and "st_loop s = K_null r \<Longrightarrow> st_tasks s = []"
    and "\<not> audioCaptureTaskHandle s \<Longrightarrow> st_tasks s = []"
    and "confirmed (st_loop s) \<Longrightarrow> streamCleanupDone s"
proof -
  show "st_tasks s = [t] \<and> task_ok s t" if "t \<in> set (st_tasks s)"
  proof (rule tasks_cases [OF assms])
    fix t' assume one: "st_tasks s = [t']"
    then have "task_ok s t'" using assms by (simp add: handoff_ok_def)
    with one that show ?thesis by simp
  qed (use that in simp)
  show "isStreaming s \<Longrightarrow> may_stream (st_loop s)"
    and "after_stream (st_loop s) \<Longrightarrow> client_open s \<Longrightarrow> isStreaming s"
    and "asked (st_loop s) \<Longrightarrow> stopStreamRequested s"
    and "st_loop s = K_null r \<Longrightarrow> st_tasks s = []"
    and "\<not> audioCaptureTaskHandle s \<Longrightarrow> st_tasks s = []"
    and "confirmed (st_loop s) \<Longrightarrow> streamCleanupDone s"
    using assms unfolding handoff_ok_def by blast+
qed

subsection \<open>Properties\<close>

text \<open>Where a core reads, writes, closes or replaces the client's socket.\<close>

definition loop_uses_socket :: "stream \<Rightarrow> bool" where
  "loop_uses_socket s \<longleftrightarrow> st_loop s = L_client"

definition task_uses_socket :: "audio_task \<Rightarrow> bool" where
  "task_uses_socket t \<longleftrightarrow> t_pc t \<in> {T_stop_close, T_send, T_command}"



text \<open>The loop asks for the stream at one time and looks for the answer at another, too late.\<close>

definition give_up :: "u32 \<Rightarrow> u32 \<Rightarrow> move list" where
  "give_up asked_at now =
     [act Server_stop, act Leave] @ [at_time asked_at] @ [at_time now] @ replicate 6 (act Leave) @ [act Serve_client]"

lemma give_up_steps:
  "run_moves [act Server_stop, act Leave] (live t n) = (live t n)\<lparr>st_loop := S_request Then_return\<rparr>"
  "run_moves [at_time a] ((live t n)\<lparr>st_loop := S_request Then_return\<rparr>) =
     (live t n)\<lparr>stopStreamRequested := True, st_loop := S_poll (a + 3000) Then_return\<rparr>"
  "\<not> b < a + 3000 \<Longrightarrow>
     run_moves [at_time b] ((live t n)\<lparr>stopStreamRequested := True, st_loop := S_poll (a + 3000) Then_return\<rparr>) =
     (live t n)\<lparr>stopStreamRequested := True, st_loop := S_test Then_return\<rparr>"
  "run_moves (replicate 6 (act Leave)) ((live t n)\<lparr>stopStreamRequested := True, st_loop := S_test Then_return\<rparr>) =
     (live t n)\<lparr>isStreaming := False, streamClient := False, core1OwnsLED := False\<rparr>"
  "run_moves [act Serve_client] ((live t n)\<lparr>isStreaming := False, streamClient := False, core1OwnsLED := False\<rparr>) =
     (live t n)\<lparr>isStreaming := False, streamClient := False, core1OwnsLED := False, st_loop := L_client\<rparr>"
  by (simp_all add: live_def move_defs eval_nat_numeral del: not_less linorder_not_less)

lemma give_up_state:
  assumes "\<not> b < a + 3000"
  shows "run_moves (give_up a b) (live t n) =
    (live t n)\<lparr>isStreaming := False, streamClient := False, core1OwnsLED := False, st_loop := L_client\<rparr>"
  unfolding give_up_def run_moves_append by (simp only: give_up_steps(1,2,4,5) give_up_steps(3) [OF assms])

text \<open>
  And only as long: when the loop gives up waiting for the task, the handoff is over. A task
  that is late in its write is left with the socket while the loop takes it back for the next
  client, and a task that was about to copy the pointer goes on with a null pointer. Three
  seconds are not needed: within three seconds before the clock wraps the deadline lies in the
  past, and the loop gives up at its first look.
\<close>

theorem socket_shared_after_timeout:
  "(let s = run_moves (playing @ [work] @ give_up 0xFFFFFC18 0xFFFFFC18) (stream_boot n) in
      (handoff_step False)\<^sup>*\<^sup>* (stream_boot n) s \<and> loop_uses_socket s \<and>
      (\<exists>t. st_tasks s = [t] \<and> task_uses_socket t \<and> t_client t)) \<and>
   (let s = run_moves (starting @ give_up 0 3000 @ [work, work]) (stream_boot n) in
      (handoff_step False)\<^sup>*\<^sup>* (stream_boot n) s \<and>
      (\<exists>t. st_tasks s = [t] \<and> t_pc t = T_send \<and> \<not> t_client t))"
proof -
  have run: "(handoff_step False)\<^sup>*\<^sup>* (stream_boot n) (run_moves ms (stream_boot n))" for ms
    by (rule run_moves_reachable) simp
  let ?s = "run_moves (playing @ [work] @ give_up 0xFFFFFC18 0xFFFFFC18) (stream_boot n)"
  let ?r = "run_moves (starting @ give_up 0 3000 @ [work, work]) (stream_boot n)"
  have "run_moves [work] (live \<lparr>t_pc = T_read, t_size = n, t_client = True\<rparr> n) =
      live \<lparr>t_pc = T_send, t_size = n, t_client = True\<rparr> n" by (simp add: live_def move_defs)
  then have s: "?s = (live \<lparr>t_pc = T_send, t_size = n, t_client = True\<rparr> n)
      \<lparr>isStreaming := False, streamClient := False, core1OwnsLED := False, st_loop := L_client\<rparr>"
    unfolding run_moves_append by (simp add: playing_state(1) give_up_state del: run_moves.simps)
  have "?r = run_moves [work, work] ((live \<lparr>t_pc = T_load, t_size = n, t_client = False\<rparr> n)
      \<lparr>isStreaming := False, streamClient := False, core1OwnsLED := False, st_loop := L_client\<rparr>)"
    unfolding run_moves_append by (simp add: starting_state(1) give_up_state del: run_moves.simps)
  also have "st_tasks \<dots> = [\<lparr>t_pc = T_send, t_size = n, t_client = False\<rparr>]"
    by (simp add: live_def move_defs)
  finally have r: "st_tasks ?r = [\<lparr>t_pc = T_send, t_size = n, t_client = False\<rparr>]" .
  have "loop_uses_socket ?s" "st_tasks ?s = [\<lparr>t_pc = T_send, t_size = n, t_client = True\<rparr>]"
    unfolding s by (simp_all add: loop_uses_socket_def live_def)
  moreover have "task_uses_socket \<lparr>t_pc = T_send, t_size = n, t_client = c\<rparr>" for c
    by (simp add: task_uses_socket_def)
  ultimately show ?thesis
    unfolding Let_def using run r by (intro conjI) (blast | simp only: list.inject audio_task.select_convs simp_thms ex_simps)+
qed

text \<open>
  C23. The restart of the microphone is meant to resume the stream, but it never does: the task
  confirms a stop only after it has closed the socket, so that after any stop that was
  confirmed the test of the resume fails.
\<close>

theorem restart_never_resumes:
  assumes "(handoff_step True)\<^sup>*\<^sup>* (stream_boot n) s" and "st_loop s = R_resume was"
  shows "\<not> isStreaming s \<and> (was \<longrightarrow> \<not> client_open s) \<and> loop_step i s = s\<lparr>st_loop := L_idle\<rparr>"
proof -
  note D = handoff_okD [OF patient_run_ok [OF assms(1)]]
  have "\<not> isStreaming s" using D(2) assms(2) by auto
  moreover have "was \<Longrightarrow> \<not> client_open s" using D(3) assms(2) calculation by auto
  ultimately show ?thesis using assms(2) by (auto simp: loop_step_def)
qed

text \<open>A stream that is stopped by a restart, up to the point where it could resume.\<close>

definition restarting :: "move list" where
  "restarting = (act Restart_i2s # replicate 4 (act Leave)) @ replicate 11 work @ replicate 7 (act Leave) @
     replicate 5 work @ replicate 2 (act Leave)"

lemma restarting_steps:
  "run_moves (act Restart_i2s # replicate 4 (act Leave)) (live t n) =
     (live t n)\<lparr>stopStreamRequested := True, st_loop := S_poll 3000 (Then_restart True)\<rparr>"
  "patient_moves (act Restart_i2s # replicate 4 (act Leave)) (live t n)"
  "run_moves (replicate 11 work) ((live \<lparr>t_pc = T_read, t_size = n, t_client = True\<rparr> n)
      \<lparr>stopStreamRequested := True, st_loop := S_poll 3000 k\<rparr>) =
     (live \<lparr>t_pc = T_stop_wait, t_size = n, t_client = True\<rparr> n)
      \<lparr>stopStreamRequested := True, st_loop := S_poll 3000 k, client_open := False, streamClient := False,
       isStreaming := False, core1OwnsLED := False, streamCleanupDone := True\<rparr>"
  "run_moves (replicate 7 (act Leave)) ((live \<lparr>t_pc = T_stop_wait, t_size = n, t_client = True\<rparr> n)
      \<lparr>stopStreamRequested := True, st_loop := S_poll 3000 (Then_restart w), client_open := False, streamClient := False,
       isStreaming := False, core1OwnsLED := False, streamCleanupDone := True\<rparr>) =
     (live \<lparr>t_pc = T_stop_wait, t_size = n, t_client = True\<rparr> n)
      \<lparr>st_loop := K_take (Some w), client_open := False, streamClient := False,
       isStreaming := False, core1OwnsLED := False, audioTaskRunning := False\<rparr>"
  by (simp_all add: live_def move_defs eval_nat_numeral)

lemma work_patient [simp]: "patient_moves (replicate k work) s"
  by (induction k arbitrary: s) (simp_all add: work_def)

lemma restarting_patient:
  "patient_moves (replicate 7 (act Leave)) ((live \<lparr>t_pc = T_stop_wait, t_size = n, t_client = True\<rparr> n)
      \<lparr>stopStreamRequested := True, st_loop := S_poll 3000 (Then_restart w), client_open := False, streamClient := False,
       isStreaming := False, core1OwnsLED := False, streamCleanupDone := True\<rparr>)"
  "run_moves (replicate 5 work) ((live \<lparr>t_pc = T_stop_wait, t_size = n, t_client = True\<rparr> n)
      \<lparr>st_loop := K_take r, client_open := False, streamClient := False,
       isStreaming := False, core1OwnsLED := False, audioTaskRunning := False\<rparr>) =
     (stream_boot n)\<lparr>audioCaptureTaskHandle := True, taskExitSemaphore := True, st_loop := K_take r\<rparr>"
  "run_moves (replicate 2 (act Leave)) ((stream_boot n)\<lparr>audioCaptureTaskHandle := True, taskExitSemaphore := True, st_loop := K_take (Some w)\<rparr>) =
     (stream_boot n)\<lparr>st_loop := R_resume w\<rparr>"
  "patient_moves (replicate 2 (act Leave)) ((stream_boot n)\<lparr>audioCaptureTaskHandle := True, taskExitSemaphore := True, st_loop := K_take (Some w)\<rparr>)"
  by (simp_all add: live_def move_defs stream_boot_def eval_nat_numeral)

lemma restarting_run:
  "run_moves (playing @ restarting) (stream_boot n) = (stream_boot n)\<lparr>st_loop := R_resume True\<rparr>"
  "patient_moves (playing @ restarting) (stream_boot n)"
  unfolding restarting_def run_moves_append patient_moves_append
  by (simp_all only: playing_state restarting_steps restarting_patient work_patient)

theorem restart_never_resumes_witness:
  "loop_step \<lparr>li_action = Leave, li_now = 0, li_expired = False, li_created = True\<rparr>
     (run_moves (playing @ restarting) (stream_boot 1024)) = stream_boot 1024"
proof -
  let ?i = "\<lparr>li_action = Leave, li_now = 0, li_expired = False, li_created = True\<rparr>"
  let ?s = "(stream_boot 1024)\<lparr>st_loop := R_resume True\<rparr>"
  have "(handoff_step True)\<^sup>*\<^sup>* (stream_boot 1024) ?s"
    using run_moves_reachable [of True "playing @ restarting" "stream_boot 1024"] restarting_run [of 1024] by (simp only: simp_thms)
  then have "loop_step ?i ?s = ?s\<lparr>st_loop := L_idle\<rparr>"
    using restart_never_resumes [of 1024 ?s True ?i] by simp
  then show ?thesis by (simp add: restarting_run(1)) (simp add: stream_boot_def)
qed










text \<open>How many steps the task takes at most from a place to the confirmation of a stop.\<close>

fun rank :: "task_pc \<Rightarrow> nat" where
  "rank T_stop_done = 1"
| "rank T_stop_led = 2"
| "rank T_stop_streaming = 3"
| "rank T_stop_client = 4"
| "rank T_stop_close = 5"
| "rank T_stop_load = 6"
| "rank T_check = 7"
| "rank T_while = 8"
| "rank T_alloc = 9"
| "rank T_start = 10"
| "rank T_end_led = 9"
| "rank T_end_streaming = 10"
| "rank T_end_client = 11"
| "rank T_command = 12"
| "rank T_rtsp = 13"
| "rank T_drop_led = 14"
| "rank T_drop_streaming = 15"
| "rank T_drop_client = 16"
| "rank T_send = 17"
| "rank T_read = 18"
| "rank T_load = 19"
| "rank T_client = 20"
| "rank T_streaming = 21"
| "rank _ = 0"

definition run_task :: "(nat \<Rightarrow> task_input) \<Rightarrow> nat \<Rightarrow> stream \<Rightarrow> stream" where
  "run_task input k s = fold (\<lambda>j s. if streamCleanupDone s then s else core1_step (input j) 0 s) [0..<k] s"

definition waiting_for :: "audio_task \<Rightarrow> stream \<Rightarrow> bool" where
  "waiting_for t s \<longleftrightarrow> st_tasks s = [t] \<and> stopStreamRequested s \<and> (t_pc t \<noteq> T_start \<longrightarrow> audioTaskRunning s)"

lemma task_ranked:
  assumes "waiting_for t s" and "\<not> streamCleanupDone s" and "0 < rank (t_pc t)" and "ti_alloc i"
  shows "streamCleanupDone (core1_step i 0 s) \<or>
    (\<exists>t'. waiting_for t' (core1_step i 0 s) \<and> \<not> streamCleanupDone (core1_step i 0 s) \<and>
       0 < rank (t_pc t') \<and> rank (t_pc t') < rank (t_pc t))"
  using assms by (cases "t_pc t") (simp_all add: waiting_for_def core1_step_def task_step_def)

lemma run_task_simps:
  "run_task input 0 s = s"
  "run_task input (Suc k) s = (if streamCleanupDone (run_task input k s) then run_task input k s
     else core1_step (input k) 0 (run_task input k s))"
  by (simp_all add: run_task_def)

lemma run_task_confirms:
  assumes "waiting_for t s" and "0 < rank (t_pc t)" and "\<forall>j. ti_alloc (input j)"
  shows "streamCleanupDone (run_task input k s) \<or>
    (\<exists>t'. waiting_for t' (run_task input k s) \<and> \<not> streamCleanupDone (run_task input k s) \<and>
       0 < rank (t_pc t') \<and> rank (t_pc t') + k \<le> rank (t_pc t))"
proof (induction k)
  case 0
  show ?case using assms(1,2) by (auto simp: run_task_simps)
next
  case (Suc k)
  show ?case
  proof (cases "streamCleanupDone (run_task input k s)")
    case True
    then show ?thesis by (simp add: run_task_simps)
  next
    case False
    with Suc obtain t' where t': "waiting_for t' (run_task input k s)" "0 < rank (t_pc t')"
      "rank (t_pc t') + k \<le> rank (t_pc t)" by blast
    from task_ranked [OF t'(1) False t'(2), of "input k"] assms(3) t'(3) False show ?thesis
      by (fastforce simp: run_task_simps)
  qed
qed

lemma run_task_waits:
  assumes "st_tasks s = [t]" and "t_pc t = T_stop_wait" and "stopStreamRequested s" and "audioTaskRunning s"
    and "\<not> streamCleanupDone s"
  shows "run_task input k s = s"
proof (induction k)
  case (Suc k)
  have "t\<lparr>t_pc := T_stop_wait\<rparr> = t" using assms(2) by simp
  with Suc assms show ?case by (simp add: run_task_simps core1_step_def task_step_def)
qed (simp add: run_task_simps)

text \<open>
  A stream is stopped and confirmed, the next client connects and plays, and its stream is
  stopped, all while the task sleeps in its wait.
\<close>

definition stopping_twice :: "move list" where
  "stopping_twice = [act Server_stop, act Leave, act Leave] @ replicate 11 work @ replicate 6 (act Leave) @
     ([act Serve_client, act Accept, act Play] @ replicate 6 (act Leave)) @ [act Server_stop, act Leave, act Leave]"

abbreviation asleep :: "u16 \<Rightarrow> audio_task" where
  "asleep n \<equiv> \<lparr>t_pc = T_stop_wait, t_size = n, t_client = True\<rparr>"

lemma stopping_twice_steps:
  "run_moves [act Server_stop, act Leave, act Leave] (live t n) =
     (live t n)\<lparr>stopStreamRequested := True, st_loop := S_poll 3000 Then_return\<rparr>"
  "patient_moves [act Server_stop, act Leave, act Leave] (live t n)"
  "run_moves (replicate 6 (act Leave)) ((live (asleep n) n)
      \<lparr>stopStreamRequested := True, st_loop := S_poll 3000 Then_return, client_open := False, streamClient := False,
       isStreaming := False, core1OwnsLED := False, streamCleanupDone := True\<rparr>) =
     (live (asleep n) n)\<lparr>client_open := False, streamClient := False, isStreaming := False, core1OwnsLED := False\<rparr>"
  "patient_moves (replicate 6 (act Leave)) ((live (asleep n) n)
      \<lparr>stopStreamRequested := True, st_loop := S_poll 3000 Then_return, client_open := False, streamClient := False,
       isStreaming := False, core1OwnsLED := False, streamCleanupDone := True\<rparr>)"
  "run_moves ([act Serve_client, act Accept, act Play] @ replicate 6 (act Leave))
     ((live (asleep n) n)\<lparr>client_open := False, streamClient := False, isStreaming := False, core1OwnsLED := False\<rparr>) =
     live (asleep n) n"
  "patient_moves ([act Serve_client, act Accept, act Play] @ replicate 6 (act Leave))
     ((live (asleep n) n)\<lparr>client_open := False, streamClient := False, isStreaming := False, core1OwnsLED := False\<rparr>)"
  by (simp_all add: live_def move_defs eval_nat_numeral)

lemma stopping_twice_run:
  "run_moves (playing @ stopping_twice) (stream_boot n) =
     (live (asleep n) n)\<lparr>stopStreamRequested := True, st_loop := S_poll 3000 Then_return\<rparr>"
  "patient_moves (playing @ stopping_twice) (stream_boot n)"
  unfolding stopping_twice_def run_moves_append [of playing] patient_moves_append [of playing] playing_state
    run_moves_append [of "[act Server_stop, act Leave, act Leave]"] patient_moves_append [of "[act Server_stop, act Leave, act Leave]"]
    run_moves_append [of "replicate k m" for k m] patient_moves_append [of "replicate k m" for k m]
    run_moves_append [of "[act Serve_client, act Accept, act Play] @ replicate 6 (act Leave)"]
    patient_moves_append [of "[act Serve_client, act Accept, act Play] @ replicate 6 (act Leave)"]
  by (simp_all only: playing_state stopping_twice_steps restarting_steps work_patient simp_thms)

text \<open>
  C25. Waiting for the task. While the loop polls, at most 21 steps of a task that has its buffers
  confirm the stop, wherever the task is and whatever its calls return, so that the deadline is
  long enough if these fit into it. The one exception is a task that still sleeps in the wait of
  the stop before: it takes the new request for the old one and never confirms. This can happen.
\<close>

theorem stop_confirmed:
  assumes "(handoff_step True)\<^sup>*\<^sup>* (stream_boot n) s" and "st_loop s = S_poll d k" and "t \<in> set (st_tasks s)"
    and "t_pc t \<noteq> T_alloc_failed" and "\<forall>j. ti_alloc (input j)"
  shows "(t_pc t \<noteq> T_stop_wait \<longrightarrow> streamCleanupDone (run_task input 21 s)) \<and>
    (t_pc t = T_stop_wait \<and> \<not> streamCleanupDone s \<longrightarrow> (\<forall>j. run_task input j s = s)) \<and>
    (let r = run_moves (playing @ stopping_twice) (stream_boot n) in
      (handoff_step True)\<^sup>*\<^sup>* (stream_boot n) r \<and> st_loop r = S_poll 3000 Then_return \<and>
      \<not> streamCleanupDone r \<and> (\<exists>u. st_tasks r = [u] \<and> t_pc u = T_stop_wait))"
proof -
  note D = handoff_okD [OF patient_run_ok [OF assms(1)]]
  have p: "polling (st_loop s)" "asked (st_loop s)" "\<not> taking (st_loop s)" by (simp_all add: assms(2))
  have t: "st_tasks s = [t]" and ok: "task_ok s t" using D(1) assms(3) by simp_all
  have req: "stopStreamRequested s" using D(4) p(2) .
  have run: "t_pc t \<noteq> T_start \<Longrightarrow> audioTaskRunning s" using ok p(3) unfolding task_ok_def by sat
  have "\<not> exiting (t_pc t)" using ok p(3) unfolding task_ok_def by sat
  then have rank: "t_pc t \<noteq> T_stop_wait \<Longrightarrow> 0 < rank (t_pc t)"
    using assms(4) by (cases "t_pc t") (simp_all add: exiting_def)
  have w: "waiting_for t s" using t req run by (simp add: waiting_for_def)
  have bound: "rank (t_pc t) \<le> 21" by (cases "t_pc t") simp_all
  have "streamCleanupDone (run_task input 21 s)" if "t_pc t \<noteq> T_stop_wait"
    using run_task_confirms [OF w rank [OF that] assms(5), of 21] bound by auto
  moreover have "run_task input j s = s" if "t_pc t = T_stop_wait" "\<not> streamCleanupDone s" for j
    using run_task_waits [OF t that(1) req _ that(2)] run that(1) by simp
  moreover have "(handoff_step True)\<^sup>*\<^sup>* (stream_boot n) (run_moves (playing @ stopping_twice) (stream_boot n))"
    using stopping_twice_run(2) by (intro run_moves_reachable) simp
  ultimately show ?thesis by (simp add: stopping_twice_run(1) Let_def live_def)
qed

theorem stop_confirmed_witness:
  "streamCleanupDone (run_task (\<lambda>j. \<lparr>ti_alloc = True, ti_data = True, ti_connected = True, ti_give_up = False, ti_command = None\<rparr>) 21
     (run_moves (playing @ [act Server_stop, act Leave, act Leave]) (stream_boot 1024)))"
proof -
  let ?t = "\<lparr>t_pc = T_read, t_size = 1024, t_client = True\<rparr>"
  let ?s = "(live ?t 1024)\<lparr>stopStreamRequested := True, st_loop := S_poll 3000 Then_return\<rparr>"
  let ?ms = "playing @ [act Server_stop, act Leave, act Leave]"
  have s: "run_moves ?ms (stream_boot 1024) = ?s" "patient_moves ?ms (stream_boot 1024)"
    unfolding run_moves_append patient_moves_append playing_state by (simp_all only: playing_state stopping_twice_steps simp_thms)
  then have "(handoff_step True)\<^sup>*\<^sup>* (stream_boot 1024) ?s"
    using run_moves_reachable [of True ?ms "stream_boot 1024"] by (simp only: simp_thms)
  from stop_confirmed [OF this, of 3000 Then_return ?t
      "\<lambda>j. \<lparr>ti_alloc = True, ti_data = True, ti_connected = True, ti_give_up = False, ti_command = None\<rparr>"]
  show ?thesis unfolding s(1) by (simp add: live_def)
qed

end
