(* ===== verification/Fw_Text.thy ===== *)
theory Fw_Text
  imports Fw_Base
begin

text \<open>
  The text the firmware makes: durations and times, escaped JSON strings, byte counts, and the
  ring of log lines. \<open>String(x, n)\<close> of a real number is the parameter \<open>fmt\<close>.
\<close>

unbundle bit_operations_syntax

subsection \<open>Durations\<close>

definition formatUptime :: "u32 \<Rightarrow> string" where
  "formatUptime seconds =
     (let days = seconds div 86400;
          seconds = seconds mod 86400;
          hours = seconds div 3600;
          seconds = seconds mod 3600;
          minutes = seconds div 60;
          seconds = seconds mod 60;
          result = [];
          result = (if days > 0 then result @ dec (unat days) @ ''d '' else result);
          result = (if hours > 0 \<or> days > 0 then result @ dec (unat hours) @ ''h '' else result);
          result = (if minutes > 0 \<or> hours > 0 \<or> days > 0 then result @ dec (unat minutes) @ ''m '' else result)
      in result @ dec (unat seconds) @ ''s'')"

definition formatSince :: "u32 \<Rightarrow> u32 \<Rightarrow> string" where
  "formatSince now eventMs =
     (if eventMs = 0 then ''never''
      else
        let seconds = (now - eventMs) div 1000
        in formatUptime seconds @ '' ago'')"

text \<open>\<open>%02lu\<close>, and the fallback of \<open>logTimestamp\<close> when the time is not known, cut to its buffer.\<close>

definition dec2 :: "nat \<Rightarrow> string" where
  "dec2 n = (if n < 10 then CHR ''0'' # dec n else dec n)"

definition logTimestamp_uptime :: "u32 \<Rightarrow> u32 \<Rightarrow> string" where
  "logTimestamp_uptime now bootTime =
     (let s = (now - bootTime) div 1000;
          h = s div 3600;
          s = s mod 3600;
          m = s div 60;
          s = s mod 60
      in take 15 (CHR ''['' # dec2 (unat h) @ '':'' @ dec2 (unat m) @ '':'' @ dec2 (unat s) @ ''] ''))"

subsection \<open>JSON and byte counts\<close>

fun jsonEscape :: "string \<Rightarrow> string" where
  "jsonEscape [] = []"
| "jsonEscape (c # s) =
     (if c = CHR 0x22 \<or> c = CHR 0x5C then [CHR 0x5C, c]
      else if c = CHR 0x0A then [CHR 0x5C, CHR ''n'']
      else [c]) @ jsonEscape s"

definition profileName :: "u16 \<Rightarrow> string" where
  "profileName buf =
     (if buf \<le> 256 then ''Ultra-Low Latency (Higher CPU, May have dropouts)''
      else if buf \<le> 512 then ''Balanced (Moderate CPU, Good stability)''
      else if buf \<le> 1024 then ''Stable Streaming (Lower CPU, Excellent stability)''
      else ''High Stability (Lowest CPU, Maximum stability)'')"

definition fmtBytes :: "(rat \<Rightarrow> nat \<Rightarrow> string) \<Rightarrow> u64 \<Rightarrow> string" where
  "fmtBytes fmt b =
     (if b < 1024 then dec (unat b) @ '' B''
      else if b < 1048576 then fmt (of_nat (unat b) / 1024) 1 @ '' KB''
      else if b < 1073741824 then fmt (of_nat (unat b) / 1048576) 1 @ '' MB''
      else fmt (of_nat (unat b) / 1073741824) 2 @ '' GB'')"

subsection \<open>The log\<close>

definition LOG_CAP :: nat where "LOG_CAP = 80"

record log_ring =
  logBuffer :: "string list"
  logHead :: nat
  logCount :: nat

definition log_empty :: log_ring where
  "log_empty = \<lparr>logBuffer = replicate LOG_CAP [], logHead = 0, logCount = 0\<rparr>"

definition webui_pushLog :: "string \<Rightarrow> log_ring \<Rightarrow> log_ring" where
  "webui_pushLog line r =
     (let r = r\<lparr>logBuffer := (logBuffer r)[logHead r := line]\<rparr>;
          r = r\<lparr>logHead := (logHead r + 1) mod LOG_CAP\<rparr>
      in if logCount r < LOG_CAP then r\<lparr>logCount := logCount r + 1\<rparr> else r)"

definition httpLogs :: "log_ring \<Rightarrow> string" where
  "httpLogs r =
     concat (map (\<lambda>i. let idx = (logHead r + LOG_CAP - logCount r + i) mod LOG_CAP
                      in logBuffer r ! idx @ [CHR 0x0A]) [0..<logCount r])"

subsection \<open>Properties\<close>

text \<open>The contract of the log: the last lines that were pushed, at most as many as it holds.\<close>

definition last_lines :: "nat \<Rightarrow> 'a list \<Rightarrow> 'a list" where
  "last_lines n xs = drop (length xs - n) xs"

definition log_inv :: "log_ring \<Rightarrow> bool" where
  "log_inv r \<longleftrightarrow> length (logBuffer r) = LOG_CAP \<and> logHead r < LOG_CAP \<and> logCount r \<le> LOG_CAP"

definition log_lines :: "log_ring \<Rightarrow> string list" where
  "log_lines r = map (\<lambda>i. logBuffer r ! ((logHead r + LOG_CAP - logCount r + i) mod LOG_CAP)) [0..<logCount r]"

lemma httpLogs_lines: "httpLogs r = concat (map (\<lambda>l. l @ [CHR 0x0A]) (log_lines r))"
  by (simp add: httpLogs_def log_lines_def Let_def o_def)

lemma last_lines_snoc: "last_lines n (xs @ [x]) = (if n = 0 then [] else last_lines (n - 1) xs @ [x])"
  by (auto simp: last_lines_def)

lemma length_last_lines: "length (last_lines n xs) = min n (length xs)"
  by (simp add: last_lines_def)

lemma last_lines_all: "length xs \<le> n \<Longrightarrow> last_lines n xs = xs"
  by (simp add: last_lines_def)

lemma ring_index_push:
  assumes "h < 80" and "c < 80"
  shows "((h + 1) mod 80 + 80 - (c + 1) + i) mod 80 = (h + 80 - c + i) mod (80 :: nat)"
proof (cases "h = 79")
  case True
  have "79 + 80 - c + i = 80 + (80 - (c + 1) + i)" using assms by simp
  then show ?thesis by (simp only: True mod_add_self1) simp
next
  case False
  then have "(h + 1) mod 80 = h + 1" using assms by simp
  then have "(h + 1) mod 80 + 80 - (c + 1) + i = h + 80 - c + i" using assms by simp
  then show ?thesis by simp
qed

lemma ring_index_full:
  assumes "h < 80"
  shows "((h + 1) mod 80 + 80 - 80 + i) mod 80 = (h + 80 - 80 + (i + 1)) mod (80 :: nat)"
  by (simp add: mod_add_left_eq)

lemma ring_index_new: "h < 80 \<Longrightarrow> c \<le> 80 \<Longrightarrow> (h + 80 - c + c) mod (80 :: nat) = h"
  by simp

lemma ring_index_old:
  assumes "h < 80" and "c \<le> 80" and "i < c" and "i > 0 \<or> c < 80"
  shows "h \<noteq> (h + 80 - c + i) mod (80 :: nat)"
proof (cases "h + 80 - c + i < 80")
  case True
  then have "(h + 80 - c + i) mod 80 = h + 80 - c + i" by simp
  also have "\<dots> \<noteq> h" using assms by linarith
  finally show ?thesis by simp
next
  case False
  then have "(h + 80 - c + i) mod 80 = h + 80 - c + i - 80" using assms by (simp add: le_mod_geq)
  then show ?thesis using assms False by linarith
qed

lemma push_inv: "log_inv r \<Longrightarrow> log_inv (webui_pushLog l r)"
  by (simp add: log_inv_def webui_pushLog_def LOG_CAP_def Let_def)

lemma push_lines:
  assumes "log_inv r"
  shows "log_lines (webui_pushLog l r) = last_lines LOG_CAP (log_lines r @ [l])"
proof -
  let ?h = "logHead r" and ?c = "logCount r" and ?b = "logBuffer r"
  have i: "length ?b = 80" "?h < 80" "?c \<le> 80" using assms by (simp_all add: log_inv_def LOG_CAP_def)
  let ?f = "\<lambda>i. ?b ! ((?h + 80 - ?c + i) mod 80)"
  have lines: "log_lines r = map ?f [0..<?c]" by (simp add: log_lines_def LOG_CAP_def)
  show ?thesis
  proof (cases "?c < 80")
    case True
    have n: "log_lines (webui_pushLog l r) =
        map (\<lambda>i. (?b[?h := l]) ! ((?h + 80 - ?c + i) mod 80)) [0..<?c + 1]"
      using True ring_index_push [OF i(2) True]
      by (simp add: log_lines_def webui_pushLog_def LOG_CAP_def Let_def del: upt_Suc)
    have "map (\<lambda>i. (?b[?h := l]) ! ((?h + 80 - ?c + i) mod 80)) [0..<?c] = map ?f [0..<?c]"
      using ring_index_old [OF i(2,3)] True by (intro map_cong) auto
    then have "log_lines (webui_pushLog l r) = log_lines r @ [l]"
      unfolding n lines using i by simp
    moreover have "length (log_lines r @ [l]) \<le> LOG_CAP" using True by (simp add: lines LOG_CAP_def)
    ultimately show ?thesis by (simp add: last_lines_all)
  next
    case False
    then have c: "?c = 80" using i by simp
    have n: "log_lines (webui_pushLog l r) =
        map (\<lambda>i. (?b[?h := l]) ! ((?h + 80 - 80 + (i + 1)) mod 80)) [0..<80]"
      using ring_index_full [OF i(2)]
      by (simp add: log_lines_def webui_pushLog_def LOG_CAP_def Let_def c del: upt_Suc)
    have "map (\<lambda>i. (?b[?h := l]) ! ((?h + 80 - 80 + (i + 1)) mod 80)) [0..<79] = map (\<lambda>i. ?f (i + 1)) [0..<79]"
    proof (intro map_cong refl)
      fix x assume "x \<in> set [0..<79 :: nat]"
      then have "?h \<noteq> (?h + 80 - 80 + (x + 1)) mod 80" by (intro ring_index_old [OF i(2)]) simp_all
      then show "(?b[?h := l]) ! ((?h + 80 - 80 + (x + 1)) mod 80) = ?f (x + 1)" by (simp add: c)
    qed
    moreover have "[0..<80] = [0..<79] @ [79 :: nat]" using upt_Suc_append [of 0 79] by simp
    ultimately have "log_lines (webui_pushLog l r) = map (\<lambda>i. ?f (i + 1)) [0..<79] @ [l]"
      unfolding n using i by simp
    also have "map (\<lambda>i. ?f (i + 1)) [0..<79] = tl (log_lines r)"
      by (rule nth_equalityI) (simp_all add: lines c nth_tl)
    finally show ?thesis
      by (simp add: last_lines_def lines c LOG_CAP_def drop_Suc)
  qed
qed

text \<open>
  C26. The log: after any lines have been pushed, the page of the log shows the last eighty of
  them, or all of them if they are fewer, in their order, each on a line of its own.
\<close>

theorem log_ring_refines:
  "httpLogs (foldl (\<lambda>r l. webui_pushLog l r) log_empty ls) = concat (map (\<lambda>l. l @ [CHR 0x0A]) (last_lines 80 ls))"
proof -
  have "log_inv (foldl (\<lambda>r l. webui_pushLog l r) log_empty ls) \<and>
      log_lines (foldl (\<lambda>r l. webui_pushLog l r) log_empty ls) = last_lines LOG_CAP ls"
  proof (induction ls rule: rev_induct)
    case Nil
    show ?case by (simp add: log_inv_def log_empty_def log_lines_def last_lines_def LOG_CAP_def)
  next
    case (snoc l ls)
    have "last_lines 80 (last_lines 80 xs @ [x]) = last_lines 80 (xs @ [x])" for xs :: "string list" and x
    proof -
      have "length xs - (length xs - 80 + 79) + (length xs - 80) = length xs - 79" by arith
      then show ?thesis by (simp add: last_lines_snoc) (simp add: last_lines_def)
    qed
    with snoc show ?case by (simp add: push_inv push_lines LOG_CAP_def)
  qed
  then show ?thesis by (simp add: httpLogs_lines LOG_CAP_def)
qed

text \<open>A JSON string up to its closing quote, by the grammar: no control character may stand in it.\<close>

fun json_scan :: "string \<Rightarrow> (string \<times> string) option" where
  "json_scan [] = None"
| "json_scan (c # s) =
     (if c = CHR 0x22 then Some ([], s)
      else if c = CHR 0x5C then
        (case s of
           [] \<Rightarrow> None
         | e # s \<Rightarrow>
           let unescaped = (if e = CHR ''n'' then CHR 0x0A else e)
           in if e \<in> {CHR ''n'', CHR 0x22, CHR 0x5C} then map_option (apfst (Cons unescaped)) (json_scan s) else None)
      else if (of_char c :: nat) < 32 then None
      else map_option (apfst (Cons c)) (json_scan s))"

lemma json_escape_scan:
  "json_scan (jsonEscape s @ CHR 0x22 # rest) =
     (if \<exists>c \<in> set s. (of_char c :: nat) < 32 \<and> c \<noteq> CHR 0x0A then None else Some (s, rest))"
proof (induction s)
  case (Cons c s)
  consider "c = CHR 0x22" | "c = CHR 0x5C" | "c = CHR 0x0A" | "c \<noteq> CHR 0x22" "c \<noteq> CHR 0x5C" "c \<noteq> CHR 0x0A" by blast
  then show ?case by cases (use Cons in \<open>auto simp: Let_def\<close>)
qed simp

text \<open>
  Escaping: between quotes, an escaped text reads as the text itself and the string ends at
  the closing quote, so that nothing in it can break out of the string. This holds unless the
  text has a control character other than the newline; such a character is not escaped, and the
  answer of the page is then not JSON.
\<close>

theorem json_escape_roundtrip:
  "json_scan (jsonEscape s @ CHR 0x22 # rest) =
     (if \<exists>c \<in> set s. (of_char c :: nat) < 32 \<and> c \<noteq> CHR 0x0A then None else Some (s, rest))"
  by (rule json_escape_scan)

end
