(* ===== verification/Fw_Float.thy ===== *)
theory Fw_Float
  imports Complex_Main "HOL-Library.Log_Nat"
begin

text \<open>
  The single precision numbers of the sketch. A finite number is the rational it stands for, and
  an operation is the exact one followed by \<open>f32\<close>, the rounding to 24 significant bits, to even
  in the middle, which IEEE 754 prescribes for the normal range. Values that come from outside
  can also be infinite or not a number.
\<close>

datatype float_value = Finite rat | Infinite | NaN

subsection \<open>Rounding\<close>

definition round_even :: "rat \<Rightarrow> int" where
  "round_even x =
     (let n = \<lfloor>x\<rfloor>; d = x - of_int n
      in if d < 1 / 2 then n else if 1 / 2 < d then n + 1 else if even n then n else n + 1)"

text \<open>The power of two at or below a positive number.\<close>

definition pow2_at :: "rat \<Rightarrow> rat" where
  "pow2_at x =
     (case quotient_of x of (p, q) \<Rightarrow>
        let b = 2 ^ floorlog 2 (nat p) / 2 ^ floorlog 2 (nat q)
        in if x < b then b / 2 else b)"

definition f32 :: "rat \<Rightarrow> rat" where
  "f32 x =
     (if x = 0 then 0
      else let ulp = pow2_at \<bar>x\<bar> / 2 ^ 23 in of_int (round_even (x / ulp)) * ulp)"

lemma round_even_error: "\<bar>of_int (round_even x) - x\<bar> \<le> 1 / 2"
proof -
  have "of_int \<lfloor>x\<rfloor> \<le> x" "x < of_int \<lfloor>x\<rfloor> + 1" by linarith+
  then show ?thesis by (auto simp: round_even_def Let_def abs_le_iff)
qed

lemma round_even_int: "round_even (of_int n) = n"
  by (simp add: round_even_def)

text \<open>Monotone: between a number and a larger one lies no rounding that turns them around.\<close>

lemma round_even_mono:
  assumes "x \<le> y"
  shows "round_even x \<le> round_even y"
proof (cases "\<lfloor>x\<rfloor> = \<lfloor>y\<rfloor>")
  case True
  with assms show ?thesis by (auto simp: round_even_def Let_def)
next
  case False
  then have "\<lfloor>x\<rfloor> + 1 \<le> \<lfloor>y\<rfloor>" using floor_mono [OF assms] by simp
  moreover have "round_even x \<le> \<lfloor>x\<rfloor> + 1" "\<lfloor>y\<rfloor> \<le> round_even y" by (simp_all add: round_even_def Let_def)
  ultimately show ?thesis by linarith
qed

lemma pow2_at_bounds:
  assumes "0 < x"
  shows "0 < pow2_at x" and "pow2_at x \<le> x" and "x < 2 * pow2_at x"
proof -
  obtain p q where q: "quotient_of x = (p, q)" by fastforce
  have x: "x = of_int p / of_int q" and "0 < q" using quotient_of_div [OF q] quotient_of_denom_pos [OF q] by simp_all
  then have "0 < p" using assms by (simp add: zero_less_divide_iff)
  have bounds: "2 ^ floorlog 2 (nat n) \<le> 2 * (of_int n :: rat)" "(of_int n :: rat) < 2 ^ floorlog 2 (nat n)"
    if "0 < n" for n :: int
  proof -
    have f: "2 ^ (floorlog 2 (nat n) - 1) \<le> nat n" "nat n < 2 ^ floorlog 2 (nat n)" "0 < floorlog 2 (nat n)"
      using that floorlog_bounds [of "nat n" 2] by (auto simp: floorlog_def)
    have "(2 :: nat) ^ floorlog 2 (nat n) = 2 * 2 ^ (floorlog 2 (nat n) - 1)"
      using f(3) by (metis Suc_pred' power_Suc)
    with f(1) have "2 ^ floorlog 2 (nat n) \<le> 2 * nat n" by simp
    then have "of_nat (2 ^ floorlog 2 (nat n)) \<le> (of_nat (2 * nat n) :: rat)" by (simp only: of_nat_le_iff)
    then show "2 ^ floorlog 2 (nat n) \<le> 2 * (of_int n :: rat)" using that by simp
    have "(of_nat (nat n) :: rat) < of_nat (2 ^ floorlog 2 (nat n))" using f(2) by (simp only: of_nat_less_iff)
    then show "(of_int n :: rat) < 2 ^ floorlog 2 (nat n)" using that by simp
  qed
  let ?P = "2 ^ floorlog 2 (nat p) :: rat" and ?Q = "2 ^ floorlog 2 (nat q) :: rat"
  note bp = bounds [OF \<open>0 < p\<close>] and bq = bounds [OF \<open>0 < q\<close>]
  have pos: "0 < ?P" "0 < ?Q" "0 < (of_int q :: rat)" "0 < (of_int p :: rat)" using \<open>0 < p\<close> \<open>0 < q\<close> by simp_all
  have low: "?P / ?Q \<le> 2 * x"
  proof -
    have "?P * of_int q \<le> 2 * of_int p * ?Q" using bp(1) bq(2) pos by (intro mult_mono) simp_all
    then show ?thesis using pos by (simp add: x field_simps)
  qed
  have high: "x < 2 * (?P / ?Q)"
  proof -
    have "of_int p * ?Q < ?P * (2 * of_int q)" using bp(2) bq(1) pos by (intro mult_less_le_imp_less) simp_all
    then show ?thesis using pos by (simp add: x field_simps)
  qed
  have at: "pow2_at x = (if x < ?P / ?Q then ?P / ?Q / 2 else ?P / ?Q)" by (simp add: pow2_at_def q Let_def)
  show "0 < pow2_at x" using pos by (simp add: at)
  show "pow2_at x \<le> x" using low by (simp add: at)
  show "x < 2 * pow2_at x" using high by (simp add: at)
qed

text \<open>The relative error is at most half a unit in the last place.\<close>

lemma f32_error: "\<bar>f32 x - x\<bar> \<le> \<bar>x\<bar> / 2 ^ 24"
proof (cases "x = 0")
  case False
  define ulp where "ulp = pow2_at \<bar>x\<bar> / 2 ^ 23"
  have ulp: "0 < ulp" "ulp \<le> \<bar>x\<bar> / 2 ^ 23" using pow2_at_bounds [of "\<bar>x\<bar>"] False by (simp_all add: ulp_def divide_right_mono)
  have "f32 x - x = (of_int (round_even (x / ulp)) - x / ulp) * ulp"
    using False ulp(1) unfolding f32_def ulp_def [symmetric] Let_def by (simp add: left_diff_distrib)
  then have "\<bar>f32 x - x\<bar> = \<bar>of_int (round_even (x / ulp)) - x / ulp\<bar> * ulp"
    using ulp(1) by (simp only: abs_mult abs_of_pos)
  also have "\<dots> \<le> 1 / 2 * ulp" using ulp(1) by (intro mult_right_mono round_even_error) simp
  also have "\<dots> \<le> \<bar>x\<bar> / 2 ^ 24" using ulp(2) by simp
  finally show ?thesis .
qed (simp add: f32_def)

text \<open>Halves of moderate size are exact.\<close>

lemma f32_exact:
  assumes "2 * x = of_int k" and "\<bar>x\<bar> < 2 ^ 22"
  shows "f32 x = x"
proof (cases "x = 0")
  case False
  obtain a b where ab: "pow2_at \<bar>x\<bar> = 2 ^ a / 2 ^ b"
  proof -
    obtain p q where q: "quotient_of \<bar>x\<bar> = (p, q)" by fastforce
    show thesis
    proof (cases "\<bar>x\<bar> < 2 ^ floorlog 2 (nat p) / 2 ^ floorlog 2 (nat q)")
      case True
      then have "pow2_at \<bar>x\<bar> = 2 ^ floorlog 2 (nat p) / 2 ^ Suc (floorlog 2 (nat q))"
        by (simp add: pow2_at_def q Let_def)
      then show thesis by (rule that)
    qed (simp add: pow2_at_def q Let_def that)
  qed
  have "0 < \<bar>x\<bar>" using False by simp
  then have "2 ^ a / 2 ^ b \<le> \<bar>x\<bar>" using pow2_at_bounds(2) ab by metis
  then have "2 ^ a / 2 ^ b < (2 :: rat) ^ 22" using assms(2) by (rule le_less_trans)
  then have "(2 :: rat) ^ a < 2 ^ (22 + b)" by (simp add: divide_less_eq power_add)
  then have less: "a < 22 + b" by (rule power_less_imp_less_exp [rotated]) simp
  have p: "(2 :: rat) ^ (22 + b) = 2 ^ (22 + b - a) * 2 ^ a" using less by (simp flip: power_add)
  have "x / (2 ^ a / 2 ^ b / 2 ^ 23) = (2 * x) * (2 ^ (22 + b) / 2 ^ a)" by (simp add: power_add)
  also have "\<dots> = of_int k * 2 ^ (22 + b - a)" by (simp only: assms(1) p) simp
  also have "\<dots> = of_int (k * 2 ^ (22 + b - a))" by simp
  finally have i: "x / (2 ^ a / 2 ^ b / 2 ^ 23) = of_int (k * 2 ^ (22 + b - a))" .
  have "f32 x = of_int (k * 2 ^ (22 + b - a)) * (2 ^ a / 2 ^ b / 2 ^ 23)"
    using False unfolding f32_def ab Let_def i round_even_int by simp
  then show ?thesis unfolding i [symmetric] by simp
qed (simp add: f32_def)


subsection \<open>Order, sign and scale\<close>

definition is_pow2 :: "rat \<Rightarrow> bool" where
  "is_pow2 p \<longleftrightarrow> (\<exists>a b. p = 2 ^ a / 2 ^ b)"

lemma is_pow2_double: "is_pow2 p \<Longrightarrow> is_pow2 (2 * p)"
  unfolding is_pow2_def by (metis power_Suc times_divide_eq_right)

lemma is_pow2_half: "is_pow2 p \<Longrightarrow> is_pow2 (p / 2)"
  unfolding is_pow2_def by (metis divide_divide_eq_left power_Suc mult.commute)

lemma pow2_at_pow2: "is_pow2 (pow2_at x)"
proof -
  obtain p q where q: "quotient_of x = (p, q)" by fastforce
  have "is_pow2 (2 ^ floorlog 2 (nat p) / 2 ^ floorlog 2 (nat q))" by (auto simp: is_pow2_def)
  then show ?thesis using is_pow2_half by (auto simp only: pow2_at_def q Let_def prod.case split: if_splits)
qed

lemma is_pow2_pos: "is_pow2 p \<Longrightarrow> 0 < p"
  by (auto simp: is_pow2_def)

text \<open>Two powers of two less than a factor of two apart are the same.\<close>

lemma is_pow2_less:
  assumes "is_pow2 p" "is_pow2 q" "p < q"
  shows "2 * p \<le> q"
proof -
  obtain a b c d where e: "p = 2 ^ a / 2 ^ b" "q = 2 ^ c / 2 ^ d" using assms by (auto simp: is_pow2_def)
  have "2 ^ a / 2 ^ b < (2 ^ c / 2 ^ d :: rat)" using assms(3) by (simp only: e)
  then have "(2 :: rat) ^ (a + d) < 2 ^ (c + b)" by (simp add: field_simps power_add)
  then have "a + d < c + b" by (rule power_less_imp_less_exp [rotated]) simp
  then have "(2 :: rat) ^ Suc (a + d) \<le> 2 ^ (c + b)" by (intro power_increasing) simp_all
  then show ?thesis by (simp add: e field_simps power_add)
qed

lemma pow2_at_unique:
  assumes "is_pow2 p" "p \<le> x" "x < 2 * p"
  shows "pow2_at x = p"
proof (rule ccontr)
  have x: "0 < x" using is_pow2_pos [OF assms(1)] assms(2) by simp
  note b = pow2_at_bounds [OF x]
  assume "pow2_at x \<noteq> p"
  then consider "pow2_at x < p" | "p < pow2_at x" by linarith
  then show False
    using is_pow2_less [OF pow2_at_pow2 assms(1)] is_pow2_less [OF assms(1) pow2_at_pow2] b assms by cases force+
qed

lemma pow2_at_double: "0 < x \<Longrightarrow> pow2_at (2 * x) = 2 * pow2_at x"
  by (rule pow2_at_unique) (simp_all add: is_pow2_double pow2_at_pow2 pow2_at_bounds)

lemma f32_double: "f32 (2 * x) = 2 * f32 x"
proof (cases "x = 0")
  case False
  have "\<bar>2 * x\<bar> = 2 * \<bar>x\<bar>" by (simp add: abs_mult)
  then have "pow2_at \<bar>2 * x\<bar> = 2 * pow2_at \<bar>x\<bar>" using False pow2_at_double [of "\<bar>x\<bar>"] by simp
  moreover have "2 * x / (2 * pow2_at \<bar>x\<bar> / 2 ^ 23) = x / (pow2_at \<bar>x\<bar> / 2 ^ 23)" by simp
  ultimately show ?thesis using False by (simp only: f32_def Let_def) simp
qed (simp add: f32_def)

lemma round_even_neg: "round_even (- x) = - round_even x"
proof (cases "x = of_int \<lfloor>x\<rfloor>")
  case True
  then show ?thesis by (metis of_int_minus round_even_int)
next
  case False
  define n where "n = \<lfloor>x\<rfloor>"
  define d where "d = x - of_int n"
  have d: "0 < d" "d < 1" using False by (simp_all add: d_def n_def) linarith+
  have f: "\<lfloor>- x\<rfloor> = - n - 1" by (rule floor_unique) (use d in \<open>simp_all add: d_def\<close>)
  have e: "- x - of_int (- n - 1) = 1 - d" by (simp add: d_def)
  show ?thesis
    unfolding round_even_def Let_def f e n_def [symmetric] d_def [symmetric]
    using d by (auto simp: even_diff_iff)
qed

lemma f32_neg [simp]: "f32 (- x) = - f32 x"
  by (simp add: f32_def Let_def round_even_neg)

lemma f32_0 [simp]: "f32 0 = 0"
  by (simp add: f32_def)

text \<open>A rounded number lies between the powers of two about the number.\<close>

lemma f32_between:
  assumes "0 < x"
  shows "pow2_at x \<le> f32 x" "f32 x \<le> 2 * pow2_at x"
proof -
  define ulp where "ulp = pow2_at x / 2 ^ 23"
  note b = pow2_at_bounds [OF assms]
  have ulp: "0 < ulp" "pow2_at x = 2 ^ 23 * ulp" using b by (simp_all add: ulp_def)
  have "of_int (2 ^ 23) \<le> x / ulp" "x / ulp \<le> of_int (2 ^ 24)" using b ulp by (simp_all add: field_simps)
  then have "2 ^ 23 \<le> round_even (x / ulp)" "round_even (x / ulp) \<le> 2 ^ 24"
    using round_even_mono [of "of_int (2 ^ 23)" "x / ulp"] round_even_mono [of "x / ulp" "of_int (2 ^ 24)"]
    by (simp_all only: round_even_int)
  then have "(2 :: rat) ^ 23 \<le> of_int (round_even (x / ulp))" "of_int (round_even (x / ulp)) \<le> (2 :: rat) ^ 24" by simp_all
  then have "2 ^ 23 * ulp \<le> of_int (round_even (x / ulp)) * ulp" "of_int (round_even (x / ulp)) * ulp \<le> 2 ^ 24 * ulp"
    using ulp(1) by (simp_all only: mult_le_cancel_right_pos)
  moreover have "f32 x = of_int (round_even (x / ulp)) * ulp"
    using assms by (simp add: f32_def Let_def ulp_def)
  ultimately show "pow2_at x \<le> f32 x" "f32 x \<le> 2 * pow2_at x" by (simp_all add: ulp(2))
qed

lemma f32_mono_pos:
  assumes "0 < x" "x \<le> y"
  shows "f32 x \<le> f32 y"
proof (cases "pow2_at x = pow2_at y")
  case True
  have "0 < pow2_at y" using pow2_at_bounds [of y] assms by simp
  then show ?thesis
    using assms True
    by (auto simp: f32_def Let_def intro!: mult_right_mono divide_right_mono round_even_mono)
next
  case False
  have "pow2_at x < pow2_at y"
  proof (rule ccontr)
    assume "\<not> pow2_at x < pow2_at y"
    then have "pow2_at y < pow2_at x" using False by simp
    then have "2 * pow2_at y \<le> pow2_at x" by (rule is_pow2_less [OF pow2_at_pow2 pow2_at_pow2])
    then show False using pow2_at_bounds [of x] pow2_at_bounds [of y] assms by simp
  qed
  then have "2 * pow2_at x \<le> pow2_at y" by (rule is_pow2_less [OF pow2_at_pow2 pow2_at_pow2])
  then show ?thesis using f32_between(2) [OF assms(1)] f32_between(1) [of y] assms by simp
qed

lemma f32_pos: "0 < x \<Longrightarrow> 0 < f32 x"
  using f32_between(1) [of x] pow2_at_bounds(1) [of x] by linarith

lemma f32_mono: "x \<le> y \<Longrightarrow> f32 x \<le> f32 y"
proof -
  assume xy: "x \<le> y"
  consider "0 < x" | "x = 0" | "x < 0" "0 \<le> y" | "y < 0" using xy by linarith
  then show ?thesis
  proof cases
    case 1
    then show ?thesis using xy by (rule f32_mono_pos)
  next
    case 2
    then show ?thesis using xy f32_pos [of y] by (cases "y = 0") simp_all
  next
    case 3
    then show ?thesis using f32_pos [of "- x"] f32_pos [of y] by (cases "y = 0") simp_all
  next
    case 4
    then show ?thesis using xy f32_mono_pos [of "- y" "- x"] by simp
  qed
qed

text \<open>Rounding again changes nothing.\<close>

lemma f32_pow2: "is_pow2 p \<Longrightarrow> f32 p = p"
proof -
  assume p: "is_pow2 p"
  then have "pow2_at p = p" using is_pow2_pos [OF p] by (intro pow2_at_unique) simp_all
  moreover have "p / (p / 2 ^ 23) = of_int (2 ^ 23)" using is_pow2_pos [OF p] by simp
  ultimately show ?thesis using is_pow2_pos [OF p] by (simp only: f32_def Let_def abs_of_pos round_even_int) simp
qed

lemma f32_f32_pos:
  assumes "0 < x"
  shows "f32 (f32 x) = f32 x"
proof (cases "f32 x = 2 * pow2_at x")
  case True
  then show ?thesis by (simp add: f32_pow2 is_pow2_double pow2_at_pow2)
next
  case False
  define ulp where "ulp = pow2_at x / 2 ^ 23"
  have "pow2_at (f32 x) = pow2_at x"
    using f32_between [OF assms] False by (intro pow2_at_unique pow2_at_pow2) simp_all
  then have "f32 (f32 x) = of_int (round_even (f32 x / ulp)) * ulp"
    using f32_pos [OF assms] by (simp add: f32_def [of "f32 x"] Let_def ulp_def)
  moreover have "f32 x = of_int (round_even (x / ulp)) * ulp" "ulp \<noteq> 0"
    using assms pow2_at_bounds(1) [OF assms] by (simp_all add: f32_def Let_def ulp_def)
  ultimately show ?thesis by (simp add: round_even_int)
qed

lemma f32_f32 [simp]: "f32 (f32 x) = f32 x"
proof -
  consider "0 < x" | "x = 0" | "0 < - x" by linarith
  then show ?thesis using f32_f32_pos [of x] f32_f32_pos [of "- x"] by cases simp_all
qed

end
