(* ===== verification/Fw_Settings.thy ===== *)
theory Fw_Settings
  imports Fw_Float Wg_Manager
begin

text \<open>
  The settings of the sketch and the state of its thermal protection: the global variables as
  the record \<open>fw\<close>, their defaults, what is loaded from the store and saved to it, and the tables
  of the radio's power. A setting that is a \<open>float\<close> is a rational. Log lines are not modelled.
\<close>

unbundle bit_operations_syntax

subsection \<open>Defaults\<close>

definition DEFAULT_SAMPLE_RATE :: u32 where "DEFAULT_SAMPLE_RATE = 16000"
definition DEFAULT_GAIN_FACTOR :: rat where "DEFAULT_GAIN_FACTOR = 3"
definition DEFAULT_BUFFER_SIZE :: u16 where "DEFAULT_BUFFER_SIZE = 1024"
definition DEFAULT_WIFI_TX_DBM :: rat where "DEFAULT_WIFI_TX_DBM = 39 / 2"
definition DEFAULT_HPF_ENABLED :: bool where "DEFAULT_HPF_ENABLED = True"
definition DEFAULT_HPF_CUTOFF_HZ :: u16 where "DEFAULT_HPF_CUTOFF_HZ = 300"
definition DEFAULT_OVERHEAT_PROTECTION :: bool where "DEFAULT_OVERHEAT_PROTECTION = True"
definition DEFAULT_OVERHEAT_LIMIT_C :: u32 where "DEFAULT_OVERHEAT_LIMIT_C = 80"
definition OVERHEAT_MIN_LIMIT_C :: u32 where "OVERHEAT_MIN_LIMIT_C = 30"
definition OVERHEAT_MAX_LIMIT_C :: u32 where "OVERHEAT_MAX_LIMIT_C = 95"
definition OVERHEAT_LIMIT_STEP_C :: u32 where "OVERHEAT_LIMIT_STEP_C = 5"

lemmas default_defs = DEFAULT_SAMPLE_RATE_def DEFAULT_GAIN_FACTOR_def DEFAULT_BUFFER_SIZE_def
  DEFAULT_WIFI_TX_DBM_def DEFAULT_HPF_ENABLED_def DEFAULT_HPF_CUTOFF_HZ_def DEFAULT_OVERHEAT_PROTECTION_def
  DEFAULT_OVERHEAT_LIMIT_C_def OVERHEAT_MIN_LIMIT_C_def OVERHEAT_MAX_LIMIT_C_def OVERHEAT_LIMIT_STEP_C_def

subsection \<open>Power of the radio\<close>

datatype wifi_power_t =
    WIFI_POWER_19_5dBm | WIFI_POWER_19dBm | WIFI_POWER_18_5dBm | WIFI_POWER_17dBm | WIFI_POWER_15dBm
  | WIFI_POWER_13dBm | WIFI_POWER_11dBm | WIFI_POWER_8_5dBm | WIFI_POWER_7dBm | WIFI_POWER_5dBm
  | WIFI_POWER_2dBm | WIFI_POWER_MINUS_1dBm

fun wifiPowerLevelToDbm :: "wifi_power_t \<Rightarrow> rat" where
  "wifiPowerLevelToDbm WIFI_POWER_19_5dBm = 39 / 2"
| "wifiPowerLevelToDbm WIFI_POWER_19dBm = 19"
| "wifiPowerLevelToDbm WIFI_POWER_18_5dBm = 37 / 2"
| "wifiPowerLevelToDbm WIFI_POWER_17dBm = 17"
| "wifiPowerLevelToDbm WIFI_POWER_15dBm = 15"
| "wifiPowerLevelToDbm WIFI_POWER_13dBm = 13"
| "wifiPowerLevelToDbm WIFI_POWER_11dBm = 11"
| "wifiPowerLevelToDbm WIFI_POWER_8_5dBm = 17 / 2"
| "wifiPowerLevelToDbm WIFI_POWER_7dBm = 7"
| "wifiPowerLevelToDbm WIFI_POWER_5dBm = 5"
| "wifiPowerLevelToDbm WIFI_POWER_2dBm = 2"
| "wifiPowerLevelToDbm WIFI_POWER_MINUS_1dBm = -1"

definition pickWifiPowerLevel :: "rat \<Rightarrow> wifi_power_t" where
  "pickWifiPowerLevel dbm =
     (if dbm \<le> -1 then WIFI_POWER_MINUS_1dBm
      else if dbm \<le> 2 then WIFI_POWER_2dBm
      else if dbm \<le> 5 then WIFI_POWER_5dBm
      else if dbm \<le> 7 then WIFI_POWER_7dBm
      else if dbm \<le> 17 / 2 then WIFI_POWER_8_5dBm
      else if dbm \<le> 11 then WIFI_POWER_11dBm
      else if dbm \<le> 13 then WIFI_POWER_13dBm
      else if dbm \<le> 15 then WIFI_POWER_15dBm
      else if dbm \<le> 17 then WIFI_POWER_17dBm
      else if dbm \<le> 37 / 2 then WIFI_POWER_18_5dBm
      else if dbm \<le> 19 then WIFI_POWER_19dBm
      else WIFI_POWER_19_5dBm)"

definition tx_steps :: "rat list" where
  "tx_steps = [-1, 2, 5, 7, 17 / 2, 11, 13, 15, 17, 37 / 2, 19, 39 / 2]"

text \<open>The loop of \<open>snapWifiTxDbm\<close> over the steps after the first.\<close>

fun snap_loop :: "rat \<Rightarrow> rat list \<Rightarrow> rat \<Rightarrow> rat \<Rightarrow> rat" where
  "snap_loop dbm [] best bestd = best"
| "snap_loop dbm (step # steps) best bestd =
     (let d = f32 \<bar>dbm - step\<bar>
      in if d < bestd then snap_loop dbm steps step d else snap_loop dbm steps best bestd)"

definition snapWifiTxDbm :: "rat \<Rightarrow> rat" where
  "snapWifiTxDbm dbm = snap_loop dbm (tl tx_steps) (hd tx_steps) (f32 \<bar>dbm - hd tx_steps\<bar>)"

subsection \<open>State\<close>

text \<open>
  The globals, \<open>server_listening\<close> for the listening socket of \<open>rtspServer\<close>, and the namespace of
  \<open>audioPrefs\<close>.
\<close>

record 'n fw =
  currentSampleRate :: u32
  currentGainFactor :: rat
  currentBufferSize :: u16
  i2sShiftBits :: u8
  autoRecoveryEnabled :: bool
  scheduledResetEnabled :: bool
  resetIntervalHours :: u32
  minAcceptableRate :: u32
  performanceCheckInterval :: u32
  autoThresholdEnabled :: bool
  cpuFrequencyMhz :: u8
  wifiTxPowerDbm :: rat
  currentWifiPowerLevel :: wifi_power_t
  highpassEnabled :: bool
  highpassCutoffHz :: u16
  agcEnabled :: bool
  agcMultiplier :: rat
  ledMode :: u8
  overheatProtectionEnabled :: bool
  overheatShutdownC :: rat
  overheatLockoutActive :: bool
  overheatTripTemp :: rat
  overheatTriggeredAt :: u32
  overheatLastReason :: string
  overheatLastTimestamp :: string
  overheatSensorFault :: bool
  overheatLatched :: bool
  lastTemperatureC :: rat
  lastTemperatureValid :: bool
  maxTemperature :: rat
  rtspServerEnabled :: bool
  server_listening :: bool
  scheduledFactoryReset :: bool
  scheduledRebootAt :: u32
  bootTime :: u32
  audioPrefs :: 'n

text \<open>The initial values of the globals.\<close>

definition fw_initial :: "'n \<Rightarrow> 'n fw" where
  "fw_initial n =
     \<lparr>currentSampleRate = DEFAULT_SAMPLE_RATE, currentGainFactor = DEFAULT_GAIN_FACTOR,
      currentBufferSize = DEFAULT_BUFFER_SIZE, i2sShiftBits = 0, autoRecoveryEnabled = False,
      scheduledResetEnabled = False, resetIntervalHours = 24, minAcceptableRate = 50,
      performanceCheckInterval = 15, autoThresholdEnabled = True, cpuFrequencyMhz = 160,
      wifiTxPowerDbm = DEFAULT_WIFI_TX_DBM, currentWifiPowerLevel = WIFI_POWER_19_5dBm,
      highpassEnabled = DEFAULT_HPF_ENABLED, highpassCutoffHz = DEFAULT_HPF_CUTOFF_HZ,
      agcEnabled = False, agcMultiplier = 1, ledMode = 1,
      overheatProtectionEnabled = DEFAULT_OVERHEAT_PROTECTION,
      overheatShutdownC = of_nat (unat DEFAULT_OVERHEAT_LIMIT_C), overheatLockoutActive = False,
      overheatTripTemp = 0, overheatTriggeredAt = 0, overheatLastReason = [], overheatLastTimestamp = [],
      overheatSensorFault = False, overheatLatched = False, lastTemperatureC = 0, lastTemperatureValid = False,
      maxTemperature = 0, rtspServerEnabled = True, server_listening = False,
      scheduledFactoryReset = False, scheduledRebootAt = 0, bootTime = 0, audioPrefs = n\<rparr>"

subsection \<open>Operations\<close>

definition applyWifiTxPower :: "'n fw \<Rightarrow> 'n fw" where
  "applyWifiTxPower s =
     (let desired = pickWifiPowerLevel (wifiTxPowerDbm s)
      in if desired \<noteq> currentWifiPowerLevel s then s\<lparr>currentWifiPowerLevel := desired\<rparr> else s)"

definition computeRecommendedMinRate :: "'n fw \<Rightarrow> u32" where
  "computeRecommendedMinRate s =
     (let buf = max 1 (currentBufferSize s);
          expectedPktPerSec = f32 (f32 (of_nat (unat (currentSampleRate s))) / f32 (of_nat (unat buf)));
          rec = word_of_int \<lfloor>f32 (f32 (expectedPktPerSec * (1 / 2)) + 1 / 2)\<rfloor>
      in if rec < 5 then 5 else rec)"

text \<open>The limit as it is stored and loaded.\<close>

definition clamp_limit :: "u32 \<Rightarrow> u32" where
  "clamp_limit ohLimit =
     (let ohLimit = (if ohLimit < OVERHEAT_MIN_LIMIT_C then OVERHEAT_MIN_LIMIT_C else ohLimit)
      in if ohLimit > OVERHEAT_MAX_LIMIT_C then OVERHEAT_MAX_LIMIT_C else ohLimit)"

definition snap_limit :: "u32 \<Rightarrow> u32" where
  "snap_limit ohLimit =
     OVERHEAT_MIN_LIMIT_C + (ohLimit - OVERHEAT_MIN_LIMIT_C) div OVERHEAT_LIMIT_STEP_C * OVERHEAT_LIMIT_STEP_C"

text \<open>Loading, in the four parts of the function.\<close>

definition load_audio :: "'n prefs \<Rightarrow> 'n fw \<Rightarrow> 'n fw" where
  "load_audio P s =
     (let n = audioPrefs s
      in s\<lparr>currentSampleRate := getUInt P ''sampleRate'' DEFAULT_SAMPLE_RATE n,
           currentGainFactor := getFloat P ''gainFactor'' DEFAULT_GAIN_FACTOR n,
           currentBufferSize := getUShort P ''bufferSize'' DEFAULT_BUFFER_SIZE n,
           i2sShiftBits := 0,
           autoRecoveryEnabled := getBool P ''autoRecovery'' False n,
           scheduledResetEnabled := getBool P ''schedReset'' False n,
           resetIntervalHours := getUInt P ''resetHours'' 24 n,
           minAcceptableRate := getUInt P ''minRate'' 50 n,
           performanceCheckInterval := getUInt P ''checkInterval'' 15 n,
           autoThresholdEnabled := getBool P ''thrAuto'' True n,
           cpuFrequencyMhz := getUChar P ''cpuFreq'' 160 n,
           wifiTxPowerDbm := getFloat P ''wifiTxDbm'' DEFAULT_WIFI_TX_DBM n,
           highpassEnabled := getBool P ''hpEnable'' DEFAULT_HPF_ENABLED n,
           highpassCutoffHz := ucast (getUInt P ''hpCutoff'' (ucast DEFAULT_HPF_CUTOFF_HZ) n),
           agcEnabled := getBool P ''agcEnable'' False n,
           ledMode := getUChar P ''ledMode'' 1 n\<rparr>)"

definition load_led :: "'n fw \<Rightarrow> 'n fw" where
  "load_led s = (if ledMode s > 2 then s\<lparr>ledMode := 1\<rparr> else s)"

definition load_thermal :: "'n prefs \<Rightarrow> 'n fw \<Rightarrow> 'n fw" where
  "load_thermal P s =
     (let n = audioPrefs s;
          ohLimit = snap_limit (clamp_limit (getUInt P ''ohThresh'' DEFAULT_OVERHEAT_LIMIT_C n))
      in s\<lparr>overheatProtectionEnabled := getBool P ''ohEnable'' DEFAULT_OVERHEAT_PROTECTION n,
           overheatShutdownC := of_nat (unat ohLimit),
           overheatLastReason := getString P ''ohReason'' [] n,
           overheatLastTimestamp := getString P ''ohStamp'' [] n,
           overheatTripTemp := getFloat P ''ohTripC'' 0 n,
           overheatLatched := getBool P ''ohLatched'' False n\<rparr>)"

definition load_derived :: "'n fw \<Rightarrow> 'n fw" where
  "load_derived s =
     (let s = (if autoThresholdEnabled s then s\<lparr>minAcceptableRate := computeRecommendedMinRate s\<rparr> else s)
      in if overheatLatched s then s\<lparr>rtspServerEnabled := False\<rparr> else s)"

definition loadAudioSettings :: "'n prefs \<Rightarrow> 'n fw \<Rightarrow> 'n fw" where
  "loadAudioSettings P s = load_derived (load_thermal P (load_led (load_audio P s)))"

definition saveAudioSettings :: "'n prefs \<Rightarrow> 'n fw \<Rightarrow> 'n fw" where
  "saveAudioSettings P s =
     (let put = pf_put P; n = audioPrefs s;
          n = put ''sampleRate'' (PUInt (currentSampleRate s)) n;
          n = put ''gainFactor'' (PFloat (currentGainFactor s)) n;
          n = put ''bufferSize'' (PUShort (currentBufferSize s)) n;
          n = put ''shiftBits'' (PUChar (i2sShiftBits s)) n;
          n = put ''autoRecovery'' (PBool (autoRecoveryEnabled s)) n;
          n = put ''schedReset'' (PBool (scheduledResetEnabled s)) n;
          n = put ''resetHours'' (PUInt (resetIntervalHours s)) n;
          n = put ''minRate'' (PUInt (minAcceptableRate s)) n;
          n = put ''checkInterval'' (PUInt (performanceCheckInterval s)) n;
          n = put ''thrAuto'' (PBool (autoThresholdEnabled s)) n;
          n = put ''cpuFreq'' (PUChar (cpuFrequencyMhz s)) n;
          n = put ''wifiTxDbm'' (PFloat (wifiTxPowerDbm s)) n;
          n = put ''hpEnable'' (PBool (highpassEnabled s)) n;
          n = put ''hpCutoff'' (PUInt (ucast (highpassCutoffHz s))) n;
          n = put ''agcEnable'' (PBool (agcEnabled s)) n;
          n = put ''ledMode'' (PUChar (ledMode s)) n;
          n = put ''ohEnable'' (PBool (overheatProtectionEnabled s)) n;
          ohLimit = clamp_limit (word_of_int \<lfloor>f32 (overheatShutdownC s + 1 / 2)\<rfloor>);
          n = put ''ohThresh'' (PUInt ohLimit) n;
          n = put ''ohReason'' (PString (overheatLastReason s)) n;
          n = put ''ohStamp'' (PString (overheatLastTimestamp s)) n;
          n = put ''ohTripC'' (PFloat (overheatTripTemp s)) n;
          n = put ''ohLatched'' (PBool (overheatLatched s)) n
      in s\<lparr>audioPrefs := n\<rparr>)"

definition scheduleReboot :: "u32 \<Rightarrow> bool \<Rightarrow> u32 \<Rightarrow> 'n fw \<Rightarrow> 'n fw" where
  "scheduleReboot now factoryReset delayMs s =
     s\<lparr>scheduledFactoryReset := factoryReset, scheduledRebootAt := now + delayMs\<rparr>"

text \<open>The variable \<open>isStreaming\<close>, which this also clears, is not part of this state.\<close>

definition resetToDefaultSettings :: "'n externals \<Rightarrow> 'n fw \<times> 'n manager \<Rightarrow> 'n fw \<times> 'n manager" where
  "resetToDefaultSettings X = (\<lambda>(s, m).
     let s = s\<lparr>audioPrefs := pf_clear (ex_prefs X) (audioPrefs s)\<rparr>;
         m = wg_clear X m;
         s = s\<lparr>currentSampleRate := DEFAULT_SAMPLE_RATE, currentGainFactor := DEFAULT_GAIN_FACTOR,
               currentBufferSize := DEFAULT_BUFFER_SIZE, i2sShiftBits := 0,
               autoRecoveryEnabled := False, autoThresholdEnabled := True, scheduledResetEnabled := False,
               resetIntervalHours := 24\<rparr>;
         s = s\<lparr>minAcceptableRate := computeRecommendedMinRate s\<rparr>;
         s = s\<lparr>performanceCheckInterval := 15, cpuFrequencyMhz := 160, wifiTxPowerDbm := DEFAULT_WIFI_TX_DBM,
               highpassEnabled := DEFAULT_HPF_ENABLED, highpassCutoffHz := DEFAULT_HPF_CUTOFF_HZ,
               agcEnabled := False, agcMultiplier := 1, ledMode := 1,
               overheatProtectionEnabled := DEFAULT_OVERHEAT_PROTECTION,
               overheatShutdownC := of_nat (unat DEFAULT_OVERHEAT_LIMIT_C), overheatLockoutActive := False,
               overheatTripTemp := 0, overheatTriggeredAt := 0, overheatLastReason := [],
               overheatLastTimestamp := [], overheatSensorFault := False, overheatLatched := False,
               lastTemperatureC := 0, lastTemperatureValid := False\<rparr>
     in (saveAudioSettings (ex_prefs X) s, m))"

end
