(* ===== verification/Fw_Settings_Props.thy ===== *)
theory Fw_Settings_Props
  imports Fw_Settings
begin

text \<open>
  The settings: the threshold of the packet rate against exact arithmetic, the table of the
  radio's power, and the round trip through the store.
\<close>

subsection \<open>The threshold\<close>

lemma recommended_exact:
  assumes "8000 \<le> currentSampleRate s" and "currentSampleRate s \<le> 96000"
    and "256 \<le> currentBufferSize s" and "currentBufferSize s \<le> 8192"
  shows "unat (computeRecommendedMinRate s) =
    max 5 ((unat (currentSampleRate s) + unat (currentBufferSize s)) div (2 * unat (currentBufferSize s)))"
proof -
  let ?r = "of_nat (unat (currentSampleRate s)) :: rat" and ?b = "of_nat (unat (currentBufferSize s)) :: rat"
  define R where "R = unat (currentSampleRate s)"
  define B where "B = unat (currentBufferSize s)"
  have R: "8000 \<le> R" "R \<le> 96000" and B: "256 \<le> B" "B \<le> 8192"
    using assms by (simp_all add: R_def B_def word_le_nat_alt)
  have fR: "f32 (of_nat R) = of_nat R" and fB: "f32 (of_nat B) = of_nat B"
    using R B by (intro f32_exact [of _ "2 * int _"]; simp)+
  define x where "x = (of_nat R / of_nat B :: rat)"
  define e where "e = f32 x"
  define h where "h = f32 (e * (1 / 2))"
  define y where "y = f32 (h + 1 / 2)"
  have m: "max 1 (currentBufferSize s) = currentBufferSize s"
    using assms(3) by (simp add: max_def word_le_nat_alt)
  have c: "computeRecommendedMinRate s = (if word_of_int \<lfloor>y\<rfloor> < (5 :: u32) then 5 else word_of_int \<lfloor>y\<rfloor>)"
    unfolding computeRecommendedMinRate_def Let_def m R_def [symmetric] B_def [symmetric] fR fB y_def h_def e_def x_def
    by (rule refl)
  let ?k = "(R + B) div (2 * B)"
  have split: "R + B = 2 * B * ?k + (R + B) mod (2 * B)" by simp
  have "\<lfloor>y\<rfloor> = int ?k"
  proof (cases "(R + B) mod (2 * B) = 0")
    case True
    then have "R + B = 2 * B * ?k" using split by simp
    then have "of_nat (R + B) = (of_nat (2 * B * ?k) :: rat)" by (simp only:)
    then have "of_nat R = of_nat B * (2 * of_nat ?k - 1 :: rat)" by (simp add: algebra_simps)
    then have x: "x = 2 * of_nat ?k - 1" using B by (simp add: x_def)
    have k: "?k < 189" using R B by (simp add: div_less_iff_less_mult)
    have ex: "e = x" unfolding e_def using k by (intro f32_exact [of _ "4 * int ?k - 2"]) (simp_all add: x abs_less_iff)
    have hx: "h = x / 2" unfolding h_def ex using k
      by (subst f32_exact [of _ "2 * int ?k - 1"]) (simp_all add: x abs_less_iff field_simps)
    have "y = of_nat ?k" unfolding y_def hx using k
      by (subst f32_exact [of _ "2 * int ?k"]) (simp_all add: x abs_less_iff field_simps)
    then show ?thesis by simp
  next
    case False
    define y0 where "y0 = (of_nat R + of_nat B) / (2 * of_nat B :: rat)"
    have y0: "y0 = x / 2 + 1 / 2" using B by (simp add: y0_def x_def field_simps)
    have Bq: "256 \<le> (of_nat B :: rat)" "(of_nat B :: rat) \<le> 8192" "8000 \<le> (of_nat R :: rat)" "(of_nat R :: rat) \<le> 96000"
      using B R by simp_all
    have x: "0 \<le> x" "x \<le> 375" using Bq by (simp_all add: x_def divide_le_eq)
    have e: "\<bar>e - x\<bar> \<le> x / 16777216" unfolding e_def using f32_error [of x] x(1) by simp
    have h: "\<bar>h - e / 2\<bar> \<le> \<bar>e / 2\<bar> / 16777216" unfolding h_def using f32_error [of "e * (1 / 2)"] by simp
    have y: "\<bar>y - (h + 1 / 2)\<bar> \<le> \<bar>h + 1 / 2\<bar> / 16777216" unfolding y_def using f32_error [of "h + 1 / 2"] by simp
    have err: "\<bar>y - y0\<bar> \<le> 600 / 16777216"
      using e h y x unfolding y0 by (simp add: abs_le_iff abs_if split: if_splits)
    have gap: "1 / 16384 \<le> 1 / (2 * of_nat B :: rat)" using Bq by (simp add: field_simps)
    have r: "1 \<le> (R + B) mod (2 * B)" "(R + B) mod (2 * B) + 1 \<le> 2 * B" using False B by (simp_all add: Suc_le_eq)
    have "of_nat (R + B) = (of_nat (2 * B * ?k + (R + B) mod (2 * B)) :: rat)" using split by (simp only:)
    then have y0k: "y0 = of_nat ?k + of_nat ((R + B) mod (2 * B)) / (2 * of_nat B)"
      using Bq by (simp add: y0_def field_simps)
    have "1 / (2 * of_nat B) \<le> of_nat ((R + B) mod (2 * B)) / (2 * of_nat B :: rat)"
      using r(1) Bq by (intro divide_right_mono) simp_all
    moreover have "of_nat ((R + B) mod (2 * B)) / (2 * of_nat B :: rat) + 1 / (2 * of_nat B) \<le> 1"
    proof -
      have "of_nat ((R + B) mod (2 * B) + 1) \<le> (of_nat (2 * B) :: rat)" using r(2) by (simp only: of_nat_le_iff)
      then show ?thesis using Bq by (simp add: field_simps)
    qed
    ultimately have "of_nat ?k \<le> y" "y < of_nat ?k + 1" using y0k err gap by linarith+
    then show ?thesis by (simp add: floor_eq_iff)
  qed
  moreover have "?k < 2 ^ 32" using R B by (simp add: div_less_iff_less_mult)
  ultimately show ?thesis
    unfolding c R_def [symmetric] B_def [symmetric]
    by (simp add: word_less_nat_alt unat_of_nat word_of_int_nat)
qed

text \<open>
  The threshold of the packet rate. Computed in single precision it is what it means to be,
  half the number of buffers per second rounded to the nearest, and at least five, for every
  rate and buffer size that the page accepts: the rounding errors never carry over an integer.
\<close>

theorem recommended_rate:
  assumes "8000 \<le> currentSampleRate s" and "currentSampleRate s \<le> 96000"
    and "256 \<le> currentBufferSize s" and "currentBufferSize s \<le> 8192"
  shows "unat (computeRecommendedMinRate s) =
    max 5 ((unat (currentSampleRate s) + unat (currentBufferSize s)) div (2 * unat (currentBufferSize s)))"
  using assms by (rule recommended_exact)

theorem recommended_rate_witness:
  "computeRecommendedMinRate (fw_initial (0 :: nat)) = 8"
proof -
  have "unat (computeRecommendedMinRate (fw_initial (0 :: nat))) = max 5 ((16000 + 1024) div (2 * 1024))"
    using recommended_rate [of "fw_initial (0 :: nat)"] by (simp add: fw_initial_def default_defs)
  then have "unat (computeRecommendedMinRate (fw_initial (0 :: nat))) = unat (8 :: u32)" by simp
  then show ?thesis by (simp only: word_unat_eq_iff)
qed

subsection \<open>Power of the radio\<close>

lemma snap_loop_best:
  assumes "bestd = f32 \<bar>dbm - best\<bar>"
  shows "snap_loop dbm steps best bestd \<in> set (best # steps) \<and>
    (\<forall>step \<in> set (best # steps). f32 \<bar>dbm - snap_loop dbm steps best bestd\<bar> \<le> f32 \<bar>dbm - step\<bar>)"
  using assms
proof (induction dbm steps best bestd rule: snap_loop.induct)
  case (2 dbm step steps best bestd)
  show ?case
  proof (cases "f32 \<bar>dbm - step\<bar> < bestd")
    case True
    with 2(1) [OF refl] 2(3) show ?thesis by (auto simp: Let_def intro: order_trans less_imp_le)
  next
    case False
    with 2(2) [OF refl] 2(3) show ?thesis by (auto simp: Let_def not_less intro: order_trans)
  qed
qed simp

text \<open>
  The power of the radio. A request is set to a step of the table that is nearest to it in
  single precision, and a step is the level with just that power. Between two steps the level
  chosen is the next one above, and not the highest that does not exceed the request; only a
  request above the table gets the highest.
\<close>

theorem wifi_power:
  "snapWifiTxDbm v \<in> set tx_steps \<and>
   (\<forall>step. step \<in> set tx_steps \<longrightarrow> f32 \<bar>v - snapWifiTxDbm v\<bar> \<le> f32 \<bar>v - step\<bar>) \<and>
   wifiPowerLevelToDbm (pickWifiPowerLevel (snapWifiTxDbm v)) = snapWifiTxDbm v \<and>
   (v \<le> 39 / 2 \<longrightarrow> v \<le> wifiPowerLevelToDbm (pickWifiPowerLevel v) \<and>
      (\<forall>l. v \<le> wifiPowerLevelToDbm l \<longrightarrow> wifiPowerLevelToDbm (pickWifiPowerLevel v) \<le> wifiPowerLevelToDbm l))"
proof -
  have steps: "tx_steps = hd tx_steps # tl tx_steps" by (simp add: tx_steps_def)
  have s: "snapWifiTxDbm v \<in> set tx_steps \<and> (\<forall>step \<in> set tx_steps. f32 \<bar>v - snapWifiTxDbm v\<bar> \<le> f32 \<bar>v - step\<bar>)"
    using snap_loop_best [OF refl, where dbm = v and best = "hd tx_steps" and steps = "tl tx_steps"]
    unfolding steps [symmetric] snapWifiTxDbm_def .
  moreover have "wifiPowerLevelToDbm (pickWifiPowerLevel d) = d" if "d \<in> set tx_steps" for d
    using that by (auto simp: tx_steps_def pickWifiPowerLevel_def)
  moreover have "v \<le> wifiPowerLevelToDbm (pickWifiPowerLevel v)" if "v \<le> 39 / 2"
    using that by (simp add: pickWifiPowerLevel_def)
  moreover have "wifiPowerLevelToDbm (pickWifiPowerLevel v) \<le> wifiPowerLevelToDbm l" if "v \<le> wifiPowerLevelToDbm l" for l
    using that by (cases l) (simp_all add: pickWifiPowerLevel_def)
  ultimately show ?thesis by blast
qed

theorem wifi_power_witness:
  "(3 :: rat) \<le> 39 / 2 \<and> 3 \<le> wifiPowerLevelToDbm (pickWifiPowerLevel 3) \<and> snapWifiTxDbm 3 \<in> set tx_steps"
  using wifi_power [of 3] by simp

subsection \<open>The store\<close>

text \<open>What loading and the page establish: a limit of the table, a mode, the computed threshold.\<close>

definition limit_ok :: "u32 \<Rightarrow> bool" where
  "limit_ok l \<longleftrightarrow> l \<in> {30, 35, 40, 45, 50, 55, 60, 65, 70, 75, 80, 85, 90, 95}"

definition settings_ok :: "'n fw \<Rightarrow> bool" where
  "settings_ok s \<longleftrightarrow>
     (\<exists>l. limit_ok l \<and> overheatShutdownC s = of_nat (unat l)) \<and> ledMode s \<le> 2 \<and> i2sShiftBits s = 0 \<and>
     (autoThresholdEnabled s \<longrightarrow> minAcceptableRate s = computeRecommendedMinRate s)"

lemma snap_limit_ok: "limit_ok (snap_limit (clamp_limit l))"
proof -
  define m where "m = clamp_limit l"
  have m: "30 \<le> unat m" "unat m \<le> 95"
    unfolding m_def clamp_limit_def Let_def by (simp_all add: default_defs word_le_nat_alt word_less_nat_alt)
  have "unat (m - 30) = unat m - 30" using m by (subst unat_sub) (simp_all add: word_le_nat_alt)
  then have d: "unat ((m - 30) div 5) = (unat m - 30) div 5" by (simp add: unat_div)
  define q where "q = (unat m - 30) div 5"
  have "q \<le> 13" using m by (simp add: q_def)
  then have "q \<in> {0, 1, 2, 3, 4, 5, 6, 7, 8, 9, 10, 11, 12, 13}"
    by (simp only: insert_iff empty_iff simp_thms) arith
  moreover have "(m - 30) div 5 = word_of_nat q" unfolding q_def d [symmetric] by simp
  ultimately show ?thesis
    unfolding limit_ok_def snap_limit_def m_def [symmetric] default_defs by (elim insertE emptyE) simp_all
qed

lemma limit_stored:
  assumes "limit_ok l"
  shows "snap_limit (clamp_limit (clamp_limit (word_of_int \<lfloor>f32 (of_nat (unat l) + 1 / 2)\<rfloor>))) = l"
proof -
  have u: "unat l < 96" using assms by (auto simp: limit_ok_def)
  define q where "q = (of_nat (unat l) :: rat)"
  have q: "0 \<le> q" "q < 96"
  proof -
    show "0 \<le> q" unfolding q_def by (rule of_nat_0_le_iff)
    have "q < of_nat 96" unfolding q_def using u by (simp only: of_nat_less_iff)
    then show "q < 96" by simp
  qed
  have "f32 (q + 1 / 2) = q + 1 / 2"
  proof (rule f32_exact [of _ "2 * int (unat l) + 1"])
    show "\<bar>q + 1 / 2\<bar> < 2 ^ 22" using q by (simp add: abs_less_iff)
    show "2 * (q + 1 / 2) = of_int (2 * int (unat l) + 1)" by (simp add: q_def)
  qed
  moreover have "\<lfloor>q + 1 / 2\<rfloor> = int (unat l)" by (simp add: floor_eq_iff q_def)
  ultimately have "word_of_int \<lfloor>f32 (q + 1 / 2)\<rfloor> = l" by simp
  then show ?thesis
    using assms unfolding q_def by (simp only:) (auto simp: limit_ok_def clamp_limit_def snap_limit_def default_defs)
qed

text \<open>The settings that are stored, in the order of the code.\<close>

definition stored_settings :: "'n fw \<Rightarrow> (u32 \<times> rat \<times> u16 \<times> bool \<times> bool \<times> u32 \<times> u32 \<times> u32 \<times> bool \<times> u8 \<times> rat \<times> bool) \<times>
    (u16 \<times> bool \<times> u8 \<times> bool \<times> rat \<times> string \<times> string \<times> rat \<times> bool)" where
  "stored_settings s =
     ((currentSampleRate s, currentGainFactor s, currentBufferSize s, autoRecoveryEnabled s, scheduledResetEnabled s,
       resetIntervalHours s, minAcceptableRate s, performanceCheckInterval s, autoThresholdEnabled s,
       cpuFrequencyMhz s, wifiTxPowerDbm s, highpassEnabled s),
      (highpassCutoffHz s, agcEnabled s, ledMode s, overheatProtectionEnabled s, overheatShutdownC s,
       overheatLastReason s, overheatLastTimestamp s, overheatTripTemp s, overheatLatched s))"

lemma saved_values:
  assumes "prefs_laws P"
  defines "n \<equiv> \<lambda>s. audioPrefs (saveAudioSettings P s)"
  shows "pf_get P ''sampleRate'' (PUInt d1) (n s) = PUInt (currentSampleRate s)"
    "pf_get P ''gainFactor'' (PFloat d2) (n s) = PFloat (currentGainFactor s)"
    "pf_get P ''bufferSize'' (PUShort d3) (n s) = PUShort (currentBufferSize s)"
    "pf_get P ''autoRecovery'' (PBool d4) (n s) = PBool (autoRecoveryEnabled s)"
    "pf_get P ''schedReset'' (PBool d5) (n s) = PBool (scheduledResetEnabled s)"
    "pf_get P ''resetHours'' (PUInt d6) (n s) = PUInt (resetIntervalHours s)"
    "pf_get P ''minRate'' (PUInt d7) (n s) = PUInt (minAcceptableRate s)"
    "pf_get P ''checkInterval'' (PUInt d8) (n s) = PUInt (performanceCheckInterval s)"
    "pf_get P ''thrAuto'' (PBool d9) (n s) = PBool (autoThresholdEnabled s)"
    "pf_get P ''cpuFreq'' (PUChar d10) (n s) = PUChar (cpuFrequencyMhz s)"
    "pf_get P ''wifiTxDbm'' (PFloat d11) (n s) = PFloat (wifiTxPowerDbm s)"
    "pf_get P ''hpEnable'' (PBool d12) (n s) = PBool (highpassEnabled s)"
    "pf_get P ''hpCutoff'' (PUInt d13) (n s) = PUInt (ucast (highpassCutoffHz s))"
    "pf_get P ''agcEnable'' (PBool d14) (n s) = PBool (agcEnabled s)"
    "pf_get P ''ledMode'' (PUChar d15) (n s) = PUChar (ledMode s)"
    "pf_get P ''ohEnable'' (PBool d16) (n s) = PBool (overheatProtectionEnabled s)"
    "pf_get P ''ohThresh'' (PUInt d17) (n s) = PUInt (clamp_limit (word_of_int \<lfloor>f32 (overheatShutdownC s + 1 / 2)\<rfloor>))"
    "pf_get P ''ohReason'' (PString d18) (n s) = PString (overheatLastReason s)"
    "pf_get P ''ohStamp'' (PString d19) (n s) = PString (overheatLastTimestamp s)"
    "pf_get P ''ohTripC'' (PFloat d20) (n s) = PFloat (overheatTripTemp s)"
    "pf_get P ''ohLatched'' (PBool d21) (n s) = PBool (overheatLatched s)"
  by (simp_all add: n_def saveAudioSettings_def Let_def prefs_lawsD [OF assms(1)])

lemma load_led_frame [simp]:
  "load_led s = s\<lparr>ledMode := (if ledMode s > 2 then 1 else ledMode s)\<rparr>"
  by (simp add: load_led_def)

lemma load_derived_frame [simp]:
  "load_derived s = s\<lparr>minAcceptableRate := (if autoThresholdEnabled s then computeRecommendedMinRate s else minAcceptableRate s),
     rtspServerEnabled := (rtspServerEnabled s \<and> \<not> overheatLatched s)\<rparr>"
  by (cases s) (simp add: load_derived_def Let_def)

lemma recommended_cong:
  "currentSampleRate s = currentSampleRate s' \<Longrightarrow> currentBufferSize s = currentBufferSize s' \<Longrightarrow>
    computeRecommendedMinRate s = computeRecommendedMinRate s'"
  by (simp add: computeRecommendedMinRate_def)

lemma recommended_frame [simp]:
  "computeRecommendedMinRate (s\<lparr>minAcceptableRate := x\<rparr>) = computeRecommendedMinRate s"
  "computeRecommendedMinRate (s\<lparr>rtspServerEnabled := b\<rparr>) = computeRecommendedMinRate s"
  by (rule recommended_cong; simp)+

lemmas load_defs = loadAudioSettings_def load_audio_def load_thermal_def

text \<open>What the next boot loads of what was saved.\<close>

lemma ucast_u16_u32: "ucast (ucast (w :: u16) :: u32) = w"
  using unat_less_2p [of w] by (simp add: word_unat_eq_iff unat_ucast_mod)

lemma load_saved:
  assumes "prefs_laws P"
  defines "s' \<equiv> \<lambda>s. loadAudioSettings P (fw_initial (audioPrefs (saveAudioSettings P s)))"
  shows "currentSampleRate (s' s) = currentSampleRate s" "currentGainFactor (s' s) = currentGainFactor s"
    "currentBufferSize (s' s) = currentBufferSize s" "autoRecoveryEnabled (s' s) = autoRecoveryEnabled s"
    "scheduledResetEnabled (s' s) = scheduledResetEnabled s" "resetIntervalHours (s' s) = resetIntervalHours s"
    "performanceCheckInterval (s' s) = performanceCheckInterval s" "autoThresholdEnabled (s' s) = autoThresholdEnabled s"
    "cpuFrequencyMhz (s' s) = cpuFrequencyMhz s" "wifiTxPowerDbm (s' s) = wifiTxPowerDbm s" "highpassEnabled (s' s) = highpassEnabled s"
    "highpassCutoffHz (s' s) = highpassCutoffHz s" "agcEnabled (s' s) = agcEnabled s"
    "ledMode (s' s) = (if ledMode s > 2 then 1 else ledMode s)"
    "overheatProtectionEnabled (s' s) = overheatProtectionEnabled s"
    "overheatShutdownC (s' s) = of_nat (unat (snap_limit (clamp_limit (clamp_limit (word_of_int \<lfloor>f32 (overheatShutdownC s + 1 / 2)\<rfloor>)))))"
    "overheatLastReason (s' s) = overheatLastReason s" "overheatLastTimestamp (s' s) = overheatLastTimestamp s"
    "overheatTripTemp (s' s) = overheatTripTemp s" "overheatLatched (s' s) = overheatLatched s"
    "rtspServerEnabled (s' s) \<longleftrightarrow> \<not> overheatLatched s"
  by (simp_all add: s'_def load_defs Let_def getter_defs saved_values [OF assms(1), of _ s] ucast_u16_u32 fw_initial_def)

lemma load_saved_rate:
  fixes s :: "'n fw"
  assumes "prefs_laws P"
  defines "n \<equiv> audioPrefs (saveAudioSettings P s)"
  shows "minAcceptableRate (loadAudioSettings P (fw_initial n)) = (if autoThresholdEnabled s then computeRecommendedMinRate s else minAcceptableRate s)"
proof -
  define l where "l = load_thermal P (load_led (load_audio P (fw_initial n)))"
  have l: "currentSampleRate l = currentSampleRate s" "currentBufferSize l = currentBufferSize s"
    "autoThresholdEnabled l = autoThresholdEnabled s" "minAcceptableRate l = minAcceptableRate s"
    by (simp_all add: l_def load_audio_def load_thermal_def Let_def getter_defs saved_values [OF assms(1), of _ s] n_def fw_initial_def)
  have "loadAudioSettings P (fw_initial n) = load_derived l" by (simp only: loadAudioSettings_def l_def)
  then show ?thesis using l recommended_cong [OF l(1,2)] by simp
qed

text \<open>
  C27. The settings survive a restart: what is saved is what is loaded by the next boot, provided
  the limit, the mode of the LED and the threshold are as loading and the page make them; the
  server comes up exactly if the thermal protection is not latched. Whatever is in the store,
  loading makes them so. Setting a threshold while it is computed is not kept: the next boot
  computes it again.
\<close>

theorem settings_roundtrip:
  assumes "prefs_laws P"
  shows "settings_ok (loadAudioSettings P s) \<and>
    (settings_ok s \<longrightarrow>
      (let s' = loadAudioSettings P (fw_initial (audioPrefs (saveAudioSettings P s))) in
        stored_settings s' = stored_settings s \<and> (rtspServerEnabled s' \<longleftrightarrow> \<not> overheatLatched s))) \<and>
    (autoThresholdEnabled s \<longrightarrow>
      minAcceptableRate (loadAudioSettings P (fw_initial (audioPrefs (saveAudioSettings P s)))) =
        computeRecommendedMinRate s)"
proof -
  let ?n = "audioPrefs (saveAudioSettings P s)"
  let ?s = "loadAudioSettings P (fw_initial ?n)"
  note loaded = load_saved [OF assms, of s] and rate = load_saved_rate [OF assms, of s]
  have "settings_ok (loadAudioSettings P s)"
    unfolding settings_ok_def
  proof (intro conjI)
    show "\<exists>l. limit_ok l \<and> overheatShutdownC (loadAudioSettings P s) = of_nat (unat l)"
      by (rule exI [of _ "snap_limit (clamp_limit (getUInt P ''ohThresh'' DEFAULT_OVERHEAT_LIMIT_C (audioPrefs s)))"])
        (simp add: snap_limit_ok load_defs Let_def)
    show "ledMode (loadAudioSettings P s) \<le> 2" "i2sShiftBits (loadAudioSettings P s) = 0"
      by (simp_all add: load_defs Let_def not_less)
    show "autoThresholdEnabled (loadAudioSettings P s) \<longrightarrow>
        minAcceptableRate (loadAudioSettings P s) = computeRecommendedMinRate (loadAudioSettings P s)"
      by (simp add: loadAudioSettings_def)
  qed
  moreover have "stored_settings ?s = stored_settings s" if ok: "settings_ok s"
  proof -
    obtain l where l: "limit_ok l" "overheatShutdownC s = of_nat (unat l)" using ok by (auto simp: settings_ok_def)
    have "overheatShutdownC ?s = overheatShutdownC s" unfolding loaded(16) l(2) limit_stored [OF l(1)] ..
    moreover have "ledMode ?s = ledMode s" using ok unfolding loaded(14) settings_ok_def by (simp add: leD)
    moreover have "minAcceptableRate ?s = minAcceptableRate s" using ok unfolding rate by (simp add: settings_ok_def)
    ultimately show ?thesis by (simp only: stored_settings_def loaded)
  qed
  ultimately show ?thesis using rate loaded(21) by (simp add: Let_def)
qed

theorem settings_roundtrip_witness:
  "prefs_laws map_prefs \<and>
   stored_settings (loadAudioSettings map_prefs (fw_initial (audioPrefs (saveAudioSettings map_prefs
     ((fw_initial Map.empty)\<lparr>autoThresholdEnabled := False, overheatShutdownC := 85\<rparr>))))) =
   stored_settings ((fw_initial (Map.empty :: string \<rightharpoonup> pref_value))\<lparr>autoThresholdEnabled := False, overheatShutdownC := 85\<rparr>)"
proof -
  let ?s = "(fw_initial (Map.empty :: string \<rightharpoonup> pref_value))\<lparr>autoThresholdEnabled := False, overheatShutdownC := 85\<rparr>"
  have "limit_ok 85" "(85 :: rat) = of_nat (unat (85 :: u32))" by (simp_all add: limit_ok_def)
  then have "settings_ok ?s" unfolding settings_ok_def by (intro conjI exI [of _ "85 :: u32"]) (simp_all add: fw_initial_def)
  then show ?thesis using settings_roundtrip [OF map_prefs_laws, of ?s] map_prefs_laws by (simp only: Let_def simp_thms)
qed

end
