(* ===== verification/Fw_Thermal.thy ===== *)
theory Fw_Thermal
  imports Fw_Settings Fw_Text
begin

text \<open>
  The thermal protection and the other watchdogs of the sketch: the check of the temperature,
  of the packet rate, of the WiFi and of the scheduled reset, and what \<open>setup\<close> does for them.
  What a function calls in the rest of the firmware is its second result, in order; whether the
  stream runs when it looks is an input.
\<close>

subsection \<open>Calls\<close>

datatype fw_call =
    Call_request_stop
  | Call_stop_task
  | Call_restart_i2s
  | Call_update_highpass
  | Call_set_cpu u8
  | Call_reconnect
  | Call_restart

subsection \<open>Temperature\<close>

definition isTemperatureValid :: "float_value \<Rightarrow> bool" where
  "isTemperatureValid temp =
     (case temp of
        NaN \<Rightarrow> False
      | Infinite \<Rightarrow> False
      | Finite t \<Rightarrow> \<not> (t < -20 \<or> t > 130))"

definition persistOverheatNote :: "'n prefs \<Rightarrow> 'n fw \<Rightarrow> 'n fw" where
  "persistOverheatNote P s =
     (let put = pf_put P; n = audioPrefs s;
          n = put ''ohReason'' (PString (overheatLastReason s)) n;
          n = put ''ohStamp'' (PString (overheatLastTimestamp s)) n;
          n = put ''ohTripC'' (PFloat (overheatTripTemp s)) n;
          n = put ''ohLatched'' (PBool (overheatLatched s)) n
      in s\<lparr>audioPrefs := n\<rparr>)"

definition recordOverheatTrip :: "(rat \<Rightarrow> nat \<Rightarrow> string) \<Rightarrow> 'n prefs \<Rightarrow> u32 \<Rightarrow> rat \<Rightarrow> 'n fw \<Rightarrow> 'n fw" where
  "recordOverheatTrip fmt P now temp s =
     (let uptimeSeconds = (now - bootTime s) div 1000;
          s = s\<lparr>overheatTripTemp := temp,
                overheatTriggeredAt := now,
                overheatLastTimestamp := formatUptime uptimeSeconds,
                overheatLastReason := ''Thermal shutdown: '' @ fmt temp 1 @ '' C reached (limit '' @
                  fmt (overheatShutdownC s) 1 @ '' C). Stream disabled; acknowledge in UI.'',
                overheatLatched := True\<rparr>
      in persistOverheatNote P s)"

definition SENSOR_UNAVAILABLE :: string where
  "SENSOR_UNAVAILABLE = ''Thermal protection disabled: temperature sensor unavailable.''"

definition sensor_lost :: "'n prefs \<Rightarrow> 'n fw \<Rightarrow> 'n fw" where
  "sensor_lost P s =
     persistOverheatNote P
       (s\<lparr>overheatSensorFault := True, overheatLastReason := SENSOR_UNAVAILABLE,
          overheatLastTimestamp := [], overheatTripTemp := 0, overheatTriggeredAt := 0\<rparr>)"

definition sensor_back :: "'n prefs \<Rightarrow> u32 \<Rightarrow> 'n fw \<Rightarrow> 'n fw" where
  "sensor_back P now s =
     persistOverheatNote P
       (s\<lparr>overheatSensorFault := False,
          overheatLastReason := ''Thermal protection restored: temperature sensor reading valid.'',
          overheatLastTimestamp := formatUptime ((now - bootTime s) div 1000)\<rparr>)"

text \<open>The shutdown itself, with what it calls.\<close>

definition thermal_trip ::
  "(rat \<Rightarrow> nat \<Rightarrow> string) \<Rightarrow> 'n prefs \<Rightarrow> u32 \<Rightarrow> bool \<Rightarrow> rat \<Rightarrow> 'n fw \<Rightarrow> 'n fw \<times> fw_call list" where
  "thermal_trip fmt P now streaming temp s =
     (let s = s\<lparr>overheatLockoutActive := True\<rparr>;
          s = recordOverheatTrip fmt P now temp s
      in (s\<lparr>rtspServerEnabled := False, server_listening := False\<rparr>,
          (if streaming then [Call_request_stop] else []) @ [Call_stop_task]))"

text \<open>The step of five degrees is an integer in C; the difference is rounded to a \<open>float\<close>.\<close>

definition checkTemperature ::
  "(rat \<Rightarrow> nat \<Rightarrow> string) \<Rightarrow> 'n prefs \<Rightarrow> u32 \<Rightarrow> bool \<Rightarrow> float_value \<Rightarrow> 'n fw \<Rightarrow> 'n fw \<times> fw_call list" where
  "checkTemperature fmt P now streaming reading s =
     (case reading of
        Finite temp \<Rightarrow>
          if \<not> isTemperatureValid reading then
            let s = s\<lparr>lastTemperatureValid := False\<rparr>
            in (if \<not> overheatSensorFault s then sensor_lost P s else s, [])
          else
            let s = s\<lparr>lastTemperatureC := temp, lastTemperatureValid := True\<rparr>;
                s = (if overheatSensorFault s then sensor_back P now s else s);
                s = (if temp > maxTemperature s then s\<lparr>maxTemperature := temp\<rparr> else s);
                protectionActive = (overheatProtectionEnabled s \<and> \<not> overheatSensorFault s)
            in if protectionActive then
                 if \<not> overheatLockoutActive s \<and> temp \<ge> overheatShutdownC s then
                   thermal_trip fmt P now streaming temp s
                 else if overheatLockoutActive s \<and> temp \<le> f32 (overheatShutdownC s - 5) then
                   (s\<lparr>overheatLockoutActive := False\<rparr>, [])
                 else (s, [])
               else (s\<lparr>overheatLockoutActive := False\<rparr>, [])
      | _ \<Rightarrow>
          let s = s\<lparr>lastTemperatureValid := False\<rparr>
          in (if \<not> overheatSensorFault s then sensor_lost P s else s, []))"

subsection \<open>Start\<close>

text \<open>
  What \<open>setup\<close> does with this state: the settings, the power of the radio, the server, and the
  first reading of the sensor.
\<close>

definition setup_sensor :: "'n prefs \<Rightarrow> float_value \<Rightarrow> 'n fw \<Rightarrow> 'n fw" where
  "setup_sensor P reading s =
     (case reading of
        Finite temp \<Rightarrow>
          if isTemperatureValid reading then
            s\<lparr>maxTemperature := temp, lastTemperatureC := temp, lastTemperatureValid := True, overheatSensorFault := False\<rparr>
          else sensor_lost P (s\<lparr>maxTemperature := 0, lastTemperatureC := 0, lastTemperatureValid := False\<rparr>)
      | _ \<Rightarrow> sensor_lost P (s\<lparr>maxTemperature := 0, lastTemperatureC := 0, lastTemperatureValid := False\<rparr>))"

definition setup_fw :: "'n prefs \<Rightarrow> u32 \<Rightarrow> float_value \<Rightarrow> 'n \<Rightarrow> 'n fw \<times> fw_call list" where
  "setup_fw P now reading n =
     (let s = (fw_initial n)\<lparr>bootTime := now\<rparr>;
          s = loadAudioSettings P s;
          s = applyWifiTxPower s;
          s = (if \<not> overheatLatched s then s\<lparr>server_listening := True, rtspServerEnabled := True\<rparr>
               else s\<lparr>rtspServerEnabled := False, server_listening := False\<rparr>);
          s = setup_sensor P reading s
      in (s, [Call_update_highpass, Call_set_cpu (cpuFrequencyMhz s)]))"

subsection \<open>Other watchdogs\<close>

text \<open>The counters of \<open>checkPerformance\<close>; \<open>unsigned long\<close> is 32 bits wide.\<close>

record perf =
  audioPacketsSent :: u32
  lastStatsReset :: u32
  lastI2SReset :: u32
  minFreeHeap :: u32
  maxPacketRate :: u32
  minPacketRate :: u32
  consecutiveLowCount :: u8

definition perf_restart :: "u32 \<Rightarrow> perf \<Rightarrow> perf \<times> fw_call list" where
  "perf_restart now p =
     (let p = p\<lparr>consecutiveLowCount := 0\<rparr>;
          p = p\<lparr>maxPacketRate := 0, minPacketRate := 0xFFFFFFFF\<rparr>
      in (p\<lparr>audioPacketsSent := 0, lastStatsReset := now, lastI2SReset := now\<rparr>, [Call_restart_i2s]))"

definition perf_rate :: "u32 \<Rightarrow> perf \<Rightarrow> u32" where
  "perf_rate now p = audioPacketsSent p * 1000 div (now - lastStatsReset p)"

text \<open>\<open>restartI2S\<close> also resets the two extremes; the rest of it is the call.\<close>

definition checkPerformance :: "'n fw \<Rightarrow> u32 \<Rightarrow> bool \<Rightarrow> u32 \<Rightarrow> perf \<Rightarrow> perf \<times> fw_call list" where
  "checkPerformance s now streaming currentHeap p =
     (let p = (if currentHeap < minFreeHeap p then p\<lparr>minFreeHeap := currentHeap\<rparr> else p)
      in if streaming \<and> now - lastStatsReset p > 30000 then
           if lastI2SReset p > 0 \<and> now - lastI2SReset p < 120000 then (p, [])
           else
             let currentRate = perf_rate now p;
                 p = (if currentRate > maxPacketRate p then p\<lparr>maxPacketRate := currentRate\<rparr> else p);
                 p = (if currentRate < minPacketRate p then p\<lparr>minPacketRate := currentRate\<rparr> else p)
             in if currentRate < minAcceptableRate s then
                  let p = p\<lparr>consecutiveLowCount := consecutiveLowCount p + 1\<rparr>
                  in if consecutiveLowCount p \<ge> 3 \<and> autoRecoveryEnabled s then perf_restart now p else (p, [])
                else (p\<lparr>consecutiveLowCount := 0\<rparr>, [])
         else (p, []))"

definition checkWiFiHealth :: "bool \<Rightarrow> bool \<Rightarrow> 'n fw \<Rightarrow> 'n fw \<times> fw_call list" where
  "checkWiFiHealth wifi_up streaming s =
     (applyWifiTxPower s,
      if \<not> wifi_up then (if streaming then [Call_request_stop, Call_stop_task] else []) @ [Call_reconnect] else [])"

definition checkScheduledReset :: "u32 \<Rightarrow> 'n fw \<Rightarrow> fw_call list" where
  "checkScheduledReset now s =
     (if \<not> scheduledResetEnabled s then []
      else
        let uptimeHours = (now - bootTime s) div 3600000
        in if uptimeHours \<ge> resetIntervalHours s then [Call_restart] else [])"

text \<open>The end of \<open>loop\<close>: a reboot that was asked for, after the reset if that was asked for too.\<close>

definition deferred_reboot ::
  "'n externals \<Rightarrow> u32 \<Rightarrow> 'n fw \<times> 'n manager \<Rightarrow> ('n fw \<times> 'n manager) \<times> fw_call list" where
  "deferred_reboot X now = (\<lambda>(s, m).
     if scheduledRebootAt s \<noteq> 0 \<and> now \<ge> scheduledRebootAt s then
       (if scheduledFactoryReset s then resetToDefaultSettings X (s, m) else (s, m), [Call_restart])
     else ((s, m), []))"

end
