(* ===== verification/Fw_Web.thy ===== *)
theory Fw_Web
  imports Fw_Thermal
begin

text \<open>
  \<open>WebUI.cpp\<close>: the handlers of the web pages that change the firmware. The state is the settings
  with the thermal protection, the manager of the tunnel and the log; a handler gives the state,
  what it calls in the sketch, and the JSON it answers. \<open>toFloat\<close> of a string is a parameter, for
  it also reads infinities and NaN.
\<close>

subsection \<open>State and requests\<close>

record 'n web =
  wb_fw :: "'n fw"
  wb_wg :: "'n manager"
  wb_log :: log_ring

text \<open>The two arguments of a request; an argument that is missing reads as the empty string.\<close>

record request =
  rq_key :: string
  rq_value :: "string option"

definition web_arg :: "request \<Rightarrow> string" where
  "web_arg r = (case rq_value r of None \<Rightarrow> [] | Some v \<Rightarrow> v)"

definition OH_MIN :: u32 where "OH_MIN = 30"
definition OH_MAX :: u32 where "OH_MAX = 95"
definition OH_STEP :: u32 where "OH_STEP = 5"

text \<open>\<open>toInt\<close> saturates at the range of \<open>long\<close>; the casts then take the low bits.\<close>

definition toInt :: "string \<Rightarrow> int" where
  "toInt s = max (-2147483648) (min 2147483647 (atol s))"

definition argToFloat :: "(string \<Rightarrow> float_value) \<Rightarrow> request \<Rightarrow> float_value option" where
  "argToFloat toFloat r = map_option toFloat (rq_value r)"

definition argToUInt :: "request \<Rightarrow> u32 option" where
  "argToUInt r = map_option (\<lambda>v. word_of_int (toInt v)) (rq_value r)"

definition argToUShort :: "request \<Rightarrow> u16 option" where
  "argToUShort r = map_option (\<lambda>v. word_of_int (toInt v)) (rq_value r)"

text \<open>A float in a range; the bounds are the constants as \<open>float\<close>.\<close>

definition float_in :: "rat \<Rightarrow> rat \<Rightarrow> float_value option \<Rightarrow> rat option" where
  "float_in lo hi v =
     (case v of Some (Finite x) \<Rightarrow> if lo \<le> x \<and> x \<le> hi then Some x else None | _ \<Rightarrow> None)"

definition uint_in :: "'a::len word \<Rightarrow> 'a word \<Rightarrow> 'a word option \<Rightarrow> 'a word option" where
  "uint_in lo hi v = (case v of Some x \<Rightarrow> if lo \<le> x \<and> x \<le> hi then Some x else None | None \<Rightarrow> None)"

definition on_off :: "request \<Rightarrow> bool option" where
  "on_off r = (if web_arg r = ''on'' then Some True else if web_arg r = ''off'' then Some False else None)"

subsection \<open>Setting a value\<close>

text \<open>The settings of the audio and of the device; \<open>None\<close>: the key is not one of them.\<close>

definition auto_rate :: "'n fw \<Rightarrow> 'n fw" where
  "auto_rate s = (if autoThresholdEnabled s then s\<lparr>minAcceptableRate := computeRecommendedMinRate s\<rparr> else s)"

definition set_when :: "'a option \<Rightarrow> ('a \<Rightarrow> 'n fw \<Rightarrow> 'n fw \<times> fw_call list) \<Rightarrow> 'n fw \<Rightarrow> 'n fw \<times> fw_call list" where
  "set_when v f s = (case v of None \<Rightarrow> (s, []) | Some x \<Rightarrow> f x s)"

definition set_audio ::
  "(string \<Rightarrow> float_value) \<Rightarrow> 'n prefs \<Rightarrow> request \<Rightarrow> 'n fw \<Rightarrow> ('n fw \<times> fw_call list) option" where
  "set_audio toFloat P r s =
     (let key = rq_key r; save = saveAudioSettings P
      in if key = ''gain'' then
           Some (set_when (float_in (f32 (1 / 10)) 100 (argToFloat toFloat r))
             (\<lambda>v s. (save (s\<lparr>currentGainFactor := v\<rparr>), [Call_restart_i2s])) s)
         else if key = ''rate'' then
           Some (set_when (uint_in 8000 96000 (argToUInt r))
             (\<lambda>v s. (save (auto_rate (s\<lparr>currentSampleRate := v\<rparr>)), [Call_restart_i2s])) s)
         else if key = ''buffer'' then
           Some (set_when (uint_in 256 8192 (argToUShort r))
             (\<lambda>v s. (save (auto_rate (s\<lparr>currentBufferSize := v\<rparr>)), [Call_restart_i2s])) s)
         else if key = ''wifi_tx'' then
           Some (set_when (float_in (-1) (39 / 2) (argToFloat toFloat r))
             (\<lambda>v s. (save (applyWifiTxPower (s\<lparr>wifiTxPowerDbm := snapWifiTxDbm v\<rparr>)), [])) s)
         else if key = ''hp_enable'' then
           Some (set_when (on_off r) (\<lambda>b s. (save (s\<lparr>highpassEnabled := b\<rparr>), [Call_update_highpass])) s)
         else if key = ''hp_cutoff'' then
           Some (set_when (uint_in 10 10000 (argToUInt r))
             (\<lambda>v s. (save (s\<lparr>highpassCutoffHz := ucast v\<rparr>), [Call_update_highpass])) s)
         else if key = ''agc_enable'' then
           Some (set_when (on_off r)
             (\<lambda>b s. let s = s\<lparr>agcEnabled := b\<rparr>;
                        s = (if \<not> agcEnabled s then s\<lparr>agcMultiplier := 1\<rparr> else s)
                    in (save s, [])) s)
         else if key = ''led_mode'' then
           Some (set_when (uint_in 0 2 (argToUInt r)) (\<lambda>v s. (save (s\<lparr>ledMode := ucast v\<rparr>), [])) s)
         else None)"

definition set_device :: "'n prefs \<Rightarrow> request \<Rightarrow> 'n fw \<Rightarrow> ('n fw \<times> fw_call list) option" where
  "set_device P r s =
     (let key = rq_key r; save = saveAudioSettings P
      in if key = ''auto_recovery'' then
           Some (set_when (on_off r) (\<lambda>b s. (save (s\<lparr>autoRecoveryEnabled := b\<rparr>), [])) s)
         else if key = ''thr_mode'' then
           if web_arg r = ''auto'' then
             Some (save ((s\<lparr>autoThresholdEnabled := True\<rparr>)\<lparr>minAcceptableRate := computeRecommendedMinRate s\<rparr>), [])
           else if web_arg r = ''manual'' then Some (save (s\<lparr>autoThresholdEnabled := False\<rparr>), [])
           else Some (s, [])
         else if key = ''min_rate'' then
           Some (set_when (uint_in 5 200 (argToUInt r)) (\<lambda>v s. (save (s\<lparr>minAcceptableRate := v\<rparr>), [])) s)
         else if key = ''check_interval'' then
           Some (set_when (uint_in 1 60 (argToUInt r)) (\<lambda>v s. (save (s\<lparr>performanceCheckInterval := v\<rparr>), [])) s)
         else if key = ''sched_reset'' then
           Some (set_when (on_off r) (\<lambda>b s. (save (s\<lparr>scheduledResetEnabled := b\<rparr>), [])) s)
         else if key = ''reset_hours'' then
           Some (set_when (uint_in 1 168 (argToUInt r)) (\<lambda>v s. (save (s\<lparr>resetIntervalHours := v\<rparr>), [])) s)
         else if key = ''cpu_freq'' then
           Some (set_when (uint_in 40 240 (argToUInt r))
             (\<lambda>v s. (save (s\<lparr>cpuFrequencyMhz := ucast v\<rparr>), [Call_set_cpu (ucast v)])) s)
         else if key = ''oh_enable'' then
           Some (set_when (on_off r)
             (\<lambda>b s. let s = s\<lparr>overheatProtectionEnabled := b\<rparr>;
                        s = (if \<not> overheatProtectionEnabled s then s\<lparr>overheatLockoutActive := False\<rparr> else s)
                    in (save s, [])) s)
         else if key = ''oh_limit'' then
           Some (set_when (uint_in OH_MIN OH_MAX (argToUInt r))
             (\<lambda>v s. let snapped = OH_MIN + (v - OH_MIN) div OH_STEP * OH_STEP
                    in (save (s\<lparr>overheatShutdownC := of_nat (unat snapped), overheatLockoutActive := False\<rparr>), [])) s)
         else None)"

text \<open>The endpoint as host and port, split at the last colon.\<close>

definition parse_endpoint :: "string \<Rightarrow> (string \<times> int) option" where
  "parse_endpoint val =
     (case last_index_of (CHR '':'') val of
        None \<Rightarrow> None
      | Some colon \<Rightarrow> if colon > 0 then Some (take colon val, toInt (drop (colon + 1) val)) else None)"

definition set_wg :: "'n externals \<Rightarrow> request \<Rightarrow> 'n web \<Rightarrow> 'n web" where
  "set_wg X r u =
     (let key = rq_key r; val = web_arg r; m = wb_wg u
      in if key = ''wg_enable'' then
           (case on_off r of Some b \<Rightarrow> u\<lparr>wb_wg := wg_setEnabled X b m\<rparr> | None \<Rightarrow> u)
         else if length val = 0 \<and> key \<noteq> ''wg_keepalive'' then u
         else if key = ''wg_priv'' then u\<lparr>wb_wg := wg_setPrivateKey X val m\<rparr>
         else if key = ''wg_srvpub'' then u\<lparr>wb_wg := wg_setServerPublicKey X val m\<rparr>
         else if key = ''wg_endpoint'' then
           (case parse_endpoint val of
              None \<Rightarrow> u
            | Some (host, portInt) \<Rightarrow>
                if portInt > 0 \<and> portInt < 65536 then u\<lparr>wb_wg := wg_setEndpoint X host (word_of_int portInt) m\<rparr>
                else u\<lparr>wb_log := webui_pushLog ''UI set: wg_endpoint=invalid port'' (wb_log u)\<rparr>)
         else if key = ''wg_tunaddr'' then u\<lparr>wb_wg := wg_setTunnelAddress X val m\<rparr>
         else if key = ''wg_keepalive'' then
           (case uint_in 0 65535 (argToUInt r) of Some v \<Rightarrow> u\<lparr>wb_wg := wg_setKeepalive X (ucast v) m\<rparr> | None \<Rightarrow> u)
         else u)"

definition JSON_OK :: string where
  "JSON_OK = ''{'' @ [CHR 0x22] @ ''ok'' @ [CHR 0x22] @ '':true}''"

definition httpSet ::
  "(string \<Rightarrow> float_value) \<Rightarrow> 'n externals \<Rightarrow> request \<Rightarrow> 'n web \<Rightarrow> 'n web \<times> fw_call list \<times> string" where
  "httpSet toFloat X r u =
     (let key = rq_key r;
          val = web_arg r;
          logVal = (if key = ''wg_priv'' then ''********'' else val);
          u = (if length val \<noteq> 0 then u\<lparr>wb_log := webui_pushLog (''UI set: '' @ key @ ''='' @ logVal) (wb_log u)\<rparr> else u)
      in case set_audio toFloat (ex_prefs X) r (wb_fw u) of
           Some (s, calls) \<Rightarrow> (u\<lparr>wb_fw := s\<rparr>, calls, JSON_OK)
         | None \<Rightarrow>
             (case set_device (ex_prefs X) r (wb_fw u) of
                Some (s, calls) \<Rightarrow> (u\<lparr>wb_fw := s\<rparr>, calls, JSON_OK)
              | None \<Rightarrow> (set_wg X r u, [], JSON_OK)))"

subsection \<open>Actions\<close>

definition httpThermalClear :: "'n prefs \<Rightarrow> 'n web \<Rightarrow> 'n web \<times> string" where
  "httpThermalClear P u =
     (let s = wb_fw u
      in if overheatLatched s then
           let s = s\<lparr>overheatLatched := False, overheatLockoutActive := False, overheatTripTemp := 0,
                     overheatTriggeredAt := 0, overheatLastReason := ''Thermal latch cleared manually.'',
                     overheatLastTimestamp := []\<rparr>;
               s = (if \<not> rtspServerEnabled s then s\<lparr>server_listening := True, rtspServerEnabled := True\<rparr> else s);
               s = saveAudioSettings P s
           in (u\<lparr>wb_fw := s, wb_log := webui_pushLog ''UI action: thermal_latch_clear'' (wb_log u)\<rparr>, JSON_OK)
         else (u, ''{'' @ [CHR 0x22] @ ''ok'' @ [CHR 0x22] @ '':false}''))"

definition JSON_LATCHED :: string where
  "JSON_LATCHED = ''{'' @ [CHR 0x22] @ ''ok'' @ [CHR 0x22] @ '':false,'' @ [CHR 0x22] @ ''error'' @ [CHR 0x22] @ '':'' @
     [CHR 0x22] @ ''thermal_latched'' @ [CHR 0x22] @ ''}''"

definition httpActionServerStart :: "'n web \<Rightarrow> 'n web \<times> string" where
  "httpActionServerStart u =
     (let s = wb_fw u
      in if overheatLatched s then
           (u\<lparr>wb_log := webui_pushLog ''Server start blocked: thermal protection latched'' (wb_log u)\<rparr>, JSON_LATCHED)
         else
           let s = (if \<not> rtspServerEnabled s then
                      s\<lparr>rtspServerEnabled := True, server_listening := True, overheatLockoutActive := False\<rparr>
                    else s)
           in (u\<lparr>wb_fw := s, wb_log := webui_pushLog ''UI action: server_start'' (wb_log u)\<rparr>, JSON_OK))"

definition httpActionServerStop :: "bool \<Rightarrow> 'n web \<Rightarrow> 'n web \<times> fw_call list \<times> string" where
  "httpActionServerStop streaming u =
     (u\<lparr>wb_fw := (wb_fw u)\<lparr>rtspServerEnabled := False, server_listening := False\<rparr>,
        wb_log := webui_pushLog ''UI action: server_stop'' (wb_log u)\<rparr>,
      if streaming then [Call_request_stop] else [], JSON_OK)"

definition httpActionResetI2S :: "'n web \<Rightarrow> 'n web \<times> fw_call list \<times> string" where
  "httpActionResetI2S u =
     (u\<lparr>wb_log := webui_pushLog ''UI action: reset_i2s'' (wb_log u)\<rparr>, [Call_restart_i2s], JSON_OK)"

text \<open>The two pages that ask for a reboot.\<close>

definition httpActionReboot :: "u32 \<Rightarrow> 'n web \<Rightarrow> 'n web \<times> string" where
  "httpActionReboot now u =
     (let u = u\<lparr>wb_log := webui_pushLog ''UI action: reboot'' (wb_log u)\<rparr>
      in (u\<lparr>wb_fw := scheduleReboot now False 600 (wb_fw u)\<rparr>, JSON_OK))"

definition httpActionFactoryReset :: "u32 \<Rightarrow> 'n web \<Rightarrow> 'n web \<times> string" where
  "httpActionFactoryReset now u =
     (let u = u\<lparr>wb_log := webui_pushLog ''UI action: factory_reset'' (wb_log u)\<rparr>
      in (u\<lparr>wb_fw := scheduleReboot now True 600 (wb_fw u)\<rparr>, JSON_OK))"

end
