(* ===== verification/Fw_Web_Props.thy ===== *)
theory Fw_Web_Props
  imports Fw_Web Fw_Settings_Props Wg_Manager_Props
begin

text \<open>
  What the pages, the watchdogs and a restart keep: every setting stays in the range that the
  page accepts, in memory and in the store, and the latch of the thermal protection holds the
  server down until it is cleared by hand.
\<close>

subsection \<open>Reachable states\<close>

text \<open>
  One step of the firmware as far as it touches the settings: a page, a watchdog, the end of
  \<open>loop\<close>, or a restart, which loads the settings again and finds the manager in any state.
\<close>

inductive web_step ::
  "(string \<Rightarrow> float_value) \<Rightarrow> (rat \<Rightarrow> nat \<Rightarrow> string) \<Rightarrow> 'n externals \<Rightarrow> 'n web \<Rightarrow> 'n web \<Rightarrow> bool"
  for toFloat fmt X where
  "web_step toFloat fmt X u (fst (httpSet toFloat X r u))"
| "web_step toFloat fmt X u (fst (httpThermalClear (ex_prefs X) u))"
| "web_step toFloat fmt X u (fst (httpActionServerStart u))"
| "web_step toFloat fmt X u (fst (httpActionServerStop streaming u))"
| "web_step toFloat fmt X u (fst (httpActionResetI2S u))"
| "web_step toFloat fmt X u (fst (httpActionReboot now u))"
| "web_step toFloat fmt X u (fst (httpActionFactoryReset now u))"
| "web_step toFloat fmt X u (u\<lparr>wb_fw := fst (checkTemperature fmt (ex_prefs X) now streaming reading (wb_fw u))\<rparr>)"
| "web_step toFloat fmt X u (u\<lparr>wb_fw := fst (checkWiFiHealth wifi_up streaming (wb_fw u))\<rparr>)"
| "fst (deferred_reboot X now (wb_fw u, wb_wg u)) = (s, m) \<Longrightarrow>
    web_step toFloat fmt X u (u\<lparr>wb_fw := s, wb_wg := m\<rparr>)"
| "web_step toFloat fmt X u
    \<lparr>wb_fw = fst (setup_fw (ex_prefs X) now reading (audioPrefs (wb_fw u))), wb_wg = m, wb_log = log_empty\<rparr>"

text \<open>A device starts with an empty store.\<close>

inductive web_reachable ::
  "(string \<Rightarrow> float_value) \<Rightarrow> (rat \<Rightarrow> nat \<Rightarrow> string) \<Rightarrow> 'n externals \<Rightarrow> 'n web \<Rightarrow> bool"
  for toFloat fmt X where
  "web_reachable toFloat fmt X
    \<lparr>wb_fw = fst (setup_fw (ex_prefs X) now reading (pf_clear (ex_prefs X) n)), wb_wg = m, wb_log = log_empty\<rparr>"
| "web_reachable toFloat fmt X u \<Longrightarrow> web_step toFloat fmt X u u' \<Longrightarrow> web_reachable toFloat fmt X u'"

subsection \<open>The ranges\<close>

definition in_range :: "'n fw \<Rightarrow> bool" where
  "in_range s \<longleftrightarrow>
     f32 (1 / 10) \<le> currentGainFactor s \<and> currentGainFactor s \<le> 100 \<and>
     8000 \<le> currentSampleRate s \<and> currentSampleRate s \<le> 96000 \<and>
     256 \<le> currentBufferSize s \<and> currentBufferSize s \<le> 8192 \<and>
     wifiTxPowerDbm s \<in> set tx_steps \<and>
     5 \<le> minAcceptableRate s \<and> minAcceptableRate s \<le> 200 \<and>
     1 \<le> performanceCheckInterval s \<and> performanceCheckInterval s \<le> 60 \<and>
     1 \<le> resetIntervalHours s \<and> resetIntervalHours s \<le> 168 \<and>
     40 \<le> cpuFrequencyMhz s \<and> cpuFrequencyMhz s \<le> 240 \<and>
     10 \<le> highpassCutoffHz s \<and> highpassCutoffHz s \<le> 10000 \<and>
     ledMode s \<le> 2 \<and>
     (\<exists>l. limit_ok l \<and> overheatShutdownC s = of_nat (unat l))"

lemma recommended_range:
  assumes "8000 \<le> currentSampleRate s" "currentSampleRate s \<le> 96000"
    "256 \<le> currentBufferSize s" "currentBufferSize s \<le> 8192"
  shows "5 \<le> computeRecommendedMinRate s" "computeRecommendedMinRate s \<le> 200"
proof -
  define R where "R = unat (currentSampleRate s)"
  define B where "B = unat (currentBufferSize s)"
  have b: "R \<le> 96000" "256 \<le> B" using assms by (simp_all add: R_def B_def word_le_nat_alt)
  have "(R + B) div (2 * B) \<le> 200"
  proof -
    have "R + B < 201 * (2 * B)" using b by simp
    then have "(R + B) div (2 * B) < 201" using b by (simp add: div_less_iff_less_mult)
    then show ?thesis by simp
  qed
  then have "unat (computeRecommendedMinRate s) \<le> 200" "5 \<le> unat (computeRecommendedMinRate s)"
    using recommended_exact [OF assms] by (simp_all add: R_def B_def)
  then show "5 \<le> computeRecommendedMinRate s" "computeRecommendedMinRate s \<le> 200"
    by (simp_all add: word_le_nat_alt)
qed

text \<open>What is true of the state between two steps.\<close>

definition latch_holds :: "'n fw \<Rightarrow> bool" where
  "latch_holds s \<longleftrightarrow> (overheatLatched s \<longrightarrow> \<not> rtspServerEnabled s \<and> \<not> server_listening s) \<and>
     (overheatLockoutActive s \<longrightarrow> overheatLatched s)"

definition fw_inv :: "'n prefs \<Rightarrow> 'n fw \<Rightarrow> bool" where
  "fw_inv P s \<longleftrightarrow> in_range s \<and> latch_holds s \<and>
     in_range (loadAudioSettings P (fw_initial (audioPrefs s))) \<and>
     getBool P ''ohLatched'' False (audioPrefs s) = overheatLatched s"

lemma save_inv:
  assumes P: "prefs_laws P" and s: "in_range s" "latch_holds s"
  shows "fw_inv P (saveAudioSettings P s)"
proof -
  have f: "saveAudioSettings P s = s\<lparr>audioPrefs := audioPrefs (saveAudioSettings P s)\<rparr>"
    by (simp add: saveAudioSettings_def Let_def)
  obtain l where l: "limit_ok l" "overheatShutdownC s = of_nat (unat l)" using s by (auto simp: in_range_def)
  have "in_range (loadAudioSettings P (fw_initial (audioPrefs (saveAudioSettings P s))))"
    unfolding in_range_def load_saved [OF P] load_saved_rate [OF P] l(2) limit_stored [OF l(1)]
    using s recommended_range [of s] l by (auto simp: in_range_def not_less)
  moreover have "getBool P ''ohLatched'' False (audioPrefs (saveAudioSettings P s)) = overheatLatched s"
    by (simp add: getBool_def saved_values [OF P])
  moreover have "in_range (saveAudioSettings P s)" "latch_holds (saveAudioSettings P s)"
    using s by (subst f, simp add: in_range_def latch_holds_def)+
  ultimately show ?thesis unfolding fw_inv_def by (subst (4) f) simp
qed

text \<open>A note of the protection touches neither the settings nor their copy in the store.\<close>

lemma note_settings:
  assumes P: "prefs_laws P"
  shows "in_range (loadAudioSettings P (fw_initial (audioPrefs (persistOverheatNote P s)))) \<longleftrightarrow>
      in_range (loadAudioSettings P (fw_initial (audioPrefs s)))"
    "getBool P ''ohLatched'' False (audioPrefs (persistOverheatNote P s)) = overheatLatched s"
    "in_range (persistOverheatNote P s) = in_range s" "latch_holds (persistOverheatNote P s) = latch_holds s"
    "overheatLatched (persistOverheatNote P s) = overheatLatched s"
  by (simp_all add: persistOverheatNote_def Let_def in_range_def latch_holds_def load_defs getter_defs
      prefs_lawsD [OF P] fw_initial_def computeRecommendedMinRate_def)

lemma note_inv:
  assumes "prefs_laws P" and "fw_inv P s'"
    and "in_range s = in_range s'" "latch_holds s" "audioPrefs s = audioPrefs s'"
  shows "fw_inv P (persistOverheatNote P s)"
  using assms by (simp add: fw_inv_def note_settings)

subsection \<open>Every step keeps them\<close>

lemma float_in_Some: "float_in lo hi v = Some x \<Longrightarrow> lo \<le> x \<and> x \<le> hi"
  by (simp add: float_in_def split: option.splits float_value.splits if_splits)

lemma uint_in_Some: "uint_in lo hi v = Some x \<Longrightarrow> lo \<le> x \<and> x \<le> hi"
  by (simp add: uint_in_def split: option.splits if_splits)

text \<open>A setting is changed in memory, to a value in its range, and saved.\<close>

lemma set_when_inv:
  assumes "fw_inv P s" and "\<And>x. v = Some x \<Longrightarrow> fw_inv P (fst (f x s))"
  shows "fw_inv P (fst (set_when v f s))"
  using assms by (simp add: set_when_def split: option.splits)

lemma auto_rate_range:
  assumes "in_range s" and "8000 \<le> r" "r \<le> 96000"
  shows "in_range (auto_rate (s\<lparr>currentSampleRate := r\<rparr>))"
  using assms recommended_range [of "s\<lparr>currentSampleRate := r\<rparr>"] by (simp add: in_range_def auto_rate_def)

lemma auto_rate_range_buffer:
  assumes "in_range s" and "256 \<le> b" "b \<le> 8192"
  shows "in_range (auto_rate (s\<lparr>currentBufferSize := b\<rparr>))"
  using assms recommended_range [of "s\<lparr>currentBufferSize := b\<rparr>"] by (simp add: in_range_def auto_rate_def)

lemma auto_rate_latch: "latch_holds (auto_rate s) = latch_holds s"
  by (simp add: auto_rate_def latch_holds_def)

lemma snap_in_steps: "snapWifiTxDbm v \<in> set tx_steps"
  using snap_loop_best [OF refl, where dbm = v and best = "hd tx_steps" and steps = "tl tx_steps"]
  unfolding snapWifiTxDbm_def by (simp add: tx_steps_def)

lemma tx_power_inv: "in_range (applyWifiTxPower s) = in_range s" "latch_holds (applyWifiTxPower s) = latch_holds s"
  "audioPrefs (applyWifiTxPower s) = audioPrefs s" "overheatLatched (applyWifiTxPower s) = overheatLatched s"
  by (simp_all add: applyWifiTxPower_def Let_def in_range_def latch_holds_def)

lemma tx_power_lockout: "overheatLockoutActive (applyWifiTxPower s) = overheatLockoutActive s"
  by (simp add: applyWifiTxPower_def Let_def)

lemma ucast_in:
  fixes v :: u32
  shows "v \<le> 2 \<Longrightarrow> (ucast v :: u8) \<le> 2"
    "40 \<le> v \<Longrightarrow> v \<le> 240 \<Longrightarrow> 40 \<le> (ucast v :: u8) \<and> (ucast v :: u8) \<le> 240"
    "10 \<le> v \<Longrightarrow> v \<le> 10000 \<Longrightarrow> 10 \<le> (ucast v :: u16) \<and> (ucast v :: u16) \<le> 10000"
  by (simp_all add: word_le_nat_alt unat_ucast_mod)

lemma set_audio_inv:
  assumes P: "prefs_laws P" and s: "fw_inv P s" and r: "set_audio toFloat P r s = Some (s', calls)"
  shows "fw_inv P s'"
proof -
  have i: "in_range s" "latch_holds s" using s by (simp_all add: fw_inv_def)
  have *: "fw_inv P (fst (the (set_audio toFloat P r s)))" if "set_audio toFloat P r s \<noteq> None"
    using that i s
    by (auto simp: set_audio_def Let_def tx_power_inv auto_rate_latch snap_in_steps
        dest!: float_in_Some uint_in_Some
        intro!: set_when_inv save_inv [OF P] auto_rate_range auto_rate_range_buffer
        split: if_splits)
      (simp_all add: in_range_def latch_holds_def snap_in_steps ucast_in)
  then show ?thesis using r by simp
qed

text \<open>The limit that the page accepts is snapped down to a step of the table.\<close>

lemma page_limit_ok:
  assumes "OH_MIN \<le> v" "v \<le> OH_MAX"
  shows "limit_ok (OH_MIN + (v - OH_MIN) div OH_STEP * OH_STEP)"
proof -
  have "clamp_limit v = v"
    using assms by (simp add: clamp_limit_def OH_MIN_def OH_MAX_def default_defs leD)
  then show ?thesis
    using snap_limit_ok [of v] by (simp add: snap_limit_def default_defs OH_MIN_def OH_STEP_def)
qed

lemma set_device_inv:
  assumes P: "prefs_laws P" and s: "fw_inv P s" and r: "set_device P r s = Some (s', calls)"
  shows "fw_inv P s'"
proof -
  have i: "in_range s" "latch_holds s" using s by (simp_all add: fw_inv_def)
  have rec: "5 \<le> computeRecommendedMinRate s" "computeRecommendedMinRate s \<le> 200"
    using i recommended_range [of s] by (simp_all add: in_range_def)
  have *: "fw_inv P (fst (the (set_device P r s)))" if "set_device P r s \<noteq> None"
    using that i s
    by (auto simp: set_device_def Let_def dest!: float_in_Some uint_in_Some intro!: set_when_inv save_inv [OF P]
        split: if_splits)
      (use rec page_limit_ok in \<open>auto simp: in_range_def latch_holds_def ucast_in\<close>)
  then show ?thesis using r by simp
qed

lemma set_wg_fw [simp]: "wb_fw (set_wg X r u) = wb_fw u"
  by (simp add: set_wg_def Let_def split: option.splits)

lemma httpSet_inv:
  assumes "prefs_laws (ex_prefs X)" and "fw_inv (ex_prefs X) (wb_fw u)"
  shows "fw_inv (ex_prefs X) (wb_fw (fst (httpSet toFloat X r u)))"
proof -
  define u' where "u' = (if length (web_arg r) \<noteq> 0 then u\<lparr>wb_log := webui_pushLog (''UI set: '' @ rq_key r @ ''='' @
    (if rq_key r = ''wg_priv'' then ''********'' else web_arg r)) (wb_log u)\<rparr> else u)"
  have u': "wb_fw u' = wb_fw u" by (simp add: u'_def)
  show ?thesis
    unfolding httpSet_def Let_def u'_def [symmetric] u'
    using set_audio_inv [OF assms] set_device_inv [OF assms] assms(2)
    by (auto simp: u' split: option.splits)
qed

text \<open>The thermal protection. What the readings set is not a setting.\<close>

lemma reading_inv:
  "fw_inv P (s\<lparr>lastTemperatureValid := b\<rparr>) = fw_inv P s"
  "fw_inv P (s\<lparr>lastTemperatureC := c\<rparr>) = fw_inv P s"
  "fw_inv P (s\<lparr>maxTemperature := c\<rparr>) = fw_inv P s"
  "fw_inv P (s\<lparr>overheatSensorFault := b\<rparr>) = fw_inv P s"
  by (simp_all add: fw_inv_def in_range_def latch_holds_def)

lemma unlock_inv: "fw_inv P s \<Longrightarrow> fw_inv P (s\<lparr>overheatLockoutActive := False\<rparr>)"
  by (simp add: fw_inv_def in_range_def latch_holds_def)

lemma sensor_inv:
  assumes "prefs_laws P" and "fw_inv P s"
  shows "fw_inv P (sensor_lost P s)" "fw_inv P (sensor_back P now s)"
proof -
  note k = fw_inv_def in_range_def latch_holds_def
  show "fw_inv P (sensor_lost P s)" unfolding sensor_lost_def
    by (rule note_inv [OF assms]) (use assms(2) in \<open>simp_all add: k\<close>)
  show "fw_inv P (sensor_back P now s)" unfolding sensor_back_def
    by (rule note_inv [OF assms]) (use assms(2) in \<open>simp_all add: k\<close>)
qed

lemma trip_fields:
  "rtspServerEnabled (fst (thermal_trip fmt P now streaming temp s)) = False"
  "server_listening (fst (thermal_trip fmt P now streaming temp s)) = False"
  "overheatLatched (fst (thermal_trip fmt P now streaming temp s)) = True"
  by (simp_all add: thermal_trip_def recordOverheatTrip_def persistOverheatNote_def Let_def)

lemma trip_inv:
  assumes P: "prefs_laws P" and s: "fw_inv P s"
  shows "fw_inv P (fst (thermal_trip fmt P now streaming temp s))"
proof -
  have "\<exists>t. fst (thermal_trip fmt P now streaming temp s) =
      (persistOverheatNote P t)\<lparr>rtspServerEnabled := False, server_listening := False\<rparr> \<and>
    in_range t = in_range s \<and> audioPrefs t = audioPrefs s \<and> overheatLatched t"
    unfolding thermal_trip_def recordOverheatTrip_def Let_def fst_conv
    by (intro exI conjI, rule refl) (simp_all add: in_range_def)
  then obtain t where t: "fst (thermal_trip fmt P now streaming temp s) =
      (persistOverheatNote P t)\<lparr>rtspServerEnabled := False, server_listening := False\<rparr>"
    "in_range t = in_range s" "audioPrefs t = audioPrefs s" "overheatLatched t"
    by blast
  have "in_range ((persistOverheatNote P t)\<lparr>rtspServerEnabled := False, server_listening := False\<rparr>) = in_range t"
    using note_settings(3) [OF P, of t] by (simp add: in_range_def)
  moreover have "in_range (loadAudioSettings P (fw_initial (audioPrefs (persistOverheatNote P t))))"
    unfolding note_settings(1) [OF P] t(3) using s by (simp add: fw_inv_def)
  ultimately show ?thesis
    using s t(2,4) by (simp add: fw_inv_def t(1) latch_holds_def note_settings [OF P])
qed

lemma checkTemperature_inv:
  assumes P: "prefs_laws P" and s: "fw_inv P s"
  shows "fw_inv P (fst (checkTemperature fmt P now streaming reading s))"
proof (cases reading)
  case (Finite temp)
  define t where "t = s\<lparr>lastTemperatureC := temp, lastTemperatureValid := True\<rparr>"
  define t' where "t' = (if overheatSensorFault t then sensor_back P now t else t)"
  define t'' where "t'' = (if temp > maxTemperature t' then t'\<lparr>maxTemperature := temp\<rparr> else t')"
  have t: "fw_inv P t''"
    using s by (simp add: t''_def t'_def t_def reading_inv sensor_inv [OF P])
  show ?thesis
    unfolding checkTemperature_def Finite float_value.case Let_def t_def [symmetric] t'_def [symmetric] t''_def [symmetric]
    using t s by (auto simp: reading_inv unlock_inv sensor_inv [OF P] trip_inv [OF P])
qed (use s in \<open>simp_all add: checkTemperature_def Let_def reading_inv sensor_inv [OF P]\<close>)

lemma load_bootTime: "loadAudioSettings P (s\<lparr>bootTime := t\<rparr>) = (loadAudioSettings P s)\<lparr>bootTime := t\<rparr>"
proof -
  have "load_audio P (s\<lparr>bootTime := t\<rparr>) = (load_audio P s)\<lparr>bootTime := t\<rparr>"
    and "load_led (s\<lparr>bootTime := t\<rparr>) = (load_led s)\<lparr>bootTime := t\<rparr>"
    and "load_thermal P (s\<lparr>bootTime := t\<rparr>) = (load_thermal P s)\<lparr>bootTime := t\<rparr>"
    and "load_derived (s\<lparr>bootTime := t\<rparr>) = (load_derived s)\<lparr>bootTime := t\<rparr>" for s :: "'a fw"
    by (cases s; simp add: load_audio_def load_thermal_def computeRecommendedMinRate_def Let_def)+
  then show ?thesis by (simp only: loadAudioSettings_def)
qed

lemma load_latch: "audioPrefs (loadAudioSettings P s) = audioPrefs s"
  "overheatLatched (loadAudioSettings P s) = getBool P ''ohLatched'' False (audioPrefs s)"
  by (simp_all add: load_defs Let_def)

lemma load_lockout: "overheatLockoutActive (loadAudioSettings P s) = overheatLockoutActive s"
  by (simp add: load_defs Let_def)

lemma setup_inv:
  assumes P: "prefs_laws P" and n: "in_range (loadAudioSettings P (fw_initial n))"
  shows "fw_inv P (fst (setup_fw P now reading n))"
proof -
  define s where "s = loadAudioSettings P ((fw_initial n)\<lparr>bootTime := now\<rparr>)"
  have s: "in_range s" "audioPrefs s = n" "overheatLatched s = getBool P ''ohLatched'' False n"
    "\<not> overheatLockoutActive s"
    using n unfolding s_def load_bootTime by (simp_all add: in_range_def load_latch load_lockout fw_initial_def)
  define t where "t = (let s = applyWifiTxPower s in
    if \<not> overheatLatched s then s\<lparr>server_listening := True, rtspServerEnabled := True\<rparr>
    else s\<lparr>rtspServerEnabled := False, server_listening := False\<rparr>)"
  have "in_range t" using s(1) tx_power_inv(1) [of s] by (simp add: t_def Let_def in_range_def)
  then have t: "fw_inv P t"
    using s n by (simp add: fw_inv_def t_def Let_def latch_holds_def tx_power_inv tx_power_lockout)
  have "fst (setup_fw P now reading n) = setup_sensor P reading t"
    by (simp add: setup_fw_def Let_def s_def t_def)
  moreover have "fw_inv P (setup_sensor P reading t)"
    using t by (cases reading) (simp_all add: setup_sensor_def reading_inv sensor_inv [OF P])
  ultimately show ?thesis by simp
qed

lemma gain_bound: "f32 (1 / 10) \<le> 1"
proof -
  have "f32 (1 / 10) - 1 / 10 \<le> 1 / 10 / 16777216" using abs_le_D1 [OF f32_error [of "1 / 10"]] by simp
  then show ?thesis by linarith
qed

lemma default_limit: "limit_ok DEFAULT_OVERHEAT_LIMIT_C"
  by (simp add: limit_ok_def default_defs)

lemma reset_inv:
  assumes P: "prefs_laws (ex_prefs X)"
  shows "fw_inv (ex_prefs X) (fst (resetToDefaultSettings X (s, m)))"
proof -
  have r: "5 \<le> computeRecommendedMinRate t" "computeRecommendedMinRate t \<le> 200"
    if "currentSampleRate t = DEFAULT_SAMPLE_RATE" "currentBufferSize t = DEFAULT_BUFFER_SIZE" for t :: "'a fw"
    using that by (intro recommended_range; simp add: default_defs)+
  have g: "f32 (1 / 10) \<le> 3" using gain_bound by simp
  have "\<exists>t. fst (resetToDefaultSettings X (s, m)) = saveAudioSettings (ex_prefs X) t \<and> in_range t \<and> latch_holds t"
    unfolding resetToDefaultSettings_def prod.case Let_def fst_conv
    by (intro exI conjI, rule refl)
      (use default_limit g in \<open>auto simp: latch_holds_def in_range_def r default_defs tx_steps_def\<close>)
  then show ?thesis using save_inv [OF P] by auto
qed

lemma reboot_inv:
  assumes "prefs_laws (ex_prefs X)" and "fw_inv (ex_prefs X) s"
  shows "fw_inv (ex_prefs X) (fst (fst (deferred_reboot X now (s, m))))"
  using assms by (simp add: deferred_reboot_def reset_inv)

lemma page_inv:
  assumes P: "prefs_laws (ex_prefs X)" and s: "fw_inv (ex_prefs X) (wb_fw u)"
  shows "fw_inv (ex_prefs X) (wb_fw (fst (httpThermalClear (ex_prefs X) u)))"
    "fw_inv (ex_prefs X) (wb_fw (fst (httpActionServerStart u)))"
    "fw_inv (ex_prefs X) (wb_fw (fst (httpActionServerStop streaming u)))"
    "fw_inv (ex_prefs X) (wb_fw (fst (httpActionResetI2S u)))"
    "fw_inv (ex_prefs X) (wb_fw (fst (httpActionReboot now u)))"
    "fw_inv (ex_prefs X) (wb_fw (fst (httpActionFactoryReset now u)))"
proof -
  have i: "in_range (wb_fw u)" "latch_holds (wb_fw u)" using s by (simp_all add: fw_inv_def)
  show "fw_inv (ex_prefs X) (wb_fw (fst (httpThermalClear (ex_prefs X) u)))"
    using s i by (simp add: httpThermalClear_def Let_def)
      (auto intro!: save_inv [OF P] simp: in_range_def latch_holds_def)
  show "fw_inv (ex_prefs X) (wb_fw (fst (httpActionServerStart u)))"
  proof (cases "overheatLatched (wb_fw u) \<or> rtspServerEnabled (wb_fw u)")
    case True
    then show ?thesis using s by (auto simp: httpActionServerStart_def Let_def)
  next
    case False
    then show ?thesis using s
      by (simp add: httpActionServerStart_def Let_def fw_inv_def latch_holds_def in_range_def)
  qed
qed (use s in \<open>simp_all add: httpActionServerStop_def httpActionResetI2S_def
    httpActionReboot_def httpActionFactoryReset_def scheduleReboot_def Let_def fw_inv_def in_range_def latch_holds_def\<close>)

lemma wifi_inv: "fw_inv P s \<Longrightarrow> fw_inv P (fst (checkWiFiHealth wifi_up streaming s))"
  by (simp add: checkWiFiHealth_def fw_inv_def tx_power_inv)

lemma step_inv:
  assumes P: "prefs_laws (ex_prefs X)" and "web_step toFloat fmt X u u'" and s: "fw_inv (ex_prefs X) (wb_fw u)"
  shows "fw_inv (ex_prefs X) (wb_fw u')"
  using assms(2)
proof cases
  case (10 now s m)
  then show ?thesis using reboot_inv [OF P s, of now "wb_wg u"] by simp
next
  case (11 now reading m)
  have "in_range (loadAudioSettings (ex_prefs X) (fw_initial (audioPrefs (wb_fw u))))" using s by (simp add: fw_inv_def)
  then show ?thesis unfolding 11 by (simp add: setup_inv [OF P])
qed (simp_all add: httpSet_inv [OF P s] page_inv [OF P s] checkTemperature_inv [OF P s] wifi_inv [OF s])

lemma reachable_inv:
  assumes P: "prefs_laws (ex_prefs X)" and "web_reachable toFloat fmt X u"
  shows "fw_inv (ex_prefs X) (wb_fw u)"
  using assms(2)
proof induction
  case (1 now reading n m)
  have e: "pf_get (ex_prefs X) k v (pf_clear (ex_prefs X) n) = v" for k v by (rule prefs_lawsD [OF P])
  have g: "f32 (1 / 10) \<le> 3" using gain_bound by simp
  define s where "s = loadAudioSettings (ex_prefs X) (fw_initial (pf_clear (ex_prefs X) n))"
  have d: "currentSampleRate s = DEFAULT_SAMPLE_RATE" "currentBufferSize s = DEFAULT_BUFFER_SIZE"
    "overheatShutdownC s = of_nat (unat (snap_limit (clamp_limit DEFAULT_OVERHEAT_LIMIT_C)))"
    "minAcceptableRate s = computeRecommendedMinRate s"
    by (simp_all add: s_def load_defs getter_defs e fw_initial_def Let_def computeRecommendedMinRate_def)
  have r: "5 \<le> computeRecommendedMinRate s" "computeRecommendedMinRate s \<le> 200"
    by (intro recommended_range; simp add: d default_defs)+
  have "currentGainFactor s = 3 \<and> wifiTxPowerDbm s = 39 / 2 \<and> performanceCheckInterval s = 15 \<and>
      resetIntervalHours s = 24 \<and> cpuFrequencyMhz s = 160 \<and> highpassCutoffHz s = 300 \<and> ledMode s = 1"
    by (simp add: s_def load_defs getter_defs e fw_initial_def Let_def default_defs)
  then have "in_range s"
    using snap_limit_ok [of DEFAULT_OVERHEAT_LIMIT_C] g
    by (auto simp: in_range_def d r default_defs tx_steps_def)
  then show ?case by (simp add: setup_inv [OF P] s_def)
next
  case (2 u u')
  then show ?case by (blast intro: step_inv [OF P])
qed

subsection \<open>What the latch needs to open\<close>

lemma save_latch [simp]: "overheatLatched (saveAudioSettings P s) = overheatLatched s"
  by (simp add: saveAudioSettings_def Let_def)

lemma set_latch:
  assumes "set_audio toFloat P r s = Some (s', calls) \<or> set_device P r s = Some (s', calls)"
  shows "overheatLatched s' = overheatLatched s"
proof -
  have kept: "overheatLatched (fst (set_when v f s)) = overheatLatched s"
    if "\<And>x. overheatLatched (fst (f x s)) = overheatLatched s" for v :: "'b option" and f
    using that by (simp add: set_when_def split: option.splits)
  have "overheatLatched (fst (the (set_audio toFloat P r s))) = overheatLatched s" if "set_audio toFloat P r s \<noteq> None"
    using that by (auto simp: set_audio_def Let_def auto_rate_def tx_power_inv intro!: kept split: if_splits)
  moreover have "overheatLatched (fst (the (set_device P r s))) = overheatLatched s" if "set_device P r s \<noteq> None"
    using that by (auto simp: set_device_def Let_def intro!: kept split: if_splits)
  ultimately show ?thesis using assms by auto
qed

lemma httpSet_latch [simp]: "overheatLatched (wb_fw (fst (httpSet toFloat X r u))) = overheatLatched (wb_fw u)"
  using set_latch [of toFloat "ex_prefs X" r "wb_fw u"] by (auto simp: httpSet_def Let_def split: option.splits)

lemma note_latch [simp]: "overheatLatched (persistOverheatNote P s) = overheatLatched s"
  by (simp add: persistOverheatNote_def Let_def)

lemma temperature_latch: "overheatLatched s \<Longrightarrow> overheatLatched (fst (checkTemperature fmt P now streaming reading s))"
  by (simp add: checkTemperature_def Let_def sensor_lost_def sensor_back_def trip_fields split: float_value.split)

lemma restart_latch:
  assumes "fw_inv P s" and "overheatLatched s"
  shows "overheatLatched (fst (setup_fw P now reading (audioPrefs s)))"
  using assms
  by (simp add: setup_fw_def Let_def load_bootTime setup_sensor_def sensor_lost_def tx_power_inv load_latch
      fw_inv_def fw_initial_def split: float_value.split)

lemma step_latch:
  assumes "web_step toFloat fmt X u u'" and "fw_inv (ex_prefs X) (wb_fw u)" and "overheatLatched (wb_fw u)"
  shows "overheatLatched (wb_fw u') \<or> u' = fst (httpThermalClear (ex_prefs X) u) \<or>
    (scheduledFactoryReset (wb_fw u) \<and> wb_fw u' = fst (resetToDefaultSettings X (wb_fw u, wb_wg u)))"
  using assms(1)
proof cases
  case (11 now reading m)
  then show ?thesis using restart_latch [OF assms(2,3)] by simp
qed (use assms(3) in \<open>auto simp: httpActionServerStart_def httpActionServerStop_def httpActionResetI2S_def
    httpActionReboot_def httpActionFactoryReset_def scheduleReboot_def Let_def temperature_latch checkWiFiHealth_def
    tx_power_inv deferred_reboot_def split: if_splits\<close>)

lemma reading_trips:
  assumes s: "latch_holds s" "in_range s" and "overheatProtectionEnabled s" "overheatShutdownC s \<le> temp" "temp \<le> 130"
  shows "overheatLatched (fst (checkTemperature fmt P now streaming (Finite temp) s))"
proof -
  obtain l where l: "limit_ok l" "overheatShutdownC s = of_nat (unat l)" using s by (auto simp: in_range_def)
  then have "0 \<le> overheatShutdownC s" by (simp only: of_nat_0_le_iff)
  then have v: "isTemperatureValid (Finite temp)" using assms(4,5) by (simp add: isTemperatureValid_def)
  define t where "t = s\<lparr>lastTemperatureC := temp, lastTemperatureValid := True\<rparr>"
  define t' where "t' = (if overheatSensorFault t then sensor_back P now t else t)"
  define t'' where "t'' = (if temp > maxTemperature t' then t'\<lparr>maxTemperature := temp\<rparr> else t')"
  have "overheatProtectionEnabled t''" "\<not> overheatSensorFault t''" "overheatShutdownC t'' \<le> temp"
    "overheatLockoutActive t'' \<longrightarrow> overheatLatched t''"
    using assms by (simp_all add: t''_def t'_def t_def sensor_back_def persistOverheatNote_def Let_def latch_holds_def)
  then show ?thesis
    unfolding checkTemperature_def Let_def float_value.case t_def [symmetric] t'_def [symmetric] t''_def [symmetric]
    using v by (auto simp: trip_fields)
qed

subsection \<open>Properties\<close>

text \<open>
  C28. The type of the settings. Whatever is sent to the pages, and however the watchdogs and
  restarts come between, every setting keeps the range that its page states: gain, sample rate,
  buffer size, a power of the table, threshold, intervals, clock of the processor, corner of the
  filter, mode of the LED and a limit of the table of limits. The settings in the store, that the
  next boot will load, are in the same ranges.
\<close>

theorem settings_in_range:
  assumes "prefs_laws (ex_prefs X)" and "web_reachable toFloat fmt X u"
  shows "in_range (wb_fw u) \<and> in_range (loadAudioSettings (ex_prefs X) (fw_initial (audioPrefs (wb_fw u))))"
  using reachable_inv [OF assms] by (simp add: fw_inv_def)

text \<open>A device that has just been switched on, and one that has been too hot.\<close>

definition toy_web :: "(string \<rightharpoonup> pref_value) web" where
  "toy_web = \<lparr>wb_fw = fst (setup_fw (ex_prefs toy_externals) 0 (Finite 25) (pf_clear (ex_prefs toy_externals) Map.empty)),
     wb_wg = boot Map.empty None quiet_world, wb_log = log_empty\<rparr>"

definition hot_web :: "(string \<rightharpoonup> pref_value) web" where
  "hot_web = toy_web\<lparr>wb_fw := fst (checkTemperature (\<lambda>t n. ''hot'') (ex_prefs toy_externals) 5000 True (Finite 90) (wb_fw toy_web))\<rparr>"

lemma toy_reachable: "web_reachable toFloat fmt toy_externals toy_web"
  unfolding toy_web_def by (rule web_reachable.intros(1))

lemma hot_reachable: "web_reachable toFloat (\<lambda>t n. ''hot'') toy_externals hot_web"
  unfolding hot_web_def by (rule web_reachable.intros(2) [OF toy_reachable]) (rule web_step.intros(8))

lemma toy_prefs: "prefs_laws (ex_prefs toy_externals)"
  by (simp add: toy_externals_def map_prefs_laws)

lemma toy_limits: "overheatProtectionEnabled (wb_fw toy_web)" "overheatShutdownC (wb_fw toy_web) \<le> 90"
proof -
  have e: "pf_get (ex_prefs toy_externals) k v (pf_clear (ex_prefs toy_externals) n) = v" for k v n
    by (rule prefs_lawsD [OF toy_prefs])
  show "overheatProtectionEnabled (wb_fw toy_web)"
    by (simp add: toy_web_def setup_fw_def Let_def setup_sensor_def applyWifiTxPower_def load_defs getter_defs e default_defs
        isTemperatureValid_def fw_initial_def)
  have "overheatShutdownC (wb_fw toy_web) = of_nat (unat (snap_limit (clamp_limit DEFAULT_OVERHEAT_LIMIT_C)))"
    by (simp add: toy_web_def setup_fw_def Let_def setup_sensor_def applyWifiTxPower_def load_defs getter_defs e
        isTemperatureValid_def fw_initial_def)
  also have "snap_limit (clamp_limit DEFAULT_OVERHEAT_LIMIT_C) = 80" by (simp add: snap_limit_def clamp_limit_def default_defs)
  finally show "overheatShutdownC (wb_fw toy_web) \<le> 90" by simp
qed

theorem settings_in_range_witness:
  "in_range (wb_fw (fst (httpSet (\<lambda>s. NaN) toy_externals \<lparr>rq_key = ''buffer'', rq_value = Some ''66560''\<rparr> hot_web)))"
proof -
  have "web_reachable (\<lambda>s. NaN) (\<lambda>t n. ''hot'') toy_externals
      (fst (httpSet (\<lambda>s. NaN) toy_externals \<lparr>rq_key = ''buffer'', rq_value = Some ''66560''\<rparr> hot_web))"
    by (rule web_reachable.intros(2) [OF hot_reachable]) (rule web_step.intros(1))
  then show ?thesis using settings_in_range [OF toy_prefs] by blast
qed

text \<open>
  C29. The latch of the thermal protection. While it is set, the server is disabled and does not
  listen, also after a restart, for the latch is stored when it is set. A valid reading at the
  limit or above it sets the latch while the protection is enabled. No step clears it but the page
  that clears it by hand and a factory reset.
\<close>

theorem thermal_latch:
  assumes "prefs_laws (ex_prefs X)" and "web_reachable toFloat fmt X u" and "web_step toFloat fmt X u u'"
  shows "(overheatLatched (wb_fw u) \<longrightarrow> \<not> rtspServerEnabled (wb_fw u) \<and> \<not> server_listening (wb_fw u) \<and>
      (overheatLatched (wb_fw u') \<or> u' = fst (httpThermalClear (ex_prefs X) u) \<or>
       scheduledFactoryReset (wb_fw u) \<and> wb_fw u' = fst (resetToDefaultSettings X (wb_fw u, wb_wg u)))) \<and>
    (overheatProtectionEnabled (wb_fw u) \<and> overheatShutdownC (wb_fw u) \<le> temp \<and> temp \<le> 130 \<longrightarrow>
      overheatLatched (fst (checkTemperature fmt (ex_prefs X) now streaming (Finite temp) (wb_fw u))) \<and>
      overheatLatched (fst (setup_fw (ex_prefs X) later reading
        (audioPrefs (fst (checkTemperature fmt (ex_prefs X) now streaming (Finite temp) (wb_fw u)))))))"
proof -
  note i = reachable_inv [OF assms(1,2)]
  let ?s = "fst (checkTemperature fmt (ex_prefs X) now streaming (Finite temp) (wb_fw u))"
  have "overheatLatched ?s" if "overheatProtectionEnabled (wb_fw u) \<and> overheatShutdownC (wb_fw u) \<le> temp \<and> temp \<le> 130"
    using that i reading_trips by (auto simp: fw_inv_def)
  moreover have "overheatLatched (fst (setup_fw (ex_prefs X) later reading (audioPrefs ?s)))" if "overheatLatched ?s"
    using that by (rule restart_latch [OF checkTemperature_inv [OF assms(1) i]])
  ultimately show ?thesis using i step_latch [OF assms(3) i] by (auto simp: fw_inv_def latch_holds_def)
qed

theorem thermal_latch_witness:
  "overheatLatched (wb_fw hot_web) \<and> \<not> rtspServerEnabled (wb_fw hot_web) \<and> \<not> server_listening (wb_fw hot_web) \<and>
   overheatLatched (wb_fw (fst (httpActionServerStart hot_web)))"
proof -
  let ?fmt = "(\<lambda>t n. ''hot'') :: rat \<Rightarrow> nat \<Rightarrow> string"
  note i = reachable_inv [OF toy_prefs toy_reachable [of "\<lambda>s. NaN" ?fmt]]
  note l = toy_limits(1) and t = toy_limits(2)
  have h: "web_step (\<lambda>s. NaN) ?fmt toy_externals toy_web hot_web" unfolding hot_web_def by (rule web_step.intros(8))
  have latched: "overheatLatched (wb_fw hot_web)"
    using thermal_latch [OF toy_prefs toy_reachable h, of 90 5000 True] l t by (simp add: hot_web_def)
  have "web_step (\<lambda>s. NaN) ?fmt toy_externals hot_web (fst (httpActionServerStart hot_web))"
    by (rule web_step.intros(3))
  from thermal_latch [OF toy_prefs hot_reachable this] latched
  have "\<not> rtspServerEnabled (wb_fw hot_web) \<and> \<not> server_listening (wb_fw hot_web)" by blast
  moreover have "overheatLatched (wb_fw (fst (httpActionServerStart hot_web)))"
    using latched by (simp add: httpActionServerStart_def Let_def)
  ultimately show ?thesis using latched by blast
qed

end
