(* ===== verification/Fw_Audio.thy ===== *)
theory Fw_Audio
  imports Fw_Settings
begin

text \<open>
  The audio of the sketch: the high-pass filter with its coefficients, and what the audio task
  does to a block of samples: filter, gain, clipping, automatic gain control, metering. The
  arithmetic is in single precision, one rounding for each operation of the source; the
  functions of the mathematical library are parameters. The settings are read once for a block.
\<close>

unbundle bit_operations_syntax

subsection \<open>Arithmetic\<close>

definition fadd :: "rat \<Rightarrow> rat \<Rightarrow> rat" where "fadd x y = f32 (x + y)"
definition fsub :: "rat \<Rightarrow> rat \<Rightarrow> rat" where "fsub x y = f32 (x - y)"
definition fmul :: "rat \<Rightarrow> rat \<Rightarrow> rat" where "fmul x y = f32 (x * y)"
definition fdiv :: "rat \<Rightarrow> rat \<Rightarrow> rat" where "fdiv x y = f32 (x / y)"

lemmas float_ops = fadd_def fsub_def fmul_def fdiv_def

text \<open>The conversion to an integer drops the fraction.\<close>

definition to_int :: "rat \<Rightarrow> int" where
  "to_int x = (if x < 0 then \<lceil>x\<rceil> else \<lfloor>x\<rfloor>)"

record libm =
  lm_cosf :: "rat \<Rightarrow> rat"
  lm_sinf :: "rat \<Rightarrow> rat"
  lm_sqrtf :: "rat \<Rightarrow> rat"

subsection \<open>The filter\<close>

record biquad =
  bq_b0 :: rat
  bq_b1 :: rat
  bq_b2 :: rat
  bq_a1 :: rat
  bq_a2 :: rat
  bq_x1 :: rat
  bq_x2 :: rat
  bq_y1 :: rat
  bq_y2 :: rat

definition biquad_initial :: biquad where
  "biquad_initial = \<lparr>bq_b0 = 1, bq_b1 = 0, bq_b2 = 0, bq_a1 = 0, bq_a2 = 0, bq_x1 = 0, bq_x2 = 0, bq_y1 = 0, bq_y2 = 0\<rparr>"

definition biquad_process :: "biquad \<Rightarrow> rat \<Rightarrow> biquad \<times> rat" where
  "biquad_process f x =
     (let y = fsub (fsub (fadd (fadd (fmul (bq_b0 f) x) (fmul (bq_b1 f) (bq_x1 f))) (fmul (bq_b2 f) (bq_x2 f)))
                (fmul (bq_a1 f) (bq_y1 f))) (fmul (bq_a2 f) (bq_y2 f))
      in (f\<lparr>bq_x2 := bq_x1 f, bq_x1 := x, bq_y2 := bq_y1 f, bq_y1 := y\<rparr>, y))"

definition biquad_reset :: "biquad \<Rightarrow> biquad" where
  "biquad_reset f = f\<lparr>bq_x1 := 0, bq_x2 := 0, bq_y1 := 0, bq_y2 := 0\<rparr>"

text \<open>The filter that the main loop computes and the audio task copies.\<close>

record highpass =
  hpf :: biquad
  hpfConfigSampleRate :: u32
  hpfConfigCutoff :: u16

definition highpass_initial :: highpass where
  "highpass_initial = \<lparr>hpf = biquad_initial, hpfConfigSampleRate = 0, hpfConfigCutoff = 0\<rparr>"

definition cutoff_limit :: "rat \<Rightarrow> rat \<Rightarrow> rat" where
  "cutoff_limit fs fc =
     (let fc = (if fc < 10 then 10 else fc)
      in if fc > fmul fs (f32 (45 / 100)) then fmul fs (f32 (45 / 100)) else fc)"

definition PI_FLOAT :: rat where "PI_FLOAT = f32 (314159265358979323846 / 10 ^ 20)"

definition updateHighpassCoeffs :: "libm \<Rightarrow> 'n fw \<Rightarrow> highpass \<Rightarrow> highpass" where
  "updateHighpassCoeffs M s h =
     (if \<not> highpassEnabled s then
        h\<lparr>hpf := biquad_reset (hpf h), hpfConfigSampleRate := currentSampleRate s, hpfConfigCutoff := highpassCutoffHz s\<rparr>
      else
        let fs = f32 (of_nat (unat (currentSampleRate s)));
            fc = f32 (of_nat (unat (highpassCutoffHz s)));
            fc = cutoff_limit fs fc;
            w0 = fmul (fmul 2 PI_FLOAT) (fdiv fc fs);
            cosw0 = lm_cosf M w0;
            sinw0 = lm_sinf M w0;
            Q = f32 (70710678 / 10 ^ 8);
            alpha = fdiv sinw0 (fmul 2 Q);
            b0 = fmul (fadd 1 cosw0) (1 / 2);
            b1 = - fadd 1 cosw0;
            b2 = fmul (fadd 1 cosw0) (1 / 2);
            a0 = fadd 1 alpha;
            a1 = fmul (-2) cosw0;
            a2 = fsub 1 alpha;
            f = (hpf h)\<lparr>bq_b0 := fdiv b0 a0, bq_b1 := fdiv b1 a0, bq_b2 := fdiv b2 a0, bq_a1 := fdiv a1 a0, bq_a2 := fdiv a2 a0\<rparr>
        in h\<lparr>hpf := biquad_reset f, hpfConfigSampleRate := currentSampleRate s,
             hpfConfigCutoff := word_of_int (to_int fc)\<rparr>)"

subsection \<open>The audio task\<close>

definition AGC_TARGET_RMS :: rat where "AGC_TARGET_RMS = f32 (15 / 100)"
definition AGC_MIN_MULT :: rat where "AGC_MIN_MULT = f32 (1 / 10)"
definition AGC_MAX_MULT :: rat where "AGC_MAX_MULT = 10"
definition AGC_ATTACK_RATE :: rat where "AGC_ATTACK_RATE = f32 (5 / 100)"
definition AGC_RELEASE_RATE :: rat where "AGC_RELEASE_RATE = f32 (1 / 1000)"

text \<open>Its local variables that live from block to block, and what it publishes.\<close>

record pipeline =
  localHpf :: biquad
  localHpfConfigSampleRate :: u32
  localHpfConfigCutoff :: u16
  localAgcMult :: rat

record meters =
  lastPeakAbs16 :: u16
  audioClipCount :: u32
  audioClippedLastBlock :: bool
  peakHoldAbs16 :: u16
  peakHoldUntilMs :: u32

definition pipeline_start :: "highpass \<Rightarrow> pipeline" where
  "pipeline_start h =
     \<lparr>localHpf = hpf h, localHpfConfigSampleRate = hpfConfigSampleRate h,
      localHpfConfigCutoff = hpfConfigCutoff h, localAgcMult = 1\<rparr>"

definition update_local_hpf :: "'n fw \<Rightarrow> highpass \<Rightarrow> pipeline \<Rightarrow> pipeline" where
  "update_local_hpf s h p =
     (if highpassEnabled s \<and>
         (localHpfConfigSampleRate p \<noteq> currentSampleRate s \<or> localHpfConfigCutoff p \<noteq> highpassCutoffHz s) then
        p\<lparr>localHpf := hpf h, localHpfConfigSampleRate := currentSampleRate s, localHpfConfigCutoff := highpassCutoffHz s\<rparr>
      else p)"

definition effective_gain :: "'n fw \<Rightarrow> pipeline \<Rightarrow> rat" where
  "effective_gain s p = (if agcEnabled s then fmul (currentGainFactor s) (localAgcMult p) else currentGainFactor s)"

text \<open>What the loop over the samples accumulates.\<close>

record block =
  bk_hpf :: biquad
  bk_clipped :: bool
  bk_peakAbs :: rat
  bk_sumSquares :: rat

definition clamp16 :: "rat \<Rightarrow> rat" where
  "clamp16 x = (let x = (if x > 32767 then 32767 else x) in if x < -32768 then -32768 else x)"

definition process_sample :: "'n fw \<Rightarrow> rat \<Rightarrow> 16 word \<Rightarrow> block \<Rightarrow> 16 word \<times> block" where
  "process_sample s gain c b =
     (let sample = f32 (of_int (drop_bit (unat (i2sShiftBits s)) (sint c)));
          (f, sample) = (if highpassEnabled s then biquad_process (bk_hpf b) sample else (bk_hpf b, sample));
          amplified = fmul sample gain;
          aabs = \<bar>amplified\<bar>;
          b = b\<lparr>bk_hpf := f, bk_peakAbs := (if aabs > bk_peakAbs b then aabs else bk_peakAbs b),
                bk_clipped := (if aabs > 32767 then True else bk_clipped b),
                bk_sumSquares := fadd (bk_sumSquares b) (fmul amplified amplified)\<rparr>
      in (word_of_int (to_int (clamp16 amplified)), b))"

fun process_samples :: "'n fw \<Rightarrow> rat \<Rightarrow> 16 word list \<Rightarrow> block \<Rightarrow> 16 word list \<times> block" where
  "process_samples s gain [] b = ([], b)"
| "process_samples s gain (c # cs) b =
     (let (o1, b) = process_sample s gain c b;
          (os, b) = process_samples s gain cs b
      in (o1 # os, b))"

definition agc_adjust :: "libm \<Rightarrow> rat \<Rightarrow> u16 \<Rightarrow> rat \<Rightarrow> rat" where
  "agc_adjust M sumSquares samplesRead mult =
     (let rms = fdiv (lm_sqrtf M (fdiv sumSquares (f32 (of_nat (unat samplesRead))))) 32767
      in if rms > f32 (1 / 1000) then
           let ratio = fdiv AGC_TARGET_RMS rms;
               mult = (if ratio < 1 then fadd mult (fmul (fmul (fsub ratio 1) AGC_ATTACK_RATE) mult)
                       else fadd mult (fmul (fmul (fsub ratio 1) AGC_RELEASE_RATE) mult));
               mult = (if mult < AGC_MIN_MULT then AGC_MIN_MULT else mult)
           in if mult > AGC_MAX_MULT then AGC_MAX_MULT else mult
         else mult)"

definition update_meters :: "u32 \<Rightarrow> block \<Rightarrow> meters \<Rightarrow> meters" where
  "update_meters now b m =
     (let peakAbs = (if bk_peakAbs b > 32767 then 32767 else bk_peakAbs b);
          m = m\<lparr>lastPeakAbs16 := word_of_int (to_int peakAbs), audioClippedLastBlock := bk_clipped b\<rparr>;
          m = (if bk_clipped b then m\<lparr>audioClipCount := audioClipCount m + 1\<rparr> else m)
      in if lastPeakAbs16 m > peakHoldAbs16 m then
           m\<lparr>peakHoldAbs16 := lastPeakAbs16 m, peakHoldUntilMs := now + 3000\<rparr>
         else if peakHoldAbs16 m > 0 \<and> now > peakHoldUntilMs m then m\<lparr>peakHoldAbs16 := 0\<rparr>
         else m)"

text \<open>
  One block: the samples that were read, to the samples that are sent. \<open>bytesRead\<close> is positive
  and the samples are at most \<open>currentBufferSize\<close>.
\<close>

definition process_block ::
  "libm \<Rightarrow> u32 \<Rightarrow> highpass \<Rightarrow> 16 word list \<Rightarrow> 'n fw \<times> pipeline \<times> meters \<Rightarrow>
     16 word list \<times> 'n fw \<times> pipeline \<times> meters" where
  "process_block M now h samples = (\<lambda>(s, p, m).
     let samplesRead = (of_nat (length samples) :: u16);
         p = update_local_hpf s h p;
         (out, b) = process_samples s (effective_gain s p) samples
           \<lparr>bk_hpf = localHpf p, bk_clipped = False, bk_peakAbs = 0, bk_sumSquares = 0\<rparr>;
         p = p\<lparr>localHpf := bk_hpf b\<rparr>;
         (s, p) = (if agcEnabled s \<and> samplesRead > 0 then
                     let p = p\<lparr>localAgcMult := agc_adjust M (bk_sumSquares b) samplesRead (localAgcMult p)\<rparr>
                     in (s\<lparr>agcMultiplier := localAgcMult p\<rparr>, p)
                   else (s, p))
     in (out, s, p, update_meters now b m))"

subsection \<open>The LED\<close>

text \<open>Red, green, blue; \<open>peakAbs\<close> is the one after the limit of the meters.\<close>

definition stream_led :: "u8 \<Rightarrow> bool \<Rightarrow> rat \<Rightarrow> nat \<times> nat \<times> nat" where
  "stream_led mode clipped peakAbs =
     (if mode = 2 then
        let pct = fdiv peakAbs 32767
        in if clipped then (255, 0, 0)
           else if pct > f32 (7 / 10) then (255, 165, 0)
           else if pct > f32 (3 / 10) then (0, 255, 0)
           else if pct > f32 (5 / 100) then (0, 64, 0)
           else (32, 0, 32)
      else if mode = 1 then (0, 128, 0)
      else (0, 0, 0))"

end
