(* ===== verification/Fw_Audio_Props.thy ===== *)
theory Fw_Audio_Props
  imports Fw_Audio
begin

text \<open>
  The audio task against a description by lists: what it sends, what it meters, how the automatic
  gain moves, and which filter it uses after a change of the settings.
\<close>

subsection \<open>Arithmetic\<close>

lemma f32_int:
  assumes "\<bar>k\<bar> < 2 ^ 22"
  shows "f32 (of_int k) = of_int k"
proof (rule f32_exact [of _ "2 * k"])
  show "\<bar>of_int k :: rat\<bar> < 2 ^ 22" using assms by (metis of_int_abs of_int_less_iff of_int_numeral of_int_power)
qed simp

lemma clamp16_cases: "clamp16 x = max (-32768) (min 32767 x)"
  by (auto simp: clamp16_def Let_def)

lemma to_int_range: "-32768 \<le> to_int (clamp16 x)" "to_int (clamp16 x) \<le> 32767"
  by (auto simp: to_int_def clamp16_cases le_ceiling_iff floor_le_iff ceiling_le_iff le_floor_iff max_def min_def)

lemma sint_word16: "-32768 \<le> k \<Longrightarrow> k \<le> 32767 \<Longrightarrow> sint (word_of_int k :: 16 word) = k"
  by (simp add: sint_sbintrunc' signed_take_bit_int_eq_self)

lemma sint16: "-32768 \<le> sint (c :: 16 word)" "sint (c :: 16 word) \<le> 32767"
  using sint_range_size [of c] by (simp_all add: word_size)

lemma to_int_of_int [simp]: "to_int (of_int k) = k"
  by (simp add: to_int_def)

subsection \<open>A block by lists\<close>

text \<open>The filter over a list, and the values before they are clipped.\<close>

fun filtered :: "biquad \<Rightarrow> rat list \<Rightarrow> rat list" where
  "filtered f [] = []"
| "filtered f (x # xs) = snd (biquad_process f x) # filtered (fst (biquad_process f x)) xs"

definition amplified :: "'n fw \<Rightarrow> rat \<Rightarrow> biquad \<Rightarrow> 16 word list \<Rightarrow> rat list" where
  "amplified s gain f cs =
     (let xs = map (\<lambda>c. f32 (of_int (drop_bit (unat (i2sShiftBits s)) (sint c)))) cs
      in map (\<lambda>x. fmul x gain) (if highpassEnabled s then filtered f xs else xs))"

lemma length_filtered [simp]: "length (filtered f xs) = length xs"
  by (induction f xs rule: filtered.induct) simp_all

lemma amplified_Cons:
  "amplified s gain f (c # cs) =
     (let x = f32 (of_int (drop_bit (unat (i2sShiftBits s)) (sint c)));
          (f', y) = (if highpassEnabled s then biquad_process f x else (f, x))
      in fmul y gain # amplified s gain f' cs)"
  by (simp add: amplified_def Let_def split_def)

lemma process_samples_lists:
  "fst (process_samples s gain cs b) = map (\<lambda>a. word_of_int (to_int (clamp16 a))) (amplified s gain (bk_hpf b) cs) \<and>
   (bk_clipped (snd (process_samples s gain cs b)) \<longleftrightarrow>
      bk_clipped b \<or> (\<exists>a \<in> set (amplified s gain (bk_hpf b) cs). 32767 < \<bar>a\<bar>)) \<and>
   bk_peakAbs (snd (process_samples s gain cs b)) = fold max (map abs (amplified s gain (bk_hpf b) cs)) (bk_peakAbs b) \<and>
   bk_sumSquares (snd (process_samples s gain cs b)) =
     fold (\<lambda>a sum. fadd sum (fmul a a)) (amplified s gain (bk_hpf b) cs) (bk_sumSquares b)"
proof (induction cs arbitrary: b)
  case (Cons c cs)
  define x where "x = f32 (of_int (drop_bit (unat (i2sShiftBits s)) (sint c)))"
  obtain f' y where fy: "(if highpassEnabled s then biquad_process (bk_hpf b) x else (bk_hpf b, x)) = (f', y)" by fastforce
  obtain w b' where p: "process_sample s gain c b = (w, b')" by fastforce
  have b': "w = word_of_int (to_int (clamp16 (fmul y gain)))" "bk_hpf b' = f'"
    "bk_clipped b' \<longleftrightarrow> 32767 < \<bar>fmul y gain\<bar> \<or> bk_clipped b" "bk_peakAbs b' = max \<bar>fmul y gain\<bar> (bk_peakAbs b)"
    "bk_sumSquares b' = fadd (bk_sumSquares b) (fmul (fmul y gain) (fmul y gain))"
    using p [unfolded process_sample_def Let_def x_def [symmetric] fy prod.case] by (auto simp: max_def split: if_splits)
  have a: "amplified s gain (bk_hpf b) (c # cs) = fmul y gain # amplified s gain f' cs"
    by (simp add: amplified_Cons x_def [symmetric] fy)
  show ?case
    using Cons.IH [of b'] b' unfolding a by (auto simp: p Let_def split_def)
qed (simp add: amplified_def)


lemma process_block_lists:
  fixes s :: "'n fw"
  assumes "process_block M now h samples (s, p, m) = (out, s', p', m')"
  defines "q \<equiv> update_local_hpf s h p"
  defines "as \<equiv> amplified s (effective_gain s q) (localHpf q) samples"
  shows "out = map (\<lambda>a. word_of_int (to_int (clamp16 a))) as"
    "audioClippedLastBlock m' \<longleftrightarrow> (\<exists>a \<in> set as. 32767 < \<bar>a\<bar>)"
    "audioClipCount m' = audioClipCount m + (if audioClippedLastBlock m' then 1 else 0)"
    "lastPeakAbs16 m' = word_of_int (to_int (min 32767 (fold max (map abs as) 0)))"
    "localAgcMult p' = (if agcEnabled s \<and> (of_nat (length samples) :: u16) > 0
       then agc_adjust M (fold (\<lambda>a sum. fadd sum (fmul a a)) as 0) (of_nat (length samples)) (localAgcMult p) else localAgcMult p)"
    "agcMultiplier s' = (if agcEnabled s \<and> (of_nat (length samples) :: u16) > 0 then localAgcMult p' else agcMultiplier s)"
proof -
  let ?b = "\<lparr>bk_hpf = localHpf q, bk_clipped = False, bk_peakAbs = 0, bk_sumSquares = 0\<rparr>"
  obtain os b where r: "process_samples s (effective_gain s q) samples ?b = (os, b)" by fastforce
  have b: "os = map (\<lambda>a. word_of_int (to_int (clamp16 a))) as" "bk_clipped b \<longleftrightarrow> (\<exists>a \<in> set as. 32767 < \<bar>a\<bar>)"
    "bk_peakAbs b = fold max (map abs as) 0" "bk_sumSquares b = fold (\<lambda>a sum. fadd sum (fmul a a)) as 0"
    using process_samples_lists [of s "effective_gain s q" samples ?b] by (simp_all add: r as_def)
  have q: "localAgcMult q = localAgcMult p" by (simp add: q_def update_local_hpf_def)
  have o: "out = os" and m': "m' = update_meters now b m"
    and p': "localAgcMult p' = (if agcEnabled s \<and> (of_nat (length samples) :: u16) > 0
       then agc_adjust M (bk_sumSquares b) (of_nat (length samples)) (localAgcMult q) else localAgcMult q)"
    and s': "agcMultiplier s' = (if agcEnabled s \<and> (of_nat (length samples) :: u16) > 0 then localAgcMult p' else agcMultiplier s)"
    using assms(1) by (auto simp: process_block_def Let_def q_def [symmetric] r split: if_splits)
  have peak: "(if bk_peakAbs b > 32767 then 32767 else bk_peakAbs b) = min 32767 (bk_peakAbs b)" by (simp add: min_def)
  show "out = map (\<lambda>a. word_of_int (to_int (clamp16 a))) as" using o b by simp
  show "audioClippedLastBlock m' \<longleftrightarrow> (\<exists>a \<in> set as. 32767 < \<bar>a\<bar>)"
    unfolding m' update_meters_def Let_def b(2) [symmetric] by simp
  show "audioClipCount m' = audioClipCount m + (if audioClippedLastBlock m' then 1 else 0)"
    unfolding m' update_meters_def Let_def by simp
  show "lastPeakAbs16 m' = word_of_int (to_int (min 32767 (fold max (map abs as) 0)))"
    unfolding m' update_meters_def Let_def peak b(3) [symmetric] by simp
  show "localAgcMult p' = (if agcEnabled s \<and> (of_nat (length samples) :: u16) > 0
       then agc_adjust M (fold (\<lambda>a sum. fadd sum (fmul a a)) as 0) (of_nat (length samples)) (localAgcMult p) else localAgcMult p)"
    using p' by (simp add: b(4) q)
  show "agcMultiplier s' = (if agcEnabled s \<and> (of_nat (length samples) :: u16) > 0 then localAgcMult p' else agcMultiplier s)"
    by (rule s')
qed

lemma fold_max_nonneg: "0 \<le> (x :: rat) \<Longrightarrow> 0 \<le> fold max xs x"
  by (induction xs arbitrary: x) (simp_all add: le_max_iff_disj)

lemma clamp16_int: "-32768 \<le> k \<Longrightarrow> k \<le> 32767 \<Longrightarrow> clamp16 (of_int k) = of_int k"
  by (simp add: clamp16_cases max_def min_def)

lemma plain_amplified:
  assumes "\<not> highpassEnabled s" "i2sShiftBits s = 0"
  shows "amplified s gain f cs = map (\<lambda>c. fmul (of_int (sint c)) gain) cs"
proof -
  have "f32 (of_int (sint c)) = of_int (sint c)" for c :: "16 word" using sint16 [of c] by (intro f32_int) simp
  then show ?thesis using assms by (simp add: amplified_def Let_def comp_def)
qed

text \<open>
  C30. A block of audio. What is sent is, sample by sample, the filtered and amplified value limited
  to 16 bits and cut to an integer: the conversion never wraps. The block counts as clipped exactly
  if a value was beyond full scale, and the peak is the largest magnitude, limited to full scale.
  With the filter and the automatic gain off and a gain of one the samples pass unchanged.
\<close>

theorem audio_block:
  fixes s :: "'n fw"
  assumes "process_block M now h samples (s, p, m) = (out, s', p', m')"
  defines "q \<equiv> update_local_hpf s h p"
  defines "as \<equiv> amplified s (effective_gain s q) (localHpf q) samples"
  shows "map sint out = map (\<lambda>a. to_int (max (-32768) (min 32767 a))) as \<and>
    (audioClippedLastBlock m' \<longleftrightarrow> (\<exists>a \<in> set as. 32767 < \<bar>a\<bar>)) \<and>
    audioClipCount m' = audioClipCount m + (if audioClippedLastBlock m' then 1 else 0) \<and>
    int (unat (lastPeakAbs16 m')) = \<lfloor>min 32767 (fold max (map abs as) 0)\<rfloor> \<and>
    (\<not> highpassEnabled s \<and> \<not> agcEnabled s \<and> i2sShiftBits s = 0 \<and> currentGainFactor s = 1 \<longrightarrow> out = samples)"
proof (intro conjI impI)
  note r = process_block_lists [OF assms(1), folded q_def, folded as_def]
  have "sint (word_of_int (to_int (clamp16 a)) :: 16 word) = to_int (clamp16 a)" for a
    using to_int_range by (rule sint_word16)
  then show "map sint out = map (\<lambda>a. to_int (max (-32768) (min 32767 a))) as"
    by (simp add: r(1) clamp16_cases)
  show "audioClippedLastBlock m' \<longleftrightarrow> (\<exists>a \<in> set as. 32767 < \<bar>a\<bar>)" by (rule r(2))
  show "audioClipCount m' = audioClipCount m + (if audioClippedLastBlock m' then 1 else 0)" by (rule r(3))
  define k where "k = \<lfloor>min 32767 (fold max (map abs as) (0 :: rat))\<rfloor>"
  have peak: "0 \<le> min 32767 (fold max (map abs as) (0 :: rat))" by (simp add: fold_max_nonneg)
  then have "to_int (min 32767 (fold max (map abs as) 0)) = k" by (simp add: to_int_def k_def)
  moreover have "0 \<le> k" "k \<le> 32767" using peak unfolding k_def by (simp_all add: floor_le_iff min_def)
  ultimately show "int (unat (lastPeakAbs16 m')) = \<lfloor>min 32767 (fold max (map abs as) 0)\<rfloor>"
    unfolding r(4) k_def [symmetric] by (simp add: uint_word_of_int)
next
  note r = process_block_lists [OF assms(1), folded q_def, folded as_def]
  assume off: "\<not> highpassEnabled s \<and> \<not> agcEnabled s \<and> i2sShiftBits s = 0 \<and> currentGainFactor s = 1"
  have f: "f32 (of_int (sint c)) = of_int (sint c)" for c :: "16 word" using sint16 [of c] by (intro f32_int) simp
  have "as = map (\<lambda>c. of_int (sint c)) samples"
    using off f by (simp add: as_def plain_amplified effective_gain_def fmul_def)
  moreover have "word_of_int (to_int (clamp16 (of_int (sint c)))) = c" for c :: "16 word"
    by (simp only: clamp16_int [OF sint16] to_int_of_int) simp
  ultimately show "out = samples" by (simp only: r(1) map_map comp_def list.map_ident)
qed

theorem audio_block_witness:
  "fst (process_block \<lparr>lm_cosf = id, lm_sinf = id, lm_sqrtf = id\<rparr> 0 highpass_initial [7, -5]
     ((fw_initial ())\<lparr>highpassEnabled := False, currentGainFactor := 1\<rparr>, pipeline_start highpass_initial,
      \<lparr>lastPeakAbs16 = 0, audioClipCount = 0, audioClippedLastBlock = False, peakHoldAbs16 = 0, peakHoldUntilMs = 0\<rparr>)) = [7, -5]"
proof -
  let ?M = "\<lparr>lm_cosf = id, lm_sinf = id, lm_sqrtf = id\<rparr> :: libm"
  let ?s = "(fw_initial ())\<lparr>highpassEnabled := False, currentGainFactor := 1\<rparr>"
  let ?m = "\<lparr>lastPeakAbs16 = 0, audioClipCount = 0, audioClippedLastBlock = False, peakHoldAbs16 = 0, peakHoldUntilMs = 0\<rparr>"
  obtain out s' p' m' where r: "process_block ?M 0 highpass_initial [7, -5] (?s, pipeline_start highpass_initial, ?m) = (out, s', p', m')"
    by (metis prod_cases4)
  have "out = [7, -5]" using audio_block [OF r] by (simp add: fw_initial_def)
  then show ?thesis by (simp add: r)
qed

subsection \<open>The automatic gain\<close>

definition agc_ok :: "rat \<Rightarrow> bool" where
  "agc_ok m \<longleftrightarrow> AGC_MIN_MULT \<le> m \<and> m \<le> AGC_MAX_MULT \<and> f32 m = m"

lemma f32_nonpos: "x \<le> 0 \<Longrightarrow> f32 x \<le> 0"
  using f32_mono [of x 0] by simp

lemma f32_nonneg: "0 \<le> x \<Longrightarrow> 0 \<le> f32 x"
  using f32_mono [of 0 x] by simp

lemma f32_10: "f32 10 = 10"
  using f32_int [of 10] by simp

lemma agc_limits: "0 < AGC_MIN_MULT" "AGC_MIN_MULT \<le> 1" "f32 AGC_MIN_MULT = AGC_MIN_MULT" "f32 AGC_MAX_MULT = AGC_MAX_MULT"
  "0 < AGC_ATTACK_RATE" "0 < AGC_RELEASE_RATE"
proof -
  have "f32 (1 / 10) - 1 / 10 \<le> 1 / 10 / 16777216" using abs_le_D1 [OF f32_error [of "1 / 10"]] by simp
  then show "AGC_MIN_MULT \<le> 1" unfolding AGC_MIN_MULT_def by linarith
qed (simp_all add: AGC_MIN_MULT_def AGC_MAX_MULT_def AGC_ATTACK_RATE_def AGC_RELEASE_RATE_def f32_pos f32_10)

lemma agc_move:
  assumes m: "0 < m" "f32 m = m" and r: "0 < rate"
  shows "ratio \<le> 1 \<Longrightarrow> fadd m (fmul (fmul (fsub ratio 1) rate) m) \<le> m"
    and "1 \<le> ratio \<Longrightarrow> m \<le> fadd m (fmul (fmul (fsub ratio 1) rate) m)"
proof -
  assume "ratio \<le> 1"
  then have "fsub ratio 1 \<le> 0" by (simp add: fsub_def f32_nonpos)
  then have "fmul (fsub ratio 1) rate \<le> 0" using r by (simp add: fmul_def f32_nonpos mult_nonpos_nonneg)
  then have "fmul (fmul (fsub ratio 1) rate) m \<le> 0" using m by (simp add: fmul_def [of _ m] f32_nonpos mult_nonpos_nonneg)
  then show "fadd m (fmul (fmul (fsub ratio 1) rate) m) \<le> m" using f32_mono [of "m + _" m] m by (simp add: fadd_def)
next
  assume "1 \<le> ratio"
  then have "0 \<le> fsub ratio 1" by (simp add: fsub_def f32_nonneg)
  then have "0 \<le> fmul (fsub ratio 1) rate" using r by (simp add: fmul_def f32_nonneg)
  then have "0 \<le> fmul (fmul (fsub ratio 1) rate) m" using m by (simp add: fmul_def [of _ m] f32_nonneg)
  then show "m \<le> fadd m (fmul (fmul (fsub ratio 1) rate) m)" using f32_mono [of m "m + _"] m by (simp add: fadd_def)
qed

definition agc_rms :: "libm \<Rightarrow> rat \<Rightarrow> u16 \<Rightarrow> rat" where
  "agc_rms M sq n = fdiv (lm_sqrtf M (fdiv sq (f32 (of_nat (unat n))))) 32767"

lemma agc_adjust_ok:
  assumes m: "agc_ok m"
  shows "agc_ok (agc_adjust M sq n m)"
    "agc_rms M sq n \<le> f32 (1 / 1000) \<Longrightarrow> agc_adjust M sq n m = m"
    "f32 (1 / 1000) < agc_rms M sq n \<Longrightarrow> agc_rms M sq n \<le> AGC_TARGET_RMS \<Longrightarrow> m \<le> agc_adjust M sq n m"
    "f32 (1 / 1000) < agc_rms M sq n \<Longrightarrow> AGC_TARGET_RMS \<le> agc_rms M sq n \<Longrightarrow> agc_adjust M sq n m \<le> m"
proof -
  let ?rms = "agc_rms M sq n"
  define ratio where "ratio = fdiv AGC_TARGET_RMS ?rms"
  define m' where "m' = (if ratio < 1 then fadd m (fmul (fmul (fsub ratio 1) AGC_ATTACK_RATE) m)
    else fadd m (fmul (fmul (fsub ratio 1) AGC_RELEASE_RATE) m))"
  define m'' where "m'' = (if m' < AGC_MIN_MULT then AGC_MIN_MULT else m')"
  have a: "agc_adjust M sq n m =
      (if ?rms > f32 (1 / 1000) then if m'' > AGC_MAX_MULT then AGC_MAX_MULT else m'' else m)"
    unfolding agc_adjust_def agc_rms_def [symmetric] Let_def ratio_def [symmetric] m'_def [symmetric] m''_def [symmetric]
    by (rule refl)
  have ok: "AGC_MIN_MULT \<le> m" "m \<le> AGC_MAX_MULT" "f32 m = m" "0 < m" using m agc_limits(1) by (simp_all add: agc_ok_def)
  have f: "f32 m'' = m''" by (simp add: m''_def m'_def agc_limits(3) fadd_def)
  have e: "AGC_MIN_MULT \<le> m''" by (simp add: m''_def)
  have "AGC_MIN_MULT \<le> AGC_MAX_MULT" using ok by simp
  then show "agc_ok (agc_adjust M sq n m)" using m f e by (simp add: a agc_ok_def agc_limits)
  show "?rms \<le> f32 (1 / 1000) \<Longrightarrow> agc_adjust M sq n m = m" by (simp add: a)
  have one: "f32 1 = (1 :: rat)" using f32_int [of 1] by simp
  assume loud: "f32 (1 / 1000) < ?rms"
  have "0 < ?rms" using loud f32_pos [of "1 / 1000"] by simp
  {
    assume "?rms \<le> AGC_TARGET_RMS"
    then have "1 \<le> AGC_TARGET_RMS / ?rms" using \<open>0 < ?rms\<close> by simp
    then have "1 \<le> ratio" using f32_mono [of 1] one by (simp add: ratio_def fdiv_def)
    then have "m \<le> m'" unfolding m'_def using agc_move(2) [OF ok(4,3) agc_limits(6)] by simp
    then show "m \<le> agc_adjust M sq n m" using ok loud by (auto simp: a m''_def)
  }
  {
    assume "AGC_TARGET_RMS \<le> ?rms"
    then have "AGC_TARGET_RMS / ?rms \<le> 1" using \<open>0 < ?rms\<close> by simp
    then have "ratio \<le> 1" using f32_mono [of _ 1] one by (simp add: ratio_def fdiv_def)
    then have "m' \<le> m" unfolding m'_def
      using agc_move(1) [OF ok(4,3) agc_limits(5)] agc_move(1) [OF ok(4,3) agc_limits(6)] by simp
    then show "agc_adjust M sq n m \<le> m" using ok loud by (auto simp: a m''_def)
  }
qed

text \<open>
  C31. The automatic gain. Whatever the samples and the square root are, the factor stays between a
  tenth and ten, and what the page shows is the factor that is used. A block that is louder than
  the target never raises it, one that is quieter never lowers it, and silence leaves it alone.
\<close>

theorem agc_bounds:
  fixes s :: "'n fw"
  assumes "process_block M now h samples (s, p, m) = (out, s', p', m')" and "agc_ok (localAgcMult p)"
  defines "q \<equiv> update_local_hpf s h p"
  defines "as \<equiv> amplified s (effective_gain s q) (localHpf q) samples"
  defines "rms \<equiv> agc_rms M (fold (\<lambda>a sq. fadd sq (fmul a a)) as 0) (of_nat (length samples))"
  shows "agc_ok (localAgcMult p') \<and> agc_ok (localAgcMult (pipeline_start h)) \<and>
    (agcEnabled s \<and> 0 < length samples \<and> length samples < 65536 \<longrightarrow> agcMultiplier s' = localAgcMult p' \<and>
      (rms \<le> f32 (1 / 1000) \<longrightarrow> localAgcMult p' = localAgcMult p) \<and>
      (f32 (1 / 1000) < rms \<and> rms \<le> AGC_TARGET_RMS \<longrightarrow> localAgcMult p \<le> localAgcMult p') \<and>
      (f32 (1 / 1000) < rms \<and> AGC_TARGET_RMS \<le> rms \<longrightarrow> localAgcMult p' \<le> localAgcMult p))"
proof -
  note r = process_block_lists(5,6) [OF assms(1), folded q_def, folded as_def]
  note ok = agc_adjust_ok [OF assms(2)]
  have one: "f32 1 = (1 :: rat)" using f32_int [of 1] by simp
  have "agc_ok (localAgcMult p')" using ok(1) assms(2) by (simp add: r(1))
  moreover have "agc_ok (localAgcMult (pipeline_start h))"
    using agc_limits(2) one by (simp add: agc_ok_def pipeline_start_def AGC_MAX_MULT_def)
  moreover have "(of_nat (length samples) :: u16) > 0" if "0 < length samples" "length samples < 65536"
  proof -
    have "unat (of_nat (length samples) :: u16) = length samples" using that by (simp add: unsigned_of_nat take_bit_nat_eq_self)
    then show ?thesis using that by (simp add: word_less_nat_alt)
  qed
  ultimately show ?thesis
    using ok(2-4) r unfolding rms_def by auto
qed

theorem agc_bounds_witness:
  "agc_ok (localAgcMult (fst (snd (snd (process_block \<lparr>lm_cosf = id, lm_sinf = id, lm_sqrtf = (\<lambda>x. 20000)\<rparr> 0 highpass_initial [20000, -20000]
     ((fw_initial ())\<lparr>highpassEnabled := False, agcEnabled := True\<rparr>, pipeline_start highpass_initial,
      \<lparr>lastPeakAbs16 = 0, audioClipCount = 0, audioClippedLastBlock = False, peakHoldAbs16 = 0, peakHoldUntilMs = 0\<rparr>))))))"
proof -
  let ?M = "\<lparr>lm_cosf = id, lm_sinf = id, lm_sqrtf = (\<lambda>x. 20000)\<rparr> :: libm"
  let ?s = "(fw_initial ())\<lparr>highpassEnabled := False, agcEnabled := True\<rparr>"
  let ?m = "\<lparr>lastPeakAbs16 = 0, audioClipCount = 0, audioClippedLastBlock = False, peakHoldAbs16 = 0, peakHoldUntilMs = 0\<rparr>"
  obtain out s' p' m' where r: "process_block ?M 0 highpass_initial [20000, -20000] (?s, pipeline_start highpass_initial, ?m) = (out, s', p', m')"
    by (metis prod_cases4)
  have "f32 1 = (1 :: rat)" using f32_int [of 1] by simp
  then have "agc_ok (localAgcMult (pipeline_start highpass_initial))"
    using agc_limits(2) by (simp add: agc_ok_def pipeline_start_def AGC_MAX_MULT_def)
  then have "agc_ok (localAgcMult p')" using agc_bounds [OF r] by simp
  then show ?thesis by (simp add: r)
qed

subsection \<open>The filter\<close>


definition transparent :: "biquad \<Rightarrow> bool" where
  "transparent f \<longleftrightarrow> bq_b0 f = 1 \<and> bq_b1 f = 0 \<and> bq_b2 f = 0 \<and> bq_a1 f = 0 \<and> bq_a2 f = 0"






text \<open>A filter that was not computed gives the samples back.\<close>

lemma transparent_process:
  assumes "transparent f" and "f32 x = x"
  shows "snd (biquad_process f x) = x" "transparent (fst (biquad_process f x))"
  using assms by (simp_all add: biquad_process_def Let_def transparent_def float_ops)

lemma transparent_filtered:
  assumes "transparent f" and "\<And>x. x \<in> set xs \<Longrightarrow> f32 x = x"
  shows "filtered f xs = xs"
  using assms
proof (induction xs arbitrary: f)
  case (Cons x xs)
  have "f32 x = x" using Cons.prems by simp
  then show ?case using transparent_process [OF Cons.prems(1)] Cons.IH Cons.prems(2) by simp
qed simp

lemma transparent_samples:
  "transparent (bk_hpf b) \<Longrightarrow> transparent (bk_hpf (snd (process_samples s gain cs b)))"
proof (induction cs arbitrary: b)
  case (Cons c cs)
  have "transparent (bk_hpf (snd (process_sample s gain c b)))"
    using Cons.prems by (simp add: process_sample_def Let_def split_def transparent_process)
  then show ?case using Cons.IH by (simp add: Let_def split_def)
qed simp

text \<open>The task's filter changes nothing, and the task sees no reason to take another one.\<close>

definition stale :: "'n fw \<Rightarrow> pipeline \<Rightarrow> bool" where
  "stale s p \<longleftrightarrow> transparent (localHpf p) \<and>
     localHpfConfigSampleRate p = currentSampleRate s \<and> localHpfConfigCutoff p = highpassCutoffHz s"

lemma stale_update: "stale s p \<Longrightarrow> update_local_hpf s h p = p"
  by (simp add: stale_def update_local_hpf_def)

lemma stale_block:
  assumes "stale s p" and "process_block M now h samples (s, p, m) = (out, s', p', m')"
  shows "stale s' p'" "out = map (\<lambda>a. word_of_int (to_int (clamp16 a)))
    (amplified (s\<lparr>highpassEnabled := False\<rparr>) (effective_gain s p) (localHpf p) samples)"
proof -
  note u = stale_update [OF assms(1), of h]
  obtain os b where r: "process_samples s (effective_gain s p) samples
      \<lparr>bk_hpf = localHpf p, bk_clipped = False, bk_peakAbs = 0, bk_sumSquares = 0\<rparr> = (os, b)" by fastforce
  have "transparent (bk_hpf b)"
    using transparent_samples [of "\<lparr>bk_hpf = localHpf p, bk_clipped = False, bk_peakAbs = 0, bk_sumSquares = 0\<rparr>"
        s "effective_gain s p" samples] assms(1) by (simp add: r stale_def)
  moreover have "localHpf p' = bk_hpf b" "localHpfConfigSampleRate p' = localHpfConfigSampleRate p"
    "localHpfConfigCutoff p' = localHpfConfigCutoff p" "currentSampleRate s' = currentSampleRate s"
    "highpassCutoffHz s' = highpassCutoffHz s"
    using assms(2) by (auto simp: process_block_def Let_def u r split: if_splits)
  ultimately show "stale s' p'" using assms(1) by (simp add: stale_def)
  let ?xs = "map (\<lambda>c. f32 (of_int (drop_bit (unat (i2sShiftBits s)) (sint c)))) samples"
  have "filtered (localHpf p) ?xs = ?xs"
    using assms(1) by (intro transparent_filtered) (auto simp: stale_def)
  then have "amplified s g (localHpf p) samples = amplified (s\<lparr>highpassEnabled := False\<rparr>) g (localHpf p) samples" for g
    by (simp add: amplified_def Let_def)
  then show "out = map (\<lambda>a. word_of_int (to_int (clamp16 a)))
      (amplified (s\<lparr>highpassEnabled := False\<rparr>) (effective_gain s p) (localHpf p) samples)"
    using process_block_lists(1) [OF assms(2)] by (simp add: u)
qed

text \<open>
  Switching the filter on. If the audio task was started while the filter was off, and no
  filter had been computed, then switching the filter on computes it for the main loop, but the task
  finds that neither rate nor corner differs from the copy it made at its start. It goes on, block
  after block until one of the two changes, with a filter that changes nothing: it sends what it
  would send with the filter off.
\<close>

theorem highpass_switched_on:
  fixes s :: "'n fw"
  assumes "\<not> highpassEnabled s" and "on = s\<lparr>highpassEnabled := True\<rparr>"
    and "h = updateHighpassCoeffs M s highpass_initial"
    and "process_block M now h' samples (t, p, m) = (out, t', p', m')"
  shows "stale on (pipeline_start h) \<and>
    (stale t p \<longrightarrow> update_local_hpf t h' p = p \<and> stale t' p' \<and>
      out = fst (process_block M now h' samples (t\<lparr>highpassEnabled := False\<rparr>, p, m)))"
proof (intro conjI impI)
  have "hpf h = biquad_initial" "hpfConfigSampleRate h = currentSampleRate s" "hpfConfigCutoff h = highpassCutoffHz s"
    using assms(1) by (simp_all add: assms(3) updateHighpassCoeffs_def highpass_initial_def biquad_reset_def biquad_initial_def)
  then show "stale on (pipeline_start h)"
    by (simp add: stale_def pipeline_start_def assms(2) transparent_def biquad_initial_def)
next
  assume st: "stale t p"
  then show "update_local_hpf t h' p = p" by (rule stale_update)
  show "stale t' p'" using stale_block(1) [OF st assms(4)] .
  let ?off = "t\<lparr>highpassEnabled := False\<rparr>"
  obtain o2 s2 p2 m2 where r2: "process_block M now h' samples (?off, p, m) = (o2, s2, p2, m2)" by (metis prod_cases4)
  have "stale ?off p" using st by (simp add: stale_def)
  from stale_block(2) [OF this r2] stale_block(2) [OF st assms(4)]
  show "out = fst (process_block M now h' samples (?off, p, m))" by (simp add: r2 effective_gain_def)
qed

text \<open>A microphone with an offset of a thousand, before and after the filter is switched on.\<close>

theorem highpass_switched_on_witness:
  "let M = \<lparr>lm_cosf = (\<lambda>x. 1), lm_sinf = (\<lambda>x. 0), lm_sqrtf = id\<rparr>;
       s = (fw_initial ())\<lparr>highpassEnabled := False, currentGainFactor := 1\<rparr>; on = s\<lparr>highpassEnabled := True\<rparr>;
       h = updateHighpassCoeffs M s highpass_initial;
       m = \<lparr>lastPeakAbs16 = 0, audioClipCount = 0, audioClippedLastBlock = False, peakHoldAbs16 = 0, peakHoldUntilMs = 0\<rparr>
   in fst (process_block M 0 (updateHighpassCoeffs M on h) [1000, 1000] (on, pipeline_start h, m)) =
      fst (process_block M 0 (updateHighpassCoeffs M on h) [1000, 1000] (s, pipeline_start h, m))"
proof -
  let ?M = "\<lparr>lm_cosf = (\<lambda>x. 1), lm_sinf = (\<lambda>x. 0), lm_sqrtf = id\<rparr> :: libm"
  let ?s = "(fw_initial ())\<lparr>highpassEnabled := False, currentGainFactor := 1\<rparr>"
  let ?on = "?s\<lparr>highpassEnabled := True\<rparr>"
  let ?h = "updateHighpassCoeffs ?M ?s highpass_initial"
  let ?m = "\<lparr>lastPeakAbs16 = 0, audioClipCount = 0, audioClippedLastBlock = False, peakHoldAbs16 = 0, peakHoldUntilMs = 0\<rparr>"
  obtain out t' p' m' where r: "process_block ?M 0 (updateHighpassCoeffs ?M ?on ?h) [1000, 1000] (?on, pipeline_start ?h, ?m) = (out, t', p', m')"
    by (metis prod_cases4)
  have "\<not> highpassEnabled ?s" by simp
  from highpass_switched_on [OF this refl refl r] have "out = fst (process_block ?M 0 (updateHighpassCoeffs ?M ?on ?h) [1000, 1000]
      (?on\<lparr>highpassEnabled := False\<rparr>, pipeline_start ?h, ?m))" by blast
  moreover have eq: "?on\<lparr>highpassEnabled := False\<rparr> = ?s" by simp
  ultimately show ?thesis unfolding eq by (simp only: Let_def r fst_conv)
qed


end
