(* ===== verification/Fw_Rtp.thy ===== *)
theory Fw_Rtp
  imports Prelude "HOL-Library.Sublist"
begin

text \<open>
  \<open>writeAll\<close> and \<open>sendRTPPacket\<close>: audio blocks as RTP packets, interleaved into the RTSP connection.
  What the socket accepts and what the clock shows are inputs. The wire is the list of the bytes
  that the socket has accepted.
\<close>

unbundle bit_operations_syntax

subsection \<open>Writing\<close>

text \<open>
  One call: the clock at its start, and for each turn of the loop the clock at the test of the
  timeout and what \<open>client.write\<close> returns. \<open>None\<close>: the answers are used up and the call still waits.
\<close>

record write_input =
  wi_start :: u32
  wi_answers :: "(u32 \<times> int) list"

definition WRITE_TIMEOUT_MS :: u32 where "WRITE_TIMEOUT_MS = 50"

fun write_loop :: "u32 \<Rightarrow> (u32 \<times> int) list \<Rightarrow> bytes \<Rightarrow> (bool \<times> bytes) option" where
  "write_loop start answers [] = Some (True, [])"
| "write_loop start [] (d # ds) = None"
| "write_loop start ((now, w) # answers) (d # ds) =
     (if now - start > WRITE_TIMEOUT_MS then Some (False, [])
      else if w \<le> 0 then Some (False, [])
      else map_option (apsnd (\<lambda>sent. take (nat w) (d # ds) @ sent)) (write_loop start answers (drop (nat w) (d # ds))))"

definition writeAll :: "write_input \<Rightarrow> bytes \<Rightarrow> (bool \<times> bytes) option" where
  "writeAll i data = write_loop (wi_start i) (wi_answers i) data"

subsection \<open>Packets\<close>

record rtp =
  rtpSequence :: u16
  rtpTimestamp :: u32
  rtpSSRC :: u32
  audioPacketsSent :: u32
  audioPacketsDropped :: u32
  consecutiveWriteFailures :: u32
  rtp_streaming :: bool
  rtp_wire :: bytes

definition MAX_WRITE_FAILURES :: u32 where "MAX_WRITE_FAILURES = 100"

definition payload_size :: "16 word list \<Rightarrow> u16" where
  "payload_size audio = word_of_int (int (length audio) * 2)"

definition interleaved_header :: "16 word list \<Rightarrow> bytes" where
  "interleaved_header audio =
     (let packetSize = 12 + payload_size audio
      in [0x24, 0x00, ucast (drop_bit 8 packetSize AND 0xFF), ucast (packetSize AND 0xFF)])"

definition rtp_header :: "rtp \<Rightarrow> bytes" where
  "rtp_header r =
     [0x80, 96,
      ucast (drop_bit 8 (rtpSequence r) AND 0xFF), ucast (rtpSequence r AND 0xFF),
      ucast (drop_bit 24 (rtpTimestamp r) AND 0xFF), ucast (drop_bit 16 (rtpTimestamp r) AND 0xFF),
      ucast (drop_bit 8 (rtpTimestamp r) AND 0xFF), ucast (rtpTimestamp r AND 0xFF),
      ucast (drop_bit 24 (rtpSSRC r) AND 0xFF), ucast (drop_bit 16 (rtpSSRC r) AND 0xFF),
      ucast (drop_bit 8 (rtpSSRC r) AND 0xFF), ucast (rtpSSRC r AND 0xFF)]"

text \<open>The bytes of a sample are swapped in memory, and the memory is little-endian.\<close>

definition swap16 :: "16 word \<Rightarrow> 16 word" where
  "swap16 s = push_bit 8 s OR drop_bit 8 s"

definition memory16 :: "16 word \<Rightarrow> bytes" where
  "memory16 s = [ucast s, ucast (drop_bit 8 s)]"

definition audio_payload :: "16 word list \<Rightarrow> bytes" where
  "audio_payload audio = take (unat (payload_size audio)) (concat (map (memory16 \<circ> swap16) audio))"

text \<open>The three writes, each only if the one before it succeeded; the bytes are those accepted.\<close>

definition write_packet :: "write_input \<times> write_input \<times> write_input \<Rightarrow> rtp \<Rightarrow> 16 word list \<Rightarrow> (bool \<times> bytes) option" where
  "write_packet = (\<lambda>(i1, i2, i3) r audio.
     (case writeAll i1 (interleaved_header audio) of
        None \<Rightarrow> None
      | Some (False, sent1) \<Rightarrow> Some (False, sent1)
      | Some (True, sent1) \<Rightarrow>
          (case writeAll i2 (rtp_header r) of
             None \<Rightarrow> None
           | Some (False, sent2) \<Rightarrow> Some (False, sent1 @ sent2)
           | Some (True, sent2) \<Rightarrow>
               map_option (apsnd (\<lambda>sent3. sent1 @ sent2 @ sent3)) (writeAll i3 (audio_payload audio)))))"

definition rtp_disconnect :: "rtp \<Rightarrow> rtp" where
  "rtp_disconnect r = r\<lparr>rtp_streaming := False\<rparr>"

definition sendRTPPacket ::
  "bool \<Rightarrow> write_input \<times> write_input \<times> write_input \<Rightarrow> 16 word list \<Rightarrow> rtp \<Rightarrow> rtp option" where
  "sendRTPPacket is_connected i audio r =
     (if \<not> is_connected then Some (rtp_disconnect r)
      else case write_packet i r audio of
             None \<Rightarrow> None
           | Some (success, sent) \<Rightarrow>
               let r = r\<lparr>rtp_wire := rtp_wire r @ sent\<rparr>
               in if success then
                    Some (r\<lparr>rtpSequence := rtpSequence r + 1,
                            rtpTimestamp := rtpTimestamp r + word_of_nat (length audio),
                            audioPacketsSent := audioPacketsSent r + 1,
                            consecutiveWriteFailures := 0\<rparr>)
                  else
                    let r = r\<lparr>audioPacketsDropped := audioPacketsDropped r + 1,
                              consecutiveWriteFailures := consecutiveWriteFailures r + 1\<rparr>
                    in if consecutiveWriteFailures r \<ge> MAX_WRITE_FAILURES then
                         Some (rtp_disconnect (r\<lparr>consecutiveWriteFailures := 0\<rparr>))
                       else Some r)"

text \<open>What PLAY sets before the stream starts.\<close>

definition rtp_play :: "rtp \<Rightarrow> rtp" where
  "rtp_play r = r\<lparr>rtpSequence := 0, rtpTimestamp := 0, audioPacketsSent := 0, audioPacketsDropped := 0, rtp_streaming := True\<rparr>"

subsection \<open>The receiver\<close>

text \<open>
  Reading the connection by RFC 2326: frames that start with a dollar sign, a channel and a length.
  The packets that are complete, up to the first place that is not the start of a frame.
\<close>

function frames :: "bytes \<Rightarrow> (u8 \<times> bytes) list" where
  "frames w =
     (case w of
        d # c # h # l # rest \<Rightarrow>
          let n = unat h * 256 + unat l
          in if d = 0x24 \<and> n \<le> length rest then (c, take n rest) # frames (drop n rest) else []
      | _ \<Rightarrow> [])"
  by pat_completeness auto
termination
  by (relation "measure length") (auto split: list.splits)

declare frames.simps [simp del]

record rtp_packet =
  pk_sequence :: nat
  pk_timestamp :: nat
  pk_ssrc :: nat
  pk_samples :: "16 word list"

definition be_val :: "bytes \<Rightarrow> nat" where
  "be_val bs = fold (\<lambda>b v. v * 256 + unat b) bs 0"

fun samples_of :: "bytes \<Rightarrow> 16 word list" where
  "samples_of (h # l # bs) = word_of_nat (unat h * 256 + unat l) # samples_of bs"
| "samples_of bs = []"

text \<open>RFC 3550, version 2, without extensions, payload type 96.\<close>

definition packet_of :: "bytes \<Rightarrow> rtp_packet option" where
  "packet_of bs =
     (if 12 \<le> length bs \<and> bs ! 0 = 0x80 \<and> bs ! 1 = 96 then
        Some \<lparr>pk_sequence = be_val (take 2 (drop 2 bs)), pk_timestamp = be_val (take 4 (drop 4 bs)),
              pk_ssrc = be_val (take 4 (drop 8 bs)), pk_samples = samples_of (drop 12 bs)\<rparr>
      else None)"

end
