(* ===== verification/Fw_Rtp_Props.thy ===== *)
theory Fw_Rtp_Props
  imports Fw_Rtp
begin

text \<open>
  What a receiver of the RTP packets sees: the writes end and accept a prefix, the packets that were
  written whole are read back in order, and what a packet cut in its middle does to the next one.
\<close>

unbundle bit_operations_syntax

subsection \<open>Writing\<close>

lemma write_loop_prefix:
  "write_loop start answers data = Some (ok, sent) \<Longrightarrow> prefix sent data \<and> (ok \<longleftrightarrow> sent = data)"
proof (induction start answers data arbitrary: sent rule: write_loop.induct)
  case (3 start now w answers d ds)
  show ?case
  proof (cases "now - start > WRITE_TIMEOUT_MS \<or> w \<le> 0")
    case True
    then show ?thesis using 3(2) by (auto split: if_splits)
  next
    case False
    then obtain sent' where s: "write_loop start answers (drop (nat w) (d # ds)) = Some (ok, sent')"
      "sent = take (nat w) (d # ds) @ sent'"
      using 3(2) by (auto split: if_splits)
    have ih: "prefix sent' (drop (nat w) (d # ds))" "ok \<longleftrightarrow> sent' = drop (nat w) (d # ds)"
      using 3(1) [OF _ _ s(1)] False by simp_all
    have "prefix sent (take (nat w) (d # ds) @ drop (nat w) (d # ds))"
      unfolding s(2) using ih(1) by (simp only: same_prefix_prefix)
    moreover have "ok \<longleftrightarrow> sent = take (nat w) (d # ds) @ drop (nat w) (d # ds)"
      unfolding s(2) using ih(2) by (simp only: same_append_eq)
    ultimately show ?thesis by (simp only: append_take_drop_id)
  qed
qed simp_all

lemma write_loop_ends:
  "length data \<le> length answers \<Longrightarrow> write_loop start answers data \<noteq> None"
proof (induction start answers data rule: write_loop.induct)
  case (3 start now w answers d ds)
  show ?case
  proof (cases "now - start > WRITE_TIMEOUT_MS \<or> w \<le> 0")
    case False
    then have "0 < nat w" by simp
    then have "length (drop (nat w) (d # ds)) \<le> length answers" using 3(2) by simp
    with 3(1) False have "write_loop start answers (drop (nat w) (d # ds)) \<noteq> None" by simp
    then show ?thesis using False by simp
  qed auto
qed simp_all

lemma write_loop_late: "now - start > WRITE_TIMEOUT_MS \<Longrightarrow> data \<noteq> [] \<Longrightarrow>
    write_loop start ((now, w) # answers) data = Some (False, [])"
  by (cases data) simp_all

text \<open>
  Writing. A call of \<open>writeAll\<close> ends after at most as many turns as there are bytes, for every
  turn that goes on has written one; it ends at the first look at the clock that finds more than
  fifty milliseconds gone, however the clock wraps. The socket has then accepted a prefix of the
  data, and the call reports success exactly if that is all of it.
\<close>

theorem writeAll_ends:
  assumes "length data \<le> length (wi_answers i)"
  shows "(\<exists>ok sent. writeAll i data = Some (ok, sent) \<and> prefix sent data \<and> (ok \<longleftrightarrow> sent = data)) \<and>
    (wi_answers i = (now, w) # answers \<and> 50 < now - wi_start i \<and> data \<noteq> [] \<longrightarrow> writeAll i data = Some (False, []))"
proof -
  obtain ok sent where "write_loop (wi_start i) (wi_answers i) data = Some (ok, sent)"
    using write_loop_ends [OF assms, of "wi_start i"] by auto
  then have "\<exists>ok sent. writeAll i data = Some (ok, sent) \<and> prefix sent data \<and> (ok \<longleftrightarrow> sent = data)"
    using write_loop_prefix unfolding writeAll_def by blast
  moreover have "writeAll i data = Some (False, [])"
    if "wi_answers i = (now, w) # answers \<and> 50 < now - wi_start i \<and> data \<noteq> []"
    using that by (simp add: writeAll_def write_loop_late WRITE_TIMEOUT_MS_def)
  ultimately show ?thesis by blast
qed

theorem writeAll_ends_witness:
  "\<exists>ok sent. writeAll \<lparr>wi_start = 0xFFFFFFF0, wi_answers = [(0xFFFFFFF8, 2), (0x10, 0), (0x40, 1)]\<rparr> [1, 2, 3] = Some (ok, sent) \<and>
    prefix sent [1, 2, 3] \<and> (ok \<longleftrightarrow> sent = [1, 2, 3])"
  using writeAll_ends [of "[1, 2, 3]" "\<lparr>wi_start = 0xFFFFFFF0, wi_answers = [(0xFFFFFFF8, 2), (0x10, 0), (0x40, 1)]\<rparr>"]
  by simp

subsection \<open>One packet\<close>

definition rtp_bytes :: "rtp \<Rightarrow> 16 word list \<Rightarrow> bytes" where
  "rtp_bytes r audio = interleaved_header audio @ rtp_header r @ audio_payload audio"

lemma write_packet_prefix:
  assumes "write_packet i r audio = Some (ok, sent)"
  shows "prefix sent (rtp_bytes r audio)" "ok \<longleftrightarrow> sent = rtp_bytes r audio"
proof -
  obtain i1 i2 i3 where i: "i = (i1, i2, i3)" by (cases i)
  note p = write_loop_prefix [folded writeAll_def]
  have wp: "prefix s d \<and> (b \<longleftrightarrow> s = d)" if "writeAll j d = Some (b, s)" for j b s d
    using that write_loop_prefix unfolding writeAll_def by blast
  show "prefix sent (rtp_bytes r audio)" "ok \<longleftrightarrow> sent = rtp_bytes r audio"
    using assms wp unfolding i write_packet_def rtp_bytes_def
    by (auto split: option.splits bool.splits dest!: wp simp: prefix_def)
qed

lemma unat_byte:
  fixes w :: "'a::len word"
  assumes "8 < LENGTH('a)"
  shows "unat (ucast (w AND 0xFF) :: u8) = unat w mod 256"
    "unat (ucast (drop_bit n w AND 0xFF) :: u8) = unat w div 2 ^ n mod 256"
proof -
  have "(2 :: nat) ^ 8 \<le> 2 ^ LENGTH('a)" using assms by (intro power_increasing) simp_all
  then have "take_bit LENGTH('a) (255 :: nat) = 255" by (intro take_bit_nat_eq_self) simp
  then have m: "unat (w AND 0xFF) = unat w mod 256" for w :: "'a word"
    using nat_and_mask [of "unat w" 8] assms by (simp add: unat_and)
  show "unat (ucast (w AND 0xFF) :: u8) = unat w mod 256"
    by (simp add: unat_ucast_mod m)
  show "unat (ucast (drop_bit n w AND 0xFF) :: u8) = unat w div 2 ^ n mod 256"
    by (simp add: unat_ucast_mod m unat_drop_bit)
qed


lemma unat_less_u16: "unat (w :: u16) < 65536"
  using unat_less_2p [of w] by simp

lemma unat_less_u32: "unat (w :: u32) < 4294967296"
  using unat_less_2p [of w] by simp

lemma bytes2: "n < 65536 \<Longrightarrow> n div 256 mod 256 * 256 + n mod 256 = (n :: nat)"
  by simp

lemma bytes4:
  assumes "n < 4294967296"
  shows "((n div 16777216 mod 256 * 256 + n div 65536 mod 256) * 256 + n div 256 mod 256) * 256 + n mod 256 = (n :: nat)"
proof -
  have "n div 16777216 mod 256 = n div 16777216" using assms by (simp add: div_less_iff_less_mult)
  moreover have "n div 16777216 * 256 + n div 65536 mod 256 = n div 65536" by (simp add: div_mult2_eq [of n 65536 256, simplified] mult.commute)
  moreover have "n div 65536 * 256 + n div 256 mod 256 = n div 256" by (simp add: div_mult2_eq [of n 256 256, simplified] mult.commute)
  moreover have "n div 256 * 256 + n mod 256 = n" by simp
  ultimately show ?thesis by (simp only:)
qed

lemma rtp_header_fields:
  "length (rtp_header r) = 12"
  "packet_of (rtp_header r @ bs) = Some \<lparr>pk_sequence = unat (rtpSequence r), pk_timestamp = unat (rtpTimestamp r),
     pk_ssrc = unat (rtpSSRC r), pk_samples = samples_of bs\<rparr>"
proof -
  show "length (rtp_header r) = 12" by (simp add: rtp_header_def)
  have t: "be_val [ucast (drop_bit 24 w AND 0xFF), ucast (drop_bit 16 w AND 0xFF), ucast (drop_bit 8 w AND 0xFF), ucast (w AND 0xFF)] = unat w"
    for w :: u32
  proof -
    have "unat w div 16777216 < 256" using unat_less_u32 [of w] by (simp add: div_less_iff_less_mult)
    then show ?thesis using bytes4 [OF unat_less_u32, of w] by (simp add: be_val_def unat_byte unat_drop_bit)
  qed
  have q: "be_val [ucast (drop_bit 8 w AND 0xFF), ucast (w AND 0xFF)] = unat w" for w :: u16
    using bytes2 [OF unat_less_u16, of w] by (simp add: be_val_def unat_byte unat_drop_bit)
  have p: "packet_of ([0x80, 96, s1, s2, t1, t2, t3, t4, c1, c2, c3, c4] @ bs) = Some \<lparr>pk_sequence = be_val [s1, s2],
      pk_timestamp = be_val [t1, t2, t3, t4], pk_ssrc = be_val [c1, c2, c3, c4], pk_samples = samples_of bs\<rparr>"
    for s1 s2 t1 t2 t3 t4 c1 c2 c3 c4
    by (simp add: packet_of_def)
  show "packet_of (rtp_header r @ bs) = Some \<lparr>pk_sequence = unat (rtpSequence r), pk_timestamp = unat (rtpTimestamp r),
     pk_ssrc = unat (rtpSSRC r), pk_samples = samples_of bs\<rparr>"
    unfolding rtp_header_def p t q by (rule refl)
qed

lemma sample_memory:
  "memory16 (swap16 s) = [ucast (drop_bit 8 s), ucast s]"
proof -
  have s: "unat s < 65536" by (rule unat_less_u16)
  have "unat (swap16 s) = (unat s * 256 mod 65536) OR (unat s div 256)"
    by (simp add: swap16_def unat_or unat_push_bit unat_drop_bit)
  also have "unat s * 256 mod 65536 = unat s mod 256 * 256" by (simp add: mult_mod_left [of "unat s" 256 256, simplified])
  also have "unat s mod 256 * 256 OR unat s div 256 = unat s div 256 + unat s mod 256 * 256"
    using nat_or_add [of "unat s div 256" 8 "unat s mod 256"] s by (simp add: or.commute div_less_iff_less_mult)
  finally have w: "unat (swap16 s) = unat s div 256 + unat s mod 256 * 256" .
  have "unat s div 256 < 256" using s by (simp add: div_less_iff_less_mult)
  then have "unat (swap16 s) mod 256 = unat s div 256" "unat (swap16 s) div 256 = unat s mod 256" by (simp_all add: w)
  then show ?thesis
    by (simp add: memory16_def word_unat_eq_iff unat_ucast_mod unat_drop_bit)
qed

lemma samples_of_memory: "samples_of (concat (map (memory16 \<circ> swap16) audio)) = audio"
proof (induction audio)
  case (Cons s audio)
  have "unat s div 256 < 256" using unat_less_u16 [of s] by (simp add: div_less_iff_less_mult)
  then have "unat s div 256 mod 256 * 256 + unat s mod 256 = unat s" by simp
  then have "word_of_nat (unat s div 256 mod 256 * 256 + unat s mod 256) = (word_of_nat (unat s) :: u16)" by (simp only:)
  then have "word_of_nat (unat s div 256 mod 256 * 256 + unat s mod 256) = s" by simp
  then show ?case using Cons by (simp add: sample_memory unat_ucast_mod unat_drop_bit)
qed simp

lemma length_memory: "length (concat (map (memory16 \<circ> swap16) audio)) = 2 * length audio"
  by (induction audio) (simp_all add: memory16_def)

text \<open>A block that fits into one frame.\<close>

definition fits :: "16 word list \<Rightarrow> bool" where
  "fits audio \<longleftrightarrow> length audio \<le> 32761"

lemma payload_fits:
  assumes "fits audio"
  shows "unat (payload_size audio) = 2 * length audio" "unat (12 + payload_size audio) = 12 + 2 * length audio"
    "audio_payload audio = concat (map (memory16 \<circ> swap16) audio)" "length (audio_payload audio) = 2 * length audio"
proof -
  have "payload_size audio = word_of_nat (2 * length audio)" by (simp add: payload_size_def mult.commute)
  then show n: "unat (payload_size audio) = 2 * length audio"
    using assms by (simp only: unsigned_of_nat) (simp add: fits_def take_bit_nat_eq_self)
  then show "unat (12 + payload_size audio) = 12 + 2 * length audio"
    using assms by (simp add: fits_def unat_add)
  show "audio_payload audio = concat (map (memory16 \<circ> swap16) audio)"
    by (simp only: audio_payload_def n length_memory [symmetric] take_all order_refl)
  then show "length (audio_payload audio) = 2 * length audio" by (simp only: length_memory)
qed

lemma frames_cons:
  assumes "fits audio"
  shows "frames (interleaved_header audio @ body @ rest) =
    (if length body = 12 + 2 * length audio then (0, body) # frames rest
     else if 12 + 2 * length audio \<le> length (body @ rest) then
       (0, take (12 + 2 * length audio) (body @ rest)) # frames (drop (12 + 2 * length audio) (body @ rest)) else [])"
proof -
  define p where "p = 12 + payload_size audio"
  have p: "unat p = 12 + 2 * length audio" using payload_fits(2) [OF assms] by (simp only: p_def)
  have n: "unat (ucast (drop_bit 8 p AND 0xFF) :: u8) * 256 + unat (ucast (p AND 0xFF) :: u8) = 12 + 2 * length audio"
    using bytes2 [OF unat_less_u16, of p] by (simp add: unat_byte p unat_drop_bit)
  have h: "interleaved_header audio = [0x24, 0, ucast (drop_bit 8 p AND 0xFF), ucast (p AND 0xFF)]"
    by (simp add: interleaved_header_def p_def Let_def)
  show ?thesis
    unfolding h append_Cons append_Nil frames.simps [of "_ # _"] list.case Let_def n by auto
qed

lemma frames_packet:
  assumes "fits audio"
  shows "frames (rtp_bytes r audio @ rest) = (0, rtp_header r @ audio_payload audio) # frames rest"
  using frames_cons [OF assms, of "rtp_header r @ audio_payload audio" rest] rtp_header_fields(1) payload_fits(4) [OF assms]
  by (simp add: rtp_bytes_def)

lemma packet_read:
  assumes "fits audio"
  shows "packet_of (rtp_header r @ audio_payload audio) = Some \<lparr>pk_sequence = unat (rtpSequence r),
    pk_timestamp = unat (rtpTimestamp r), pk_ssrc = unat (rtpSSRC r), pk_samples = audio\<rparr>"
  by (simp add: rtp_header_fields payload_fits(3) [OF assms] samples_of_memory)

subsection \<open>A stream\<close>

type_synonym send_item = "bool \<times> (write_input \<times> write_input \<times> write_input) \<times> 16 word list"

text \<open>The task sends block after block until the stream is over.\<close>

fun send_all :: "send_item list \<Rightarrow> rtp \<Rightarrow> rtp option" where
  "send_all [] r = Some r"
| "send_all ((c, i, audio) # items) r =
     (if \<not> rtp_streaming r then Some r else Option.bind (sendRTPPacket c i audio r) (send_all items))"

text \<open>The later whose packets were written whole, and that no packet was written in part.\<close>

fun sent_blocks :: "send_item list \<Rightarrow> rtp \<Rightarrow> 16 word list list" where
  "sent_blocks [] r = []"
| "sent_blocks ((c, i, audio) # items) r =
     (if \<not> rtp_streaming r then []
      else case sendRTPPacket c i audio r of
             None \<Rightarrow> []
           | Some r' \<Rightarrow> (if c \<and> map_option fst (write_packet i r audio) = Some True then [audio] else []) @ sent_blocks items r')"

fun uncut :: "send_item list \<Rightarrow> rtp \<Rightarrow> bool" where
  "uncut [] r \<longleftrightarrow> True"
| "uncut ((c, i, audio) # items) r \<longleftrightarrow>
     (case sendRTPPacket c i audio r of
        None \<Rightarrow> True
      | Some r' \<Rightarrow>
          (case write_packet i r audio of Some (False, sent) \<Rightarrow> sent = [] | _ \<Rightarrow> True) \<and> uncut items r')"

text \<open>The packets a receiver should read for some later.\<close>

fun numbered :: "nat \<Rightarrow> nat \<Rightarrow> nat \<Rightarrow> 16 word list list \<Rightarrow> rtp_packet list" where
  "numbered sequence timestamp ssrc [] = []"
| "numbered sequence timestamp ssrc (audio # later) =
     \<lparr>pk_sequence = sequence mod 65536, pk_timestamp = timestamp mod 4294967296, pk_ssrc = ssrc, pk_samples = audio\<rparr> #
     numbered (sequence + 1) (timestamp + length audio) ssrc later"

lemma numbered_mod:
  "numbered (sequence mod 65536) (timestamp mod 4294967296) ssrc later = numbered sequence timestamp ssrc later"
proof (induction later arbitrary: sequence timestamp)
  case (Cons audio later)
  have "numbered (sequence mod 65536 + 1) (timestamp mod 4294967296 + length audio) ssrc later =
      numbered (sequence + 1) (timestamp + length audio) ssrc later"
    using Cons [of "sequence mod 65536 + 1" "timestamp mod 4294967296 + length audio"]
      Cons [of "sequence + 1" "timestamp + length audio"] by (simp add: mod_add_left_eq mod_Suc_eq)
  then show ?case by simp
qed simp

lemma send_stream:
  assumes "send_all items r = Some r'" and "uncut items r" and "\<forall>(c, i, audio) \<in> set items. fits audio"
  shows "\<exists>W. rtp_wire r' = rtp_wire r @ W \<and>
    map (packet_of \<circ> snd) (frames W) =
      map Some (numbered (unat (rtpSequence r)) (unat (rtpTimestamp r)) (unat (rtpSSRC r)) (sent_blocks items r)) \<and>
    audioPacketsSent r' = audioPacketsSent r + of_nat (length (sent_blocks items r))"
  using assms
proof (induction items r rule: send_all.induct)
  case (1 r)
  then show ?case by (simp add: frames.simps)
next
  case (2 c i audio items r)
  show ?case
  proof (cases "rtp_streaming r \<and> c")
    case False
    have e: "frames [] = []" by (simp add: frames.simps)
    show ?thesis
    proof (cases "rtp_streaming r")
      case True
      then have "\<not> c" using False by simp
      then have s: "sendRTPPacket c i audio r = Some (rtp_disconnect r)" by (simp add: sendRTPPacket_def)
      then have "send_all items (rtp_disconnect r) = Some r'" using 2(2) True by simp
      moreover have "send_all items (rtp_disconnect r) = Some (rtp_disconnect r)" "sent_blocks items (rtp_disconnect r) = []"
        by (cases items; auto simp: rtp_disconnect_def)+
      ultimately have "r' = rtp_disconnect r" by simp
      then show ?thesis using True \<open>\<not> c\<close> s \<open>sent_blocks items (rtp_disconnect r) = []\<close> e
        by (intro exI [of _ "[]"]) (simp add: rtp_disconnect_def)
    qed (use 2(2) e in auto)
  next
    case True
    then have st: "rtp_streaming r" and c: "c" by simp_all
    obtain r1 where r1: "sendRTPPacket c i audio r = Some r1" "send_all items r1 = Some r'"
      using 2(2) st by (auto split: bind_splits)
    have rest: "uncut items r1" "\<forall>(c, i, audio) \<in> set items. fits audio" "fits audio" using 2(3,4) r1(1) by auto
    obtain ok sent where w: "write_packet i r audio = Some (ok, sent)"
      using r1(1) c by (auto simp: sendRTPPacket_def split: option.splits)
    from 2(1) [OF _ r1 rest(1,2)] obtain W where W: "rtp_wire r' = rtp_wire r1 @ W"
      "map (packet_of \<circ> snd) (frames W) =
        map Some (numbered (unat (rtpSequence r1)) (unat (rtpTimestamp r1)) (unat (rtpSSRC r1)) (sent_blocks items r1))"
      "audioPacketsSent r' = audioPacketsSent r1 + of_nat (length (sent_blocks items r1))" using st by blast
    show ?thesis
    proof (cases ok)
      case True
      then have "sent = rtp_bytes r audio" using write_packet_prefix(2) [OF w] by simp
      then have r1': "rtp_wire r1 = rtp_wire r @ rtp_bytes r audio" "rtpSequence r1 = rtpSequence r + 1"
        "rtpTimestamp r1 = rtpTimestamp r + word_of_nat (length audio)" "rtpSSRC r1 = rtpSSRC r"
        "audioPacketsSent r1 = audioPacketsSent r + 1"
        using r1(1) c w True by (auto simp: sendRTPPacket_def Let_def)
      have n: "numbered (unat (rtpSequence r + 1)) (unat (rtpTimestamp r + word_of_nat (length audio))) ssrc later =
          numbered (unat (rtpSequence r) + 1) (unat (rtpTimestamp r) + length audio) ssrc later" for ssrc later
        using numbered_mod [of "unat (rtpSequence r) + 1" "unat (rtpTimestamp r) + length audio" ssrc later]
        by (simp add: unat_add unsigned_of_nat take_bit_eq_mod mod_add_right_eq)
      have b: "sent_blocks ((c, i, audio) # items) r = audio # sent_blocks items r1"
        using st c True r1(1) w by simp
      have f: "frames (rtp_bytes r audio @ W) = (0, rtp_header r @ audio_payload audio) # frames W"
        by (rule frames_packet [OF rest(3)])
      show ?thesis
        using W unat_less_u16 [of "rtpSequence r"] unat_less_u32 [of "rtpTimestamp r"] unfolding b
        by (intro exI [of _ "rtp_bytes r audio @ W"]) (simp add: r1' f n packet_read [OF rest(3)] comp_def del: unsigned_of_nat)
    next
      case False
      then have "sent = []" using 2(3) w by (simp add: r1(1))
      then have "rtp_wire r1 = rtp_wire r" "rtpSequence r1 = rtpSequence r" "rtpTimestamp r1 = rtpTimestamp r"
        "rtpSSRC r1 = rtpSSRC r" "audioPacketsSent r1 = audioPacketsSent r"
        using r1(1) c w False by (auto simp: sendRTPPacket_def Let_def rtp_disconnect_def split: if_splits)
      moreover have "sent_blocks ((c, i, audio) # items) r = sent_blocks items r1" using st c False r1(1) w by simp
      ultimately show ?thesis using W by (intro exI [of _ W]) (simp add: comp_def)
    qed
  qed
qed

text \<open>
  The stream. If no packet was cut in its middle, then a receiver that reads the connection finds
  exactly the packets that were written whole, in order: channel and length right, version and type
  right, the samples as they were before the byte order was changed, the sequence numbers one apart
  and the timestamps as far apart as there were samples, both modulo their width. Packets that were
  dropped leave no gap in either, so a receiver cannot see them.
\<close>

theorem rtp_stream:
  assumes "send_all items r = Some r'" and "uncut items r" and "\<forall>(c, i, audio) \<in> set items. fits audio"
    and "rtp_wire r = []"
  shows "map (packet_of \<circ> snd) (frames (rtp_wire r')) =
      map Some (numbered (unat (rtpSequence r)) (unat (rtpTimestamp r)) (unat (rtpSSRC r)) (sent_blocks items r)) \<and>
    audioPacketsSent r' = audioPacketsSent r + of_nat (length (sent_blocks items r))"
  using send_stream [OF assms(1,2,3)] assms(4) by auto

text \<open>A socket that takes all it is given, and one that takes nothing.\<close>

definition takes :: "int \<Rightarrow> write_input" where
  "takes n = \<lparr>wi_start = 0, wi_answers = [(0, n)]\<rparr>"

definition toy_rtp :: rtp where
  "toy_rtp = \<lparr>rtpSequence = 65535, rtpTimestamp = 0, rtpSSRC = 7, audioPacketsSent = 0, audioPacketsDropped = 0,
     consecutiveWriteFailures = 0, rtp_streaming = True, rtp_wire = []\<rparr>"

definition toy_items :: "send_item list" where
  "toy_items = [(True, (takes 4, takes 12, takes 4), [1, 0xFFFE]), (True, (takes 0, takes 0, takes 0), [5, 6]),
     (True, (takes 4, takes 12, takes 4), [3, 4])]"

lemma toy_run:
  "send_all toy_items toy_rtp \<noteq> None" "uncut toy_items toy_rtp" "sent_blocks toy_items toy_rtp = [[1, 0xFFFE], [3, 4]]"
  by code_simp+

theorem rtp_stream_witness:
  "\<exists>r. send_all toy_items toy_rtp = Some r \<and> audioPacketsSent r = 2 \<and>
    map (packet_of \<circ> snd) (frames (rtp_wire r)) =
      [Some \<lparr>pk_sequence = 65535, pk_timestamp = 0, pk_ssrc = 7, pk_samples = [1, 0xFFFE]\<rparr>,
       Some \<lparr>pk_sequence = 0, pk_timestamp = 2, pk_ssrc = 7, pk_samples = [3, 4]\<rparr>]"
proof -
  obtain r where r: "send_all toy_items toy_rtp = Some r" using toy_run(1) by auto
  have "\<forall>(c, i, audio) \<in> set toy_items. fits audio" by (simp add: toy_items_def fits_def)
  then show ?thesis
    using rtp_stream [OF r toy_run(2)] r unfolding toy_run(3) by (simp add: toy_rtp_def)
qed

lemma cut_wire:
  "rtp_wire (the (send_all [(True, (takes 4, takes 12, \<lparr>wi_start = 0, wi_answers = [(0, 2), (60, 2)]\<rparr>), [1, 2]),
     (True, (takes 4, takes 12, takes 4), [3, 4]), (True, (takes 4, takes 12, takes 4), [5, 6])] toy_rtp)) =
   [0x24, 0, 0, 16, 128, 96, 255, 255, 0, 0, 0, 0, 0, 0, 0, 7, 0, 1,
    0x24, 0, 0, 16, 128, 96, 255, 255, 0, 0, 0, 0, 0, 0, 0, 7, 0, 3, 0, 4,
    0x24, 0, 0, 16, 128, 96, 0, 0, 0, 0, 0, 2, 0, 0, 0, 7, 0, 5, 0, 6]"
  by code_simp

text \<open>
  C33. A packet that is cut. When a write gives up in the middle of a packet, what is on the wire stays
  there and the next packet is written behind it. The receiver then takes the first bytes of that
  packet, its dollar sign and headers included, for the missing samples, and looks for the next frame
  in the middle of its samples; the sequence number is not counted on, so that the number of the cut
  packet comes twice. An example in which the receiver is left with one wrong packet out of three.
\<close>

theorem rtp_cut_packet:
  assumes "write_packet i r audio = Some (False, sent)" and "4 \<le> length sent" and "fits audio"
    and "length (rtp_bytes r audio) \<le> length (sent @ later)"
  defines "m \<equiv> length (rtp_bytes r audio) - length sent"
  shows "0 < m \<and> frames (sent @ later) = (0, drop 4 sent @ take m later) # frames (drop m later) \<and>
    map_option rtpSequence (sendRTPPacket True i audio r) = Some (rtpSequence r) \<and>
    (let cut = (takes 4, takes 12, \<lparr>wi_start = 0, wi_answers = [(0, 2), (60, 2)]\<rparr>); whole = (takes 4, takes 12, takes 4);
         w = rtp_wire (the (send_all [(True, cut, [1, 2]), (True, whole, [3, 4]), (True, whole, [5, 6])] toy_rtp))
     in map (packet_of \<circ> snd) (frames w) =
          [Some \<lparr>pk_sequence = 65535, pk_timestamp = 0, pk_ssrc = 7, pk_samples = [1, 0x2400]\<rparr>])"
proof (intro conjI)
  have p: "prefix sent (rtp_bytes r audio)" "sent \<noteq> rtp_bytes r audio" using write_packet_prefix [OF assms(1)] by simp_all
  then have less: "length sent < length (rtp_bytes r audio)"
    by (metis prefix_length_less prefix_order.le_neq_trans strict_prefixI')
  then show "0 < m" by (simp add: m_def)
  have len: "length (interleaved_header audio) = 4" "length (rtp_bytes r audio) = 16 + 2 * length audio"
    by (simp_all add: rtp_bytes_def interleaved_header_def Let_def rtp_header_fields payload_fits(4) [OF assms(3)])
  define body where "body = drop 4 sent"
  have s: "sent = interleaved_header audio @ body"
    using p(1) assms(2) len(1) unfolding body_def rtp_bytes_def prefix_def
    by (metis append_eq_append_conv_if append_take_drop_id)
  have b: "length body = length sent - 4" "length body < 12 + 2 * length audio" "m = 12 + 2 * length audio - length body"
    using less len assms(2) by (simp_all add: body_def m_def)
  have "12 + 2 * length audio \<le> length (body @ later)" using assms(2,4) len(2) by (simp add: body_def)
  then have "frames (sent @ later) = (0, take (12 + 2 * length audio) (body @ later)) # frames (drop (12 + 2 * length audio) (body @ later))"
    using frames_cons [OF assms(3), of body later] b(2) by (simp add: s)
  then show "frames (sent @ later) = (0, drop 4 sent @ take m later) # frames (drop m later)"
    using b by (simp add: body_def [symmetric])
  show "map_option rtpSequence (sendRTPPacket True i audio r) = Some (rtpSequence r)"
    by (simp add: sendRTPPacket_def assms(1) Let_def rtp_disconnect_def)
next
  show "let cut = (takes 4, takes 12, \<lparr>wi_start = 0, wi_answers = [(0, 2), (60, 2)]\<rparr>); whole = (takes 4, takes 12, takes 4);
         w = rtp_wire (the (send_all [(True, cut, [1, 2]), (True, whole, [3, 4]), (True, whole, [5, 6])] toy_rtp))
     in map (packet_of \<circ> snd) (frames w) =
          [Some \<lparr>pk_sequence = 65535, pk_timestamp = 0, pk_ssrc = 7, pk_samples = [1, 0x2400]\<rparr>]"
    unfolding Let_def cut_wire by (simp add: frames.simps packet_of_def be_val_def)
qed

theorem rtp_cut_packet_witness:
  "let cut = (takes 4, takes 12, \<lparr>wi_start = 0, wi_answers = [(0, 2), (60, 2)]\<rparr>);
       sent = interleaved_header [1, 2] @ rtp_header toy_rtp @ [0, 1]
   in write_packet cut toy_rtp [1, 2] = Some (False, sent) \<and>
      frames (sent @ [0x24, 0, 9, 9]) = [(0, rtp_header toy_rtp @ [0, 1, 0x24, 0])]"
proof -
  let ?cut = "(takes 4, takes 12, \<lparr>wi_start = 0, wi_answers = [(0, 2), (60, 2)]\<rparr>)"
  let ?sent = "interleaved_header [1, 2] @ rtp_header toy_rtp @ [0, 1]"
  have w: "write_packet ?cut toy_rtp [1, 2] = Some (False, ?sent)" by code_simp
  have f: "fits [1, 2]" by (simp add: fits_def)
  have l: "length (interleaved_header [1, 2]) = 4" by (simp add: interleaved_header_def Let_def)
  have m: "length (rtp_bytes toy_rtp [1, 2]) = 20"
    using payload_fits(4) [OF f] by (simp add: rtp_bytes_def l rtp_header_fields(1))
  have h: "drop 4 ?sent = rtp_header toy_rtp @ [0, 1]" by (simp add: l)
  have "frames [9, 9] = []" by (simp add: frames.simps)
  then show ?thesis
    using rtp_cut_packet [OF w _ f, of "[0x24, 0, 9, 9]"] w h
    by (simp add: Let_def m l rtp_header_fields(1))
qed

end
