(* ===== verification/Fw_Rtsp.thy ===== *)
theory Fw_Rtsp
  imports Fw_Base
begin

text \<open>
  The RTSP server: \<open>processRTSP\<close> with its parse buffer, \<open>handleRTSPCommand\<close>, and the commands that
  the audio task answers during a stream. A handler gives the new state and what it does, in order:
  the texts it sends, and where the stream is started or stopped.
\<close>

subsection \<open>Strings of C and of Arduino\<close>

text \<open>A C string ends at its first NUL. \<open>strstr\<close> and \<open>indexOf\<close>: the first place of a text.\<close>

definition c_str :: "string \<Rightarrow> string" where
  "c_str s = takeWhile (\<lambda>c. c \<noteq> CHR 0x00) s"

fun starts_with :: "string \<Rightarrow> string \<Rightarrow> bool" where
  "starts_with [] s = True"
| "starts_with (p # ps) [] = False"
| "starts_with (p # ps) (c # cs) = (p = c \<and> starts_with ps cs)"

fun find_text :: "string \<Rightarrow> string \<Rightarrow> nat option" where
  "find_text p [] = (if p = [] then Some 0 else None)"
| "find_text p (c # cs) = (if starts_with p (c # cs) then Some 0 else map_option Suc (find_text p cs))"

definition trim :: "string \<Rightarrow> string" where
  "trim s = rev (dropWhile is_space (rev (dropWhile is_space s)))"

abbreviation (input) "CRLF \<equiv> [CHR 0x0D, CHR 0x0A]"

subsection \<open>State\<close>

datatype rtsp_event = Send string | Start_stream | Stop_stream

record rtsp =
  rtspParseBuffer :: string
  rtspParseBufferPos :: int
  rtspSessionId :: string
  lastRTSPActivity :: u32
  lastRtspPlayMs :: u32
  rtspPlayCount :: u32

text \<open>What a request reads: the clock, the address, the rate, a random number, and the stream.\<close>

record rtsp_env =
  re_millis :: u32
  re_ip :: string
  re_rate :: u32
  re_random :: nat
  re_streaming :: bool

subsection \<open>Requests\<close>

definition cseq_of :: "string \<Rightarrow> string" where
  "cseq_of request =
     (case find_text ''CSeq: '' request of
        None \<Rightarrow> ''1''
      | Some cseqPos \<Rightarrow>
          let from = drop (cseqPos + 6) request
          in trim (case find_text [CHR 0x0D] (drop cseqPos request) of
                     None \<Rightarrow> from
                   | Some n \<Rightarrow> take (n - 6) from))"

definition ok_line :: string where "ok_line = ''RTSP/1.0 200 OK'' @ CRLF"

definition cseq_line :: "string \<Rightarrow> string" where "cseq_line cseq = ''CSeq: '' @ cseq @ CRLF"

definition sdp :: "rtsp_env \<Rightarrow> string" where
  "sdp e =
     (let rate = dec (unat (re_rate e))
      in ''v=0'' @ CRLF @
         ''o=- 0 0 IN IP4 '' @ re_ip e @ CRLF @
         ''s=ESP32 RTSP Mic ('' @ rate @ ''Hz, 16-bit PCM)'' @ CRLF @
         ''c=IN IP4 '' @ re_ip e @ CRLF @
         ''t=0 0'' @ CRLF @
         ''m=audio 0 RTP/AVP 96'' @ CRLF @
         ''a=rtpmap:96 L16/'' @ rate @ ''/1'' @ CRLF @
         ''a=control:track1'' @ CRLF)"

definition reply_options :: "string \<Rightarrow> string list" where
  "reply_options cseq =
     [ok_line, cseq_line cseq,
      ''Public: OPTIONS, DESCRIBE, SETUP, PLAY, TEARDOWN, GET_PARAMETER'' @ CRLF @ CRLF]"

definition reply_describe :: "rtsp_env \<Rightarrow> string \<Rightarrow> string list" where
  "reply_describe e cseq =
     [ok_line, cseq_line cseq, ''Content-Type: application/sdp'' @ CRLF,
      ''Content-Base: rtsp://'' @ re_ip e @ '':8554/audio/'' @ CRLF,
      ''Content-Length: '' @ dec (length (sdp e)) @ CRLF @ CRLF, sdp e]"

definition reply_setup :: "string \<Rightarrow> string \<Rightarrow> string list" where
  "reply_setup session cseq =
     [ok_line, cseq_line cseq, ''Session: '' @ session @ '';timeout=86400'' @ CRLF,
      ''Transport: RTP/AVP/TCP;unicast;interleaved=0-1'' @ CRLF @ CRLF]"

definition reply_play :: "string \<Rightarrow> string \<Rightarrow> string list" where
  "reply_play session cseq =
     [ok_line, cseq_line cseq, ''Session: '' @ session @ CRLF, ''Range: npt=0.000-'' @ CRLF @ CRLF]"

definition reply_teardown :: "string \<Rightarrow> string \<Rightarrow> string list" where
  "reply_teardown session cseq = [ok_line, cseq_line cseq, ''Session: '' @ session @ CRLF @ CRLF]"

definition reply_plain :: "string \<Rightarrow> string list" where
  "reply_plain cseq = [ok_line, ''CSeq: '' @ cseq @ CRLF @ CRLF]"

definition handleRTSPCommand :: "rtsp_env \<Rightarrow> string \<Rightarrow> rtsp \<Rightarrow> rtsp \<times> rtsp_event list" where
  "handleRTSPCommand e request r =
     (let cseq = cseq_of request;
          r = r\<lparr>lastRTSPActivity := re_millis e\<rparr>
      in if starts_with ''OPTIONS'' request then (r, map Send (reply_options cseq))
         else if starts_with ''DESCRIBE'' request then (r, map Send (reply_describe e cseq))
         else if starts_with ''SETUP'' request then
           let r = r\<lparr>rtspSessionId := dec (re_random e)\<rparr>
           in (r, map Send (reply_setup (rtspSessionId r) cseq))
         else if starts_with ''PLAY'' request then
           (r\<lparr>lastRtspPlayMs := re_millis e, rtspPlayCount := rtspPlayCount r + 1\<rparr>,
            map Send (reply_play (rtspSessionId r) cseq) @ [Start_stream])
         else if starts_with ''TEARDOWN'' request then
           (r, (if re_streaming e then [Stop_stream] else []) @ map Send (reply_teardown (rtspSessionId r) cseq))
         else if starts_with ''GET_PARAMETER'' request then (r, map Send (reply_plain cseq))
         else (r, []))"

subsection \<open>The parse buffer\<close>

definition RTSP_BUFFER :: nat where "RTSP_BUFFER = 1024"

text \<open>Bytes copied into an array at an offset.\<close>

definition copy_at :: "string \<Rightarrow> nat \<Rightarrow> string \<Rightarrow> string" where
  "copy_at buf n data = take n buf @ data @ drop (n + length data) buf"

text \<open>
  The socket: what \<open>available\<close> returns at the two calls, and the bytes that \<open>read\<close> delivers; its
  result is not looked at.
\<close>

record net_input =
  ni_connected :: bool
  ni_waiting :: int
  ni_available :: int
  ni_read :: "int \<Rightarrow> string"

definition take_request :: "rtsp_env \<Rightarrow> rtsp \<Rightarrow> rtsp \<times> rtsp_event list" where
  "take_request e r =
     (case find_text (CRLF @ CRLF) (c_str (rtspParseBuffer r)) of
        None \<Rightarrow> (r, [])
      | Some endOfHeader \<Rightarrow>
          let r = r\<lparr>rtspParseBuffer := (rtspParseBuffer r)[endOfHeader := CHR 0x00]\<rparr>;
              request = c_str (rtspParseBuffer r);
              (r, events) = handleRTSPCommand e request r;
              headerLen = int endOfHeader + 4;
              remaining = rtspParseBufferPos r - headerLen;
              r = (if remaining > 0 then
                     r\<lparr>rtspParseBuffer := copy_at (rtspParseBuffer r) 0
                         (take (nat remaining) (drop (nat headerLen) (rtspParseBuffer r)))\<rparr>
                   else r)
          in (r\<lparr>rtspParseBufferPos := remaining\<rparr>, events))"

definition processRTSP :: "rtsp_env \<Rightarrow> net_input \<Rightarrow> rtsp \<Rightarrow> rtsp \<times> rtsp_event list" where
  "processRTSP e i r =
     (if \<not> ni_connected i then (r, [])
      else if ni_waiting i \<noteq> 0 then
        let spaceLeft = int RTSP_BUFFER - rtspParseBufferPos r - 1;
            available = (if ni_available i > spaceLeft then spaceLeft else ni_available i)
        in if available \<le> 0 then (r\<lparr>rtspParseBufferPos := 0\<rparr>, [])
           else
             let pos = rtspParseBufferPos r;
                 r = r\<lparr>rtspParseBuffer := copy_at (rtspParseBuffer r) (nat pos) (ni_read i available),
                       rtspParseBufferPos := pos + available\<rparr>;
                 r = r\<lparr>rtspParseBuffer := (rtspParseBuffer r)[nat (rtspParseBufferPos r) := CHR 0x00]\<rparr>
             in take_request e r
      else (r, []))"

subsection \<open>During the stream\<close>

text \<open>
  The audio task reads at most 511 bytes and looks for two commands anywhere in them; \<open>atoi\<close> of the
  number behind the first \<open>CSeq\<close>.
\<close>

definition stream_cseq :: "string \<Rightarrow> int" where
  "stream_cseq text = (case find_text ''CSeq: '' text of None \<Rightarrow> 1 | Some n \<Rightarrow> atol (drop (n + 6) text))"

definition decimal :: "int \<Rightarrow> string" where
  "decimal n = (if n < 0 then CHR ''-'' # dec (nat (- n)) else dec (nat n))"

definition stream_reply :: "string \<Rightarrow> string" where
  "stream_reply text = ok_line @ ''CSeq: '' @ decimal (stream_cseq text) @ CRLF @ CRLF"

definition stream_request :: "u32 \<Rightarrow> string \<Rightarrow> rtsp \<Rightarrow> rtsp \<times> rtsp_event list" where
  "stream_request now received r =
     (let text = c_str (take 511 received)
      in if find_text ''TEARDOWN'' text \<noteq> None then (r, [Send (stream_reply text), Stop_stream])
         else if find_text ''GET_PARAMETER'' text \<noteq> None then (r\<lparr>lastRTSPActivity := now\<rparr>, [Send (stream_reply text)])
         else (r, []))"

end
