(* ===== verification/Fw_Rtsp_Props.thy ===== *)
theory Fw_Rtsp_Props
  imports Fw_Rtsp "HOL-Library.Sublist"
begin

text \<open>
  The RTSP server: the parse buffer as a queue of text from which requests are taken, and what
  every request is answered.
\<close>

subsection \<open>Finding a text\<close>

lemma starts_with_prefix: "starts_with p s \<longleftrightarrow> prefix p s"
  by (induction p s rule: starts_with.induct) auto

lemma find_text_Some:
  "find_text p s = Some k \<Longrightarrow> k \<le> length s \<and> prefix p (drop k s)"
proof (induction p s arbitrary: k rule: find_text.induct)
  case (2 p c cs)
  then show ?case by (cases "starts_with p (c # cs)") (auto simp: starts_with_prefix)
qed (auto split: if_splits)

lemma find_text_length:
  assumes "find_text p s = Some k"
  shows "k + length p \<le> length s"
  using find_text_Some [OF assms] prefix_length_le [of p "drop k s"] by (simp, linarith)

lemma find_text_char: "c \<notin> set v \<Longrightarrow> find_text [c] (v @ c # s) = Some (length v)"
  by (induction v) (auto)

lemma c_str_append: "CHR 0x00 \<notin> set s \<Longrightarrow> c_str (s @ CHR 0x00 # t) = s"
  by (induction s) (auto simp: c_str_def)

subsection \<open>Requests\<close>

definition methods :: "string list" where
  "methods = [''OPTIONS'', ''DESCRIBE'', ''SETUP'', ''PLAY'', ''TEARDOWN'', ''GET_PARAMETER'']"

fun sent_text :: "rtsp_event list \<Rightarrow> string" where
  "sent_text [] = []"
| "sent_text (Send t # events) = t @ sent_text events"
| "sent_text (event # events) = sent_text events"

lemma sent_text_append [simp]: "sent_text (a @ b) = sent_text a @ sent_text b"
  by (induction a rule: sent_text.induct) simp_all

lemma sent_text_map [simp]: "sent_text (map Send ts) = concat ts"
  by (induction ts) simp_all

text \<open>What a request does depends on neither the parse buffer nor changes it.\<close>

lemma handle_frame:
  "snd (handleRTSPCommand e q (r\<lparr>rtspParseBuffer := b\<rparr>)) = snd (handleRTSPCommand e q r)"
  "snd (handleRTSPCommand e q (r\<lparr>rtspParseBufferPos := n\<rparr>)) = snd (handleRTSPCommand e q r)"
  "rtspSessionId (fst (handleRTSPCommand e q (r\<lparr>rtspParseBuffer := b\<rparr>))) = rtspSessionId (fst (handleRTSPCommand e q r))"
  "rtspSessionId (fst (handleRTSPCommand e q (r\<lparr>rtspParseBufferPos := n\<rparr>))) = rtspSessionId (fst (handleRTSPCommand e q r))"
  "rtspParseBuffer (fst (handleRTSPCommand e q r)) = rtspParseBuffer r"
  "rtspParseBufferPos (fst (handleRTSPCommand e q r)) = rtspParseBufferPos r"
  by (simp_all add: handleRTSPCommand_def Let_def)

text \<open>
  C38. Answers. A request with one of the six methods and a \<open>CSeq\<close> header gets an answer that starts
  with the status line and the same number; a request with another method gets none. PLAY hands the
  stream over only after its answer is sent, and TEARDOWN takes it back before it answers, so that
  an answer is never written while the audio task owns the socket.
\<close>

theorem rtsp_answers:
  assumes "find_text ''CSeq: '' request = Some (length pre)"
    and "request = pre @ ''CSeq: '' @ v @ CHR 0x0D # post" and "CHR 0x0D \<notin> set v"
  shows "(case find (\<lambda>m. starts_with m request) methods of
       None \<Rightarrow> snd (handleRTSPCommand e request r) = []
     | Some m \<Rightarrow>
         prefix (ok_line @ ''CSeq: '' @ trim v @ [CHR 0x0D, CHR 0x0A]) (sent_text (snd (handleRTSPCommand e request r))) \<and>
         (Start_stream \<in> set (snd (handleRTSPCommand e request r)) \<longleftrightarrow> m = ''PLAY'') \<and>
         (Start_stream \<in> set (snd (handleRTSPCommand e request r)) \<longrightarrow> last (snd (handleRTSPCommand e request r)) = Start_stream) \<and>
         (m = ''TEARDOWN'' \<and> re_streaming e \<longrightarrow> hd (snd (handleRTSPCommand e request r)) = Stop_stream))"
proof -
  have "find_text [CHR 0x0D] (drop (length pre) request) = Some (6 + length v)"
    using find_text_char [of "CHR 0x0D" "''CSeq: '' @ v" post] assms(2,3) by simp
  then have c: "cseq_of request = trim v"
    using assms(1,2) by (simp add: cseq_of_def Let_def)
  show ?thesis
    unfolding handleRTSPCommand_def c Let_def methods_def
    by (auto simp: reply_options_def reply_describe_def reply_setup_def reply_play_def reply_teardown_def reply_plain_def
        cseq_line_def)
qed

theorem rtsp_answers_witness:
  "snd (handleRTSPCommand \<lparr>re_millis = 0, re_ip = ''10.0.0.2'', re_rate = 16000, re_random = 123456789, re_streaming = False\<rparr>
      (''PLAY * RTSP/1.0'' @ [CHR 0x0D, CHR 0x0A] @ ''CSeq: 4'' @ [CHR 0x0D, CHR 0x0A])
      \<lparr>rtspParseBuffer = [], rtspParseBufferPos = 0, rtspSessionId = ''5'', lastRTSPActivity = 0, lastRtspPlayMs = 0, rtspPlayCount = 0\<rparr>)
    \<noteq> []"
proof -
  let ?e = "\<lparr>re_millis = 0, re_ip = ''10.0.0.2'', re_rate = 16000, re_random = 123456789, re_streaming = False\<rparr>"
  let ?q = "''PLAY * RTSP/1.0'' @ [CHR 0x0D, CHR 0x0A] @ ''CSeq: 4'' @ [CHR 0x0D, CHR 0x0A]"
  let ?r = "\<lparr>rtspParseBuffer = [], rtspParseBufferPos = 0, rtspSessionId = ''5'', lastRTSPActivity = 0, lastRtspPlayMs = 0, rtspPlayCount = 0\<rparr>"
  have "find_text ''CSeq: '' ?q = Some (length (''PLAY * RTSP/1.0'' @ [CHR 0x0D, CHR 0x0A]))"
    "find (\<lambda>m. starts_with m ?q) methods = Some ''PLAY''"
    by (simp_all add: methods_def)
  with rtsp_answers [of ?q "''PLAY * RTSP/1.0'' @ [CHR 0x0D, CHR 0x0A]" "''4''" "[CHR 0x0A]" ?e ?r]
  show ?thesis by auto
qed

subsection \<open>The parse buffer\<close>

definition rtsp_inv :: "rtsp \<Rightarrow> bool" where
  "rtsp_inv r \<longleftrightarrow> length (rtspParseBuffer r) = 1024 \<and> 0 \<le> rtspParseBufferPos r \<and> rtspParseBufferPos r < 1024"

definition content :: "rtsp \<Rightarrow> string" where
  "content r = take (nat (rtspParseBufferPos r)) (rtspParseBuffer r)"

lemma length_copy_at: "n + length data \<le> length buf \<Longrightarrow> length (copy_at buf n data) = length buf"
  by (simp add: copy_at_def)

lemma c_str_full:
  assumes "n < length buf" and "CHR 0x00 \<notin> set (take n buf)"
  shows "c_str (buf[n := CHR 0x00]) = take n buf"
  using c_str_append [OF assms(2), of "drop (Suc n) buf"] assms(1) by (simp add: upd_conv_take_nth_drop)

lemma c_str_shorter: "length (c_str s) \<le> length s"
  by (simp add: c_str_def length_takeWhile_le)

lemma length_takeWhile_le_nth: "n < length s \<Longrightarrow> \<not> P (s ! n) \<Longrightarrow> length (takeWhile P s) \<le> n"
  by (induction s arbitrary: n) (auto simp: nth_Cons split: nat.splits)

lemma c_str_nul: "n < length buf \<Longrightarrow> length (c_str (buf[n := CHR 0x00])) \<le> n"
  unfolding c_str_def by (rule length_takeWhile_le_nth) simp_all

lemma crlf_length: "find_text (CRLF @ CRLF) s = Some k \<Longrightarrow> k + 4 \<le> length s"
  using find_text_length [of "CRLF @ CRLF" s k] by simp


lemma take_request_inv:
  assumes inv: "rtsp_inv r" and nul: "length (c_str (rtspParseBuffer r)) \<le> nat (rtspParseBufferPos r)"
  shows "rtsp_inv (fst (take_request e r))"
proof (cases "find_text (CRLF @ CRLF) (c_str (rtspParseBuffer r))")
  case None
  then show ?thesis using inv unfolding take_request_def None by simp
next
  case (Some k)
  have k: "int k + 4 \<le> rtspParseBufferPos r" using crlf_length [OF Some] nul inv by (simp add: rtsp_inv_def)
  define b where "b = (rtspParseBuffer r)[k := CHR 0x00]"
  define h where "h = handleRTSPCommand e (c_str b) (r\<lparr>rtspParseBuffer := b\<rparr>)"
  have h: "rtspParseBuffer (fst h) = b" "rtspParseBufferPos (fst h) = rtspParseBufferPos r" by (simp_all add: h_def handle_frame)
  have b: "length b = 1024" using inv by (simp add: b_def rtsp_inv_def)
  have "length (copy_at b 0 (take x (drop y b))) = length b" for x y by (intro length_copy_at) simp
  then show ?thesis
    using k inv b unfolding take_request_def Some option.case Let_def
    by (simp add: b_def [symmetric] h_def [symmetric] split_def h rtsp_inv_def)
qed

lemma take_request_queue:
  assumes inv: "rtsp_inv r" and buf: "c_str (rtspParseBuffer r) = content r"
  shows "case find_text (CRLF @ CRLF) (content r) of
      None \<Rightarrow> content (fst (take_request e r)) = content r \<and> snd (take_request e r) = []
    | Some k \<Rightarrow> content (fst (take_request e r)) = drop (k + 4) (content r) \<and>
        snd (take_request e r) = snd (handleRTSPCommand e (take k (content r)) r) \<and>
        rtspSessionId (fst (take_request e r)) = rtspSessionId (fst (handleRTSPCommand e (take k (content r)) r))"
proof (cases "find_text (CRLF @ CRLF) (content r)")
  case None
  then show ?thesis unfolding take_request_def buf None by simp
next
  case (Some k)
  define B where "B = rtspParseBuffer r"
  define n where "n = nat (rtspParseBufferPos r)"
  have n: "n < 1024" "length B = 1024" "rtspParseBufferPos r = int n" "content r = take n B"
    using inv by (auto simp: rtsp_inv_def content_def B_def n_def nat_less_iff)
  have k: "k + 4 \<le> n" using crlf_length [OF Some] n by simp
  define b where "b = B[k := CHR 0x00]"
  have "CHR 0x00 \<notin> set (content r)" unfolding buf [symmetric] c_str_def by (auto dest: set_takeWhileD)
  then have "CHR 0x00 \<notin> set (take k B)" using n k by (metis in_set_takeD min.absorb1 take_take add_leD1)
  then have q: "c_str b = take k B" unfolding b_def using n k by (intro c_str_full) simp_all
  have tk: "take k (content r) = take k B" using n k by (simp add: min_def)
  define h where "h = handleRTSPCommand e (take k B) (r\<lparr>rtspParseBuffer := b\<rparr>)"
  have h: "rtspParseBuffer (fst h) = b" "rtspParseBufferPos (fst h) = int n" "snd h = snd (handleRTSPCommand e (take k B) r)"
    "rtspSessionId (fst h) = rtspSessionId (fst (handleRTSPCommand e (take k B) r))"
    by (simp_all add: h_def handle_frame n)
  have d: "take (n - (k + 4)) (drop (k + 4) b) = drop (k + 4) (take n B)"
    by (simp add: b_def drop_take drop_update_cancel)
  have r': "fst (take_request e r) = (let r = fst h in
      (if int n - (int k + 4) > 0 then r\<lparr>rtspParseBuffer := copy_at b 0 (take (nat (int n - (int k + 4))) (drop (nat (int k + 4)) b))\<rparr>
       else r)\<lparr>rtspParseBufferPos := int n - (int k + 4)\<rparr>)"
    and ev: "snd (take_request e r) = snd h"
    unfolding take_request_def buf Some option.case Let_def
    by (simp_all add: B_def [symmetric] b_def [symmetric] q h_def [symmetric] split_def h)
  have m: "nat (int n - (int k + 4)) = n - (k + 4)" "nat (int k + 4) = k + 4" by simp_all
  have "content (fst (take_request e r)) = take (n - (k + 4)) (drop (k + 4) b)"
  proof (cases "k + 4 < n")
    case True
    have "length (take (n - (k + 4)) (drop (k + 4) b)) = n - (k + 4)" using n True by (simp add: b_def)
    then show ?thesis using True by (simp add: r' Let_def content_def m copy_at_def h)
  next
    case False
    then have "n = k + 4" using k by simp
    then show ?thesis by (simp add: r' Let_def content_def)
  qed
  then have "content (fst (take_request e r)) = drop (k + 4) (content r)" by (simp only: d n(4))
  moreover have "rtspSessionId (fst (take_request e r)) = rtspSessionId (fst h)" by (simp add: r' Let_def)
  ultimately show ?thesis unfolding Some option.case ev tk h(3) [symmetric] h(4) [symmetric] by simp
qed

text \<open>The state after \<open>n\<close> characters were read, and what an arrival does to it.\<close>

definition after_read :: "net_input \<Rightarrow> int \<Rightarrow> rtsp \<Rightarrow> rtsp" where
  "after_read i n r =
     r\<lparr>rtspParseBufferPos := rtspParseBufferPos r + n,
       rtspParseBuffer := (copy_at (rtspParseBuffer r) (nat (rtspParseBufferPos r)) (ni_read i n))
         [nat (rtspParseBufferPos r + n) := CHR 0x00]\<rparr>"

lemma processRTSP_reads:
  assumes "ni_connected i" "ni_waiting i \<noteq> 0"
  shows "processRTSP e i r =
    (let n = min (ni_available i) (1023 - rtspParseBufferPos r)
     in if n \<le> 0 then (r\<lparr>rtspParseBufferPos := 0\<rparr>, []) else take_request e (after_read i n r))"
proof -
  have n: "(if ni_available i > int RTSP_BUFFER - rtspParseBufferPos r - 1 then int RTSP_BUFFER - rtspParseBufferPos r - 1 else ni_available i) =
      min (ni_available i) (1023 - rtspParseBufferPos r)"
    by (simp add: RTSP_BUFFER_def min_def)
  show ?thesis unfolding processRTSP_def Let_def n using assms by (simp add: after_read_def)
qed

lemma after_read_inv:
  assumes "rtsp_inv r" and "0 < n" "n \<le> 1023 - rtspParseBufferPos r" and "length (ni_read i n) \<le> nat n"
  shows "rtsp_inv (after_read i n r)"
    "length (c_str (rtspParseBuffer (after_read i n r))) \<le> nat (rtspParseBufferPos (after_read i n r))"
proof -
  define B where "B = copy_at (rtspParseBuffer r) (nat (rtspParseBufferPos r)) (ni_read i n)"
  have b: "length (rtspParseBuffer r) = 1024" "0 \<le> rtspParseBufferPos r" using assms(1) by (simp_all add: rtsp_inv_def)
  then have B: "length B = 1024" using assms(2-4) unfolding B_def by (subst length_copy_at) simp_all
  then show "rtsp_inv (after_read i n r)" using b assms(2,3) by (simp add: after_read_def rtsp_inv_def B_def)
  show "length (c_str (rtspParseBuffer (after_read i n r))) \<le> nat (rtspParseBufferPos (after_read i n r))"
    using c_str_nul [of "nat (rtspParseBufferPos r + n)" B] B b assms(2,3) by (simp add: after_read_def B_def)
qed

lemma processRTSP_inv:
  assumes "rtsp_inv r" and "\<forall>n. 0 \<le> n \<longrightarrow> length (ni_read i n) \<le> nat n"
  shows "rtsp_inv (fst (processRTSP e i r))"
proof (cases "ni_connected i \<and> ni_waiting i \<noteq> 0")
  case True
  define n where "n = min (ni_available i) (1023 - rtspParseBufferPos r)"
  have "rtsp_inv (fst (take_request e (after_read i n r)))" if "0 < n"
    using take_request_inv [OF after_read_inv [OF assms(1) that, of i]] assms(2) that by (simp add: n_def)
  then show ?thesis using processRTSP_reads [of i e r] True assms(1) by (auto simp: Let_def n_def [symmetric] rtsp_inv_def)
qed (use assms(1) in \<open>auto simp: processRTSP_def\<close>)

text \<open>
  C37. The parse buffer is a queue. Text that arrives is put behind what is there, as far as there is
  room below 1023 characters; then, if there is an empty line in it, the text up to the first one is
  taken out and answered as a request, and no more than one for each arrival. When there is no room
  at all, everything is thrown away. The buffer is never written out of its bounds, whatever arrives:
  also with NUL characters, or when less is read than was announced.
\<close>

theorem rtsp_queue:
  assumes inv: "rtsp_inv r" and up: "ni_connected i" "ni_waiting i \<noteq> 0" and pos: "0 < ni_available i"
    and rd: "\<forall>n. 0 \<le> n \<longrightarrow> length (ni_read i n) \<le> nat n"
  defines "n \<equiv> min (ni_available i) (1023 - rtspParseBufferPos r)"
  defines "T \<equiv> content r @ ni_read i n"
  shows "rtsp_inv (fst (processRTSP e i r)) \<and>
    (n \<le> 0 \<longrightarrow> content (fst (processRTSP e i r)) = [] \<and> snd (processRTSP e i r) = []) \<and>
    (0 < n \<and> length (ni_read i n) = nat n \<and> CHR 0x00 \<notin> set T \<longrightarrow>
      (case find_text [CHR 0x0D, CHR 0x0A, CHR 0x0D, CHR 0x0A] T of
         None \<Rightarrow> content (fst (processRTSP e i r)) = T \<and> snd (processRTSP e i r) = []
       | Some k \<Rightarrow> content (fst (processRTSP e i r)) = drop (k + 4) T \<and>
           snd (processRTSP e i r) = snd (handleRTSPCommand e (take k T) r) \<and>
           rtspSessionId (fst (processRTSP e i r)) = rtspSessionId (fst (handleRTSPCommand e (take k T) r))))"
proof -
  have b: "length (rtspParseBuffer r) = 1024" "0 \<le> rtspParseBufferPos r" "rtspParseBufferPos r < 1024"
    using inv by (simp_all add: rtsp_inv_def)
  note p = processRTSP_reads [OF up, of e r, folded n_def, unfolded Let_def]
  have inv': "rtsp_inv (fst (processRTSP e i r))" by (rule processRTSP_inv [OF inv rd])
  show ?thesis
  proof (cases "n \<le> 0")
    case True
    then show ?thesis using inv' unfolding p by (simp add: content_def)
  next
    case False
    define m where "m = nat (rtspParseBufferPos r)"
    define r1 where "r1 = after_read i n r"
    have mn: "m + nat n < 1024" "nat (rtspParseBufferPos r + n) = m + nat n"
      using b False by (simp_all add: n_def m_def)
    have i1: "rtsp_inv r1" using after_read_inv(1) [OF inv, of n i] rd False by (simp add: r1_def n_def)
    have "case find_text (CRLF @ CRLF) T of
         None \<Rightarrow> content (fst (take_request e r1)) = T \<and> snd (take_request e r1) = []
       | Some k \<Rightarrow> content (fst (take_request e r1)) = drop (k + 4) T \<and>
           snd (take_request e r1) = snd (handleRTSPCommand e (take k T) r) \<and>
           rtspSessionId (fst (take_request e r1)) = rtspSessionId (fst (handleRTSPCommand e (take k T) r))"
      if all: "length (ni_read i n) = nat n" "CHR 0x00 \<notin> set T"
    proof -
      define B where "B = copy_at (rtspParseBuffer r) m (ni_read i n)"
      have B: "length B = 1024" using b mn all(1) unfolding B_def by (subst length_copy_at) simp_all
      have r1: "rtspParseBuffer r1 = B[m + nat n := CHR 0x00]" "rtspParseBufferPos r1 = rtspParseBufferPos r + n"
        by (simp_all add: r1_def after_read_def B_def m_def [symmetric] mn)
      have t: "take (m + nat n) B = T"
        using all(1) b by (simp add: B_def copy_at_def T_def content_def m_def)
      have c: "content r1 = T" using t mn by (simp add: content_def r1)
      have "c_str (rtspParseBuffer r1) = take (m + nat n) B"
        using all(2) B mn by (simp add: r1 c_str_full t)
      then have s: "c_str (rtspParseBuffer r1) = content r1" by (simp only: c t)
      have h: "snd (handleRTSPCommand e q r1) = snd (handleRTSPCommand e q r)"
        "rtspSessionId (fst (handleRTSPCommand e q r1)) = rtspSessionId (fst (handleRTSPCommand e q r))" for q
        by (simp_all add: r1_def after_read_def handle_frame)
      show ?thesis using take_request_queue [OF i1 s, of e] unfolding c h .
    qed
    then show ?thesis using inv' False unfolding p r1_def [symmetric] by simp
  qed
qed

text \<open>
  Two requests in one arrival: the first is answered, the second stays until more text arrives.
\<close>

definition toy_env :: rtsp_env where
  "toy_env = \<lparr>re_millis = 0, re_ip = ''10.0.0.2'', re_rate = 16000, re_random = 123456789, re_streaming = False\<rparr>"

definition toy_rtsp :: rtsp where
  "toy_rtsp = \<lparr>rtspParseBuffer = replicate 1024 (CHR 0x00), rtspParseBufferPos = 0, rtspSessionId = [],
     lastRTSPActivity = 0, lastRtspPlayMs = 0, rtspPlayCount = 0\<rparr>"

definition two_requests :: string where
  "two_requests = ''OPTIONS *'' @ [CHR 0x0D, CHR 0x0A, CHR 0x0D, CHR 0x0A] @ ''PLAY *'' @ [CHR 0x0D, CHR 0x0A, CHR 0x0D, CHR 0x0A]"

theorem rtsp_queue_witness:
  "let i = \<lparr>ni_connected = True, ni_waiting = 23, ni_available = 23, ni_read = (\<lambda>n. take (nat n) two_requests)\<rparr>;
       r = fst (processRTSP toy_env i toy_rtsp)
   in rtsp_inv r \<and> content r = ''PLAY *'' @ [CHR 0x0D, CHR 0x0A, CHR 0x0D, CHR 0x0A] \<and>
      snd (processRTSP toy_env i toy_rtsp) = map Send (reply_options ''1'')"
proof -
  let ?i = "\<lparr>ni_connected = True, ni_waiting = 23, ni_available = 23, ni_read = (\<lambda>n. take (nat n) two_requests)\<rparr>"
  have "rtsp_inv toy_rtsp" "content toy_rtsp = []" by (simp_all add: rtsp_inv_def content_def toy_rtsp_def)
  moreover have "length two_requests = 23" "CHR 0x00 \<notin> set two_requests" by (simp_all add: two_requests_def)
  moreover have "find_text [CHR 0x0D, CHR 0x0A, CHR 0x0D, CHR 0x0A] two_requests = Some 9" by (simp add: two_requests_def)
  moreover have "drop 13 two_requests = ''PLAY *'' @ [CHR 0x0D, CHR 0x0A, CHR 0x0D, CHR 0x0A]" "take 9 two_requests = ''OPTIONS *''"
    by (simp_all add: two_requests_def)
  moreover have "snd (handleRTSPCommand toy_env ''OPTIONS *'' toy_rtsp) = map Send (reply_options ''1'')"
    by (simp add: handleRTSPCommand_def cseq_of_def)
  moreover have "rtspParseBufferPos toy_rtsp = 0" by (simp add: toy_rtsp_def)
  ultimately show ?thesis
    using rtsp_queue [of toy_rtsp ?i toy_env] by (simp add: Let_def)
qed

end
