(* ===== verification/Fw_Pages.thy ===== *)
theory Fw_Pages
  imports Fw_Web Fw_Audio Fw_Rtsp
begin

text \<open>
  The status pages of \<open>WebUI.cpp\<close>: the JSON that each of them answers, from the state of the
  firmware. \<open>String(x, n)\<close> of a real number and \<open>log10f\<close> are parameters.
\<close>

subsection \<open>Objects\<close>

text \<open>One field as it is appended: a text between quotes, or a bare value.\<close>

datatype json_field = Quoted string string | Bare string string

fun field_name :: "json_field \<Rightarrow> string" where
  "field_name (Quoted k v) = k"
| "field_name (Bare k v) = k"

definition quoted :: "string \<Rightarrow> string" where
  "quoted s = CHR 0x22 # s @ [CHR 0x22]"

fun field_text :: "json_field \<Rightarrow> string" where
  "field_text (Quoted k v) = quoted k @ CHR '':'' # quoted v"
| "field_text (Bare k v) = quoted k @ CHR '':'' # v"

fun join_fields :: "json_field list \<Rightarrow> string" where
  "join_fields [] = []"
| "join_fields [f] = field_text f"
| "join_fields (f # fs) = field_text f @ CHR '','' # join_fields fs"

definition json_object :: "json_field list \<Rightarrow> string" where
  "json_object fs = CHR ''{'' # join_fields fs @ ''}''"

definition json_bool :: "bool \<Rightarrow> string" where
  "json_bool b = (if b then ''true'' else ''false'')"

subsection \<open>Readings\<close>

text \<open>What the pages ask the system, and the counters of the connection.\<close>

record readings =
  pe_millis :: u32
  pe_ip :: string
  pe_rssi :: int
  pe_heap :: u32
  pe_cpu_mhz :: u32
  pe_client :: "string option"
  pe_streaming :: bool
  pe_lastRtspClientConnectMs :: u32
  pe_lastRtspPlayMs :: u32

definition FW_VERSION :: string where "FW_VERSION = ''2.4.0''"

subsection \<open>Pages\<close>

definition status_rate :: "readings \<Rightarrow> perf \<Rightarrow> u32" where
  "status_rate e p =
     (let runtime = pe_millis e - lastStatsReset p
      in if pe_streaming e \<and> runtime > 1000 then audioPacketsSent p * 1000 div runtime else 0)"

definition httpStatus :: "(rat \<Rightarrow> nat \<Rightarrow> string) \<Rightarrow> readings \<Rightarrow> 'n fw \<Rightarrow> perf \<Rightarrow> json_field list" where
  "httpStatus fmt e s p =
     (let uptimeSeconds = (pe_millis e - bootTime s) div 1000
      in [Quoted ''fw_version'' FW_VERSION,
          Quoted ''ip'' (pe_ip e),
          Bare ''wifi_rssi'' (decimal (pe_rssi e)),
          Bare ''wifi_tx_dbm'' (fmt (wifiPowerLevelToDbm (currentWifiPowerLevel s)) 1),
          Bare ''free_heap_kb'' (dec (unat (pe_heap e div 1024))),
          Bare ''min_free_heap_kb'' (dec (unat (minFreeHeap p div 1024))),
          Quoted ''uptime'' (formatUptime uptimeSeconds),
          Bare ''rtsp_server_enabled'' (json_bool (rtspServerEnabled s)),
          Quoted ''client'' (case pe_client e of Some ip \<Rightarrow> ip | None \<Rightarrow> []),
          Bare ''streaming'' (json_bool (pe_streaming e)),
          Bare ''current_rate_pkt_s'' (dec (unat (status_rate e p))),
          Quoted ''last_rtsp_connect'' (jsonEscape (formatSince (pe_millis e) (pe_lastRtspClientConnectMs e))),
          Quoted ''last_stream_start'' (jsonEscape (formatSince (pe_millis e) (pe_lastRtspPlayMs e)))])"

definition peak_shown :: "meters \<Rightarrow> u16" where
  "peak_shown m = (if peakHoldAbs16 m > 0 then peakHoldAbs16 m else lastPeakAbs16 m)"

definition peak_percent :: "meters \<Rightarrow> rat" where
  "peak_percent m =
     (let p = peak_shown m in if p \<le> 0 then 0 else fdiv (fmul 100 (of_nat (unat p))) 32767)"

definition peak_dbfs :: "(rat \<Rightarrow> rat) \<Rightarrow> meters \<Rightarrow> rat" where
  "peak_dbfs log10f m =
     (let p = peak_shown m in if p \<le> 0 then -90 else fmul 20 (log10f (fdiv (of_nat (unat p)) 32767)))"

definition httpAudioStatus ::
  "(rat \<Rightarrow> nat \<Rightarrow> string) \<Rightarrow> (rat \<Rightarrow> rat) \<Rightarrow> 'n fw \<Rightarrow> meters \<Rightarrow> json_field list" where
  "httpAudioStatus fmt log10f s m =
     (let latency_ms = fmul (fdiv (f32 (of_nat (unat (currentBufferSize s)))) (f32 (of_nat (unat (currentSampleRate s))))) 1000;
          effectiveGain = (if agcEnabled s then fmul (currentGainFactor s) (agcMultiplier s) else currentGainFactor s)
      in [Bare ''sample_rate'' (dec (unat (currentSampleRate s))),
          Bare ''gain'' (fmt (currentGainFactor s) 2),
          Bare ''buffer_size'' (dec (unat (currentBufferSize s))),
          Bare ''i2s_shift'' (dec (unat (i2sShiftBits s))),
          Bare ''latency_ms'' (fmt latency_ms 1),
          Quoted ''profile'' (jsonEscape (profileName (currentBufferSize s))),
          Bare ''hp_enable'' (json_bool (highpassEnabled s)),
          Bare ''hp_cutoff_hz'' (dec (unat (highpassCutoffHz s))),
          Bare ''agc_enable'' (json_bool (agcEnabled s)),
          Bare ''agc_multiplier'' (fmt (agcMultiplier s) 2),
          Bare ''effective_gain'' (fmt effectiveGain 2),
          Bare ''peak_pct'' (fmt (peak_percent m) 1),
          Bare ''peak_dbfs'' (fmt (peak_dbfs log10f m) 1),
          Bare ''clip'' (json_bool (audioClippedLastBlock m)),
          Bare ''clip_count'' (dec (unat (audioClipCount m))),
          Bare ''led_mode'' (dec (unat (ledMode s)))])"

definition httpPerfStatus :: "'n fw \<Rightarrow> json_field list" where
  "httpPerfStatus s =
     [Bare ''restart_threshold_pkt_s'' (dec (unat (minAcceptableRate s))),
      Bare ''check_interval_min'' (dec (unat (performanceCheckInterval s))),
      Bare ''auto_recovery'' (json_bool (autoRecoveryEnabled s)),
      Bare ''auto_threshold'' (json_bool (autoThresholdEnabled s)),
      Bare ''recommended_min_rate'' (dec (unat (computeRecommendedMinRate s))),
      Bare ''scheduled_reset'' (json_bool (scheduledResetEnabled s)),
      Bare ''reset_hours'' (dec (unat (resetIntervalHours s)))]"

definition manual_required :: "'n fw \<Rightarrow> bool" where
  "manual_required s \<longleftrightarrow>
     overheatLatched s \<or> (\<not> rtspServerEnabled s \<and> overheatProtectionEnabled s \<and> overheatTripTemp s > 0)"

definition httpThermal :: "(rat \<Rightarrow> nat \<Rightarrow> string) \<Rightarrow> readings \<Rightarrow> 'n fw \<Rightarrow> json_field list" where
  "httpThermal fmt e s =
     (let since = (if overheatTripTemp s > 0 \<and> overheatTriggeredAt s \<noteq> 0
                   then formatSince (pe_millis e) (overheatTriggeredAt s) else [])
      in [Bare ''current_c'' (if lastTemperatureValid s then fmt (lastTemperatureC s) 1 else ''null''),
          Bare ''current_valid'' (json_bool (lastTemperatureValid s)),
          Bare ''max_c'' (fmt (maxTemperature s) 1),
          Bare ''cpu_mhz'' (dec (unat (pe_cpu_mhz e))),
          Bare ''protection_enabled'' (json_bool (overheatProtectionEnabled s)),
          Bare ''shutdown_c'' (fmt (overheatShutdownC s) 0),
          Bare ''latched'' (json_bool (overheatLockoutActive s)),
          Bare ''latched_persist'' (json_bool (overheatLatched s)),
          Bare ''sensor_fault'' (json_bool (overheatSensorFault s)),
          Bare ''last_trip_c'' (fmt (overheatTripTemp s) 1),
          Quoted ''last_reason'' (jsonEscape (overheatLastReason s)),
          Quoted ''last_trip_ts'' (jsonEscape (overheatLastTimestamp s)),
          Quoted ''last_trip_since'' (jsonEscape since),
          Bare ''manual_restart'' (json_bool (manual_required s))])"

definition httpWgStatus :: "(rat \<Rightarrow> nat \<Rightarrow> string) \<Rightarrow> readings \<Rightarrow> 'n manager \<Rightarrow> json_field list" where
  "httpWgStatus fmt e m =
     (let lhMs = wg_lastHandshakeMs m;
          tip = wg_tunnelIp m
      in [Bare ''enabled'' (json_bool (wg_isEnabled m)),
          Quoted ''state'' (wg_stateStr (s_state m)),
          Quoted ''last_handshake''
            (if lhMs > 0 then formatUptime ((pe_millis e - lhMs) div 1000) @ '' ago'' else ''never''),
          Bare ''rx_bytes'' (dec (unat (wg_rxBytes m))),
          Bare ''tx_bytes'' (dec (unat (wg_txBytes m))),
          Quoted ''rx_pretty'' (fmtBytes fmt (wg_rxBytes m)),
          Quoted ''tx_pretty'' (fmtBytes fmt (wg_txBytes m)),
          Quoted ''tunnel_ip'' tip,
          Quoted ''tunnel_addr'' (wg_tunnelAddress m),
          Quoted ''endpoint'' (jsonEscape (wg_endpointStr m)),
          Bare ''keepalive'' (dec (unat (wg_keepalive m))),
          Quoted ''private_key'' (if length (wg_privateKey m) > 0 then ''********'' else []),
          Quoted ''server_public_key'' (jsonEscape (wg_serverPublicKey m)),
          Quoted ''lan_url'' (''rtsp://'' @ pe_ip e @ '':8554/''),
          Quoted ''wg_url'' (if length tip > 0 \<and> s_state m = WG_UP then ''rtsp://'' @ tip @ '':8554/'' else [])])"

text \<open>What is sent for a page.\<close>

definition apiSendJSON :: "json_field list \<Rightarrow> string" where
  "apiSendJSON fs = json_object fs"

end
