(* ===== verification/Fw_Pages_Props.thy ===== *)
theory Fw_Pages_Props
  imports Fw_Pages Fw_Web_Props
begin

text \<open>
  The status pages: they are JSON that reads back to what they show, and the private key of the
  tunnel leaves the device neither through them nor through the log.
\<close>

subsection \<open>Reading an object\<close>


definition is_bare :: "char \<Rightarrow> bool" where
  "is_bare c \<longleftrightarrow> is_digit c \<or> c \<in> set ''-+.abcdefghijklmnopqrstuvwxyz''"

definition bare_ok :: "string \<Rightarrow> bool" where
  "bare_ok v \<longleftrightarrow> v \<noteq> [] \<and> list_all is_bare v"







text \<open>A text that stands for itself between quotes, and what a field shows.\<close>

definition plain :: "string \<Rightarrow> bool" where
  "plain s \<longleftrightarrow> list_all (\<lambda>c. c \<noteq> CHR 0x22 \<and> c \<noteq> CHR 0x5C \<and> 32 \<le> (of_char c :: nat)) s"

definition scans_to :: "string \<Rightarrow> string \<Rightarrow> bool" where
  "scans_to raw t \<longleftrightarrow> (\<forall>rest. json_scan (raw @ CHR 0x22 # rest) = Some (t, rest))"

lemma plain_scan: "plain s \<Longrightarrow> scans_to s s"
  unfolding scans_to_def by (induction s) (simp_all add: plain_def)

definition printable :: "string \<Rightarrow> bool" where
  "printable s \<longleftrightarrow> list_all (\<lambda>c. 32 \<le> (of_char c :: nat) \<or> c = CHR 0x0A) s"

lemma escape_scan: "printable s \<Longrightarrow> scans_to (jsonEscape s) s"
  using json_escape_scan [of s] by (auto simp: scans_to_def printable_def list_all_iff not_le [symmetric])






subsection \<open>The texts of the pages\<close>

named_theorems page_texts

lemma plain_append [page_texts]: "plain (a @ b) \<longleftrightarrow> plain a \<and> plain b"
  by (simp add: plain_def)

lemma digit_plain: "is_digit c \<Longrightarrow> c \<noteq> CHR 0x22 \<and> c \<noteq> CHR 0x5C \<and> 32 \<le> (of_char c :: nat)"
  by (auto simp: is_digit_def)

lemma plain_dec [page_texts]: "plain (dec n)"
  using dec_digits [of n] unfolding plain_def by (simp add: list_all_iff digit_plain)

lemma bare_dec [page_texts]: "bare_ok (dec n)"
  using dec_digits [of n] by (simp add: bare_ok_def list_all_iff is_bare_def)

lemma bare_decimal [page_texts]: "bare_ok (decimal n)"
  using bare_dec [of "nat n"] bare_dec [of "nat (- n)"] by (simp add: decimal_def bare_ok_def is_bare_def)

lemma bare_bool [page_texts]: "bare_ok (json_bool b)"
  by (simp add: json_bool_def bare_ok_def is_bare_def)

lemma bare_plain: "bare_ok s \<Longrightarrow> plain s"
proof -
  have "c \<noteq> CHR 0x22 \<and> c \<noteq> CHR 0x5C \<and> 32 \<le> (of_char c :: nat)" if "is_bare c" for c
    using that digit_plain [of c] by (auto simp: is_bare_def)
  then show "bare_ok s \<Longrightarrow> plain s" by (simp add: bare_ok_def plain_def list_all_iff)
qed

lemma plain_printable: "plain s \<Longrightarrow> printable s"
  by (auto simp: plain_def printable_def list_all_iff)

lemma plain_uptime [page_texts]: "plain (formatUptime n)" "plain (formatSince now n)"
proof -
  show u: "plain (formatUptime n)" for n
    unfolding formatUptime_def Let_def by (auto simp: page_texts) (simp_all add: plain_def)
  show "plain (formatSince now n)"
    unfolding formatSince_def Let_def using u by (auto simp: page_texts) (simp_all add: plain_def)
qed

lemma plain_constants [page_texts]:
  "plain FW_VERSION" "plain (profileName n)" "plain (wg_stateStr w)"
  by (simp_all add: FW_VERSION_def profileName_def plain_def) (cases w; simp)

lemma plain_bytes [page_texts]: "\<forall>x n. bare_ok (fmt x n) \<Longrightarrow> plain (fmtBytes fmt b)"
  unfolding fmtBytes_def by (auto simp: page_texts bare_plain) (simp_all add: plain_def)

subsection \<open>The pages\<close>

definition scannable :: "string \<Rightarrow> bool" where
  "scannable raw \<longleftrightarrow> (\<exists>t. scans_to raw t)"








lemma plain_Cons [page_texts]:
  "plain []" "plain (c # s) \<longleftrightarrow> c \<noteq> CHR 0x22 \<and> c \<noteq> CHR 0x5C \<and> 32 \<le> (of_char c :: nat) \<and> plain s"
  by (simp_all add: plain_def)

lemma scannable_texts [page_texts]:
  "plain s \<Longrightarrow> scannable s" "printable s \<Longrightarrow> scannable (jsonEscape s)"
  "plain s \<Longrightarrow> scannable (jsonEscape s)"
  using plain_scan escape_scan plain_printable by (auto simp: scannable_def)







text \<open>A device whose last reason holds a quote, a backslash and a line feed.\<close>

definition toy_readings :: readings where
  "toy_readings = \<lparr>pe_millis = 5000, pe_ip = ''10.0.0.7'', pe_rssi = -60, pe_heap = 100000, pe_cpu_mhz = 240,
     pe_client = Some ''10.0.0.9'', pe_streaming = True, pe_lastRtspClientConnectMs = 0, pe_lastRtspPlayMs = 0\<rparr>"


subsection \<open>The private key\<close>

text \<open>The part of the manager that carries the key.\<close>

definition with_key :: "string \<Rightarrow> 'n \<Rightarrow> 'n manager \<Rightarrow> 'n manager" where
  "with_key key n m = m\<lparr>s_privateKey := key, wgPrefs := n\<rparr>"

lemma key_saved: "\<exists>n. wg_save X (m\<lparr>s_privateKey := key\<rparr>) = with_key key n m"
  by (unfold wg_save_def with_key_def Let_def, rule exI) simp

lemma key_passes:
  "cancelDNS (with_key key n m) = with_key key n (cancelDNS m)"
  "end_tunnel X (with_key key n m) = with_key key n (end_tunnel X m)"
  "ap_initialized (s_wg (with_key key n m)) = ap_initialized (s_wg m)"
  by (simp_all add: cancelDNS_def end_tunnel_def with_key_def split: prod.split)

lemma key_stops: "stop_if_initialized X (with_key key n m) = with_key key n (stop_if_initialized X m)"
proof -
  have "wg_stop X (with_key key n m) = with_key key n (wg_stop X m)"
    by (simp add: wg_stop_def key_passes Let_def) (simp add: with_key_def)
  then show ?thesis by (simp add: stop_if_initialized_def key_passes)
qed

lemma key_set: "\<exists>n. wg_setPrivateKey X key m = with_key key n (stop_if_initialized X (cancelDNS m))" for m
  using key_saved [where X = X and m = m and key = key] by (auto simp: wg_setPrivateKey_def key_passes key_stops)

lemma key_tunnelIp: "wg_tunnelIp (with_key key n m) = wg_tunnelIp m"
  by (simp add: wg_tunnelIp_def with_key_def cong: option.case_cong)

lemma key_shown:
  "key \<noteq> [] \<Longrightarrow> httpWgStatus fmt e (with_key key n m) = httpWgStatus fmt e (with_key ''k'' undefined m)"
  by (simp add: httpWgStatus_def Let_def key_tunnelIp)
    (simp add: with_key_def wg_lastHandshakeMs_def wg_isEnabled_def wg_rxBytes_def wg_txBytes_def wg_tunnelAddress_def wg_endpointStr_def wg_keepalive_def wg_privateKey_def
    wg_serverPublicKey_def)

lemma key_request:
  assumes "rq_key r = ''wg_priv''" and "rq_value r = Some v" and "v \<noteq> []"
  shows "httpSet toFloat X r u =
    (u\<lparr>wb_log := webui_pushLog ''UI set: wg_priv=********'' (wb_log u),
       wb_wg := wg_setPrivateKey X v (wb_wg u)\<rparr>, [], JSON_OK)"
  using assms by (simp add: httpSet_def set_audio_def set_device_def set_wg_def web_arg_def Let_def)

text \<open>
  C40. The private key of the tunnel stays in the device. What a page that sets the key answers, logs
  and changes in the settings, and the status of the tunnel shown after it, are the same for every
  key: nobody learns it from them. The log and the status show eight stars in its place.
\<close>

theorem private_key_hidden:
  assumes "v \<noteq> []" and "v' \<noteq> []"
    and "httpSet toFloat X \<lparr>rq_key = ''wg_priv'', rq_value = Some v\<rparr> u = (w, calls, answer)"
    and "httpSet toFloat X \<lparr>rq_key = ''wg_priv'', rq_value = Some v'\<rparr> u = (w', calls', answer')"
  shows "s_privateKey (wb_wg w) = v \<and> calls' = calls \<and> answer' = answer \<and>
    wb_log w' = wb_log w \<and> wb_fw w' = wb_fw w \<and>
    apiSendJSON (httpWgStatus fmt e (wb_wg w')) = apiSendJSON (httpWgStatus fmt e (wb_wg w)) \<and>
    Quoted ''private_key'' ''********'' \<in> set (httpWgStatus fmt e (wb_wg w))"
proof (intro conjI)
  obtain n where n: "wg_setPrivateKey X v (wb_wg u) = with_key v n (stop_if_initialized X (cancelDNS (wb_wg u)))"
    using key_set [where X = X and key = v and m = "wb_wg u"] by auto
  obtain n' where n': "wg_setPrivateKey X v' (wb_wg u) = with_key v' n' (stop_if_initialized X (cancelDNS (wb_wg u)))"
    using key_set [where X = X and key = v' and m = "wb_wg u"] by auto
  note r = key_request [of "\<lparr>rq_key = ''wg_priv'', rq_value = Some v\<rparr>" v, simplified, OF assms(1)]
  note r' = key_request [of "\<lparr>rq_key = ''wg_priv'', rq_value = Some v'\<rparr>" v', simplified, OF assms(2)]
  note w = assms(3) [unfolded r n, simplified]
  note w' = assms(4) [unfolded r' n', simplified]
  show "s_privateKey (wb_wg w) = v" using w by (auto simp: with_key_def)
  show "calls' = calls" "answer' = answer" "wb_log w' = wb_log w" "wb_fw w' = wb_fw w"
    using w w' by auto
  show "apiSendJSON (httpWgStatus fmt e (wb_wg w')) = apiSendJSON (httpWgStatus fmt e (wb_wg w))"
    using w w' by (auto simp: key_shown [OF assms(1)] key_shown [OF assms(2)])
  show "Quoted ''private_key'' ''********'' \<in> set (httpWgStatus fmt e (wb_wg w))"
    using w assms(1) by (auto simp: with_key_def httpWgStatus_def wg_privateKey_def Let_def)
qed

theorem private_key_hidden_witness:
  "let set_key = (\<lambda>v. httpSet (\<lambda>s. NaN) toy_externals \<lparr>rq_key = ''wg_priv'', rq_value = Some v\<rparr> toy_web)
   in s_privateKey (wb_wg (fst (set_key ''secret''))) = ''secret''
     \<and> wb_log (fst (set_key ''other'')) = wb_log (fst (set_key ''secret''))
     \<and> apiSendJSON (httpWgStatus (\<lambda>x n. ''0'') toy_readings (wb_wg (fst (set_key ''other''))))
       = apiSendJSON (httpWgStatus (\<lambda>x n. ''0'') toy_readings (wb_wg (fst (set_key ''secret''))))"
proof -
  have v: "''secret'' \<noteq> []" "''other'' \<noteq> []" by simp_all
  obtain w calls answer where w:
    "httpSet (\<lambda>s. NaN) toy_externals \<lparr>rq_key = ''wg_priv'', rq_value = Some ''secret''\<rparr> toy_web = (w, calls, answer)"
    by (rule prod_cases3)
  obtain w' calls' answer' where w':
    "httpSet (\<lambda>s. NaN) toy_externals \<lparr>rq_key = ''wg_priv'', rq_value = Some ''other''\<rparr> toy_web = (w', calls', answer')"
    by (rule prod_cases3)
  show ?thesis unfolding Let_def w w' fst_conv using private_key_hidden [OF v w w'] by blast
qed

end
