(* ===== verification/Fw_Pipeline.thy ===== *)
theory Fw_Pipeline
  imports Fw_Audio_Props Fw_Rtp_Props Fw_Rtsp_Props
begin

text \<open>
  The turns of the audio task from end to end: a block is read, processed and sent as a packet, and
  every now and then a request is answered on the same connection. A receiver that tells packets from
  answers by their first byte hears both, in order. Whom the task reads from and when it is stopped
  from outside is in \<open>Fw_Stream\<close>.
\<close>

subsection \<open>A turn\<close>








subsection \<open>The receiver\<close>

text \<open>A frame starts with a dollar sign; anything else is text up to its empty line.\<close>

datatype message = Frame u8 bytes | Text bytes





subsection \<open>Framing\<close>

text \<open>
  What is needed of a way to put messages on a connection and to get them back: that the first
  message is recognised whatever comes behind it.
\<close>

locale framing =
  fixes put :: "'m \<Rightarrow> bytes" and get :: "bytes \<Rightarrow> 'm list" and ok :: "'m \<Rightarrow> bool"
  assumes get_nil: "get [] = []"
    and get_put: "ok m \<Longrightarrow> get (put m @ rest) = m # get rest"
begin

lemma get_all: "list_all ok ms \<Longrightarrow> get (concat (map put ms)) = ms"
  by (induction ms) (simp_all add: get_nil get_put)

lemma get_append: "list_all ok ms \<Longrightarrow> get (concat (map put ms) @ rest) = ms @ get rest"
  by (induction ms) (simp_all add: get_put)

end

fun put_message :: "message \<Rightarrow> bytes" where
  "put_message (Frame c bs) = [0x24, c, word_of_nat (length bs div 256), word_of_nat (length bs)] @ bs"
| "put_message (Text t) = t"



lemma length_bytes:
  assumes "n < 65536"
  shows "unat (word_of_nat (n div 256) :: u8) * 256 + unat (word_of_nat n :: u8) = n"
  using assms by (simp add: unat_of_nat)


text \<open>The frames of \<open>Fw_Rtp\<close> are such a framing too.\<close>

interpretation frame: framing "\<lambda>(c, bs). put_message (Frame c bs)" frames "\<lambda>(c, bs). length bs < 65536"
proof
  show "frames [] = []" by (simp add: frames.simps)
  show "frames ((case m of (c, bs) \<Rightarrow> put_message (Frame c bs)) @ rest) = m # frames rest"
    if ok: "(case m of (c, bs) \<Rightarrow> length bs < 65536)" for m rest
  proof -
    obtain c bs where m: "m = (c, bs)" by (cases m)
    have l: "unat (word_of_nat (length bs div 256) :: u8) * 256 + unat (word_of_nat (length bs) :: u8) = length bs"
      using length_bytes ok by (simp add: m)
    show ?thesis
      unfolding m prod.case put_message.simps append_Cons append_Nil frames.simps [of "_ # _"] list.case Let_def l
      by simp
  qed
qed

subsection \<open>What is said\<close>











subsection \<open>Answers as messages\<close>







subsection \<open>From the microphone to the receiver\<close>
























end
