(* ===== verification/Fw_Loop.thy ===== *)
theory Fw_Loop
  imports Fw_Web Fw_Rtsp
begin

text \<open>
  One pass of \<open>loop\<close>: the tunnel, a page, the watchdogs when their time has come, the RTSP client, and
  a reboot that was asked for. What the pass observes is its input, and the clock stands still during
  it. The calls into the audio task are its output, in order; a call of \<open>ESP.restart\<close> does not return, so
  it is the last. The log lines of the loop and the colour of the LED are not modelled.
\<close>

subsection \<open>State and input\<close>

record 'n device =
  dv_web :: "'n web"
  dv_perf :: perf
  dv_rtsp :: rtsp
  lastTempCheck :: u32
  lastMemoryCheck :: u32
  lastPerformanceCheck :: u32
  lastWiFiCheck :: u32
  lastRtspClientConnectMs :: u32
  rtspConnectCount :: u32

text \<open>
  The pages that change something; every other page leaves the state alone. The page that resets WiFi
  starts a task that restarts the device.
\<close>

datatype page =
    Page_set request
  | Page_thermal_clear
  | Page_server_start
  | Page_server_stop
  | Page_reset_i2s
  | Page_reboot
  | Page_factory_reset
  | Page_ship_ready_reset
  | Page_other

text \<open>
  The stream and the connection are looked at several times in a pass, and the other core may change
  them in between: \<open>ps_streaming\<close> and \<open>ps_connected\<close> answer the looks in the order of the source.
\<close>

record pass =
  ps_env :: env
  ps_page :: "page option"
  ps_reading :: float_value
  ps_heap :: u32
  ps_activity :: "u32 option"
  ps_streaming :: "nat \<Rightarrow> bool"
  ps_connected :: "nat \<Rightarrow> bool"
  ps_new_client :: bool
  ps_rtsp :: rtsp_env
  ps_net :: net_input

abbreviation "ps_now i \<equiv> en_millis (ps_env i)"

subsection \<open>Pages\<close>

definition serve_page ::
  "(string \<Rightarrow> float_value) \<Rightarrow> 'n externals \<Rightarrow> u32 \<Rightarrow> bool \<Rightarrow> page \<Rightarrow> 'n web \<Rightarrow> 'n web \<times> fw_call list" where
  "serve_page toFloat X now streaming p u =
     (case p of
        Page_set r \<Rightarrow> (case httpSet toFloat X r u of (u, calls, answer) \<Rightarrow> (u, calls))
      | Page_thermal_clear \<Rightarrow> (fst (httpThermalClear (ex_prefs X) u), [])
      | Page_server_start \<Rightarrow> (fst (httpActionServerStart u), [])
      | Page_server_stop \<Rightarrow> (case httpActionServerStop streaming u of (u, calls, answer) \<Rightarrow> (u, calls))
      | Page_reset_i2s \<Rightarrow> (case httpActionResetI2S u of (u, calls, answer) \<Rightarrow> (u, calls))
      | Page_reboot \<Rightarrow> (fst (httpActionReboot now u), [])
      | Page_factory_reset \<Rightarrow> (fst (httpActionFactoryReset now u), [])
      | Page_ship_ready_reset \<Rightarrow> (u\<lparr>wb_log := webui_pushLog ''UI action: ship_ready_reset'' (wb_log u)\<rparr>, [])
      | Page_other \<Rightarrow> (u, []))"

text \<open>A restart of the microphone forgets the extremes of the packet rate.\<close>

definition forget_extremes :: "fw_call list \<Rightarrow> perf \<Rightarrow> perf" where
  "forget_extremes calls p =
     (if Call_restart_i2s \<in> set calls then p\<lparr>maxPacketRate := 0, minPacketRate := 0xFFFFFFFF\<rparr> else p)"

definition webui_handleClient ::
  "(string \<Rightarrow> float_value) \<Rightarrow> 'n externals \<Rightarrow> pass \<Rightarrow> 'n device \<Rightarrow> 'n device \<times> fw_call list" where
  "webui_handleClient toFloat X i d =
     (case ps_page i of
        None \<Rightarrow> (d, [])
      | Some p \<Rightarrow>
          (case serve_page toFloat X (ps_now i) (ps_streaming i 0) p (dv_web d) of
             (u, calls) \<Rightarrow> (d\<lparr>dv_web := u, dv_perf := forget_extremes calls (dv_perf d)\<rparr>, calls)))"

subsection \<open>Watchdogs\<close>

definition temperature_due ::
  "(rat \<Rightarrow> nat \<Rightarrow> string) \<Rightarrow> 'n externals \<Rightarrow> pass \<Rightarrow> 'n device \<Rightarrow> 'n device \<times> fw_call list" where
  "temperature_due fmt X i d =
     (if ps_now i - lastTempCheck d > 60000 then
        let (s, calls) = checkTemperature fmt (ex_prefs X) (ps_now i) (ps_streaming i 1) (ps_reading i) (wb_fw (dv_web d))
        in (d\<lparr>dv_web := (dv_web d)\<lparr>wb_fw := s\<rparr>, lastTempCheck := ps_now i\<rparr>, calls)
      else (d, []))"

definition heap_due :: "pass \<Rightarrow> 'n device \<Rightarrow> 'n device" where
  "heap_due i d =
     (if ps_now i - lastMemoryCheck d > 600000 then
        let p = dv_perf d;
            p = (if ps_heap i < minFreeHeap p then p\<lparr>minFreeHeap := ps_heap i\<rparr> else p)
        in d\<lparr>dv_perf := p, lastMemoryCheck := ps_now i\<rparr>
      else d)"

definition performance_due :: "pass \<Rightarrow> 'n device \<Rightarrow> 'n device \<times> fw_call list" where
  "performance_due i d =
     (if ps_now i - lastPerformanceCheck d > performanceCheckInterval (wb_fw (dv_web d)) * 60000 then
        let (p, calls) = checkPerformance (wb_fw (dv_web d)) (ps_now i) (ps_streaming i 2) (ps_heap i) (dv_perf d)
        in (d\<lparr>dv_perf := p, lastPerformanceCheck := ps_now i\<rparr>, calls)
      else (d, []))"

definition wifi_due :: "pass \<Rightarrow> 'n device \<Rightarrow> 'n device \<times> fw_call list" where
  "wifi_due i d =
     (if ps_now i - lastWiFiCheck d > 30000 then
        let (s, calls) = checkWiFiHealth (en_wifi (ps_env i)) (ps_streaming i 3) (wb_fw (dv_web d))
        in (d\<lparr>dv_web := (dv_web d)\<lparr>wb_fw := s\<rparr>, lastWiFiCheck := ps_now i\<rparr>, calls)
      else (d, []))"

subsection \<open>The RTSP client\<close>

text \<open>A client that neither streams nor asks for a minute is disconnected.\<close>

definition idle_closed :: "pass \<Rightarrow> 'n device \<Rightarrow> bool" where
  "idle_closed i d \<longleftrightarrow>
     ps_connected i 0 \<and> \<not> ps_streaming i 4 \<and> ps_now i - lastRTSPActivity (dv_rtsp d) > 60000"

definition idle_timeout :: "pass \<Rightarrow> 'n device \<Rightarrow> 'n device" where
  "idle_timeout i d = (if idle_closed i d then d\<lparr>dv_rtsp := (dv_rtsp d)\<lparr>rtspParseBufferPos := 0\<rparr>\<rparr> else d)"

definition accept_client :: "pass \<Rightarrow> 'n device \<Rightarrow> 'n device" where
  "accept_client i d =
     d\<lparr>dv_rtsp := (dv_rtsp d)\<lparr>rtspParseBufferPos := 0, lastRTSPActivity := ps_now i\<rparr>,
       lastRtspClientConnectMs := ps_now i, rtspConnectCount := rtspConnectCount d + 1\<rparr>"

definition rtsp_client :: "pass \<Rightarrow> bool \<Rightarrow> 'n device \<Rightarrow> 'n device \<times> rtsp_event list \<times> fw_call list" where
  "rtsp_client i idle d =
     (if rtspServerEnabled (wb_fw (dv_web d)) then
        if \<not> ps_streaming i 5 then
          let present = (ps_connected i 1 \<and> \<not> idle);
              accepts = (\<not> present \<and> ps_new_client i);
              d = (if accepts then accept_client i d else d)
          in if (present \<or> accepts) \<and> ps_connected i 2 then
               let (r, events) = processRTSP (ps_rtsp i) (ps_net i) (dv_rtsp d)
               in (d\<lparr>dv_rtsp := r\<rparr>, events, [])
             else (d, [], [])
        else (d, [], [])
      else (d, [], if ps_streaming i 5 then [Call_request_stop, Call_stop_task] else []))"

subsection \<open>A pass\<close>

definition reboot_due :: "'n externals \<Rightarrow> pass \<Rightarrow> 'n device \<Rightarrow> 'n device \<times> fw_call list" where
  "reboot_due X i d =
     (case deferred_reboot X (ps_now i) (wb_fw (dv_web d), wb_wg (dv_web d)) of
        ((s, m), calls) \<Rightarrow> (d\<lparr>dv_web := (dv_web d)\<lparr>wb_fw := s, wb_wg := m\<rparr>\<rparr>, calls))"

text \<open>
  The start of a pass, up to the page. \<open>None\<close>: the tick of the tunnel does not return. The time of the
  last request is also set by the other core.
\<close>

definition pass_start ::
  "(string \<Rightarrow> float_value) \<Rightarrow> 'n externals \<Rightarrow> pass \<Rightarrow> 'n device \<Rightarrow> ('n device \<times> fw_call list) option" where
  "pass_start toFloat X i d =
     (case wg_tick X (ps_env i) (wb_wg (dv_web d)) of
        None \<Rightarrow> None
      | Some m \<Rightarrow>
          let d = d\<lparr>dv_web := (dv_web d)\<lparr>wb_wg := m\<rparr>\<rparr>;
              d = (case ps_activity i of None \<Rightarrow> d | Some t \<Rightarrow> d\<lparr>dv_rtsp := (dv_rtsp d)\<lparr>lastRTSPActivity := t\<rparr>\<rparr>)
          in Some (webui_handleClient toFloat X i d))"

definition main_pass ::
  "(string \<Rightarrow> float_value) \<Rightarrow> (rat \<Rightarrow> nat \<Rightarrow> string) \<Rightarrow> 'n externals \<Rightarrow> pass \<Rightarrow> 'n device \<Rightarrow>
     ('n device \<times> rtsp_event list \<times> fw_call list) option" where
  "main_pass toFloat fmt X i d =
     (case pass_start toFloat X i d of
        None \<Rightarrow> None
      | Some (d, c1) \<Rightarrow>
          let (d, c2) = temperature_due fmt X i d;
              d = heap_due i d;
              (d, c3) = performance_due i d;
              (d, c4) = wifi_due i d;
              c5 = checkScheduledReset (ps_now i) (wb_fw (dv_web d))
          in if c5 \<noteq> [] then Some (d, [], c1 @ c2 @ c3 @ c4 @ c5)
             else
               let idle = idle_closed i d;
                   d = idle_timeout i d;
                   (d, events, c6) = rtsp_client i idle d;
                   (d, c7) = reboot_due X i d
               in Some (d, events, c1 @ c2 @ c3 @ c4 @ c6 @ c7))"

subsection \<open>Start\<close>

text \<open>The timers and the counters after \<open>setup\<close>.\<close>

definition setup_device :: "'n prefs \<Rightarrow> u32 \<Rightarrow> float_value \<Rightarrow> u32 \<Rightarrow> 'n manager \<Rightarrow> rtsp \<Rightarrow> 'n \<Rightarrow> 'n device" where
  "setup_device P now reading heap m r n =
     \<lparr>dv_web = \<lparr>wb_fw = fst (setup_fw P now reading n), wb_wg = m, wb_log = log_empty\<rparr>,
      dv_perf = \<lparr>audioPacketsSent = 0, lastStatsReset = now, lastI2SReset = 0, minFreeHeap = heap,
                 maxPacketRate = 0, minPacketRate = 0xFFFFFFFF, consecutiveLowCount = 0\<rparr>,
      dv_rtsp = r\<lparr>lastRTSPActivity := now\<rparr>,
      lastTempCheck = 0, lastMemoryCheck = now, lastPerformanceCheck = now, lastWiFiCheck = now,
      lastRtspClientConnectMs = 0, rtspConnectCount = 0\<rparr>"

end
