(* ===== verification/Fw_Loop_Props.thy ===== *)
theory Fw_Loop_Props
  imports Fw_Loop Fw_Web_Props Fw_Rtsp_Props
begin

text \<open>
  The main loop: what its passes keep, whatever pages, readings, clients and the other core do, across
  restarts; and that a reading at the limit takes the server down in the pass that sees it.
\<close>

subsection \<open>The manager in the loop\<close>

definition stored_port_ok :: "'n externals \<Rightarrow> 'n manager \<Rightarrow> bool" where
  "stored_port_ok X m \<longleftrightarrow> getUShort (ex_prefs X) ''endport'' 51820 (wgPrefs m) \<noteq> 0"

lemma end_tunnel_prefs: "wgPrefs (end_tunnel X m) = wgPrefs m"
  by (simp add: end_tunnel_def split_beta)

lemma cancel_prefs: "wgPrefs (cancelDNS m) = wgPrefs m" "wgPrefs (cancel_if_running m) = wgPrefs m"
  by (simp_all add: cancelDNS_def cancel_if_running_def)

lemma stop_prefs: "wgPrefs (wg_stop X m) = wgPrefs m" "wgPrefs (stop_if_initialized X m) = wgPrefs m"
  by (simp_all add: wg_stop_def stop_if_initialized_def end_tunnel_prefs cancel_prefs Let_def)

lemma raise_prefs: "wgPrefs (raise_backoff m) = wgPrefs m"
  by (simp add: raise_backoff_def Let_def)

lemma start_prefs: "startTunnelWithIP X e ip m = Some m' \<Longrightarrow> wgPrefs m' = wgPrefs m"
  by (auto simp: startTunnelWithIP_def Let_def raise_prefs split: prod.splits option.splits if_splits)

lemma begin_prefs: "wg_begin X e m = Some m' \<Longrightarrow> wgPrefs m' = wgPrefs m"
  by (auto simp: wg_begin_def create_dns_task_def Let_def cancel_prefs raise_prefs split: if_splits dest: start_prefs)

lemma tick_prefs: "wg_tick X e m = Some m' \<Longrightarrow> wgPrefs m' = wgPrefs m"
  by (auto simp: wg_tick_def tick_up_def Let_def stop_prefs cancel_prefs raise_prefs split: if_splits dest: begin_prefs)

lemma dns_prefs: "wgPrefs (dns_step lookup m) = wgPrefs m"
  by (auto simp: dns_step_def Let_def split: option.splits dns_pc.splits)

lemma save_port:
  assumes "prefs_laws (ex_prefs X)"
  shows "getUShort (ex_prefs X) ''endport'' 51820 (wgPrefs (wg_save X m)) = s_endpointPort m"
  by (simp add: wg_save_def Let_def getUShort_def prefs_lawsD [OF assms])

lemma clear_port:
  assumes "prefs_laws (ex_prefs X)"
  shows "getUShort (ex_prefs X) ''endport'' 51820 (wgPrefs (wg_clear X m)) = 51820"
  by (simp add: wg_clear_def Let_def getUShort_def end_tunnel_prefs cancel_prefs prefs_lawsD [OF assms])

lemma manager_step_port:
  assumes P: "prefs_laws (ex_prefs X)" and "mg_step X m m'" and "manager_ok m" and "stored_port_ok X m"
  shows "stored_port_ok X m'"
proof -
  have p: "s_endpointPort m \<noteq> 0" using assms(3) by (simp add: manager_ok_def)
  show ?thesis
    using assms(2)
  proof cases
    case (tick e)
    then show ?thesis using assms(4) tick_prefs [OF tick] by (simp add: stored_port_ok_def)
  qed (use assms(4) p in \<open>simp_all add: stored_port_ok_def dns_prefs stop_prefs cancel_prefs save_port [OF P] clear_port [OF P]
      wg_setEnabled_def wg_setPrivateKey_def wg_setServerPublicKey_def wg_setEndpoint_def wg_setTunnelAddress_def
      wg_setKeepalive_def Let_def\<close>)
qed

subsection \<open>Pages\<close>

definition web_ok :: "'n externals \<Rightarrow> 'n web \<Rightarrow> bool" where
  "web_ok X u \<longleftrightarrow> fw_inv (ex_prefs X) (wb_fw u) \<and> manager_ok (wb_wg u) \<and> stored_port_ok X (wb_wg u)"

lemma set_wg_step: "wb_wg (set_wg X r u) = wb_wg u \<or> mg_step X (wb_wg u) (wb_wg (set_wg X r u))"
proof -
  have endpoint: "mg_step X m (wg_setEndpoint X host (word_of_int k) m)" if "0 < k" "k < 65536" for m host k
    using that by (intro mg_step.setEndpoint) (simp add: word_of_int_eq_0_iff zdvd_not_zless)
  show ?thesis
    unfolding set_wg_def Let_def
    by (auto split: option.splits prod.splits simp: mg_step.intros endpoint)
qed

lemma set_wg_ok:
  assumes P: "prefs_laws (ex_prefs X)" and "web_ok X u"
  shows "web_ok X (set_wg X r u)"
proof -
  have "manager_ok (wb_wg (set_wg X r u)) \<and> stored_port_ok X (wb_wg (set_wg X r u))"
    using set_wg_step [of X r u] assms(2) manager_step_ok manager_step_port [OF P] by (auto simp: web_ok_def)
  then show ?thesis using assms(2) by (simp add: web_ok_def set_wg_fw)
qed

lemma serve_page_ok:
  assumes P: "prefs_laws (ex_prefs X)" and "web_ok X u"
  shows "web_ok X (fst (serve_page toFloat X now streaming p u))"
proof -
  have s: "fw_inv (ex_prefs X) (wb_fw u)" and m: "manager_ok (wb_wg u)" "stored_port_ok X (wb_wg u)"
    using assms(2) by (simp_all add: web_ok_def)
  have kept: "wb_wg (fst (httpThermalClear (ex_prefs X) u)) = wb_wg u" "wb_wg (fst (httpActionServerStart u)) = wb_wg u"
    "wb_wg (fst (httpActionServerStop streaming u)) = wb_wg u" "wb_wg (fst (httpActionResetI2S u)) = wb_wg u"
    "wb_wg (fst (httpActionReboot now u)) = wb_wg u" "wb_wg (fst (httpActionFactoryReset now u)) = wb_wg u"
    by (simp_all add: httpThermalClear_def httpActionServerStart_def httpActionServerStop_def httpActionResetI2S_def
        httpActionReboot_def httpActionFactoryReset_def Let_def)
  show ?thesis
  proof (cases p)
    case (Page_set r)
    define u' where "u' = (if length (web_arg r) \<noteq> 0 then u\<lparr>wb_log := webui_pushLog (''UI set: '' @ rq_key r @ ''='' @
      (if rq_key r = ''wg_priv'' then ''********'' else web_arg r)) (wb_log u)\<rparr> else u)"
    have u': "web_ok X u'" using assms(2) by (simp add: u'_def web_ok_def)
    have "manager_ok (wb_wg (fst (httpSet toFloat X r u))) \<and> stored_port_ok X (wb_wg (fst (httpSet toFloat X r u)))"
      using set_wg_ok [OF P u', of r] u'
      unfolding httpSet_def Let_def u'_def [symmetric] by (auto simp: web_ok_def split: option.splits)
    then show ?thesis
      using httpSet_inv [OF P s] by (simp add: serve_page_def Page_set web_ok_def split_beta)
  qed (simp_all add: serve_page_def web_ok_def split_beta kept m s page_inv [OF P s])
qed

subsection \<open>A pass\<close>

definition device_ok :: "'n externals \<Rightarrow> 'n device \<Rightarrow> bool" where
  "device_ok X d \<longleftrightarrow> web_ok X (dv_web d) \<and> rtsp_inv (dv_rtsp d)"

definition pass_ok :: "pass \<Rightarrow> bool" where
  "pass_ok i \<longleftrightarrow> (\<forall>n. 0 \<le> n \<longrightarrow> length (ni_read (ps_net i) n) \<le> nat n)"

lemma pass_start_ok:
  assumes P: "prefs_laws (ex_prefs X)" and "device_ok X d"
  shows "\<exists>d1 c. pass_start toFloat X i d = Some (d1, c) \<and> device_ok X d1 \<and> lastTempCheck d1 = lastTempCheck d"
proof -
  have m: "manager_ok (wb_wg (dv_web d))" "stored_port_ok X (wb_wg (dv_web d))" using assms(2) by (simp_all add: device_ok_def web_ok_def)
  then obtain m' where m': "wg_tick X (ps_env i) (wb_wg (dv_web d)) = Some m'"
    using wg_tick_total [of "wb_wg (dv_web d)" X "ps_env i"] by (auto simp: manager_ok_def)
  have "mg_step X (wb_wg (dv_web d)) m'" using m' by (rule mg_step.tick)
  then have "manager_ok m'" "stored_port_ok X m'" using m manager_step_ok manager_step_port [OF P] by blast+
  define d0 where "d0 = (let d = d\<lparr>dv_web := (dv_web d)\<lparr>wb_wg := m'\<rparr>\<rparr>
    in case ps_activity i of None \<Rightarrow> d | Some t \<Rightarrow> d\<lparr>dv_rtsp := (dv_rtsp d)\<lparr>lastRTSPActivity := t\<rparr>\<rparr>)"
  have d0: "device_ok X d0" "lastTempCheck d0 = lastTempCheck d"
    using assms(2) \<open>manager_ok m'\<close> \<open>stored_port_ok X m'\<close>
    by (auto simp: d0_def device_ok_def web_ok_def rtsp_inv_def Let_def split: option.split)
  have "pass_start toFloat X i d = Some (webui_handleClient toFloat X i d0)"
    by (simp add: pass_start_def m' d0_def Let_def)
  moreover have "device_ok X (fst (webui_handleClient toFloat X i d0))" "lastTempCheck (fst (webui_handleClient toFloat X i d0)) = lastTempCheck d0"
    using d0(1) serve_page_ok [OF P, of "dv_web d0"]
    by (auto simp: webui_handleClient_def device_ok_def split_beta split: option.split)
  ultimately show ?thesis using d0(2) by (cases "webui_handleClient toFloat X i d0") simp
qed

lemma watchdogs_ok:
  assumes P: "prefs_laws (ex_prefs X)" and "device_ok X d"
  shows "device_ok X (fst (temperature_due fmt X i d))" "device_ok X (heap_due i d)"
    "device_ok X (fst (performance_due i d))" "device_ok X (fst (wifi_due i d))" "device_ok X (idle_timeout i d)"
    "device_ok X (fst (reboot_due X i d))"
proof -
  have s: "fw_inv (ex_prefs X) (wb_fw (dv_web d))" using assms(2) by (simp add: device_ok_def web_ok_def)
  show "device_ok X (fst (temperature_due fmt X i d))" "device_ok X (fst (wifi_due i d))"
    using assms(2) checkTemperature_inv [OF P s] wifi_inv [OF s]
    by (simp_all add: temperature_due_def wifi_due_def device_ok_def web_ok_def split_beta Let_def)
  show "device_ok X (heap_due i d)" "device_ok X (fst (performance_due i d))" "device_ok X (idle_timeout i d)"
    using assms(2) by (simp_all add: heap_due_def performance_due_def idle_timeout_def device_ok_def rtsp_inv_def split_beta Let_def)
  obtain t m c where r: "deferred_reboot X (ps_now i) (wb_fw (dv_web d), wb_wg (dv_web d)) = ((t, m), c)"
    by (metis prod.exhaust)
  have "fw_inv (ex_prefs X) t" using reboot_inv [OF P s, of "ps_now i" "wb_wg (dv_web d)"] by (simp add: r)
  moreover have "m = wb_wg (dv_web d) \<or> m = wg_clear X (wb_wg (dv_web d))"
    using r by (auto simp: deferred_reboot_def resetToDefaultSettings_def Let_def split: if_splits)
  then have "manager_ok m \<and> stored_port_ok X m"
    using assms(2) mg_step.clear [of X "wb_wg (dv_web d)"] manager_step_ok manager_step_port [OF P]
    by (auto simp: device_ok_def web_ok_def)
  ultimately show "device_ok X (fst (reboot_due X i d))" using assms(2) by (simp add: reboot_due_def r device_ok_def web_ok_def)
qed

lemma rtsp_client_ok:
  assumes "device_ok X d" and "pass_ok i"
  shows "device_ok X (fst (rtsp_client i idle d))"
proof -
  define d' where "d' = (if \<not> (ps_connected i 1 \<and> \<not> idle) \<and> ps_new_client i then accept_client i d else d)"
  have d': "device_ok X d'" using assms(1) by (auto simp: d'_def accept_client_def device_ok_def rtsp_inv_def)
  then have "rtsp_inv (fst (processRTSP (ps_rtsp i) (ps_net i) (dv_rtsp d')))"
    using assms(2) by (intro processRTSP_inv) (simp_all add: device_ok_def pass_ok_def)
  then show ?thesis
    using assms(1) d' unfolding rtsp_client_def Let_def d'_def [symmetric]
    by (auto simp: device_ok_def split_beta)
qed

lemma temperature_time:
  "ps_now i - lastTempCheck (fst (temperature_due fmt X i d)) \<le> 60000"
  by (auto simp: temperature_due_def split_beta Let_def)

lemma later_time:
  "lastTempCheck (heap_due i d) = lastTempCheck d" "lastTempCheck (fst (performance_due i d)) = lastTempCheck d"
  "lastTempCheck (fst (wifi_due i d)) = lastTempCheck d" "lastTempCheck (idle_timeout i d) = lastTempCheck d"
  "lastTempCheck (fst (rtsp_client i idle d)) = lastTempCheck d" "lastTempCheck (fst (reboot_due X i d)) = lastTempCheck d"
  by (simp_all add: heap_due_def performance_due_def wifi_due_def idle_timeout_def rtsp_client_def accept_client_def
      reboot_due_def split_beta Let_def)

lemma pass_parts:
  fixes fmt :: "rat \<Rightarrow> nat \<Rightarrow> string"
  assumes "pass_start toFloat X i d = Some (d1, c1)"
  defines "d2 \<equiv> fst (temperature_due fmt X i d1)"
  defines "d3 \<equiv> fst (wifi_due i (fst (performance_due i (heap_due i d2))))"
  defines "d4 \<equiv> fst (rtsp_client i (idle_closed i d3) (idle_timeout i d3))"
  shows "(\<exists>calls. main_pass toFloat fmt X i d = Some (d3, [], calls) \<and> Call_restart \<in> set calls) \<or>
    (\<exists>calls. main_pass toFloat fmt X i d = Some (fst (reboot_due X i d4), fst (snd (rtsp_client i (idle_closed i d3) (idle_timeout i d3))), calls) \<and>
      set (snd (snd (rtsp_client i (idle_closed i d3) (idle_timeout i d3)))) \<union> set (snd (reboot_due X i d4)) \<subseteq> set calls)"
proof (cases "checkScheduledReset (ps_now i) (wb_fw (dv_web d3)) = []")
  case False
  then have "Call_restart \<in> set (checkScheduledReset (ps_now i) (wb_fw (dv_web d3)))"
    by (auto simp: checkScheduledReset_def Let_def split: if_splits)
  then show ?thesis
    using False unfolding main_pass_def assms(1) by (auto simp: split_beta Let_def d3_def d2_def)
next
  case True
  then show ?thesis
    unfolding main_pass_def assms(1) d4_def
    by (intro disjI2) (auto simp: split_beta Let_def d3_def d2_def)
qed

lemma pass_result:
  assumes P: "prefs_laws (ex_prefs X)" and "device_ok X d" and "pass_ok i"
  shows "\<exists>d' events calls. main_pass toFloat fmt X i d = Some (d', events, calls) \<and> device_ok X d' \<and>
    ps_now i - lastTempCheck d' \<le> 60000"
proof -
  obtain d1 c1 where d1: "pass_start toFloat X i d = Some (d1, c1)" "device_ok X d1" using pass_start_ok [OF P assms(2)] by blast
  define d2 where "d2 = fst (temperature_due fmt X i d1)"
  define d3 where "d3 = fst (wifi_due i (fst (performance_due i (heap_due i d2))))"
  define d4 where "d4 = fst (rtsp_client i (idle_closed i d3) (idle_timeout i d3))"
  have d3: "device_ok X d3" unfolding d3_def d2_def by (intro watchdogs_ok [OF P] d1(2))
  then have "device_ok X d4" unfolding d4_def by (intro rtsp_client_ok watchdogs_ok [OF P] assms(3))
  then have d5: "device_ok X (fst (reboot_due X i d4))" by (rule watchdogs_ok [OF P])
  have t: "ps_now i - lastTempCheck d3 \<le> 60000" "ps_now i - lastTempCheck (fst (reboot_due X i d4)) \<le> 60000"
    using temperature_time by (simp_all add: later_time d3_def d2_def d4_def)
  show ?thesis
    using pass_parts [OF d1(1), of fmt, folded d2_def, folded d3_def, folded d4_def] d3 d5 t by blast
qed

subsection \<open>Runs\<close>

text \<open>
  What happens to the device: a pass of the loop; a step of the manager from elsewhere (its resolving task,
  the interface); the counters and the gain that the audio task writes; and a restart at any moment,
  which finds the two stores as they are.
\<close>

definition restarted ::
  "'n externals \<Rightarrow> u32 \<Rightarrow> float_value \<Rightarrow> u32 \<Rightarrow> netif_ref option \<Rightarrow> world \<Rightarrow> rtsp \<Rightarrow> 'n \<Rightarrow> 'n \<Rightarrow> 'n device" where
  "restarted X now reading heap netif w r wg audio =
     setup_device (ex_prefs X) now reading heap (wg_load X (boot wg netif w)) r audio"

inductive device_step ::
  "(string \<Rightarrow> float_value) \<Rightarrow> (rat \<Rightarrow> nat \<Rightarrow> string) \<Rightarrow> 'n externals \<Rightarrow> 'n device \<Rightarrow> 'n device \<Rightarrow> bool"
  for toFloat fmt X where
  pass: "main_pass toFloat fmt X i d = Some (d', events, calls) \<Longrightarrow> pass_ok i \<Longrightarrow> device_step toFloat fmt X d d'"
| manager: "mg_step X (wb_wg (dv_web d)) m \<Longrightarrow> device_step toFloat fmt X d (d\<lparr>dv_web := (dv_web d)\<lparr>wb_wg := m\<rparr>\<rparr>)"
| audio: "device_step toFloat fmt X d
    (d\<lparr>dv_perf := p, dv_web := (dv_web d)\<lparr>wb_fw := (wb_fw (dv_web d))\<lparr>agcMultiplier := x\<rparr>\<rparr>\<rparr>)"
| restart: "rtsp_inv r \<Longrightarrow> device_step toFloat fmt X d
    (restarted X now reading heap netif w r (wgPrefs (wb_wg (dv_web d))) (audioPrefs (wb_fw (dv_web d))))"

inductive device_reachable ::
  "(string \<Rightarrow> float_value) \<Rightarrow> (rat \<Rightarrow> nat \<Rightarrow> string) \<Rightarrow> 'n externals \<Rightarrow> 'n device \<Rightarrow> bool"
  for toFloat fmt X where
  first: "rtsp_inv r \<Longrightarrow> device_reachable toFloat fmt X
    (restarted X now reading heap netif w r (pf_clear (ex_prefs X) wg) (pf_clear (ex_prefs X) audio))"
| later: "device_reachable toFloat fmt X d \<Longrightarrow> device_step toFloat fmt X d d' \<Longrightarrow> device_reachable toFloat fmt X d'"

lemma restarted_ok:
  assumes "getUShort (ex_prefs X) ''endport'' 51820 wg \<noteq> 0" and "fw_inv (ex_prefs X) (fst (setup_fw (ex_prefs X) now reading audio))"
    and "rtsp_inv r"
  shows "device_ok X (restarted X now reading heap netif w r wg audio)"
proof -
  have "wgPrefs (wg_load X (boot wg netif w)) = wg" by (simp add: wg_load_def boot_def Let_def)
  then have "stored_port_ok X (wg_load X (boot wg netif w))" using assms(1) by (simp add: stored_port_ok_def)
  then show ?thesis
    using assms(2,3) boot_ok [OF assms(1)] by (simp add: restarted_def setup_device_def device_ok_def web_ok_def rtsp_inv_def)
qed

lemma device_step_ok:
  assumes P: "prefs_laws (ex_prefs X)" and "device_step toFloat fmt X d d'" and ok: "device_ok X d"
  shows "device_ok X d'"
  using assms(2)
proof cases
  case (pass i events calls)
  then show ?thesis using pass_result [OF P ok, of i toFloat fmt] by auto
next
  case (manager m)
  then show ?thesis
    using ok manager_step_ok [OF manager(2)] manager_step_port [OF P manager(2)] by (auto simp: device_ok_def web_ok_def)
next
  case (audio x p)
  have "fw_inv Q (s\<lparr>agcMultiplier := x\<rparr>) = fw_inv Q s" for Q and s :: "'a fw"
    by (simp add: fw_inv_def in_range_def latch_holds_def)
  then show ?thesis using ok by (simp add: audio device_ok_def web_ok_def)
next
  case (restart r now reading heap netif w)
  have "in_range (loadAudioSettings (ex_prefs X) (fw_initial (audioPrefs (wb_fw (dv_web d)))))"
    using ok by (simp add: device_ok_def web_ok_def fw_inv_def)
  then show ?thesis
    using ok unfolding restart(1)
    by (intro restarted_ok setup_inv [OF P] restart(2)) (simp_all add: device_ok_def web_ok_def stored_port_ok_def)
qed

lemma device_reachable_ok:
  assumes P: "prefs_laws (ex_prefs X)" and "device_reachable toFloat fmt X d"
  shows "device_ok X d"
  using assms(2)
proof induction
  case (first r now reading heap netif w wg audio)
  have "getUShort (ex_prefs X) ''endport'' 51820 (pf_clear (ex_prefs X) wg) \<noteq> 0"
    by (simp add: getUShort_def prefs_lawsD [OF P])
  moreover have "fw_inv (ex_prefs X) (fst (setup_fw (ex_prefs X) now reading (pf_clear (ex_prefs X) audio)))"
    using reachable_inv [OF P web_reachable.intros(1)] by simp
  ultimately show ?case using first by (rule restarted_ok)
next
  case (later d d')
  then show ?case by (blast intro: device_step_ok [OF P])
qed

subsection \<open>Properties\<close>

text \<open>
  C34. The main loop. Whatever pages, readings, clients, times and interference of the other core the
  passes meet, in any order and across restarts, every pass returns. The settings stay in their ranges,
  the server is down while the thermal latch is set, the parse buffer is never left out of its bounds,
  the tunnel is only up while its interface exists, and after every pass the temperature has been looked
  at within the last minute, however the clock wraps.
\<close>

theorem main_loop_invariant:
  assumes "prefs_laws (ex_prefs X)" and "device_reachable toFloat fmt X d" and "pass_ok i"
  shows "in_range (wb_fw (dv_web d)) \<and>
    (overheatLatched (wb_fw (dv_web d)) \<longrightarrow> \<not> rtspServerEnabled (wb_fw (dv_web d)) \<and> \<not> server_listening (wb_fw (dv_web d))) \<and>
    0 \<le> rtspParseBufferPos (dv_rtsp d) \<and> rtspParseBufferPos (dv_rtsp d) < length (rtspParseBuffer (dv_rtsp d)) \<and>
    (s_state (wb_wg (dv_web d)) = WG_UP \<longrightarrow> ap_netif (s_wg (wb_wg (dv_web d))) \<noteq> None) \<and>
    (\<exists>d' events calls. main_pass toFloat fmt X i d = Some (d', events, calls) \<and>
      device_reachable toFloat fmt X d' \<and> ps_now i - lastTempCheck d' \<le> 60000)"
proof -
  have ok: "device_ok X d" by (rule device_reachable_ok [OF assms(1,2)])
  obtain d' events calls where p: "main_pass toFloat fmt X i d = Some (d', events, calls)" "ps_now i - lastTempCheck d' \<le> 60000"
    using pass_result [OF assms(1) ok assms(3)] by blast
  have "device_reachable toFloat fmt X d'"
    using device_reachable.later [OF assms(2) device_step.pass [OF p(1) assms(3)]] .
  then show ?thesis
    using ok p by (auto simp: device_ok_def web_ok_def fw_inv_def latch_holds_def manager_ok_def rtsp_inv_def)
qed

lemma tx_server:
  "rtspServerEnabled (applyWifiTxPower s) = rtspServerEnabled s" "server_listening (applyWifiTxPower s) = server_listening s"
  "overheatLatched (applyWifiTxPower s) = overheatLatched s"
  by (simp_all add: applyWifiTxPower_def Let_def)

lemma disabled_kept:
  fixes i :: pass
  assumes "overheatLatched (wb_fw (dv_web d))" and "\<not> rtspServerEnabled (wb_fw (dv_web d))" and "\<not> server_listening (wb_fw (dv_web d))"
  defines "d3 \<equiv> fst (wifi_due i (fst (performance_due i (heap_due i d))))"
  shows "wb_fw (dv_web d3) = wb_fw (dv_web d) \<or> wb_fw (dv_web d3) = applyWifiTxPower (wb_fw (dv_web d))"
    "rtsp_client i idle (idle_timeout i d3) =
      (idle_timeout i d3, [], if ps_streaming i 5 then [Call_request_stop, Call_stop_task] else [])"
proof -
  show s: "wb_fw (dv_web d3) = wb_fw (dv_web d) \<or> wb_fw (dv_web d3) = applyWifiTxPower (wb_fw (dv_web d))"
    by (auto simp: d3_def wifi_due_def performance_due_def heap_due_def checkWiFiHealth_def split_beta Let_def)
  have "\<not> rtspServerEnabled (wb_fw (dv_web (idle_timeout i d3)))"
    using s assms(2) by (auto simp: idle_timeout_def tx_server)
  then show "rtsp_client i idle (idle_timeout i d3) =
      (idle_timeout i d3, [], if ps_streaming i 5 then [Call_request_stop, Call_stop_task] else [])"
    by (simp add: rtsp_client_def)
qed

lemma reboot_result: "Call_restart \<in> set (snd (reboot_due X i d)) \<or> dv_web (fst (reboot_due X i d)) = dv_web d"
  by (auto simp: reboot_due_def deferred_reboot_def split_beta)

text \<open>
  C35. Overheating. A pass that finds a minute gone and a reading at the limit, with the protection switched
  on after its page was served, ends with the latch set and the server down, or in a restart. In the
  same pass no request is read or answered any more, also if the page had just started the server, and
  if the stream runs, the audio task is stopped.
\<close>

theorem overheat_stops_server:
  assumes "prefs_laws (ex_prefs X)" and "device_reachable toFloat fmt X d" and "pass_ok i"
    and "pass_start toFloat X i d = Some (d1, c1)" and "60000 < ps_now i - lastTempCheck d"
    and "ps_reading i = Finite temp" and "overheatProtectionEnabled (wb_fw (dv_web d1))"
    and "overheatShutdownC (wb_fw (dv_web d1)) \<le> temp" and "temp \<le> 130"
  shows "\<exists>d' calls. main_pass toFloat fmt X i d = Some (d', [], calls) \<and>
    (Call_restart \<in> set calls \<or>
      overheatLatched (wb_fw (dv_web d')) \<and> \<not> rtspServerEnabled (wb_fw (dv_web d')) \<and>
      \<not> server_listening (wb_fw (dv_web d')) \<and> (ps_streaming i 5 \<longrightarrow> Call_stop_task \<in> set calls))"
proof -
  have ok: "device_ok X d" by (rule device_reachable_ok [OF assms(1,2)])
  have d1: "device_ok X d1" "lastTempCheck d1 = lastTempCheck d" using pass_start_ok [OF assms(1) ok, of toFloat i] assms(4) by auto
  define d2 where "d2 = fst (temperature_due fmt X i d1)"
  have d2: "device_ok X d2" unfolding d2_def by (rule watchdogs_ok(1) [OF assms(1) d1(1)])
  have "overheatLatched (wb_fw (dv_web d2))"
    using reading_trips [OF _ _ assms(7-9)] d1 assms(5,6)
    by (simp add: d2_def temperature_due_def split_beta Let_def device_ok_def web_ok_def fw_inv_def)
  then have s2: "overheatLatched (wb_fw (dv_web d2))" "\<not> rtspServerEnabled (wb_fw (dv_web d2))" "\<not> server_listening (wb_fw (dv_web d2))"
    using d2 by (simp_all add: device_ok_def web_ok_def fw_inv_def latch_holds_def)
  define d3 where "d3 = fst (wifi_due i (fst (performance_due i (heap_due i d2))))"
  note k = disabled_kept [OF s2, where i = i, folded d3_def]
  have s3: "overheatLatched (wb_fw (dv_web (idle_timeout i d3)))" "\<not> rtspServerEnabled (wb_fw (dv_web (idle_timeout i d3)))"
    "\<not> server_listening (wb_fw (dv_web (idle_timeout i d3)))"
    using k(1) s2 by (auto simp: idle_timeout_def tx_server)
  show ?thesis
    using pass_parts [OF assms(4), of fmt, folded d2_def, folded d3_def, unfolded k(2)]
      reboot_result [of X i "idle_timeout i d3"] s3
    by (auto split: if_splits)
qed

text \<open>A device that was switched on a minute ago, and a pass that finds it too hot.\<close>

definition boot_rtsp :: rtsp where
  "boot_rtsp = \<lparr>rtspParseBuffer = replicate 1024 (CHR 0x00), rtspParseBufferPos = 0, rtspSessionId = [], lastRTSPActivity = 0,
     lastRtspPlayMs = 0, rtspPlayCount = 0\<rparr>"

definition loop_device :: "(string \<rightharpoonup> pref_value) device" where
  "loop_device = restarted toy_externals 0 (Finite 25) 100000 None quiet_world boot_rtsp
     (pf_clear (ex_prefs toy_externals) Map.empty) (pf_clear (ex_prefs toy_externals) Map.empty)"

definition hot_pass :: pass where
  "hot_pass =
     \<lparr>ps_env = \<lparr>en_millis = 70000, en_time = 0, en_wifi = True, en_task = True\<rparr>, ps_page = None, ps_reading = Finite 90,
      ps_heap = 100000, ps_activity = None, ps_streaming = (\<lambda>n. True), ps_connected = (\<lambda>n. True), ps_new_client = False,
      ps_rtsp = \<lparr>re_millis = 70000, re_ip = [], re_rate = 16000, re_random = 1, re_streaming = True\<rparr>,
      ps_net = \<lparr>ni_connected = True, ni_waiting = 5, ni_available = 5, ni_read = (\<lambda>n. [])\<rparr>\<rparr>"

lemma loop_device_reachable: "device_reachable toFloat fmt toy_externals loop_device"
  unfolding loop_device_def by (rule device_reachable.first) (simp add: boot_rtsp_def rtsp_inv_def)

lemma hot_pass_ok: "pass_ok hot_pass"
  by (simp add: pass_ok_def hot_pass_def)

lemma loop_device_fw: "wb_fw (dv_web loop_device) = wb_fw toy_web" "lastTempCheck loop_device = 0"
  by (simp_all add: loop_device_def restarted_def setup_device_def toy_web_def)

lemma start_without_page:
  "pass_start toFloat X i d = Some (d1, c) \<Longrightarrow> ps_page i = None \<Longrightarrow> wb_fw (dv_web d1) = wb_fw (dv_web d)"
  by (auto simp: pass_start_def webui_handleClient_def Let_def split: option.splits)

theorem main_loop_invariant_witness:
  "in_range (wb_fw (dv_web loop_device)) \<and>
   (\<exists>d' events calls. main_pass (\<lambda>s. NaN) (\<lambda>t n. ''hot'') toy_externals hot_pass loop_device = Some (d', events, calls) \<and>
     70000 - lastTempCheck d' \<le> 60000)"
  using main_loop_invariant [OF toy_prefs loop_device_reachable hot_pass_ok, of "\<lambda>s. NaN" "\<lambda>t n. ''hot''"]
  by (auto simp: hot_pass_def)

theorem overheat_stops_server_witness:
  "\<exists>d' calls. main_pass (\<lambda>s. NaN) (\<lambda>t n. ''hot'') toy_externals hot_pass loop_device = Some (d', [], calls) \<and>
    (Call_restart \<in> set calls \<or> overheatLatched (wb_fw (dv_web d')) \<and> Call_stop_task \<in> set calls)"
proof -
  let ?f = "\<lambda>s :: string. NaN" and ?g = "(\<lambda>t n. ''hot'') :: rat \<Rightarrow> nat \<Rightarrow> string"
  note r = loop_device_reachable [of ?f ?g]
  obtain d1 c1 where d1: "pass_start ?f toy_externals hot_pass loop_device = Some (d1, c1)"
    using pass_start_ok [OF toy_prefs device_reachable_ok [OF toy_prefs r]] by blast
  have p: "ps_page hot_pass = None" "ps_reading hot_pass = Finite 90" "ps_streaming hot_pass 5" "ps_now hot_pass = 70000"
    by (simp_all add: hot_pass_def)
  have s: "overheatProtectionEnabled (wb_fw (dv_web d1))" "overheatShutdownC (wb_fw (dv_web d1)) \<le> 90"
    using toy_limits unfolding start_without_page [OF d1 p(1)] loop_device_fw by blast+
  have t: "60000 < ps_now hot_pass - lastTempCheck loop_device" by (simp add: p(4) loop_device_fw(2))
  show ?thesis
    using overheat_stops_server [OF toy_prefs r hot_pass_ok d1 t p(2) s] p(3) by auto
qed

end
