(* ===== verification/Spec2Isabelle.thy ===== *)
theory Spec2Isabelle
  imports Prelude Crypto_Util Blake2s Chacha20 Poly1305 Aead Base64 Wg_Types Wg_Platform Wg_Kdf
    Wg_Replay Wg_Keypair Wg_Peer Wg_Handshake Wg_Auth
    Fe25519 X25519 Wg_Curve Wg_If Wg_Netif Wg_Invariant Wg_Transport Wg_Timer
    Wg_Api Fw_Base Wg_Manager Wg_Manager_Props
    Fw_Stream Fw_Stream_Props Fw_Text Fw_Float Fw_Settings Fw_Settings_Props Fw_Thermal
    Fw_Web Fw_Web_Props Fw_Audio Fw_Audio_Props Fw_Rtp Fw_Rtp_Props Fw_Rtsp Fw_Rtsp_Props
    Fw_Pages Fw_Pages_Props Fw_Pipeline Fw_Loop Fw_Loop_Props
begin

text \<open>
  A verification of the firmware of an RTSP microphone: an ESP32 that reads a microphone, sends the
  audio as RTP over one RTSP connection, is set up and watched through web pages, and can be reached
  through a WireGuard tunnel of its own. Paths are relative to \<open>src/\<close>.

  \<^bold>\<open>The program.\<close> The sketch \<open>src/esp32_rtsp_mic_birdnetgo.ino\<close> has two threads: the main loop on core 0
  serves the pages, the RTSP negotiation, the watchdogs and the tunnel; the audio task on core 1 reads,
  filters and amplifies blocks of samples and writes them to the socket that PLAY hands to it.
  \<open>src/WebUI.cpp\<close> holds the pages, \<open>src/WireGuardManager.cpp\<close> the state machine that keeps the tunnel up,
  and \<open>lib/WireGuard-ESP32/src\<close> the WireGuard protocol as an interface of the IP stack, with its
  cryptography under \<open>crypto/refc\<close>.

  \<^bold>\<open>Cryptography.\<close> \<open>Crypto_Util\<close> (crypto.h, crypto.c), \<open>Blake2s\<close>, \<open>Chacha20\<close>, \<open>Poly1305\<close>, \<open>Aead\<close>,
  \<open>Fe25519\<close> and \<open>X25519\<close> translate the files of the same names, word by word at the width of the source.
  Each is proved equal to a definition written after its RFC: BLAKE2s and Poly1305 for a message that
  arrives in any pieces (the locale \<open>absorbing\<close> of \<open>Prelude\<close> is the streaming interface and is
  interpreted by both), the two authenticated encryptions with decryption accepting exactly the
  encryptions (locale \<open>aead\<close>), the limb arithmetic of the curve with its lazy reductions, its
  conditional swaps and its addition chain against the ladder over the integers modulo 2^255 - 19.

  \<^bold>\<open>The WireGuard protocol.\<close> \<open>Wg_Types\<close> has the data of wireguard.h and the layout of the four messages;
  \<open>Wg_Kdf\<close>, \<open>Base64\<close>, \<open>Wg_Replay\<close>, \<open>Wg_Keypair\<close>, \<open>Wg_Peer\<close> and \<open>Wg_Handshake\<close> the functions of
  wireguard.c in its order, \<open>Wg_If\<close> and \<open>Wg_Netif\<close> those of wireguardif.c (data path; timer and management),
  \<open>Wg_Platform\<close> the clock, the random generator and the load test. The world (\<open>world\<close>) is passed
  along: the clock, the random bytes, what the allocator and the IP stack answer, and the datagrams and
  packets that were sent. \<open>Wg_Handshake\<close> is written over a parameter \<open>dh\<close> for the curve with the locale \<open>curve\<close>;
  \<open>Wg_Curve\<close> interprets it by the ladder of \<open>X25519\<close>. \<open>Wg_Auth\<close> proves what a handshake and a cookie
  achieve, \<open>Wg_Invariant\<close> that every state an interface reaches is well-formed, as an inductive step
  relation over all its entry points, \<open>Wg_Transport\<close> that what is sent is delivered and that only
  what was sealed under a live session is, \<open>Wg_Timer\<close> what a tick and a registration do. The replay
  window refines a set of accepted numbers (locale \<open>once_filter\<close>), a session is a \<open>sealed_channel\<close>.

  \<^bold>\<open>The tunnel.\<close> \<open>Wg_Api\<close> is the class of WireGuard.cpp, \<open>Wg_Manager\<close> the module WireGuardManager.cpp: its
  static variables are the record \<open>manager\<close>, the resolving task is one step for each of its
  accesses to shared variables (\<open>dns_step\<close>). \<open>Wg_Manager_Props\<close> proves the invariant of the state machine under
  ticks, task steps, interface activity and pages in any order.

  \<^bold>\<open>The sketch.\<close> \<open>Fw_Base\<close> has the strings of Arduino and the store, \<open>Fw_Float\<close> single precision.
  \<open>Fw_Stream\<close> models the handoff of the socket: \<open>task_step\<close> and \<open>loop_step\<close> are one transition for each
  access to a shared variable, and a schedule interleaves them. \<open>Fw_Stream_Props\<close> proves that the socket is
  never shared while no wait gives up, that a stop is confirmed, and what happens otherwise.
  \<open>Fw_Settings\<close> and \<open>Fw_Thermal\<close> (record \<open>fw\<close>: the global variables), \<open>Fw_Web\<close> (the pages that change them)
  and \<open>Fw_Text\<close> (times, escaping, the ring of log lines) have their properties in \<open>Fw_Settings_Props\<close>,
  \<open>Fw_Web_Props\<close> and \<open>Fw_Text\<close>: ranges in memory and in the store, and the thermal latch.
  \<open>Fw_Audio\<close> is what the audio task does to a block, \<open>Fw_Rtp\<close> writes it as a packet, \<open>Fw_Rtsp\<close> answers
  requests and \<open>Fw_Pages\<close> builds the JSON of the status pages; the theories of the same names with
  \<open>_Props\<close> relate them to lists of samples, to a receiver of the connection, to a queue of text and to a
  reader of JSON. \<open>Fw_Pipeline\<close> puts block, packet and in-stream answers together as the turns of the
  audio task, and proves what a receiver of the connection hears (locale \<open>framing\<close>: a way to put messages
  on a connection, interpreted by the frames of RTP and by frames mixed with answers). \<open>Fw_Loop\<close> is one
  pass of the main loop over manager, pages, watchdogs, RTSP client and reboot; \<open>Fw_Loop_Props\<close> proves
  what every run of passes keeps, across restarts and whatever the other core does in between.

  \<^bold>\<open>Correspondence.\<close> A structure of C is a record with the same fields, an array a list, an integer a word
  of its width, so that it wraps as in the source; a handler is one definition with the branches and
  early returns of the source, under its name. What a function writes through pointers is in the state
  it returns. Errors are constructors of \<open>err_t\<close>, options or booleans, as in the source.

  \<^bold>\<open>Bounds.\<close> There is no fuel that could hide a loop that does not end. The functions that recurse on
  something else than data have termination proofs. \<open>writeAll\<close> waits for a socket: it consumes the
  socket's answers, \<open>None\<close> stands for a call that still waits when they are used up, and as many
  answers as there are bytes are proved to be enough. The draw of a session index is a partial function, for
  a generator could return excluded values for ever; it returns as soon as the generator yields another. The resolving task has at most 66 steps, the confirmation of a stop takes at most 21
  steps of the audio task; both are theorems. Readers of the specification (\<open>frames\<close>, \<open>read_fields\<close>)
  terminate because each turn takes text away.

  \<^bold>\<open>Parameters.\<close> Code that is not part of the repository is an argument: the IP stack (\<open>lwip\<close>), the
  resolver and the parser of addresses (\<open>externals\<close>), the store \<open>Preferences\<close> (\<open>prefs\<close> with the hypothesis
  \<open>prefs_laws\<close>: what is put is read back; it holds of a map), \<open>toFloat\<close> and the formatting of real
  numbers (\<open>fmt\<close>), the mathematical functions (\<open>libm\<close>, \<open>log10f\<close>), the random generator and the clocks.
  A float is a rational, and each operation of the source is rounded once to 24 significant bits, to
  even; overflow and the range below the normal numbers are not modelled, nor a compiler that joins a
  multiplication with an addition.

  \<^bold>\<open>Not modelled.\<close> The page of HTML and its script; the start of the board, of WiFi and of the driver
  of the microphone; the serial port, the time of day in the log, and the tasks that restart the device; the
  queues and the memory of the IP stack (a packet is its bytes); the signature functions at the end of
  x25519.c, which are compiled out. The atomicity of a transition is that of one access to a variable, and
  the memory of both cores is sequentially consistent.
\<close>

end
